(* ===== verification/Prelude.thy ===== *)
theory Prelude
  imports Main "HOL-Library.AList" "HOL-Library.Char_ord" "HOL-Library.List_Lexorder"
    "HOL-Library.Product_Lexorder"
begin

text \<open>
  Shared vocabulary of the development.

  \<^item> Exceptions are values: an operation that may raise returns \<open>db_error + 'a\<close>; a raised
    exception rolls its transaction back, so an error carries no new state.
  \<^item> Times are \<open>int\<close>, microseconds on one clock; a duration is an \<open>int\<close> of microseconds.
  \<^item> JSON payloads (Python dictionaries, JSONB columns) are association lists over \<open>json\<close>.
    An object nested in a payload is only ever carried along (the trace context), never read as
    text, so its textual form is a fixed marker. ISO timestamps inside payloads are kept as
    numbers.
  \<^item> Strings are byte strings; letter case and white space are the ASCII ones.
  \<^item> Database tables are lists of rows. \<open>upd_where\<close> is UPDATE ... WHERE and the locale
    \<open>keyed_table\<close> is the interface of a primary-key lookup.
\<close>

named_theorems table_simps \<open>rewrite rules for reading and updating tables\<close>
named_theorems frame_simps \<open>what an operation leaves unchanged\<close>

type_synonym time = int

datatype db_error =
    ValueError string
  | KeyError string
  | IntegrityError string
  | NoResultFound string
  | MultipleResultsFound string

subsection \<open>JSON values\<close>

datatype json = JNull | JBool bool | JInt int | JStr string | JObj "(string \<times> json) list"

type_synonym payload = "(string \<times> json) list"

definition pget :: "payload \<Rightarrow> string \<Rightarrow> json" where
  "pget p k = (case map_of p k of None \<Rightarrow> JNull | Some v \<Rightarrow> v)"

definition pset :: "string \<Rightarrow> json \<Rightarrow> payload \<Rightarrow> payload" where
  "pset k v p = AList.update k v p"

text \<open>\<open>{**p, **q}\<close>: the entries of \<open>q\<close> override those of \<open>p\<close>.\<close>

definition pmerge :: "payload \<Rightarrow> payload \<Rightarrow> payload" where
  "pmerge p q = fold (\<lambda>(k, v). pset k v) q p"

fun truthy :: "json \<Rightarrow> bool" where
  "truthy JNull = False"
| "truthy (JBool b) = b"
| "truthy (JInt i) = (i \<noteq> 0)"
| "truthy (JStr s) = (s \<noteq> [])"
| "truthy (JObj kvs) = (kvs \<noteq> [])"

fun digit_chars :: "nat \<Rightarrow> string" where
  "digit_chars n = (if n < 10 then [char_of (48 + n)]
     else digit_chars (n div 10) @ [char_of (48 + n mod 10)])"

declare digit_chars.simps [simp del]

definition show_int :: "int \<Rightarrow> string" where
  "show_int i = (if i < 0 then CHR ''-'' # digit_chars (nat (- i)) else digit_chars (nat i))"

text \<open>Python's \<open>str\<close> on a JSON value.\<close>

fun py_str :: "json \<Rightarrow> string" where
  "py_str JNull = ''None''"
| "py_str (JBool b) = (if b then ''True'' else ''False'')"
| "py_str (JInt i) = show_int i"
| "py_str (JStr s) = s"
| "py_str (JObj kvs) = ''{...}''"

text \<open>The idiom \<open>str(x or "")\<close>.\<close>

definition str_or_empty :: "json \<Rightarrow> string" where
  "str_or_empty v = (if truthy v then py_str v else [])"

fun obj_of :: "json \<Rightarrow> payload" where
  "obj_of (JObj kvs) = kvs"
| "obj_of _ = []"

text \<open>PostgreSQL's \<open>->>\<close>: SQL NULL for a missing key or a JSON null.\<close>

definition json_text :: "payload \<Rightarrow> string \<Rightarrow> string option" where
  "json_text p k = (case map_of p k of
      None \<Rightarrow> None
    | Some JNull \<Rightarrow> None
    | Some (JBool b) \<Rightarrow> Some (if b then ''true'' else ''false'')
    | Some v \<Rightarrow> Some (py_str v))"

text \<open>
  The cast of \<open>->>\<close> to an integer. The only writer of the keys that are read so stores
  integers; any other value is read as SQL NULL here.
\<close>

definition json_int :: "payload \<Rightarrow> string \<Rightarrow> int option" where
  "json_int p k = (case map_of p k of Some (JInt i) \<Rightarrow> Some i | _ \<Rightarrow> None)"

lemma map_of_pset [simp]: "map_of (pset k v p) = (map_of p)(k \<mapsto> v)"
  by (simp add: pset_def update_conv')

lemma pget_pset: "pget (pset k v p) k' = (if k' = k then v else pget p k')"
  by (simp add: pget_def)

lemma map_of_fold_pset:
  "map_of (fold (\<lambda>(k, v). pset k v) q p) k' =
     (case map_of (rev q) k' of None \<Rightarrow> map_of p k' | Some v \<Rightarrow> Some v)"
  by (induction q arbitrary: p)
     (auto simp: map_add_def map_of_append split: option.splits if_splits prod.splits)

lemma map_of_rev_distinct: "distinct (map fst q) \<Longrightarrow> map_of (rev q) = map_of q"
  by (metis distinct_rev map_of_inject_set rev_map set_rev)

lemma map_of_pmerge:
  "distinct (map fst q) \<Longrightarrow>
     map_of (pmerge p q) k = (case map_of q k of None \<Rightarrow> map_of p k | Some v \<Rightarrow> Some v)"
  by (simp add: pmerge_def map_of_fold_pset map_of_rev_distinct)

subsection \<open>Strings\<close>

definition is_space :: "char \<Rightarrow> bool" where
  "is_space c = (c \<in> set [CHR 0x20, CHR 0x09, CHR 0x0A, CHR 0x0B, CHR 0x0C, CHR 0x0D])"

definition py_strip :: "string \<Rightarrow> string" where
  "py_strip s = rev (dropWhile is_space (rev (dropWhile is_space s)))"

text \<open>What replaces the text of a sensitive message, in UTF-8.\<close>

definition redacted_text :: string where
  "redacted_text = map char_of [
     91::nat, 230, 149, 143, 230, 132, 159, 229, 134, 133, 229, 174, 185, 229,
     183, 178, 230, 139, 166, 230, 136, 170, 239, 188, 140, 229, 142, 159,
     230, 150, 135, 230, 156, 170, 228, 191, 157, 229, 173, 152, 93]"

definition lower_char :: "char \<Rightarrow> char" where
  "lower_char c = (if 65 \<le> (of_char c :: nat) \<and> (of_char c :: nat) \<le> 90
     then char_of ((of_char c :: nat) + 32) else c)"

definition py_lower :: "string \<Rightarrow> string" where
  "py_lower s = map lower_char s"

text \<open>\<open>s.split(":", 1)[0]\<close>\<close>

definition before_colon :: "string \<Rightarrow> string" where
  "before_colon s = takeWhile (\<lambda>c. c \<noteq> CHR '':'') s"

text \<open>\<open>needle in s\<close>\<close>

fun contains :: "string \<Rightarrow> string \<Rightarrow> bool" where
  "contains needle [] = (needle = [])"
| "contains needle (c # cs) = (take (length needle) (c # cs) = needle \<or> contains needle cs)"

subsection \<open>Smallest and largest element of a column\<close>

definition min_opt :: "int list \<Rightarrow> int option" where
  "min_opt xs = (case xs of [] \<Rightarrow> None | y # ys \<Rightarrow> Some (fold min ys y))"

definition max_opt :: "int list \<Rightarrow> int option" where
  "max_opt xs = (case xs of [] \<Rightarrow> None | y # ys \<Rightarrow> Some (fold max ys y))"

lemma min_opt_Nil [simp]: "min_opt [] = None"
  by (simp add: min_opt_def)

lemma max_opt_Nil [simp]: "max_opt [] = None"
  by (simp add: max_opt_def)

lemma min_opt_eq: "min_opt xs = (if xs = [] then None else Some (Min (set xs)))"
  by (cases xs) (simp_all add: min_opt_def Min.set_eq_fold [symmetric])

lemma max_opt_eq: "max_opt xs = (if xs = [] then None else Some (Max (set xs)))"
  by (cases xs) (simp_all add: max_opt_def Max.set_eq_fold [symmetric])

lemma min_opt_None [simp]: "min_opt xs = None \<longleftrightarrow> xs = []"
  by (simp add: min_opt_eq)

lemma max_opt_None [simp]: "max_opt xs = None \<longleftrightarrow> xs = []"
  by (simp add: max_opt_eq)

lemma min_opt_Some: "min_opt xs = Some m \<longleftrightarrow> m \<in> set xs \<and> (\<forall>x \<in> set xs. m \<le> x)"
  by (auto simp: min_opt_eq Min_eq_iff intro: Min_in split: if_splits)

lemma max_opt_Some: "max_opt xs = Some m \<longleftrightarrow> m \<in> set xs \<and> (\<forall>x \<in> set xs. x \<le> m)"
  by (auto simp: max_opt_eq Max_eq_iff intro: Max_in split: if_splits)

subsection \<open>Tables\<close>

lemma find_SomeD: "find P xs = Some x \<Longrightarrow> x \<in> set xs \<and> P x"
  by (induction xs) (auto split: if_splits)

definition upd_where :: "('r \<Rightarrow> bool) \<Rightarrow> ('r \<Rightarrow> 'r) \<Rightarrow> 'r list \<Rightarrow> 'r list" where
  "upd_where P f rows = map (\<lambda>r. if P r then f r else r) rows"

lemma upd_where_Nil [simp]: "upd_where P f [] = []"
  by (simp add: upd_where_def)

lemma upd_where_Cons [simp]:
  "upd_where P f (r # rows) = (if P r then f r else r) # upd_where P f rows"
  by (simp add: upd_where_def)

lemma set_upd_where [table_simps]:
  "set (upd_where P f rows) = (\<lambda>r. if P r then f r else r) ` set rows"
  by (simp add: upd_where_def)

lemma ball_upd_where:
  "(\<forall>r \<in> set (upd_where P f rows). Q r) \<longleftrightarrow> (\<forall>r \<in> set rows. Q (if P r then f r else r))"
  by (induction rows) auto

lemma length_upd_where [simp]: "length (upd_where P f rows) = length rows"
  by (simp add: upd_where_def)

lemma map_upd_where [table_simps]:
  "(\<And>r. r \<in> set rows \<Longrightarrow> P r \<Longrightarrow> g (f r) = g r) \<Longrightarrow> map g (upd_where P f rows) = map g rows"
  by (simp add: upd_where_def)

lemma upd_where_cong:
  "(\<And>r. r \<in> set rows \<Longrightarrow> P r = Q r) \<Longrightarrow> (\<And>r. r \<in> set rows \<Longrightarrow> Q r \<Longrightarrow> f r = g r) \<Longrightarrow>
     upd_where P f rows = upd_where Q g rows"
  by (simp add: upd_where_def)

lemma upd_where_id: "(\<And>r. r \<in> set rows \<Longrightarrow> P r \<Longrightarrow> f r = r) \<Longrightarrow> upd_where P f rows = rows"
  by (simp add: upd_where_def map_idI)

lemma upd_where_none: "(\<And>r. r \<in> set rows \<Longrightarrow> \<not> P r) \<Longrightarrow> upd_where P f rows = rows"
  by (simp add: upd_where_def map_idI)

lemma upd_where_disj:
  "(\<And>r. r \<in> set rows \<Longrightarrow> P r \<Longrightarrow> Q (f r) \<Longrightarrow> f (f r) = f r) \<Longrightarrow>
   (\<And>r. r \<in> set rows \<Longrightarrow> P r \<Longrightarrow> Q (f r) = Q r) \<Longrightarrow>
     upd_where Q f (upd_where P f rows) = upd_where (\<lambda>r. P r \<or> Q r) f rows"
  by (simp add: upd_where_def)

text \<open>
  The interface of a table with a primary key. \<open>lookup\<close> is what \<open>session.get\<close> or a
  SELECT on the key returns; the law says that it is the first row with that key.
\<close>

locale keyed_table =
  fixes key :: "'r \<Rightarrow> 'k" and lookup :: "'k \<Rightarrow> 'r list \<Rightarrow> 'r option"
  assumes lookup_find: "lookup k rows = find (\<lambda>r. key r = k) rows"
begin

lemma lookup_mem: "lookup k rows = Some r \<Longrightarrow> r \<in> set rows \<and> key r = k"
  by (auto simp: lookup_find find_Some_iff)

lemma lookup_None_iff: "lookup k rows = None \<longleftrightarrow> k \<notin> key ` set rows"
  by (auto simp: lookup_find find_None_iff)

lemma lookup_of_mem: "distinct (map key rows) \<Longrightarrow> r \<in> set rows \<Longrightarrow> lookup (key r) rows = Some r"
  by (induction rows) (auto simp: lookup_find)

lemma lookup_Some_iff:
  "distinct (map key rows) \<Longrightarrow> lookup k rows = Some r \<longleftrightarrow> r \<in> set rows \<and> key r = k"
  using lookup_mem lookup_of_mem by blast

lemma lookup_upd_where:
  "(\<And>r. P r \<Longrightarrow> key (f r) = key r) \<Longrightarrow>
     lookup k (upd_where P f rows) = map_option (\<lambda>r. if P r then f r else r) (lookup k rows)"
  by (induction rows) (auto simp: lookup_find)

lemma lookup_append:
  "lookup k (rows @ new) = (case lookup k rows of None \<Rightarrow> lookup k new | Some r \<Rightarrow> Some r)"
  by (induction rows) (auto simp: lookup_find)

lemma same_row: "distinct (map key rows) \<Longrightarrow> r \<in> set rows \<Longrightarrow> r' \<in> set rows \<Longrightarrow>
    key r = key r' \<Longrightarrow> r = r'"
  using lookup_of_mem by (metis option.inject)

end

subsection \<open>Names made of parts\<close>

lemma first_colon_split:
  assumes "a @ CHR '':'' # x = b @ CHR '':'' # y" "CHR '':'' \<notin> set a" "CHR '':'' \<notin> set b"
  shows "a = b \<and> x = y"
proof -
  have t: "takeWhile (\<lambda>c. c \<noteq> CHR '':'') (w @ CHR '':'' # z) = w" if "CHR '':'' \<notin> set w" for w z
    using that by (induction w) auto
  from t [OF assms(2), of x] t [OF assms(3), of y] assms(1) have "a = b" by simp
  with assms(1) show ?thesis by simp
qed

lemma last_colon_split:
  assumes "xs @ CHR '':'' # ds = ys @ CHR '':'' # es" "CHR '':'' \<notin> set ds" "CHR '':'' \<notin> set es"
  shows "xs = ys \<and> ds = es"
proof -
  have "rev ds @ CHR '':'' # rev xs = rev es @ CHR '':'' # rev ys"
    using arg_cong [OF assms(1), of rev] by simp
  from first_colon_split [OF this] assms(2,3) show ?thesis by simp
qed

end
