(* ===== verification/Tables.thy ===== *)
theory Tables
  imports Prelude
begin

text \<open>
  The PostgreSQL rows of the task pipeline (\<open>infrastructure/schema.py\<close>), the database as one
  state record, and the shared helpers of \<open>repositories/postgres/common.py\<close>.

  Each operation of the following theories is one transaction: it reads a \<open>db\<close> and returns a new
  one, or an error and no state (the rollback of \<open>session_scope\<close>). \<open>env\<close> holds what comes from
  outside the repository: the stream of UUIDs, PostgreSQL's MD5, SHA-256, and the classification of
  free-text questions, which is a fixed function of the question. Unique indices are checked where
  a row is inserted; a violated index is an \<open>IntegrityError\<close>.
\<close>

datatype stage_status = StagePending | StageCompleted | StageFailed

datatype inbox_status =
    InboxPending | InboxProcessed | InboxFailed | InboxBlockedSensitive | InboxSkippedCommand
  | InboxOther string

datatype task_status =
    Blocked | Queued | Running | Retry | Completed | Cancelled | DeadLetter | OtherStatus string

datatype attempt_status =
    AttRunning | AttLeaseExpired | AttCompleted | AttFailed | AttDeadLetter | AttDeferred

datatype outbox_status = EvPending | EvRetry | EvPublishing | EvPublished | EvDead

record space_row =
  space_id :: string
  space_tenant_id :: string
  space_source :: string
  source_space_id :: "string option"
  metadata_json :: payload
  processed_sequence_no :: int
  note_watermark :: int
  memory_watermark :: int
  memory_gap_sequence_no :: "int option"

record inbox_row =
  inbox_id :: string
  inbox_source :: string
  inbox_source_message_id :: string
  source_event_id :: "string option"
  inbox_tenant_id :: string
  inbox_space_id :: string
  chat_id :: "string option"
  chat_type :: "string option"
  sender_json :: payload
  inbox_text :: string
  received_at :: time
  inbox_status :: inbox_status
  sensitivity :: string
  sequence_no :: int
  note_status :: stage_status
  memory_status :: stage_status
  note_completed_at :: "time option"
  memory_completed_at :: "time option"

record task_row =
  task_id :: string
  task_type :: string
  task_tenant_id :: string
  task_space_id :: string
  source_message_id :: "string option"
  idempotency_key :: string
  task_status :: task_status
  priority :: int
  attempt_count :: int
  failure_count :: int
  defer_count :: int
  max_attempts :: int
  payload_json :: payload
  next_retry_at :: "time option"
  created_at :: time
  started_at :: "time option"
  completed_at :: "time option"
  last_error :: "string option"
  claimed_by :: "string option"
  lease_token :: "string option"
  lease_expires_at :: "time option"
  claim_version :: int

record attempt_row =
  att_task_id :: string
  att_worker_id :: string
  attempt_no :: int
  att_status :: attempt_status
  att_started_at :: time
  finished_at :: "time option"
  error_type :: "string option"
  error_summary :: "string option"

record outbox_row =
  event_id :: string
  event_type :: string
  aggregate_type :: string
  aggregate_id :: string
  event_payload :: payload
  event_created_at :: time
  published_at :: "time option"
  publish_attempt_count :: int
  event_last_error :: "string option"
  event_status :: outbox_status
  event_claimed_by :: "string option"
  event_lease_token :: "string option"
  event_lease_expires_at :: "time option"
  next_attempt_at :: "time option"
  event_max_attempts :: int
  last_attempt_at :: "time option"
  failed_at :: "time option"

record db =
  tenants :: "string list"
  spaces :: "space_row list"
  inbox :: "inbox_row list"
  tasks :: "task_row list"
  attempts :: "attempt_row list"
  outbox :: "outbox_row list"
  uuid_pos :: nat

record env =
  uuid_hex :: "nat \<Rightarrow> string"
  pg_md5 :: "string \<Rightarrow> string"
  sha256_hex :: "string \<Rightarrow> string"
  question_consistency :: "string \<Rightarrow> string"

type_synonym 'a result = "db_error + 'a \<times> db"

definition empty_db :: db where
  "empty_db = \<lparr>tenants = [], spaces = [], inbox = [], tasks = [], attempts = [], outbox = [],
     uuid_pos = 0\<rparr>"

subsection \<open>Identifiers\<close>

text \<open>\<open>uuid.uuid4().hex\<close>: the next element of the stream.\<close>

definition draw :: "env \<Rightarrow> db \<Rightarrow> string \<times> db" where
  "draw E s = (uuid_hex E (uuid_pos s), s\<lparr>uuid_pos := Suc (uuid_pos s)\<rparr>)"

definition new_id :: "env \<Rightarrow> string \<Rightarrow> db \<Rightarrow> string \<times> db" where
  "new_id E prefix s = (let (u, s') = draw E s in (prefix @ ''_'' @ take 12 u, s'))"

subsection \<open>Primary-key lookups\<close>

definition get_space :: "string \<Rightarrow> space_row list \<Rightarrow> space_row option" where
  "get_space k rows = find (\<lambda>r. space_id r = k) rows"

definition get_inbox :: "string \<Rightarrow> inbox_row list \<Rightarrow> inbox_row option" where
  "get_inbox k rows = find (\<lambda>r. inbox_id r = k) rows"

definition get_task_row :: "string \<Rightarrow> task_row list \<Rightarrow> task_row option" where
  "get_task_row k rows = find (\<lambda>r. task_id r = k) rows"

definition get_event :: "string \<Rightarrow> outbox_row list \<Rightarrow> outbox_row option" where
  "get_event k rows = find (\<lambda>r. event_id r = k) rows"

interpretation sp: keyed_table space_id get_space
  by unfold_locales (rule get_space_def)

interpretation ib: keyed_table inbox_id get_inbox
  by unfold_locales (rule get_inbox_def)

interpretation tk: keyed_table task_id get_task_row
  by unfold_locales (rule get_task_row_def)

interpretation ev: keyed_table event_id get_event
  by unfold_locales (rule get_event_def)

subsection \<open>Inserts and their unique indices\<close>

definition insert_outbox :: "outbox_row \<Rightarrow> db \<Rightarrow> string result" where
  "insert_outbox e s =
     (if event_id e \<in> event_id ` set (outbox s) then Inl (IntegrityError ''outbox_events_pkey'')
      else Inr (event_id e, s\<lparr>outbox := outbox s @ [e]\<rparr>))"

definition insert_inbox :: "inbox_row \<Rightarrow> db \<Rightarrow> unit result" where
  "insert_inbox r s =
     (if inbox_id r \<in> inbox_id ` set (inbox s) then Inl (IntegrityError ''inbox_messages_pkey'')
      else if \<exists>q \<in> set (inbox s). inbox_tenant_id q = inbox_tenant_id r \<and>
          inbox_source q = inbox_source r \<and> inbox_source_message_id q = inbox_source_message_id r
        then Inl (IntegrityError ''uq_inbox_tenant_source_message'')
      else if \<exists>q \<in> set (inbox s). inbox_space_id q = inbox_space_id r \<and>
          sequence_no q = sequence_no r
        then Inl (IntegrityError ''uq_inbox_space_sequence'')
      else Inr ((), s\<lparr>inbox := inbox s @ [r]\<rparr>))"

text \<open>
  INSERT ... ON CONFLICT (idempotency_key) DO NOTHING RETURNING id: the arbiter index is probed
  first, then the primary key is enforced.
\<close>

definition insert_task_once :: "task_row \<Rightarrow> db \<Rightarrow> string option result" where
  "insert_task_once t s =
     (if idempotency_key t \<in> idempotency_key ` set (tasks s) then Inr (None, s)
      else if task_id t \<in> task_id ` set (tasks s) then Inl (IntegrityError ''tasks_pkey'')
      else Inr (Some (task_id t), s\<lparr>tasks := tasks s @ [t]\<rparr>))"

definition find_space_identity :: "string \<Rightarrow> string \<Rightarrow> string \<Rightarrow> db \<Rightarrow> space_row option" where
  "find_space_identity tenant source ssid s =
     find (\<lambda>r. space_tenant_id r = tenant \<and> space_source r = source \<and>
       source_space_id r = Some ssid) (spaces s)"

text \<open>The local function \<open>_insert\<close>: ON CONFLICT DO NOTHING over both unique indices.\<close>

definition insert_space ::
  "string \<Rightarrow> string \<Rightarrow> string \<Rightarrow> string \<Rightarrow> payload \<Rightarrow> db \<Rightarrow> string option \<times> db" where
  "insert_space preferred_id tenant source ssid metadata s =
     (if preferred_id \<in> space_id ` set (spaces s) \<or>
         find_space_identity tenant source ssid s \<noteq> None then (None, s)
      else (Some preferred_id, s\<lparr>spaces := spaces s @
        [\<lparr>space_id = preferred_id, space_tenant_id = tenant, space_source = source,
          source_space_id = Some ssid, metadata_json = metadata, processed_sequence_no = 0,
          note_watermark = 0, memory_watermark = 0, memory_gap_sequence_no = None\<rparr>]\<rparr>))"

definition insert_tenant :: "string \<Rightarrow> db \<Rightarrow> db" where
  "insert_tenant t s = (if t \<in> set (tenants s) then s else s\<lparr>tenants := tenants s @ [t]\<rparr>)"

definition ensure_tenant_space ::
  "env \<Rightarrow> string \<Rightarrow> string \<Rightarrow> string \<Rightarrow> payload \<Rightarrow> db \<Rightarrow> string result" where
  "ensure_tenant_space E sid tenant source metadata s =
     (if (case get_space sid (spaces s) of None \<Rightarrow> False | Some r \<Rightarrow> space_tenant_id r = tenant)
      then Inr (sid, s)
      else
        let s1 = insert_tenant tenant s in
        case map_option space_id (find_space_identity tenant source sid s1) of
          Some (c # cs) \<Rightarrow> Inr (c # cs, s1)
        | _ \<Rightarrow>
          (case insert_space sid tenant source sid metadata s1 of
             (Some (c # cs), s2) \<Rightarrow> Inr (c # cs, s2)
           | (_, s2) \<Rightarrow>
             (let digest = take 32 (sha256_hex E (tenant @ '':'' @ source @ '':'' @ sid)) in
              case insert_space (''space_'' @ digest) tenant source sid metadata s2 of
                (Some (c # cs), s3) \<Rightarrow> Inr (c # cs, s3)
              | (_, s3) \<Rightarrow>
                (case find_space_identity tenant source sid s3 of
                   None \<Rightarrow> Inl (NoResultFound ''spaces'')
                 | Some r \<Rightarrow> Inr (space_id r, s3)))))"

subsection \<open>What the helpers keep\<close>

lemma draw_frame [frame_simps]:
  "draw E s = (u, s') \<Longrightarrow> s' = s\<lparr>uuid_pos := Suc (uuid_pos s)\<rparr>"
  by (simp add: draw_def)

lemma new_id_frame [frame_simps]:
  "new_id E p s = (u, s') \<Longrightarrow> s' = s\<lparr>uuid_pos := Suc (uuid_pos s)\<rparr>"
  by (auto simp: new_id_def draw_def)

lemma insert_outbox_Inr:
  "insert_outbox e s = Inr (i, s') \<longleftrightarrow>
     event_id e \<notin> event_id ` set (outbox s) \<and> i = event_id e \<and>
     s' = s\<lparr>outbox := outbox s @ [e]\<rparr>"
  by (auto simp: insert_outbox_def)

lemma insert_inbox_Inr:
  "insert_inbox r s = Inr (u, s') \<longleftrightarrow>
     inbox_id r \<notin> inbox_id ` set (inbox s) \<and>
     (\<forall>q \<in> set (inbox s). (inbox_tenant_id q, inbox_source q, inbox_source_message_id q) \<noteq>
        (inbox_tenant_id r, inbox_source r, inbox_source_message_id r)) \<and>
     (\<forall>q \<in> set (inbox s). (inbox_space_id q, sequence_no q) \<noteq> (inbox_space_id r, sequence_no r)) \<and>
     s' = s\<lparr>inbox := inbox s @ [r]\<rparr>"
  by (auto simp: insert_inbox_def split: if_splits)

lemma insert_task_once_Inr:
  "insert_task_once t s = Inr (x, s') \<longleftrightarrow>
     (if idempotency_key t \<in> idempotency_key ` set (tasks s) then x = None \<and> s' = s
      else task_id t \<notin> task_id ` set (tasks s) \<and> x = Some (task_id t) \<and>
        s' = s\<lparr>tasks := tasks s @ [t]\<rparr>)"
  by (auto simp: insert_task_once_def)

text \<open>
  \<open>spaces_ext s s'\<close>: \<open>s'\<close> is \<open>s\<close> with tenants and fresh spaces added, the new spaces with both
  watermarks at zero.
\<close>

definition spaces_ext :: "db \<Rightarrow> db \<Rightarrow> bool" where
  "spaces_ext s s' \<longleftrightarrow> (\<exists>ts new. s' = s\<lparr>tenants := ts, spaces := spaces s @ new\<rparr> \<and>
     distinct (map space_id new) \<and> space_id ` set new \<inter> space_id ` set (spaces s) = {} \<and>
     (\<forall>r \<in> set new. note_watermark r = 0 \<and> memory_watermark r = 0 \<and> processed_sequence_no r = 0))"

lemma spaces_ext_refl: "spaces_ext s s"
  unfolding spaces_ext_def by (rule exI [of _ "tenants s"], rule exI [of _ "[]"]) simp

lemma spaces_ext_trans: "spaces_ext s t \<Longrightarrow> spaces_ext t u \<Longrightarrow> spaces_ext s u"
  unfolding spaces_ext_def
  by (elim exE conjE, rule_tac x = tsa in exI, rule_tac x = "new @ newa" in exI) (auto simp: image_Un)

lemma spaces_ext_tenant: "spaces_ext s (insert_tenant t s)"
  unfolding spaces_ext_def insert_tenant_def
  by (rule exI [of _ "if t \<in> set (tenants s) then tenants s else tenants s @ [t]"],
      rule exI [of _ "[]"]) simp

lemma insert_space_ext:
  assumes "insert_space i t so ss m s = (x, s')"
  shows "spaces_ext s s' \<and> (\<forall>j. x = Some j \<longrightarrow> j \<in> space_id ` set (spaces s'))"
proof (cases "i \<in> space_id ` set (spaces s) \<or> find_space_identity t so ss s \<noteq> None")
  case True
  with assms show ?thesis by (auto simp: insert_space_def spaces_ext_refl)
next
  case False
  with assms show ?thesis
    by (auto simp: insert_space_def spaces_ext_def intro!: exI [of _ "tenants s"])
qed

lemma find_space_identity_present:
  "find_space_identity t so ss s = Some r \<Longrightarrow> space_id r \<in> space_id ` set (spaces s)"
  by (auto simp: find_space_identity_def find_Some_iff)

lemma ensure_tenant_space_ext:
  assumes "ensure_tenant_space E sid tenant source metadata s = Inr (sid', s')"
  shows "spaces_ext s s' \<and> sid' \<in> space_id ` set (spaces s')"
proof (cases "case get_space sid (spaces s) of None \<Rightarrow> False | Some r \<Rightarrow> space_tenant_id r = tenant")
  case True
  with assms show ?thesis
    by (auto simp: ensure_tenant_space_def spaces_ext_refl dest!: sp.lookup_mem split: option.splits)
next
  case False
  let ?s1 = "insert_tenant tenant s"
  have 1: "spaces_ext s ?s1" by (rule spaces_ext_tenant)
  show ?thesis
    using assms False 1
    by (auto simp: ensure_tenant_space_def Let_def spaces_ext_refl
          split: option.splits list.splits prod.splits
          dest: find_space_identity_present dest!: insert_space_ext elim: spaces_ext_trans)
qed

end
