(* ===== verification/Dispatch.thy ===== *)
theory Dispatch
  imports Tables
begin

text \<open>
  \<open>repositories/postgres/dispatch.py\<close> and the consistency classes of \<open>runtime/consistency.py\<close>:
  receiving a command (Inbox, Task and Outbox in one transaction), the note and memory watermarks
  of a space, and the activation of tasks that wait for a watermark.

  The clock reading of a transaction is the argument \<open>now\<close>; \<open>ctx\<close> is the trace context of
  \<open>core.lifecycle.current()\<close>, empty when there is none. Logging and tracing are not modelled.
  An ORM row that the code mutates is written back to its table under its primary key.
\<close>

subsection \<open>Consistency classes\<close>

definition task_consistency :: "env \<Rightarrow> string \<Rightarrow> payload \<Rightarrow> string" where
  "task_consistency E ttype p =
     (let explicit = py_lower (py_strip (str_or_empty (pget p ''consistency''))) in
      if explicit \<in> {''note'', ''memory'', ''weak''} then explicit
      else if ttype = ''ingest'' \<or> ttype = ''summary'' then ''note''
      else if ttype = ''query'' then question_consistency E (str_or_empty (pget p ''question''))
      else ''weak'')"

subsection \<open>Outbox and task creation\<close>

text \<open>A new row of the outbox: the request to run a task once.\<close>

definition task_request_event ::
  "string \<Rightarrow> time \<Rightarrow> string \<Rightarrow> string \<Rightarrow> int \<Rightarrow> payload \<Rightarrow> outbox_row" where
  "task_request_event eid now tid ttype attempt trace =
     \<lparr>event_id = eid, event_type = ''task.requested'', aggregate_type = ''task'',
      aggregate_id = tid,
      event_payload = [(''task_id'', JStr tid), (''task_type'', JStr ttype),
        (''attempt'', JInt attempt), (''_trace'', JObj trace), (''requested_at'', JInt now)],
      event_created_at = now, published_at = None, publish_attempt_count = 0,
      event_last_error = None, event_status = EvPending, event_claimed_by = None,
      event_lease_token = None, event_lease_expires_at = None, next_attempt_at = None,
      event_max_attempts = 10, last_attempt_at = None, failed_at = None\<rparr>"

definition trace_of :: "payload \<Rightarrow> payload" where
  "trace_of p = obj_of (pget p ''_trace'')"

definition publish_task_request ::
  "env \<Rightarrow> time \<Rightarrow> string \<Rightarrow> string \<Rightarrow> int \<Rightarrow> db \<Rightarrow> string result" where
  "publish_task_request E now tid ttype attempt s =
     (let trace = (case get_task_row tid (tasks s) of
            None \<Rightarrow> [] | Some r \<Rightarrow> trace_of (payload_json r));
          (eid, s1) = new_id E ''event'' s
      in insert_outbox (task_request_event eid now tid ttype (max 1 attempt) trace) s1)"

text \<open>The VALUES of the INSERT in \<open>_enqueue_task_in_session\<close>, with the column defaults.\<close>

definition new_task_row ::
  "string \<Rightarrow> time \<Rightarrow> string \<Rightarrow> string \<Rightarrow> string \<Rightarrow> string option \<Rightarrow> string \<Rightarrow> payload \<Rightarrow>
   int \<Rightarrow> int \<Rightarrow> task_status \<Rightarrow> task_row" where
  "new_task_row tid now ttype tenant sid msg idem p prio maxa initial =
     \<lparr>task_id = tid, task_type = ttype, task_tenant_id = tenant, task_space_id = sid,
      source_message_id = msg, idempotency_key = idem, task_status = initial,
      priority = prio, attempt_count = 0, failure_count = 0, defer_count = 0,
      max_attempts = maxa, payload_json = p, next_retry_at = None, created_at = now,
      started_at = None, completed_at = None, last_error = None, claimed_by = None,
      lease_token = None, lease_expires_at = None, claim_version = 0\<rparr>"

definition enqueue_task_in_session ::
  "env \<Rightarrow> time \<Rightarrow> payload \<Rightarrow> string \<Rightarrow> string \<Rightarrow> string \<Rightarrow> string option \<Rightarrow> string \<Rightarrow> payload \<Rightarrow>
   int \<Rightarrow> int \<Rightarrow> task_status \<Rightarrow> bool \<Rightarrow> db \<Rightarrow> (string \<times> bool) result" where
  "enqueue_task_in_session E now ctx ttype tenant sid msg idem p prio maxa initial publish s =
     (let p1 = (if ctx \<noteq> [] then pset ''_trace'' (JObj ctx) p else p) in
      if publish \<and> initial \<noteq> Queued then Inl (ValueError ''only queued tasks may be published'')
      else let (tid, s1) = new_id E ''task'' s in
        case insert_task_once
          (new_task_row tid now ttype tenant sid msg idem p1 prio maxa initial) s1 of
          Inl e \<Rightarrow> Inl e
        | Inr (None, s2) \<Rightarrow>
            (case find (\<lambda>t. idempotency_key t = idem) (tasks s2) of
               None \<Rightarrow> Inl (NoResultFound ''tasks'')
             | Some t \<Rightarrow> Inr ((task_id t, False), s2))
        | Inr (Some _, s2) \<Rightarrow>
            (if publish then
               (case publish_task_request E now tid ttype 1 s2 of
                  Inl e \<Rightarrow> Inl e
                | Inr (_, s3) \<Rightarrow> Inr ((tid, True), s3))
             else Inr ((tid, True), s2)))"

definition enqueue_task ::
  "env \<Rightarrow> time \<Rightarrow> payload \<Rightarrow> string \<Rightarrow> string \<Rightarrow> string \<Rightarrow> payload \<Rightarrow> string \<Rightarrow> string option \<Rightarrow>
   int \<Rightarrow> int \<Rightarrow> task_status \<Rightarrow> bool \<Rightarrow> db \<Rightarrow> (string \<times> bool) result" where
  "enqueue_task E now ctx ttype sid idem p tenant msg prio maxa initial publish s =
     (case ensure_tenant_space E sid tenant ''feishu'' [] s of
        Inl e \<Rightarrow> Inl e
      | Inr (sid', s1) \<Rightarrow>
          enqueue_task_in_session E now ctx ttype tenant sid' msg idem p prio maxa initial publish s1)"

subsection \<open>Watermarks and activation\<close>

definition closed :: "stage_status \<Rightarrow> bool" where
  "closed st \<longleftrightarrow> st \<in> {StageCompleted, StageFailed}"

definition requeue :: "task_row \<Rightarrow> task_row" where
  "requeue t = t\<lparr>task_status := Queued, next_retry_at := None, claimed_by := None,
     lease_token := None, lease_expires_at := None\<rparr>"

definition activate_task_in_session ::
  "env \<Rightarrow> time \<Rightarrow> string \<Rightarrow> db \<Rightarrow> string option result" where
  "activate_task_in_session E now tid s =
     (case get_task_row tid (tasks s) of
        None \<Rightarrow> Inl (ValueError (''task not found: '' @ tid))
      | Some row \<Rightarrow>
          if task_status row \<noteq> Blocked then Inr (None, s)
          else (case publish_task_request E now tid (task_type row) (attempt_count row + 1)
                  (s\<lparr>tasks := upd_where (\<lambda>t. task_id t = tid) requeue (tasks s)\<rparr>) of
                  Inl e \<Rightarrow> Inl e
                | Inr (_, s1) \<Rightarrow> Inr (Some tid, s1)))"

text \<open>
  The WHERE clause of \<open>_activate_ready_tasks_in_session\<close>. A comparison with SQL NULL selects
  nothing, so a task without a consistency class is not selected.
\<close>

definition ready_for :: "int \<Rightarrow> int \<Rightarrow> payload \<Rightarrow> bool" where
  "ready_for note_wm memory_wm p =
     (case json_text p ''consistency'' of
        None \<Rightarrow> False
      | Some c \<Rightarrow>
          c \<notin> {''note'', ''memory''} \<or>
          (c = ''note'' \<and> (case json_int p ''required_watermark'' of
             None \<Rightarrow> False | Some w \<Rightarrow> w \<le> note_wm)) \<or>
          (c = ''memory'' \<and> (case json_int p ''required_watermark'' of
             None \<Rightarrow> False | Some w \<Rightarrow> w \<le> memory_wm)))"

fun activate_rows :: "env \<Rightarrow> time \<Rightarrow> task_row list \<Rightarrow> db \<Rightarrow> nat result" where
  "activate_rows E now [] s = Inr (0, s)"
| "activate_rows E now (row # rows) s =
     (case publish_task_request E now (task_id row) (task_type row) (attempt_count row + 1)
        (s\<lparr>tasks := upd_where (\<lambda>t. task_id t = task_id row) requeue (tasks s)\<rparr>) of
        Inl e \<Rightarrow> Inl e
      | Inr (_, s1) \<Rightarrow>
          (case activate_rows E now rows s1 of
             Inl e \<Rightarrow> Inl e
           | Inr (n, s2) \<Rightarrow> Inr (Suc n, s2)))"

definition ready_rows :: "space_row \<Rightarrow> db \<Rightarrow> task_row list" where
  "ready_rows space s = filter (\<lambda>t. task_space_id t = space_id space \<and> task_status t = Blocked \<and>
     ready_for (note_watermark space) (memory_watermark space) (payload_json t)) (tasks s)"

definition activate_ready_tasks_in_session :: "env \<Rightarrow> time \<Rightarrow> space_row \<Rightarrow> db \<Rightarrow> nat result" where
  "activate_ready_tasks_in_session E now space s =
     activate_rows E now (sort_key (\<lambda>t. (created_at t, task_id t)) (ready_rows space s)) s"

definition advance_mark :: "int \<Rightarrow> (inbox_row \<Rightarrow> stage_status) \<Rightarrow> inbox_row list \<Rightarrow> int" where
  "advance_mark current stage rows =
     (let later = filter (\<lambda>r. sequence_no r > current) rows in
      case min_opt (map sequence_no (filter (\<lambda>r. \<not> closed (stage r)) later)) of
        Some first_open \<Rightarrow> max current (first_open - 1)
      | None \<Rightarrow> (case max_opt (map sequence_no later) of
           Some last_seq \<Rightarrow> max current last_seq
         | None \<Rightarrow> current))"

definition space_inbox :: "string \<Rightarrow> db \<Rightarrow> inbox_row list" where
  "space_inbox sid s = filter (\<lambda>r. inbox_space_id r = sid) (inbox s)"

definition advance_watermarks_in_session :: "env \<Rightarrow> time \<Rightarrow> space_row \<Rightarrow> db \<Rightarrow> nat result" where
  "advance_watermarks_in_session E now space s =
     (let rows = space_inbox (space_id space) s;
          space' = space\<lparr>
            note_watermark := advance_mark (note_watermark space) note_status rows,
            memory_watermark := advance_mark (memory_watermark space) memory_status rows\<rparr>
      in activate_ready_tasks_in_session E now space'
           (s\<lparr>spaces := upd_where (\<lambda>r. space_id r = space_id space) (\<lambda>_. space') (spaces s)\<rparr>))"

subsection \<open>Receiving a command\<close>

record dispatch_result =
  res_inbox_id :: string
  res_task_id :: "string option"
  res_created :: bool
  res_duplicate :: bool
  res_in_progress :: bool

definition command_key :: "string \<Rightarrow> string \<Rightarrow> string \<Rightarrow> string \<Rightarrow> string" where
  "command_key tenant ttype source msg = tenant @ '':'' @ ttype @ '':'' @ source @ '':'' @ msg"

record command =
  cmd_source :: string
  cmd_source_message_id :: string
  cmd_source_event_id :: "string option"
  cmd_tenant_id :: string
  cmd_space_id :: string
  cmd_chat_id :: "string option"
  cmd_chat_type :: "string option"
  cmd_sender :: payload
  cmd_text :: string
  cmd_received_at :: time
  cmd_task_type :: string
  cmd_payload :: payload
  cmd_sensitivity :: string
  cmd_max_attempts :: int

definition next_sequence_no :: "string \<Rightarrow> db \<Rightarrow> int" where
  "next_sequence_no sid s =
     (case max_opt (map sequence_no (space_inbox sid s)) of None \<Rightarrow> 0 | Some m \<Rightarrow> m) + 1"

definition inbox_row_of ::
  "string \<Rightarrow> string \<Rightarrow> string \<Rightarrow> int \<Rightarrow> command \<Rightarrow> inbox_row" where
  "inbox_row_of iid tenant sid seq c =
     (let ingest = (cmd_task_type c = ''ingest'') in
      \<lparr>inbox_id = iid, inbox_source = cmd_source c,
       inbox_source_message_id = cmd_source_message_id c,
       source_event_id = cmd_source_event_id c, inbox_tenant_id = tenant, inbox_space_id = sid,
       chat_id = cmd_chat_id c, chat_type = cmd_chat_type c, sender_json = cmd_sender c,
       inbox_text = cmd_text c, received_at = cmd_received_at c, inbox_status = InboxPending,
       sensitivity = cmd_sensitivity c, sequence_no = seq,
       note_status = (if ingest then StagePending else StageCompleted),
       memory_status = (if ingest then StagePending else StageCompleted),
       note_completed_at = (if ingest then None else Some (cmd_received_at c)),
       memory_completed_at = (if ingest then None else Some (cmd_received_at c))\<rparr>)"

text \<open>The part of \<open>receive_command\<close> after the duplicate check.\<close>

definition accept_command ::
  "env \<Rightarrow> time \<Rightarrow> payload \<Rightarrow> command \<Rightarrow> string \<Rightarrow> string \<Rightarrow> db \<Rightarrow> dispatch_result result" where
  "accept_command E now ctx c tenant sid s =
     (let seq = next_sequence_no sid s;
          (iid, s1) = new_id E ''inbox'' s;
          consistency = task_consistency E (cmd_task_type c) (cmd_payload c)
      in case insert_inbox (inbox_row_of iid tenant sid seq c) s1 of
           Inl e \<Rightarrow> Inl e
         | Inr (_, s2) \<Rightarrow>
           (case get_space sid (spaces s2) of
              None \<Rightarrow> Inl (NoResultFound ''spaces'')
            | Some space \<Rightarrow>
              (let required = max 0 (seq - 1);
                   current = (if consistency = ''memory'' then memory_watermark space
                              else note_watermark space);
                   initial = (if consistency \<in> {''note'', ''memory''} \<and> current < required
                              then Blocked else Queued);
                   p = pmerge (cmd_payload c)
                     [(''source_space_id'', JStr (cmd_space_id c)), (''inbox_id'', JStr iid),
                      (''sequence_no'', JInt seq), (''consistency'', JStr consistency),
                      (''required_watermark'', JInt required)]
               in case enqueue_task_in_session E now ctx (cmd_task_type c) tenant sid
                      (Some (cmd_source_message_id c))
                      (command_key tenant (cmd_task_type c) (cmd_source c)
                         (cmd_source_message_id c))
                      p 0 (cmd_max_attempts c) initial (initial = Queued) s2 of
                    Inl e \<Rightarrow> Inl e
                  | Inr ((tid, _), s3) \<Rightarrow>
                    (let out = \<lparr>res_inbox_id = iid, res_task_id = Some tid, res_created = True,
                           res_duplicate = False, res_in_progress = False\<rparr>
                     in if cmd_task_type c \<noteq> ''ingest'' then
                          (case advance_watermarks_in_session E now space s3 of
                             Inl e \<Rightarrow> Inl e
                           | Inr (_, s4) \<Rightarrow> Inr (out, s4))
                        else Inr (out, s3)))))"

definition receive_command ::
  "env \<Rightarrow> time \<Rightarrow> payload \<Rightarrow> command \<Rightarrow> db \<Rightarrow> dispatch_result result" where
  "receive_command E now ctx c s =
     (let tenant = (if cmd_tenant_id c = [] then ''default'' else cmd_tenant_id c) in
      case ensure_tenant_space E (cmd_space_id c) tenant (cmd_source c) [] s of
        Inl e \<Rightarrow> Inl e
      | Inr (sid, s1) \<Rightarrow>
        (case find (\<lambda>r. inbox_tenant_id r = tenant \<and> inbox_source r = cmd_source c \<and>
              inbox_source_message_id r = cmd_source_message_id c) (inbox s1) of
           Some existing \<Rightarrow>
             Inr (\<lparr>res_inbox_id = inbox_id existing,
                   res_task_id = map_option task_id (find (\<lambda>t. idempotency_key t =
                     command_key tenant (cmd_task_type c) (cmd_source c)
                       (cmd_source_message_id c)) (tasks s1)),
                   res_created = False, res_duplicate = True, res_in_progress = False\<rparr>, s1)
         | None \<Rightarrow> accept_command E now ctx c tenant sid s1))"

subsection \<open>Reading the inbox\<close>

fun inbox_status_str :: "inbox_status \<Rightarrow> string" where
  "inbox_status_str InboxPending = ''pending''"
| "inbox_status_str InboxProcessed = ''processed''"
| "inbox_status_str InboxFailed = ''failed''"
| "inbox_status_str InboxBlockedSensitive = ''blocked_sensitive''"
| "inbox_status_str InboxSkippedCommand = ''skipped_command''"
| "inbox_status_str (InboxOther s) = s"

definition opt_json :: "string option \<Rightarrow> json" where
  "opt_json x = (case x of None \<Rightarrow> JNull | Some v \<Rightarrow> JStr v)"

definition load_inbox_record :: "string \<Rightarrow> db \<Rightarrow> payload option" where
  "load_inbox_record iid s = map_option (\<lambda>row.
     [(''id'', JStr (inbox_id row)), (''source'', JStr (inbox_source row)),
      (''event_id'', opt_json (source_event_id row)),
      (''message_id'', JStr (inbox_source_message_id row)),
      (''tenant_id'', JStr (inbox_tenant_id row)), (''space_id'', JStr (inbox_space_id row)),
      (''chat_id'', opt_json (chat_id row)), (''chat_type'', opt_json (chat_type row)),
      (''sender'', JObj (sender_json row)), (''ts'', JInt (received_at row)),
      (''text'', JStr (inbox_text row)),
      (''status'', JStr (inbox_status_str (inbox_status row))),
      (''sensitivity'', JStr (sensitivity row)), (''sequence_no'', JInt (sequence_no row))])
     (get_inbox iid (inbox s))"

definition is_next_inbox_message :: "string \<Rightarrow> db \<Rightarrow> bool" where
  "is_next_inbox_message iid s =
     (case get_inbox iid (inbox s) of
        None \<Rightarrow> False
      | Some row \<Rightarrow> find (\<lambda>r. inbox_space_id r = inbox_space_id row \<and>
            sequence_no r < sequence_no row \<and> inbox_status r = InboxPending) (inbox s) = None)"

definition task_watermark_ready :: "task_row \<Rightarrow> db \<Rightarrow> bool" where
  "task_watermark_ready t s =
     (let p = payload_json t;
          consistency = (if truthy (pget p ''consistency'') then py_str (pget p ''consistency'')
                         else ''weak'')
      in if consistency \<notin> {''note'', ''memory''} then True
         else let required = (case pget p ''required_watermark'' of JInt i \<Rightarrow> i | _ \<Rightarrow> 0) in
           (case get_space (task_space_id t) (spaces s) of
              None \<Rightarrow> False
            | Some space \<Rightarrow>
                (if consistency = ''memory'' then memory_watermark space
                 else note_watermark space) \<ge> required))"

definition root_task_for_inbox :: "inbox_row \<Rightarrow> db \<Rightarrow> db_error + task_row option" where
  "root_task_for_inbox ib s =
     (case filter (\<lambda>t. task_tenant_id t = inbox_tenant_id ib \<and>
          task_space_id t = inbox_space_id ib \<and>
          source_message_id t = Some (inbox_source_message_id ib) \<and>
          json_text (payload_json t) ''inbox_id'' = Some (inbox_id ib)) (tasks s) of
        [] \<Rightarrow> Inr None
      | [t] \<Rightarrow> Inr (Some t)
      | _ \<Rightarrow> Inl (MultipleResultsFound ''tasks''))"

definition get_space_progress :: "string \<Rightarrow> db \<Rightarrow> (int \<times> int \<times> int \<times> int option) option" where
  "get_space_progress sid s = map_option (\<lambda>row.
     (processed_sequence_no row, note_watermark row, memory_watermark row,
      memory_gap_sequence_no row)) (get_space sid (spaces s))"

subsection \<open>Completing the stages of a message\<close>

definition error_or_unknown :: "string option \<Rightarrow> string" where
  "error_or_unknown e = (case e of None \<Rightarrow> ''unknown'' | Some [] \<Rightarrow> ''unknown'' | Some x \<Rightarrow> x)"

definition memory_gap_entry :: "string option \<Rightarrow> inbox_row \<Rightarrow> json" where
  "memory_gap_entry error ib = JObj [(''sequence_no'', JInt (sequence_no ib)),
     (''inbox_id'', JStr (inbox_id ib)),
     (''error_type'', JStr (take 128 (before_colon (error_or_unknown error))))]"

definition complete_note_stage ::
  "time \<Rightarrow> bool \<Rightarrow> string option \<Rightarrow> inbox_row \<times> space_row \<Rightarrow> inbox_row \<times> space_row" where
  "complete_note_stage now success error = (\<lambda>(ib, sp).
     (ib\<lparr>note_status := (if success then StageCompleted else StageFailed),
         note_completed_at := Some now\<rparr>,
      if success then sp
      else sp\<lparr>metadata_json := pset ''last_note_gap'' (JObj
        [(''sequence_no'', JInt (sequence_no ib)), (''inbox_id'', JStr (inbox_id ib)),
         (''error'', JStr (take 256 (error_or_unknown error)))]) (metadata_json sp)\<rparr>))"

definition record_memory_gap :: "string option \<Rightarrow> inbox_row \<Rightarrow> space_row \<Rightarrow> space_row" where
  "record_memory_gap error ib sp = sp\<lparr>memory_gap_sequence_no := Some (sequence_no ib),
     metadata_json := pset ''last_memory_gap'' (memory_gap_entry error ib) (metadata_json sp)\<rparr>"

definition complete_memory_stage ::
  "time \<Rightarrow> bool \<Rightarrow> string option \<Rightarrow> inbox_row \<times> space_row \<Rightarrow> inbox_row \<times> space_row" where
  "complete_memory_stage now success error = (\<lambda>(ib, sp).
     (ib\<lparr>memory_status := (if success then StageCompleted else StageFailed),
         memory_completed_at := Some now\<rparr>,
      if success then sp else record_memory_gap error ib sp))"

definition finalize_stage ::
  "time \<Rightarrow> bool \<Rightarrow> string option \<Rightarrow> inbox_row \<times> space_row \<Rightarrow> inbox_row \<times> space_row" where
  "finalize_stage now success error = (\<lambda>(ib, sp).
     if inbox_status ib \<in> {InboxProcessed, InboxFailed} then (ib, sp)
     else
       let ib1 = ib\<lparr>inbox_status := (if success then InboxProcessed else InboxFailed)\<rparr>;
           sp1 = sp\<lparr>processed_sequence_no := max (processed_sequence_no sp) (sequence_no ib)\<rparr>
       in if success then (ib1, sp1)
          else
            let ib2 = (if note_status ib1 = StagePending
                  then ib1\<lparr>note_status := StageFailed, note_completed_at := Some now\<rparr> else ib1)
            in if memory_status ib2 = StagePending
               then (ib2\<lparr>memory_status := StageFailed, memory_completed_at := Some now\<rparr>,
                     record_memory_gap error ib2 sp1)
               else (ib2, sp1))"

definition stage_rows ::
  "time \<Rightarrow> bool \<Rightarrow> bool \<Rightarrow> bool \<Rightarrow> bool \<Rightarrow> string option \<Rightarrow> inbox_row \<times> space_row \<Rightarrow>
   inbox_row \<times> space_row" where
  "stage_rows now note memory finalize success error rows0 =
     (let rows1 = (if note then complete_note_stage now success error rows0 else rows0);
          rows2 = (if memory then complete_memory_stage now success error rows1 else rows1)
      in if finalize then finalize_stage now success error rows2 else rows2)"

definition put_rows :: "inbox_row \<Rightarrow> space_row \<Rightarrow> db \<Rightarrow> db" where
  "put_rows ib sp s = s\<lparr>
     inbox := upd_where (\<lambda>r. inbox_id r = inbox_id ib) (\<lambda>_. ib) (inbox s),
     spaces := upd_where (\<lambda>r. space_id r = space_id sp) (\<lambda>_. sp) (spaces s)\<rparr>"

definition complete_inbox_stage_in_session ::
  "env \<Rightarrow> time \<Rightarrow> string \<Rightarrow> bool \<Rightarrow> bool \<Rightarrow> bool \<Rightarrow> bool \<Rightarrow> string option \<Rightarrow> db \<Rightarrow> nat result" where
  "complete_inbox_stage_in_session E now iid note memory finalize success error s =
     (case get_inbox iid (inbox s) of
        None \<Rightarrow> Inl (ValueError (''inbox record not found: '' @ iid))
      | Some ib \<Rightarrow>
        (case get_space (inbox_space_id ib) (spaces s) of
           None \<Rightarrow> Inl (NoResultFound ''spaces'')
         | Some sp \<Rightarrow>
           (let (ib', sp') = stage_rows now note memory finalize success error (ib, sp)
            in advance_watermarks_in_session E now sp' (put_rows ib' sp' s))))"

definition mark_inbox_note_completed_in_session ::
  "env \<Rightarrow> time \<Rightarrow> string \<Rightarrow> bool \<Rightarrow> string option \<Rightarrow> db \<Rightarrow> nat result" where
  "mark_inbox_note_completed_in_session E now iid success error s =
     complete_inbox_stage_in_session E now iid True False False success error s"

definition mark_inbox_memory_completed_in_session ::
  "env \<Rightarrow> time \<Rightarrow> string \<Rightarrow> bool \<Rightarrow> string option \<Rightarrow> db \<Rightarrow> nat result" where
  "mark_inbox_memory_completed_in_session E now iid success error s =
     complete_inbox_stage_in_session E now iid False True False success error s"

definition finalize_inbox_in_session ::
  "env \<Rightarrow> time \<Rightarrow> string \<Rightarrow> bool \<Rightarrow> string option \<Rightarrow> db \<Rightarrow> nat result" where
  "finalize_inbox_in_session E now iid success error s =
     complete_inbox_stage_in_session E now iid False False True success error s"

definition mark_inbox_processed :: "env \<Rightarrow> time \<Rightarrow> string \<Rightarrow> db \<Rightarrow> nat result" where
  "mark_inbox_processed E now iid s = finalize_inbox_in_session E now iid True None s"

definition mark_inbox_failed :: "env \<Rightarrow> time \<Rightarrow> string \<Rightarrow> string \<Rightarrow> db \<Rightarrow> nat result" where
  "mark_inbox_failed E now iid error s = finalize_inbox_in_session E now iid False (Some error) s"

subsection \<open>Skipping a message\<close>

definition cancel_root_tasks :: "time \<Rightarrow> string \<Rightarrow> string \<Rightarrow> task_row list \<Rightarrow> task_row list" where
  "cancel_root_tasks now reason msg =
     upd_where (\<lambda>t. source_message_id t = Some msg \<and> task_type t = ''ingest'' \<and>
         task_status t \<in> {Blocked, Queued, Retry})
       (\<lambda>t. t\<lparr>task_status := Cancelled, completed_at := Some now, last_error := Some reason\<rparr>)"

definition skip_inbox_record ::
  "env \<Rightarrow> time \<Rightarrow> string \<Rightarrow> inbox_status \<Rightarrow> bool \<Rightarrow> db \<Rightarrow> bool result" where
  "skip_inbox_record E now iid final_status cancel_root_task s =
     (case get_inbox iid (inbox s) of
        None \<Rightarrow> Inr (False, s)
      | Some ib \<Rightarrow>
        (case get_space (inbox_space_id ib) (spaces s) of
           None \<Rightarrow> Inl (NoResultFound ''spaces'')
         | Some sp \<Rightarrow>
           (let ib' = ib\<lparr>inbox_status := final_status, note_status := StageCompleted,
                  memory_status := StageCompleted, note_completed_at := Some now,
                  memory_completed_at := Some now\<rparr>;
                s1 = put_rows ib' sp s;
                s2 = (if cancel_root_task
                  then s1\<lparr>tasks := cancel_root_tasks now (inbox_status_str final_status)
                         (inbox_source_message_id ib) (tasks s1)\<rparr>
                  else s1)
            in case advance_watermarks_in_session E now sp s2 of
                 Inl e \<Rightarrow> Inl e
               | Inr (_, s3) \<Rightarrow> Inr (True, s3))))"

definition complete_blocked_sensitive_inbox :: "env \<Rightarrow> time \<Rightarrow> string \<Rightarrow> db \<Rightarrow> bool result" where
  "complete_blocked_sensitive_inbox E now iid s =
     skip_inbox_record E now iid InboxBlockedSensitive False s"

text \<open>
  A loop whose body is a transaction of its own: what committed before an exception stays.
\<close>

fun each_tx :: "('a \<Rightarrow> db \<Rightarrow> 'b result) \<Rightarrow> 'a list \<Rightarrow> db \<Rightarrow> db_error option \<times> db" where
  "each_tx f [] s = (None, s)"
| "each_tx f (x # xs) s =
     (case f x s of Inl e \<Rightarrow> (Some e, s) | Inr (_, s') \<Rightarrow> each_tx f xs s')"

definition sensitive_ids :: "int \<Rightarrow> db \<Rightarrow> string list" where
  "sensitive_ids limit s = map inbox_id (take (nat (max 1 (min limit 5000)))
     (sort_key received_at (filter (\<lambda>r. inbox_status r = InboxBlockedSensitive \<and>
        \<not> closed (note_status r)) (inbox s))))"

definition unknown_command_ids :: "int \<Rightarrow> db \<Rightarrow> string list" where
  "unknown_command_ids limit s = map inbox_id (take (nat (max 1 (min limit 5000)))
     (sort_key received_at (concat (map (\<lambda>r. map (\<lambda>_. r)
        (filter (\<lambda>t. source_message_id t = Some (inbox_source_message_id r) \<and>
           task_type t = ''ingest'' \<and> task_status t \<in> {Blocked, Queued, Retry}) (tasks s)))
        (filter (\<lambda>r. inbox_status r = InboxPending \<and> take 1 (inbox_text r) = ''/'') (inbox s))))))"

definition recover_skipped_ingress ::
  "env \<Rightarrow> time \<Rightarrow> int \<Rightarrow> db \<Rightarrow> (db_error + nat \<times> nat) \<times> db" where
  "recover_skipped_ingress E now limit s =
     (let sens = sensitive_ids limit s; unk = unknown_command_ids limit s in
      case each_tx (\<lambda>i. complete_blocked_sensitive_inbox E now i) sens s of
        (Some e, s1) \<Rightarrow> (Inl e, s1)
      | (None, s1) \<Rightarrow>
          (case each_tx (\<lambda>i. skip_inbox_record E now i InboxSkippedCommand True) unk s1 of
             (Some e, s2) \<Rightarrow> (Inl e, s2)
           | (None, s2) \<Rightarrow> (Inr (length sens, length unk), s2)))"

end
