(* ===== verification/Tasks.thy ===== *)
theory Tasks
  imports Dispatch
begin

text \<open>
  \<open>repositories/postgres/tasks.py\<close>: claiming a task under a lease, renewing the lease, completing,
  failing, deferring and re-queueing it. The two hand-written SQL statements (\<open>claim_task\<close> and
  \<open>_complete_task_with_inbox_outcome\<close>) are modelled clause by clause: every WITH query reads the
  snapshot the statement started from, and all data-modifying queries take effect together.

  Seconds are turned into microseconds; a float delay is given as the microseconds that
  \<open>timedelta\<close> makes of it.
\<close>

abbreviation second :: int where
  "second \<equiv> 1000000"

subsection \<open>Creation and plain updates\<close>

fun task_status_of :: "string \<Rightarrow> task_status" where
  "task_status_of st =
     (if st = ''blocked'' then Blocked else if st = ''queued'' then Queued
      else if st = ''running'' then Running else if st = ''retry'' then Retry
      else if st = ''completed'' then Completed else if st = ''cancelled'' then Cancelled
      else if st = ''dead_letter'' then DeadLetter else OtherStatus st)"

definition int_or :: "int \<Rightarrow> json \<Rightarrow> int" where
  "int_or d v = (case v of JInt i \<Rightarrow> if i = 0 then d else i | _ \<Rightarrow> d)"

definition required_keys :: "string list \<Rightarrow> payload \<Rightarrow> string option" where
  "required_keys ks p = find (\<lambda>k. map_of p k = None) ks"

definition str_option :: "json \<Rightarrow> string option" where
  "str_option v = (case v of JNull \<Rightarrow> None | w \<Rightarrow> Some (py_str w))"

definition create_task :: "env \<Rightarrow> time \<Rightarrow> payload \<Rightarrow> db \<Rightarrow> bool result" where
  "create_task E now p s =
     (if map_of p ''space_id'' = None then Inl (KeyError ''space_id'')
      else
        let tenant = (if truthy (pget p ''tenant_id'') then py_str (pget p ''tenant_id'')
                      else ''default'') in
        case ensure_tenant_space E (py_str (pget p ''space_id'')) tenant ''feishu'' [] s of
          Inl e \<Rightarrow> Inl e
        | Inr (sid, s1) \<Rightarrow>
          (case required_keys [''id'', ''task_type'', ''idempotency_key''] p of
             Some k \<Rightarrow> Inl (KeyError k)
           | None \<Rightarrow>
             (case insert_task_once
               \<lparr>task_id = py_str (pget p ''id''), task_type = py_str (pget p ''task_type''),
                task_tenant_id = tenant, task_space_id = sid,
                source_message_id = str_option (pget p ''source_message_id''),
                idempotency_key = py_str (pget p ''idempotency_key''),
                task_status = (if truthy (pget p ''status'')
                  then task_status_of (py_str (pget p ''status'')) else Queued),
                priority = int_or 0 (pget p ''priority''),
                attempt_count = int_or 0 (pget p ''attempt_count''),
                failure_count = int_or 0 (pget p ''failure_count''),
                defer_count = int_or 0 (pget p ''defer_count''),
                max_attempts = int_or 3 (pget p ''max_attempts''),
                payload_json = (if truthy (pget p ''payload'') then obj_of (pget p ''payload'')
                  else if truthy (pget p ''payload_json'') then obj_of (pget p ''payload_json'')
                  else []),
                next_retry_at = (case pget p ''next_retry_at'' of JInt t \<Rightarrow> Some t | _ \<Rightarrow> None),
                created_at = now, started_at = None, completed_at = None, last_error = None,
                claimed_by = None, lease_token = None, lease_expires_at = None,
                claim_version = 0\<rparr> s1 of
                Inl e \<Rightarrow> Inl e
              | Inr (created, s2) \<Rightarrow> Inr (created \<noteq> None, s2))))"

definition get_task :: "string \<Rightarrow> db \<Rightarrow> task_row option" where
  "get_task tid s = get_task_row tid (tasks s)"

text \<open>The keyword arguments of \<open>update_task_status\<close>; a key outside the allowed set is dropped.\<close>

datatype task_field =
    FAttemptCount int | FFailureCount int | FDeferCount int | FNextRetryAt "time option"
  | FStartedAt "time option" | FCompletedAt "time option" | FLastError "string option"
  | FNotAllowed string

fun set_field :: "task_field \<Rightarrow> task_row \<Rightarrow> task_row" where
  "set_field (FAttemptCount n) t = t\<lparr>attempt_count := n\<rparr>"
| "set_field (FFailureCount n) t = t\<lparr>failure_count := n\<rparr>"
| "set_field (FDeferCount n) t = t\<lparr>defer_count := n\<rparr>"
| "set_field (FNextRetryAt x) t = t\<lparr>next_retry_at := x\<rparr>"
| "set_field (FStartedAt x) t = t\<lparr>started_at := x\<rparr>"
| "set_field (FCompletedAt x) t = t\<lparr>completed_at := x\<rparr>"
| "set_field (FLastError x) t = t\<lparr>last_error := x\<rparr>"
| "set_field (FNotAllowed _) t = t"

definition update_task_status :: "string \<Rightarrow> task_status \<Rightarrow> task_field list \<Rightarrow> db \<Rightarrow> db" where
  "update_task_status tid st updates s =
     s\<lparr>tasks := upd_where (\<lambda>t. task_id t = tid)
        (\<lambda>t. (fold set_field updates t)\<lparr>task_status := st\<rparr>) (tasks s)\<rparr>"

subsection \<open>Claiming and renewing\<close>

definition claimable :: "time \<Rightarrow> time \<Rightarrow> task_row \<Rightarrow> bool" where
  "claimable now stale_before t \<longleftrightarrow>
     task_status t \<notin> {Blocked, Cancelled, Completed, DeadLetter} \<and>
     (case next_retry_at t of None \<Rightarrow> True | Some r \<Rightarrow> r \<le> now) \<and>
     (task_status t \<noteq> Running \<or>
      (case lease_expires_at t of
         Some e \<Rightarrow> e \<le> now
       | None \<Rightarrow> (case started_at t of None \<Rightarrow> True | Some b \<Rightarrow> b \<le> stale_before)))"

definition claimed_row :: "time \<Rightarrow> string \<Rightarrow> string \<Rightarrow> time \<Rightarrow> task_row \<Rightarrow> task_row" where
  "claimed_row now worker token expires t = t\<lparr>task_status := Running, started_at := Some now,
     attempt_count := attempt_count t + 1, claimed_by := Some worker, lease_token := Some token,
     lease_expires_at := Some expires, claim_version := claim_version t + 1\<rparr>"

record claim =
  claim_task_row :: task_row
  previous_status :: task_status
  previous_claimed_by :: "string option"
  previous_lease_expires_at :: "time option"

definition claim_task ::
  "env \<Rightarrow> time \<Rightarrow> string \<Rightarrow> string \<Rightarrow> int \<Rightarrow> db \<Rightarrow> claim option result" where
  "claim_task E now tid worker stale_after s =
     (let stale_before = now - max 1 stale_after * second;
          (token, s0) = draw E s;
          expires = now + max 1 stale_after * second
      in case find (\<lambda>t. task_id t = tid \<and> claimable now stale_before t) (tasks s0) of
           None \<Rightarrow> Inr (None, s0)
         | Some cand \<Rightarrow>
           (let row = claimed_row now worker token expires cand in
            if \<exists>a \<in> set (attempts s0). att_task_id a = tid \<and> attempt_no a = attempt_count row
            then Inl (IntegrityError ''uq_task_attempt_no'')
            else Inr (Some \<lparr>claim_task_row = row, previous_status = task_status cand,
                   previous_claimed_by = claimed_by cand,
                   previous_lease_expires_at = lease_expires_at cand\<rparr>,
                 s0\<lparr>tasks := upd_where (\<lambda>t. task_id t = tid)
                      (claimed_row now worker token expires) (tasks s0),
                   attempts := upd_where (\<lambda>a. task_status cand = Running \<and>
                        att_task_id a = tid \<and> attempt_no a = attempt_count cand \<and>
                        att_status a = AttRunning)
                      (\<lambda>a. a\<lparr>att_status := AttLeaseExpired, finished_at := Some now\<rparr>)
                      (attempts s0) @
                     [\<lparr>att_task_id = tid, att_worker_id = worker,
                       attempt_no = attempt_count row, att_status = AttRunning,
                       att_started_at = now, finished_at = None, error_type = None,
                       error_summary = None\<rparr>]\<rparr>)))"

definition holds_lease :: "string \<Rightarrow> string \<Rightarrow> int \<Rightarrow> task_row \<Rightarrow> bool" where
  "holds_lease tid token version t \<longleftrightarrow> task_id t = tid \<and> task_status t = Running \<and>
     lease_token t = Some token \<and> claim_version t = version"

definition lease_live :: "time \<Rightarrow> task_row \<Rightarrow> bool" where
  "lease_live now t = (case lease_expires_at t of None \<Rightarrow> False | Some e \<Rightarrow> e > now)"

definition renew_task_lease ::
  "time \<Rightarrow> string \<Rightarrow> string \<Rightarrow> int \<Rightarrow> int \<Rightarrow> db \<Rightarrow> bool \<times> db" where
  "renew_task_lease now tid token version lease_seconds s =
     (list_ex (holds_lease tid token version) (tasks s),
      s\<lparr>tasks := upd_where (holds_lease tid token version)
         (\<lambda>t. t\<lparr>lease_expires_at := Some (now + max 1 lease_seconds * second)\<rparr>) (tasks s)\<rparr>)"

definition owned_running_task ::
  "time \<Rightarrow> string \<Rightarrow> string \<Rightarrow> int \<Rightarrow> db \<Rightarrow> task_row option" where
  "owned_running_task now tid token version s =
     find (\<lambda>t. holds_lease tid token version t \<and> lease_live now t) (tasks s)"

subsection \<open>Completing\<close>

definition completed_row :: "time \<Rightarrow> task_row \<Rightarrow> task_row" where
  "completed_row now t = t\<lparr>task_status := Completed, completed_at := Some now,
     next_retry_at := None, last_error := None, claimed_by := None, lease_token := None,
     lease_expires_at := None\<rparr>"

text \<open>The task row and its current attempt are written in one statement.\<close>

definition finish_task ::
  "(task_row \<Rightarrow> task_row) \<Rightarrow> (attempt_row \<Rightarrow> attempt_row) \<Rightarrow> task_row \<Rightarrow> db \<Rightarrow> db" where
  "finish_task f g row s = s\<lparr>
     tasks := upd_where (\<lambda>t. task_id t = task_id row) f (tasks s),
     attempts := upd_where (\<lambda>a. att_task_id a = task_id row \<and> attempt_no a = attempt_count row) g
       (attempts s)\<rparr>"

definition completed_attempt :: "time \<Rightarrow> attempt_row \<Rightarrow> attempt_row" where
  "completed_attempt now a = a\<lparr>att_status := AttCompleted, finished_at := Some now\<rparr>"

definition cte_inbox :: "time \<Rightarrow> bool \<Rightarrow> bool \<Rightarrow> bool \<Rightarrow> inbox_row \<Rightarrow> inbox_row" where
  "cte_inbox now note memory finalize ib = ib\<lparr>
     note_status := (if note then StageCompleted else note_status ib),
     note_completed_at := (if note then Some now else note_completed_at ib),
     memory_status := (if memory then StageCompleted else memory_status ib),
     memory_completed_at := (if memory then Some now else memory_completed_at ib),
     inbox_status := (if finalize \<and> inbox_status ib \<notin> {InboxProcessed, InboxFailed}
       then InboxProcessed else inbox_status ib)\<rparr>"

definition cte_mark ::
  "int \<Rightarrow> (inbox_row \<Rightarrow> stage_status) \<Rightarrow> inbox_row \<Rightarrow> inbox_row list \<Rightarrow> int" where
  "cte_mark wm stage upd rows =
     (let later = filter (\<lambda>r. sequence_no r > wm) rows;
          stage' = (\<lambda>r. if inbox_id r = inbox_id upd then stage upd else stage r)
      in max wm (case min_opt (map sequence_no (filter (\<lambda>r. \<not> closed (stage' r)) later)) of
           Some m \<Rightarrow> m - 1
         | None \<Rightarrow> (case max_opt (map sequence_no later) of Some m \<Rightarrow> m | None \<Rightarrow> wm)))"

definition cte_space :: "bool \<Rightarrow> inbox_row \<Rightarrow> inbox_row list \<Rightarrow> space_row \<Rightarrow> space_row" where
  "cte_space finalize upd rows sp = sp\<lparr>
     note_watermark := cte_mark (note_watermark sp) note_status upd rows,
     memory_watermark := cte_mark (memory_watermark sp) memory_status upd rows,
     processed_sequence_no := (if finalize then max (processed_sequence_no sp) (sequence_no upd)
       else processed_sequence_no sp)\<rparr>"

text \<open>The WHERE clause of the query \<open>activated\<close>: NULL is coalesced, unlike in the ORM query.\<close>

definition cte_ready_for :: "int \<Rightarrow> int \<Rightarrow> payload \<Rightarrow> bool" where
  "cte_ready_for note_wm memory_wm p =
     (let c = (case json_text p ''consistency'' of None \<Rightarrow> ''weak'' | Some x \<Rightarrow> x);
          w = (case json_int p ''required_watermark'' of None \<Rightarrow> 0 | Some x \<Rightarrow> x)
      in c \<notin> {''note'', ''memory''} \<or>
         (json_text p ''consistency'' = Some ''note'' \<and> w \<le> note_wm) \<or>
         (json_text p ''consistency'' = Some ''memory'' \<and> w \<le> memory_wm))"

definition cte_activated :: "space_row \<Rightarrow> task_row list \<Rightarrow> task_row list" where
  "cte_activated sp = filter (\<lambda>t. task_space_id t = space_id sp \<and> task_status t = Blocked \<and>
     cte_ready_for (note_watermark sp) (memory_watermark sp) (payload_json t))"

definition cte_event :: "env \<Rightarrow> time \<Rightarrow> task_row \<Rightarrow> outbox_row" where
  "cte_event E now t = task_request_event
     (''event_'' @ pg_md5 E (task_id t @ '':'' @ show_int (attempt_count t + 1)))
     now (task_id t) (task_type t) (attempt_count t + 1) (trace_of (payload_json t))"

definition insert_event_once :: "outbox_row \<Rightarrow> outbox_row list \<Rightarrow> outbox_row list" where
  "insert_event_once e rows =
     (if event_id e \<in> event_id ` set rows then rows else rows @ [e])"

definition complete_task_with_inbox_outcome ::
  "env \<Rightarrow> time \<Rightarrow> string \<Rightarrow> string \<Rightarrow> int \<Rightarrow> string \<Rightarrow> bool \<Rightarrow> bool \<Rightarrow> bool \<Rightarrow> db \<Rightarrow> bool result" where
  "complete_task_with_inbox_outcome E now tid token version iid note memory finalize s =
     (case get_inbox iid (inbox s) of
        None \<Rightarrow> Inr (False, s)
      | Some ib \<Rightarrow>
        (case find (\<lambda>t. holds_lease tid token version t \<and> lease_live now t \<and>
             task_tenant_id t = inbox_tenant_id ib \<and> task_space_id t = inbox_space_id ib)
             (tasks s) of
           None \<Rightarrow> Inr (False, s)
         | Some row \<Rightarrow>
           (let upd = cte_inbox now note memory finalize ib;
                s1 = (finish_task (completed_row now) (completed_attempt now) row s)
                  \<lparr>inbox := upd_where (\<lambda>r. inbox_id r = iid) (cte_inbox now note memory finalize)
                     (inbox s)\<rparr>
            in case get_space (inbox_space_id upd) (spaces s) of
                 None \<Rightarrow> Inr (True, s1)
               | Some sp \<Rightarrow>
                 (let sp' = cte_space finalize upd (space_inbox (space_id sp) s) sp;
                      act = cte_activated sp' (tasks s)
                  in Inr (True, s1\<lparr>
                       spaces := upd_where (\<lambda>r. space_id r = space_id sp) (\<lambda>_. sp') (spaces s),
                       tasks := upd_where (\<lambda>t. task_id t \<in> task_id ` set act) requeue (tasks s1),
                       outbox := fold (\<lambda>t. insert_event_once (cte_event E now t)) act
                         (outbox s)\<rparr>)))))"

record outcome =
  release_inbox_id :: "string option"
  activate_task_id :: "string option"
  note_ready_inbox_id :: "string option"
  memory_ready_inbox_id :: "string option"
  ingest_complete_inbox_id :: "string option"

definition outcome_values :: "outcome \<Rightarrow> string option list" where
  "outcome_values out = [release_inbox_id out, activate_task_id out, note_ready_inbox_id out,
     memory_ready_inbox_id out, ingest_complete_inbox_id out]"

definition some_text :: "string option \<Rightarrow> bool" where
  "some_text x = (x \<noteq> None \<and> x \<noteq> Some [])"

text \<open>The object path at the end of \<open>complete_task\<close>: the row is completed and then the outcome
  is applied by the session functions of \<open>dispatch.py\<close>.\<close>

definition complete_task_orm ::
  "env \<Rightarrow> time \<Rightarrow> string \<Rightarrow> string \<Rightarrow> int \<Rightarrow> outcome \<Rightarrow> db \<Rightarrow> bool result" where
  "complete_task_orm E now tid token version out s =
     (case owned_running_task now tid token version s of
        None \<Rightarrow> Inr (False, s)
      | Some row \<Rightarrow>
        (let s1 = finish_task (completed_row now) (completed_attempt now) row s in
         if some_text (activate_task_id out) then
           (case activate_task_in_session E now (the (activate_task_id out)) s1 of
              Inl e \<Rightarrow> Inl e | Inr (_, s2) \<Rightarrow> Inr (True, s2))
         else if some_text (note_ready_inbox_id out) then
           (case complete_inbox_stage_in_session E now (the (note_ready_inbox_id out))
                True False False True None s1 of
              Inl e \<Rightarrow> Inl e | Inr (_, s2) \<Rightarrow> Inr (True, s2))
         else if some_text (memory_ready_inbox_id out) then
           (case complete_inbox_stage_in_session E now (the (memory_ready_inbox_id out))
                False True True True None s1 of
              Inl e \<Rightarrow> Inl e | Inr (_, s2) \<Rightarrow> Inr (True, s2))
         else if some_text (ingest_complete_inbox_id out) then
           (case complete_inbox_stage_in_session E now (the (ingest_complete_inbox_id out))
                True True True True None s1 of
              Inl e \<Rightarrow> Inl e | Inr (_, s2) \<Rightarrow> Inr (True, s2))
         else if some_text (release_inbox_id out) then
           (case complete_inbox_stage_in_session E now (the (release_inbox_id out))
                False False True True None s1 of
              Inl e \<Rightarrow> Inl e | Inr (_, s2) \<Rightarrow> Inr (True, s2))
         else Inr (True, s1)))"

definition complete_task_plain ::
  "time \<Rightarrow> string \<Rightarrow> string \<Rightarrow> int \<Rightarrow> db \<Rightarrow> bool \<times> db" where
  "complete_task_plain now tid token version s =
     (case find (\<lambda>t. holds_lease tid token version t \<and> lease_live now t) (tasks s) of
        None \<Rightarrow> (False, s)
      | Some row \<Rightarrow> (True, finish_task (completed_row now) (completed_attempt now) row s))"

definition complete_task ::
  "env \<Rightarrow> time \<Rightarrow> string \<Rightarrow> string \<Rightarrow> int \<Rightarrow> outcome \<Rightarrow> db \<Rightarrow> bool result" where
  "complete_task E now tid token version out s =
     (if length (filter (\<lambda>v. v \<noteq> None) (outcome_values out)) > 1
      then Inl (ValueError ''a task may produce only one Inbox/dependency outcome'')
      else case note_ready_inbox_id out of
        Some i \<Rightarrow> complete_task_with_inbox_outcome E now tid token version i True False False s
      | None \<Rightarrow> (case memory_ready_inbox_id out of
        Some i \<Rightarrow> complete_task_with_inbox_outcome E now tid token version i False True True s
      | None \<Rightarrow> (case ingest_complete_inbox_id out of
        Some i \<Rightarrow> complete_task_with_inbox_outcome E now tid token version i True True True s
      | None \<Rightarrow> (case release_inbox_id out of
        Some i \<Rightarrow> complete_task_with_inbox_outcome E now tid token version i False False True s
      | None \<Rightarrow>
          if \<not> list_ex some_text (outcome_values out)
          then Inr (complete_task_plain now tid token version s)
          else complete_task_orm E now tid token version out s))))"

subsection \<open>Failing, deferring, re-queueing\<close>

definition barrier_inbox_id :: "task_row \<Rightarrow> string option" where
  "barrier_inbox_id row =
     (let p = payload_json row;
          v = (if truthy (pget p ''barrier_inbox_id'') then pget p ''barrier_inbox_id''
               else pget p ''inbox_id'')
      in if truthy v then Some (py_str v) else None)"

definition cancel_blocked_dependents :: "time \<Rightarrow> string \<Rightarrow> string \<Rightarrow> db \<Rightarrow> db" where
  "cancel_blocked_dependents now parent error s =
     s\<lparr>tasks := upd_where (\<lambda>t. task_status t = Blocked \<and>
          json_text (payload_json t) ''parent_task_id'' = Some parent)
        (\<lambda>t. t\<lparr>task_status := Cancelled, completed_at := Some now,
           last_error := Some (take 2000 (''parent task failed: '' @ error))\<rparr>) (tasks s)\<rparr>"

definition failed_row :: "time \<Rightarrow> string \<Rightarrow> int \<Rightarrow> task_row \<Rightarrow> task_row" where
  "failed_row now error delay t =
     (let n = failure_count t + 1; exhausted = (n \<ge> max_attempts t) in
      t\<lparr>failure_count := n, task_status := (if exhausted then DeadLetter else Retry),
        last_error := Some (take 2000 error),
        next_retry_at := (if exhausted then None else Some (now + max 100000 delay)),
        completed_at := (if exhausted then Some now else None),
        claimed_by := None, lease_token := None, lease_expires_at := None\<rparr>)"

definition failed_attempt :: "time \<Rightarrow> string \<Rightarrow> bool \<Rightarrow> attempt_row \<Rightarrow> attempt_row" where
  "failed_attempt now error exhausted a = a\<lparr>
     att_status := (if exhausted then AttDeadLetter else AttFailed), finished_at := Some now,
     error_type := Some (take 255 (before_colon error)),
     error_summary := Some (take 2000 error)\<rparr>"

datatype fail_status = Stale | StatusIs task_status

definition fail_task ::
  "env \<Rightarrow> time \<Rightarrow> string \<Rightarrow> string \<Rightarrow> int \<Rightarrow> string \<Rightarrow> int \<Rightarrow> db \<Rightarrow> fail_status result" where
  "fail_task E now tid error delay token version s =
     (case owned_running_task now tid token version s of
        None \<Rightarrow> Inr (Stale, s)
      | Some row \<Rightarrow>
        (let row' = failed_row now error delay row;
             exhausted = (task_status row' = DeadLetter);
             s1 = finish_task (failed_row now error delay) (failed_attempt now error exhausted)
                    row s
         in if \<not> exhausted then Inr (StatusIs (task_status row'), s1)
            else
              let s2 = (if truthy (pget (payload_json row) ''inbox_id'')
                        then cancel_blocked_dependents now tid error s1 else s1)
              in case barrier_inbox_id row of
                   None \<Rightarrow> Inr (StatusIs (task_status row'), s2)
                 | Some iid \<Rightarrow>
                   (case (if task_type row = ''memory''
                          then mark_inbox_memory_completed_in_session E now iid False (Some error) s2
                          else Inr (0, s2)) of
                      Inl e \<Rightarrow> Inl e
                    | Inr (_, s3) \<Rightarrow>
                      (case finalize_inbox_in_session E now iid False (Some error) s3 of
                         Inl e \<Rightarrow> Inl e
                       | Inr (_, s4) \<Rightarrow> Inr (StatusIs (task_status row'), s4)))))"

definition deferred_row :: "time \<Rightarrow> string \<Rightarrow> int \<Rightarrow> task_row \<Rightarrow> task_row" where
  "deferred_row now reason delay t = t\<lparr>task_status := Retry, defer_count := defer_count t + 1,
     last_error := Some (take 2000 reason), next_retry_at := Some (now + max 100000 delay),
     claimed_by := None, lease_token := None, lease_expires_at := None\<rparr>"

definition defer_task ::
  "time \<Rightarrow> string \<Rightarrow> string \<Rightarrow> int \<Rightarrow> string \<Rightarrow> int \<Rightarrow> db \<Rightarrow> bool \<times> db" where
  "defer_task now tid reason delay token version s =
     (case owned_running_task now tid token version s of
        None \<Rightarrow> (False, s)
      | Some row \<Rightarrow> (True, finish_task (deferred_row now reason delay)
          (\<lambda>a. a\<lparr>att_status := AttDeferred, finished_at := Some now,
             error_summary := Some (take 2000 reason)\<rparr>) row s))"

text \<open>ORDER BY next_retry_at puts NULL last.\<close>

definition nulls_last :: "time option \<Rightarrow> int \<times> int" where
  "nulls_last x = (case x of Some t \<Rightarrow> (0, t) | None \<Rightarrow> (1, 0))"

definition due_retry_rows :: "time \<Rightarrow> int \<Rightarrow> string list option \<Rightarrow> db \<Rightarrow> task_row list" where
  "due_retry_rows now limit ids s =
     take (nat (max 1 limit)) (sort_key (\<lambda>t. (nulls_last (next_retry_at t), created_at t))
       (filter (\<lambda>t. task_status t = Retry \<and>
            (case next_retry_at t of None \<Rightarrow> True | Some r \<Rightarrow> r \<le> now) \<and>
            (case ids of None \<Rightarrow> True | Some l \<Rightarrow> task_id t \<in> set l)) (tasks s)))"

fun retry_rows :: "env \<Rightarrow> time \<Rightarrow> task_row list \<Rightarrow> db \<Rightarrow> nat result" where
  "retry_rows E now [] s = Inr (0, s)"
| "retry_rows E now (row # rows) s =
     (let (eid, s1) = new_id E ''event'' s in
      case insert_outbox (task_request_event eid now (task_id row) (task_type row)
             (attempt_count row + 1) (trace_of (payload_json row))) s1 of
        Inl e \<Rightarrow> Inl e
      | Inr (_, s2) \<Rightarrow>
          (case retry_rows E now rows
             (s2\<lparr>tasks := upd_where (\<lambda>t. task_id t = task_id row) requeue (tasks s2)\<rparr>) of
             Inl e \<Rightarrow> Inl e
           | Inr (n, s3) \<Rightarrow> Inr (Suc n, s3)))"

definition enqueue_due_retries ::
  "env \<Rightarrow> time \<Rightarrow> int \<Rightarrow> string list option \<Rightarrow> db \<Rightarrow> nat result" where
  "enqueue_due_retries E now limit ids s = retry_rows E now (due_retry_rows now limit ids s) s"

end
