(* ===== verification/Watermarks.thy ===== *)
theory Watermarks
  imports Tasks
begin

text \<open>
  The arithmetic of the note and memory watermarks of one space: what the two implementations of
  the advance (\<open>_advance_watermarks_in_session\<close> and the WITH queries of
  \<open>_complete_task_with_inbox_outcome\<close>) compute, against the reference definition \<open>closed_prefix\<close>:
  the number of leading messages, in sequence order, whose stage is closed.
\<close>

subsection \<open>Messages of a space are numbered without gaps\<close>

definition seqs_ok :: "inbox_row list \<Rightarrow> bool" where
  "seqs_ok rows \<longleftrightarrow> sequence_no ` set rows = {1..int (length rows)}"

lemma seqs_ok_Nil [simp]: "seqs_ok []"
  by (simp add: seqs_ok_def)

lemma seqs_ok_distinct: "seqs_ok rows \<Longrightarrow> distinct (map sequence_no rows)"
  by (rule card_distinct) (simp add: seqs_ok_def)

lemma seqs_ok_same_row:
  assumes "seqs_ok rows" "r \<in> set rows" "q \<in> set rows" "sequence_no r = sequence_no q"
  shows "r = q"
proof -
  have "inj_on sequence_no (set rows)"
    using seqs_ok_distinct [OF assms(1)] by (simp add: distinct_map)
  with assms(2-4) show ?thesis by (simp add: inj_on_eq_iff)
qed

lemma seqs_ok_range: "seqs_ok rows \<Longrightarrow> r \<in> set rows \<Longrightarrow> 1 \<le> sequence_no r \<and> sequence_no r \<le> int (length rows)"
  by (auto simp: seqs_ok_def)

lemma seqs_ok_ex: "seqs_ok rows \<Longrightarrow> 1 \<le> n \<Longrightarrow> n \<le> int (length rows) \<Longrightarrow> \<exists>r \<in> set rows. sequence_no r = n"
  by (metis (no_types, lifting) atLeastAtMost_iff image_iff seqs_ok_def)

lemma seqs_ok_snoc: "seqs_ok rows \<Longrightarrow> sequence_no r = int (length rows) + 1 \<Longrightarrow> seqs_ok (rows @ [r])"
  by (auto simp: seqs_ok_def)

lemma seqs_ok_max:
  "seqs_ok rows \<Longrightarrow> (case max_opt (map sequence_no rows) of None \<Rightarrow> 0 | Some m \<Rightarrow> m) = int (length rows)"
proof (cases "rows = []")
  case False
  assume ok: "seqs_ok rows"
  from False have "1 \<le> int (length rows)" by (cases rows) auto
  with seqs_ok_ex [OF ok] obtain r where "r \<in> set rows" "sequence_no r = int (length rows)"
    by blast
  with seqs_ok_range [OF ok] have "max_opt (map sequence_no rows) = Some (int (length rows))"
    unfolding max_opt_Some by force
  then show ?thesis by simp
qed simp

lemma seqs_ok_map_seq:
  "map sequence_no rows' = map sequence_no rows \<Longrightarrow> seqs_ok rows' = seqs_ok rows"
  by (metis length_map list.set_map seqs_ok_def)

subsection \<open>Sound and tight watermarks\<close>

definition mark_sound :: "int \<Rightarrow> (inbox_row \<Rightarrow> stage_status) \<Rightarrow> inbox_row list \<Rightarrow> bool" where
  "mark_sound wm stage rows \<longleftrightarrow> 0 \<le> wm \<and> wm \<le> int (length rows) \<and>
     (\<forall>r \<in> set rows. sequence_no r \<le> wm \<longrightarrow> closed (stage r))"

definition mark_tight :: "int \<Rightarrow> (inbox_row \<Rightarrow> stage_status) \<Rightarrow> inbox_row list \<Rightarrow> bool" where
  "mark_tight wm stage rows \<longleftrightarrow> (\<forall>r \<in> set rows. sequence_no r = wm + 1 \<longrightarrow> \<not> closed (stage r))"

definition closed_prefix :: "(inbox_row \<Rightarrow> stage_status) \<Rightarrow> inbox_row list \<Rightarrow> int" where
  "closed_prefix stage rows =
     int (length (takeWhile (\<lambda>r. closed (stage r)) (sort_key sequence_no rows)))"

lemma mark_unique:
  assumes seqs: "seqs_ok rows" and v: "mark_sound v stage rows" "mark_tight v stage rows"
    and w: "mark_sound w stage rows" "mark_tight w stage rows"
  shows "v = w"
proof -
  have le: "a \<le> b" if "mark_sound a stage rows" "mark_tight b stage rows" "mark_sound b stage rows"
    for a b
  proof (rule ccontr)
    assume "\<not> a \<le> b"
    with that obtain r where "r \<in> set rows" "sequence_no r = b + 1"
      using seqs_ok_ex [OF seqs, of "b + 1"] by (auto simp: mark_sound_def)
    with that \<open>\<not> a \<le> b\<close> show False by (auto simp: mark_sound_def mark_tight_def)
  qed
  from le [of v w] le [of w v] v w show ?thesis by auto
qed

lemma sorted_seqs_nth:
  assumes "seqs_ok rows" "i < length rows"
  shows "sequence_no (sort_key sequence_no rows ! i) = int i + 1"
proof -
  let ?ys = "map sequence_no (sort_key sequence_no rows)"
  have "?ys = [1..int (length rows)]"
  proof (rule sorted_distinct_set_unique)
    show "sorted ?ys" by simp
    have "distinct (map sequence_no rows)" using assms(1) by (rule seqs_ok_distinct)
    then have "distinct ?ys" by (simp add: distinct_map)
    then show "distinct ?ys" .
    show "sorted [1..int (length rows)]" "distinct [1..int (length rows)]" by simp_all
    show "set ?ys = set [1..int (length rows)]" using assms(1) by (simp add: seqs_ok_def)
  qed
  then have "?ys ! i = [1..int (length rows)] ! i" by simp
  then show ?thesis using assms(2) by simp
qed

lemma closed_prefix_sound_tight:
  assumes "seqs_ok rows"
  shows "mark_sound (closed_prefix stage rows) stage rows \<and>
    mark_tight (closed_prefix stage rows) stage rows"
proof -
  let ?xs = "sort_key sequence_no rows" and ?P = "\<lambda>r. closed (stage r)"
  let ?n = "length (takeWhile ?P ?xs)"
  have nth: "sequence_no (?xs ! i) = int i + 1" if "i < length rows" for i
    using sorted_seqs_nth [OF assms that] .
  have mem: "\<exists>i < length rows. ?xs ! i = r" if "r \<in> set rows" for r
    using that by (metis in_set_conv_nth length_sort set_sort)
  have le: "?n \<le> length rows" by (metis length_sort length_takeWhile_le)
  have "?P r" if r: "r \<in> set rows" "sequence_no r \<le> int ?n" for r
  proof -
    obtain i where i: "i < length rows" "?xs ! i = r" using mem r by blast
    with nth r have "i < ?n" by fastforce
    with i show ?thesis by (metis nth_mem set_takeWhileD takeWhile_nth)
  qed
  moreover have "\<not> ?P r" if r: "r \<in> set rows" "sequence_no r = int ?n + 1" for r
  proof -
    obtain i where i: "i < length rows" "?xs ! i = r" using mem r by blast
    with nth r have "i = ?n" by fastforce
    with i show ?thesis by (metis length_sort nth_length_takeWhile)
  qed
  ultimately show ?thesis
    using le by (auto simp: mark_sound_def mark_tight_def closed_prefix_def)
qed

subsection \<open>The advance of a watermark\<close>

lemma advance_mark_ok:
  assumes seqs: "seqs_ok rows" and sound: "mark_sound wm stage rows"
  shows "mark_sound (advance_mark wm stage rows) stage rows \<and>
    mark_tight (advance_mark wm stage rows) stage rows \<and> wm \<le> advance_mark wm stage rows"
proof -
  let ?later = "filter (\<lambda>r. sequence_no r > wm) rows"
  let ?opens = "map sequence_no (filter (\<lambda>r. \<not> closed (stage r)) ?later)"
  show ?thesis
  proof (cases "min_opt ?opens")
    case (Some m)
    then obtain q where q: "q \<in> set rows" "sequence_no q = m" "wm < m" "\<not> closed (stage q)"
      and least: "\<And>r. r \<in> set rows \<Longrightarrow> wm < sequence_no r \<Longrightarrow> \<not> closed (stage r) \<Longrightarrow>
        m \<le> sequence_no r"
      unfolding min_opt_Some by fastforce
    have res: "advance_mark wm stage rows = m - 1"
      using Some q by (simp add: advance_mark_def)
    have "closed (stage r)" if "r \<in> set rows" "sequence_no r \<le> m - 1" for r
      using that least [of r] sound by (force simp: mark_sound_def)
    moreover have "\<not> closed (stage r)" if "r \<in> set rows" "sequence_no r = m" for r
      using seqs_ok_same_row [OF seqs that(1) q(1)] that q by simp
    ultimately show ?thesis
      using res q sound seqs_ok_range [OF seqs q(1)] by (auto simp: mark_sound_def mark_tight_def)
  next
    case None
    then have all: "\<And>r. r \<in> set rows \<Longrightarrow> wm < sequence_no r \<Longrightarrow> closed (stage r)"
      by (auto simp: filter_empty_conv)
    have cl: "closed (stage r)" if "r \<in> set rows" for r
      using all [OF that] that sound by (cases "wm < sequence_no r") (auto simp: mark_sound_def)
    have "advance_mark wm stage rows = int (length rows)"
    proof (cases "max_opt (map sequence_no ?later)")
      case None
      then have no: "\<And>r. r \<in> set rows \<Longrightarrow> sequence_no r \<le> wm" by (force simp: filter_empty_conv)
      have "wm = int (length rows)"
      proof (rule ccontr)
        assume "wm \<noteq> int (length rows)"
        with sound have "wm + 1 \<le> int (length rows)" "1 \<le> wm + 1" by (auto simp: mark_sound_def)
        with seqs_ok_ex [OF seqs, of "wm + 1"] no show False by force
      qed
      then show ?thesis
        using None \<open>min_opt ?opens = None\<close> by (simp add: advance_mark_def)
    next
      case (Some m)
      then obtain q where q: "q \<in> set rows" "sequence_no q = m" "wm < m"
        and top: "\<And>r. r \<in> set rows \<Longrightarrow> wm < sequence_no r \<Longrightarrow> sequence_no r \<le> m"
        unfolding max_opt_Some by fastforce
      have "rows \<noteq> []" using q by auto
      then obtain z where z: "z \<in> set rows" "sequence_no z = int (length rows)"
        using seqs_ok_ex [OF seqs, of "int (length rows)"] by (cases rows) auto
      have "m = int (length rows)"
        using seqs_ok_range [OF seqs q(1)] top [OF z(1)] z q by linarith
      then show ?thesis
        using Some q \<open>min_opt ?opens = None\<close> by (simp add: advance_mark_def)
    qed
    then show ?thesis
      using cl sound seqs_ok_range [OF seqs] by (fastforce simp: mark_sound_def mark_tight_def)
  qed
qed

lemma advance_mark_prefix:
  "seqs_ok rows \<Longrightarrow> mark_sound wm stage rows \<Longrightarrow> advance_mark wm stage rows = closed_prefix stage rows"
  by (rule mark_unique) (use advance_mark_ok closed_prefix_sound_tight in blast)+

lemma map_upd_where_filter:
  "(\<And>r. P r \<Longrightarrow> Q (f r) = Q r) \<Longrightarrow> filter Q (upd_where P f rows) = upd_where P f (filter Q rows)"
  by (induction rows) auto

lemma cte_mark_advance:
  assumes "\<And>r. sequence_no (f r) = sequence_no r"
    and "\<forall>r \<in> set rows. inbox_id r = inbox_id upd \<longrightarrow> stage (f r) = stage upd"
  shows "cte_mark wm stage upd rows =
    advance_mark wm stage (upd_where (\<lambda>r. inbox_id r = inbox_id upd) f rows)"
proof -
  let ?u = "upd_where (\<lambda>r. inbox_id r = inbox_id upd) f"
  let ?later = "filter (\<lambda>r. sequence_no r > wm) rows"
  let ?stage = "\<lambda>r. if inbox_id r = inbox_id upd then stage upd else stage r"
  have later: "filter (\<lambda>r. sequence_no r > wm) (?u rows) = ?u ?later"
    by (rule map_upd_where_filter) (simp add: assms(1))
  have seqs: "map sequence_no (?u ?later) = map sequence_no ?later"
    by (simp add: map_upd_where assms(1))
  have opens: "map sequence_no (filter (\<lambda>r. \<not> closed (stage r)) (?u xs)) =
      map sequence_no (filter (\<lambda>r. \<not> closed (?stage r)) xs)" if "set xs \<subseteq> set rows" for xs
    using that assms by (induction xs) auto
  have opens': "map sequence_no (filter (\<lambda>r. \<not> closed (stage r)) (?u ?later)) =
      map sequence_no (filter (\<lambda>r. \<not> closed (?stage r)) ?later)"
    by (rule opens) auto
  show ?thesis
    unfolding cte_mark_def advance_mark_def Let_def later seqs opens'
    by (simp split: option.split)
qed

end
