(* ===== verification/Dispatch_Lemmas.thy ===== *)
theory Dispatch_Lemmas
  imports Tasks
begin

text \<open>
  What the session functions do to the tables, in the form the invariant proofs use: each
  operation as an explicit record update.
\<close>

subsection \<open>Row updates keep keys\<close>

lemma requeue_sel [simp]:
  "task_id (requeue t) = task_id t" "task_type (requeue t) = task_type t"
  "task_tenant_id (requeue t) = task_tenant_id t" "task_space_id (requeue t) = task_space_id t"
  "source_message_id (requeue t) = source_message_id t"
  "idempotency_key (requeue t) = idempotency_key t" "task_status (requeue t) = Queued"
  "attempt_count (requeue t) = attempt_count t" "failure_count (requeue t) = failure_count t"
  "defer_count (requeue t) = defer_count t" "max_attempts (requeue t) = max_attempts t"
  "payload_json (requeue t) = payload_json t" "lease_token (requeue t) = None"
  "lease_expires_at (requeue t) = None" "claim_version (requeue t) = claim_version t"
  "requeue (requeue t) = requeue t"
  by (simp_all add: requeue_def)

lemma task_request_event_sel [simp]:
  "event_id (task_request_event eid now tid ty a tr) = eid"
  "aggregate_id (task_request_event eid now tid ty a tr) = tid"
  "event_status (task_request_event eid now tid ty a tr) = EvPending"
  "published_at (task_request_event eid now tid ty a tr) = None"
  "pget (event_payload (task_request_event eid now tid ty a tr)) ''attempt'' = JInt a"
  by (simp_all add: task_request_event_def pget_def)

lemma new_task_row_sel [simp]:
  "task_id (new_task_row tid now ty tn sid msg idem p prio maxa st) = tid"
  "task_space_id (new_task_row tid now ty tn sid msg idem p prio maxa st) = sid"
  "task_type (new_task_row tid now ty tn sid msg idem p prio maxa st) = ty"
  "task_tenant_id (new_task_row tid now ty tn sid msg idem p prio maxa st) = tn"
  "source_message_id (new_task_row tid now ty tn sid msg idem p prio maxa st) = msg"
  "idempotency_key (new_task_row tid now ty tn sid msg idem p prio maxa st) = idem"
  "task_status (new_task_row tid now ty tn sid msg idem p prio maxa st) = st"
  "attempt_count (new_task_row tid now ty tn sid msg idem p prio maxa st) = 0"
  "failure_count (new_task_row tid now ty tn sid msg idem p prio maxa st) = 0"
  "max_attempts (new_task_row tid now ty tn sid msg idem p prio maxa st) = maxa"
  "payload_json (new_task_row tid now ty tn sid msg idem p prio maxa st) = p"
  "lease_token (new_task_row tid now ty tn sid msg idem p prio maxa st) = None"
  "lease_expires_at (new_task_row tid now ty tn sid msg idem p prio maxa st) = None"
  "claim_version (new_task_row tid now ty tn sid msg idem p prio maxa st) = 0"
  by (simp_all add: new_task_row_def)

subsection \<open>Requests\<close>

text \<open>\<open>requests E n t e\<close>: the event \<open>e\<close> asks for attempt \<open>n\<close> of task \<open>t\<close>, under an identifier
  of the form the code generates (a short random one, or the MD5 of task and attempt).\<close>

definition request_for :: "task_row \<Rightarrow> outbox_row \<Rightarrow> bool" where
  "request_for t e \<longleftrightarrow> aggregate_id e = task_id t \<and>
     pget (event_payload e) ''attempt'' = JInt (attempt_count t + 1)"

definition event_id_ok :: "env \<Rightarrow> outbox_row \<Rightarrow> bool" where
  "event_id_ok E e \<longleftrightarrow> length (event_id e) \<le> 18 \<or>
     (\<exists>n. event_id e = ''event_'' @ pg_md5 E (aggregate_id e @ '':'' @ show_int n) \<and>
        pget (event_payload e) ''attempt'' = JInt n)"

lemma publish_task_request_Inr:
  assumes "publish_task_request E now tid ty a s = Inr (i, s')"
  shows "\<exists>e. s' = s\<lparr>uuid_pos := Suc (uuid_pos s), outbox := outbox s @ [e]\<rparr> \<and>
     event_id e \<notin> event_id ` set (outbox s) \<and> aggregate_id e = tid \<and>
     pget (event_payload e) ''attempt'' = JInt (max 1 a) \<and>
     event_status e = EvPending \<and> published_at e = None \<and> length (event_id e) \<le> 18"
  using assms
  by (auto simp: publish_task_request_def new_id_def draw_def insert_outbox_Inr Let_def)

text \<open>
  \<open>task_added t s s'\<close>: the fresh task \<open>t\<close> is inserted, with a pending request when it is queued.
\<close>

definition task_added :: "task_row \<Rightarrow> db \<Rightarrow> db \<Rightarrow> bool" where
  "task_added t s s' \<longleftrightarrow> task_id t \<notin> task_id ` set (tasks s) \<and>
     idempotency_key t \<notin> idempotency_key ` set (tasks s) \<and>
     (\<exists>evs k. s' = s\<lparr>tasks := tasks s @ [t], outbox := outbox s @ evs, uuid_pos := k\<rparr> \<and>
        (evs = [] \<and> task_status t \<noteq> Queued \<or>
         (\<exists>e. evs = [e] \<and> event_id e \<notin> event_id ` set (outbox s) \<and> request_for t e \<and>
            event_status e = EvPending \<and> published_at e = None \<and> length (event_id e) \<le> 18)))"

definition trace_payload :: "payload \<Rightarrow> payload \<Rightarrow> payload" where
  "trace_payload ctx p = (if ctx \<noteq> [] then pset ''_trace'' (JObj ctx) p else p)"

lemma map_of_trace_payload [simp]: "k \<noteq> ''_trace'' \<Longrightarrow> map_of (trace_payload ctx p) k = map_of p k"
  by (simp add: trace_payload_def)

lemma enqueue_in_session_Inr:
  assumes run: "enqueue_task_in_session E now ctx ty tn sid msg idem p prio maxa st (st = Queued) s =
    Inr ((tid, created), s')"
  shows "if created
    then task_added (new_task_row tid now ty tn sid msg idem (trace_payload ctx p) prio maxa st) s s'
    else s' = s\<lparr>uuid_pos := Suc (uuid_pos s)\<rparr> \<and> (\<exists>t \<in> set (tasks s). idempotency_key t = idem \<and> task_id t = tid)"
proof (cases "idem \<in> idempotency_key ` set (tasks s)")
  case True
  with run show ?thesis
    by (auto simp: enqueue_task_in_session_def new_id_def draw_def insert_task_once_Inr Let_def find_Some_iff
        split: if_splits sum.splits prod.splits option.splits)
next
  case False
  let ?t = "new_task_row tid now ty tn sid msg idem (trace_payload ctx p) prio maxa st"
  let ?s2 = "s\<lparr>uuid_pos := Suc (uuid_pos s), tasks := tasks s @ [?t]\<rparr>"
  from run False have created: "created" "tid \<notin> task_id ` set (tasks s)"
    and s': "if st = Queued then \<exists>i. publish_task_request E now tid ty 1 ?s2 = Inr (i, s') else s' = ?s2"
    by (auto simp: enqueue_task_in_session_def new_id_def draw_def insert_task_once_Inr Let_def
        trace_payload_def split: if_splits sum.splits prod.splits option.splits)
  have "task_added ?t s s'"
  proof (cases "st = Queued")
    case True
    with s' obtain i where "publish_task_request E now tid ty 1 ?s2 = Inr (i, s')" by auto
    from publish_task_request_Inr [OF this] obtain e where
      "s' = ?s2\<lparr>uuid_pos := Suc (uuid_pos ?s2), outbox := outbox s @ [e]\<rparr>"
      "event_id e \<notin> event_id ` set (outbox s)" "aggregate_id e = tid"
      "pget (event_payload e) ''attempt'' = JInt 1" "event_status e = EvPending"
      "published_at e = None" "length (event_id e) \<le> 18" by auto
    with False created show ?thesis
      unfolding task_added_def
      by (intro conjI exI [of _ "[e]"] exI [of _ "Suc (Suc (uuid_pos s))"]) (auto simp: request_for_def)
  next
    case not_queued: False
    with s' have "s' = s\<lparr>tasks := tasks s @ [?t], outbox := outbox s @ [], uuid_pos := Suc (uuid_pos s)\<rparr>"
      by simp
    with not_queued False created show ?thesis
      unfolding task_added_def new_task_row_sel by blast
  qed
  with created show ?thesis by simp
qed

text \<open>
  \<open>requeued I s s'\<close>: the tasks with identifiers in \<open>I\<close> are queued again and each of them has a
  new pending request for its next attempt; nothing else changes.
\<close>

definition requeued :: "string set \<Rightarrow> db \<Rightarrow> db \<Rightarrow> bool" where
  "requeued I s s' \<longleftrightarrow> (\<exists>evs k.
     s' = s\<lparr>tasks := upd_where (\<lambda>t. task_id t \<in> I) requeue (tasks s),
            outbox := outbox s @ evs, uuid_pos := k\<rparr> \<and>
     distinct (map event_id evs) \<and> event_id ` set evs \<inter> event_id ` set (outbox s) = {} \<and>
     aggregate_id ` set evs = I \<and>
     (\<forall>e \<in> set evs. event_status e = EvPending \<and> published_at e = None \<and>
        length (event_id e) \<le> 18 \<and>
        (\<exists>t \<in> set (tasks s). request_for t e)))"

lemma requeued_empty: "requeued {} s s"
  unfolding requeued_def by (rule exI [of _ "[]"], rule exI [of _ "uuid_pos s"])
    (simp add: upd_where_none)

lemma upd_where_insert_id:
  "upd_where (\<lambda>t. task_id t \<in> I) requeue (upd_where (\<lambda>t. task_id t = i) requeue ts) =
   upd_where (\<lambda>t. task_id t \<in> insert i I) requeue ts"
  by (simp add: upd_where_def)

lemma request_for_requeue [simp]: "request_for (requeue t) e = request_for t e"
  by (simp add: request_for_def)

lemma requeued_one:
  assumes ev: "event_id e \<notin> event_id ` set (outbox s)" "length (event_id e) \<le> 18"
      "event_status e = EvPending" "published_at e = None"
    and row: "t \<in> set (tasks s)" "request_for t e"
    and step: "requeued I (s\<lparr>tasks := upd_where (\<lambda>r. task_id r = task_id t) requeue (tasks s),
        uuid_pos := k, outbox := outbox s @ [e]\<rparr>) s'"
  shows "requeued (insert (task_id t) I) s s'"
proof -
  from step obtain evs j where s': "s' = s\<lparr>tasks := upd_where (\<lambda>r. task_id r \<in> I) requeue
        (upd_where (\<lambda>r. task_id r = task_id t) requeue (tasks s)),
        outbox := outbox s @ e # evs, uuid_pos := j\<rparr>"
    and d: "distinct (map event_id evs)"
      "event_id ` set evs \<inter> event_id ` (set (outbox s) \<union> {e}) = {}"
    and agg: "aggregate_id ` set evs = I"
    and each: "\<forall>x \<in> set evs. event_status x = EvPending \<and> published_at x = None \<and>
        length (event_id x) \<le> 18 \<and>
        (\<exists>r \<in> set (upd_where (\<lambda>r. task_id r = task_id t) requeue (tasks s)). request_for r x)"
    unfolding requeued_def by auto
  have each': "\<forall>x \<in> set evs. \<exists>r \<in> set (tasks s). request_for r x"
    using each by (fastforce simp: table_simps split: if_splits)
  have "aggregate_id e = task_id t" using row by (simp add: request_for_def)
  then show ?thesis
    unfolding requeued_def
    using s' d agg each each' ev row
    by (intro exI [of _ "e # evs"] exI [of _ j]) (auto simp: upd_where_insert_id)
qed

lemma requeued_cong:
  "requeued I s s' \<Longrightarrow> s = s0 \<Longrightarrow> requeued I s0 s'"
  by simp

lemma activate_rows_requeued:
  assumes "activate_rows E now rows s = Inr (n, s')"
    and "\<forall>r \<in> set rows. \<exists>t \<in> set (tasks s). task_id t = task_id r \<and>
      attempt_count t = attempt_count r \<and> 0 \<le> attempt_count t"
  shows "n = length rows \<and> requeued (task_id ` set rows) s s'"
  using assms
proof (induction rows arbitrary: s n)
  case Nil
  then show ?case by (simp add: requeued_empty)
next
  case (Cons r rows)
  let ?s0 = "s\<lparr>tasks := upd_where (\<lambda>t. task_id t = task_id r) requeue (tasks s)\<rparr>"
  from Cons.prems(1) obtain i s1 m where
    pub: "publish_task_request E now (task_id r) (task_type r) (attempt_count r + 1) ?s0 = Inr (i, s1)"
    and rest: "activate_rows E now rows s1 = Inr (m, s')" and n: "n = Suc m"
    by (auto split: sum.splits prod.splits)
  from publish_task_request_Inr [OF pub] obtain e where
    s1: "s1 = ?s0\<lparr>uuid_pos := Suc (uuid_pos s), outbox := outbox s @ [e]\<rparr>"
    and e: "event_id e \<notin> event_id ` set (outbox s)" "aggregate_id e = task_id r"
      "pget (event_payload e) ''attempt'' = JInt (max 1 (attempt_count r + 1))"
      "event_status e = EvPending" "published_at e = None" "length (event_id e) \<le> 18"
    by auto
  from Cons.prems(2) obtain t where
    t: "t \<in> set (tasks s)" "task_id t = task_id r" "attempt_count t = attempt_count r"
      "0 \<le> attempt_count t" by auto
  have pre: "\<forall>x \<in> set rows. \<exists>t \<in> set (tasks s1). task_id t = task_id x \<and>
      attempt_count t = attempt_count x \<and> 0 \<le> attempt_count t"
  proof
    fix x assume "x \<in> set rows"
    with Cons.prems(2) obtain y where "y \<in> set (tasks s)" "task_id y = task_id x"
      "attempt_count y = attempt_count x" "0 \<le> attempt_count y" by auto
    then show "\<exists>t \<in> set (tasks s1). task_id t = task_id x \<and>
        attempt_count t = attempt_count x \<and> 0 \<le> attempt_count t"
      by (intro bexI [of _ "if task_id y = task_id r then requeue y else y"])
         (auto simp: s1 table_simps)
  qed
  from Cons.IH [OF rest pre] have IH: "m = length rows" "requeued (task_id ` set rows) s1 s'"
    by auto
  have "requeued (insert (task_id t) (task_id ` set rows)) s s'"
    by (rule requeued_one [OF e(1) e(6) e(4) e(5) t(1), of _ "Suc (uuid_pos s)"])
       (use e t IH s1 in \<open>auto simp: request_for_def\<close>)
  with n IH t show ?case by simp
qed

text \<open>\<open>advance_watermarks_in_session\<close> as one relation between states.\<close>

definition advanced_space :: "space_row \<Rightarrow> db \<Rightarrow> space_row" where
  "advanced_space sp s = sp\<lparr>
     note_watermark := advance_mark (note_watermark sp) note_status (space_inbox (space_id sp) s),
     memory_watermark :=
       advance_mark (memory_watermark sp) memory_status (space_inbox (space_id sp) s)\<rparr>"

lemma advanced_space_sel [simp]:
  "space_id (advanced_space sp s) = space_id sp"
  "processed_sequence_no (advanced_space sp s) = processed_sequence_no sp"
  "note_watermark (advanced_space sp s) =
     advance_mark (note_watermark sp) note_status (space_inbox (space_id sp) s)"
  "memory_watermark (advanced_space sp s) =
     advance_mark (memory_watermark sp) memory_status (space_inbox (space_id sp) s)"
  by (simp_all add: advanced_space_def)

lemma ready_rows_spaces [simp]: "ready_rows sp (s\<lparr>spaces := x\<rparr>) = ready_rows sp s"
  by (simp add: ready_rows_def)

lemma advance_requeued:
  assumes "advance_watermarks_in_session E now sp s = Inr (n, s')"
    and "\<forall>t \<in> set (tasks s). 0 \<le> attempt_count t"
  shows "requeued (task_id ` set (ready_rows (advanced_space sp s) s))
    (s\<lparr>spaces := upd_where (\<lambda>r. space_id r = space_id sp) (\<lambda>_. advanced_space sp s) (spaces s)\<rparr>) s'"
proof -
  let ?s1 = "s\<lparr>spaces := upd_where (\<lambda>r. space_id r = space_id sp) (\<lambda>_. advanced_space sp s) (spaces s)\<rparr>"
  let ?rows = "sort_key (\<lambda>t. (created_at t, task_id t)) (ready_rows (advanced_space sp s) s)"
  from assms(1) have act: "activate_rows E now ?rows ?s1 = Inr (n, s')"
    by (simp add: advance_watermarks_in_session_def activate_ready_tasks_in_session_def Let_def
        advanced_space_def [symmetric])
  have "\<forall>r \<in> set ?rows. \<exists>t \<in> set (tasks ?s1). task_id t = task_id r \<and>
      attempt_count t = attempt_count r \<and> 0 \<le> attempt_count t"
    using assms(2) by (auto simp: ready_rows_def)
  from activate_rows_requeued [OF act this] show ?thesis by simp
qed

end
