(* ===== verification/Ordering.thy ===== *)
theory Ordering
  imports Watermarks Dispatch_Lemmas
begin

text \<open>
  The ordering invariant of the pipeline: keys are unique, the messages of a space are numbered
  from one without gaps, both watermarks are exactly the closed prefixes, and a task waits
  (status blocked) exactly as long as its required watermark has not been reached.

  A transaction closes stages first and advances the watermarks afterwards. \<open>order_inv D\<close> is the
  invariant with the spaces in \<open>D\<close> still to be advanced; between transactions \<open>D\<close> is empty.
\<close>

definition keys_ok :: "db \<Rightarrow> bool" where
  "keys_ok s \<longleftrightarrow> distinct (map space_id (spaces s)) \<and> distinct (map inbox_id (inbox s)) \<and>
     distinct (map task_id (tasks s)) \<and> distinct (map idempotency_key (tasks s))"

definition rows_ok :: "db \<Rightarrow> bool" where
  "rows_ok s \<longleftrightarrow> inbox_space_id ` set (inbox s) \<subseteq> space_id ` set (spaces s) \<and>
     (\<forall>sid. seqs_ok (space_inbox sid s))"

definition marks_ok :: "string set \<Rightarrow> db \<Rightarrow> bool" where
  "marks_ok D s \<longleftrightarrow> (\<forall>sp \<in> set (spaces s).
     mark_sound (note_watermark sp) note_status (space_inbox (space_id sp) s) \<and>
     mark_sound (memory_watermark sp) memory_status (space_inbox (space_id sp) s) \<and>
     (space_id sp \<notin> D \<longrightarrow>
       mark_tight (note_watermark sp) note_status (space_inbox (space_id sp) s) \<and>
       mark_tight (memory_watermark sp) memory_status (space_inbox (space_id sp) s)))"

text \<open>
  A task either carries no consistency class or it was made for a message of its own space and
  requires all earlier messages.
\<close>

definition gated :: "inbox_row list \<Rightarrow> task_row \<Rightarrow> bool" where
  "gated rows t \<longleftrightarrow> map_of (payload_json t) ''consistency'' = None \<or>
     (\<exists>c. map_of (payload_json t) ''consistency'' = Some (JStr c)) \<and>
     (\<exists>r \<in> set rows. inbox_space_id r = task_space_id t \<and>
        map_of (payload_json t) ''inbox_id'' = Some (JStr (inbox_id r)) \<and>
        map_of (payload_json t) ''required_watermark'' = Some (JInt (sequence_no r - 1)))"

definition waits :: "task_row \<Rightarrow> bool" where
  "waits t \<longleftrightarrow> map_of (payload_json t) ''consistency'' \<in> {Some (JStr ''note''), Some (JStr ''memory'')}"

definition task_ok :: "string set \<Rightarrow> db \<Rightarrow> task_row \<Rightarrow> bool" where
  "task_ok D s t \<longleftrightarrow> task_space_id t \<in> space_id ` set (spaces s) \<and> gated (inbox s) t \<and>
     0 \<le> attempt_count t \<and>
     (task_status t \<notin> {Blocked, Cancelled} \<longrightarrow> task_watermark_ready t s) \<and>
     (task_status t = Blocked \<longrightarrow> waits t) \<and>
     (task_status t = Blocked \<and> task_space_id t \<notin> D \<longrightarrow> \<not> task_watermark_ready t s)"

definition order_inv :: "string set \<Rightarrow> db \<Rightarrow> bool" where
  "order_inv D s \<longleftrightarrow> keys_ok s \<and> rows_ok s \<and> marks_ok D s \<and> (\<forall>t \<in> set (tasks s). task_ok D s t)"

lemmas order_defs = order_inv_def keys_ok_def rows_ok_def marks_ok_def

subsection \<open>Reading the invariant\<close>

lemma space_inbox_cong [simp]: "space_inbox sid (s\<lparr>spaces := a\<rparr>) = space_inbox sid s"
    "space_inbox sid (s\<lparr>tasks := b\<rparr>) = space_inbox sid s"
    "space_inbox sid (s\<lparr>tenants := c\<rparr>) = space_inbox sid s"
    "space_inbox sid (s\<lparr>attempts := d\<rparr>) = space_inbox sid s"
    "space_inbox sid (s\<lparr>outbox := e\<rparr>) = space_inbox sid s"
    "space_inbox sid (s\<lparr>uuid_pos := k\<rparr>) = space_inbox sid s"
  by (simp_all add: space_inbox_def)

lemma ready_cong: "spaces s' = spaces s \<Longrightarrow> payload_json t' = payload_json t \<Longrightarrow>
    task_space_id t' = task_space_id t \<Longrightarrow> task_watermark_ready t' s' = task_watermark_ready t s"
  by (simp add: task_watermark_ready_def Let_def)

lemma gated_mono: "gated rows t \<Longrightarrow> payload_json t' = payload_json t \<Longrightarrow>
    task_space_id t' = task_space_id t \<Longrightarrow>
    (\<And>r. r \<in> set rows \<Longrightarrow> \<exists>q \<in> set rows'. inbox_id q = inbox_id r \<and> sequence_no q = sequence_no r \<and>
       inbox_space_id q = inbox_space_id r) \<Longrightarrow> gated rows' t'"
  unfolding gated_def by metis

lemma order_inv_frame [frame_simps]:
  "order_inv D (s\<lparr>outbox := e\<rparr>) = order_inv D s" "order_inv D (s\<lparr>uuid_pos := k\<rparr>) = order_inv D s"
  "order_inv D (s\<lparr>attempts := a\<rparr>) = order_inv D s" "order_inv D (s\<lparr>tenants := ts\<rparr>) = order_inv D s"
  by (simp_all add: order_defs task_ok_def task_watermark_ready_def)

lemma order_inv_cong:
  "order_inv D s \<Longrightarrow> spaces s' = spaces s \<Longrightarrow> inbox s' = inbox s \<Longrightarrow> tasks s' = tasks s \<Longrightarrow> order_inv D s'"
  using ready_cong [of s' s] by (simp add: order_defs task_ok_def space_inbox_def)

lemma order_get_space: "order_inv D s \<Longrightarrow> sp \<in> set (spaces s) \<Longrightarrow> get_space (space_id sp) (spaces s) = Some sp"
  by (simp add: order_defs sp.lookup_of_mem)

lemma ready_for_iff:
  assumes "waits t" "gated rows t" "get_space (task_space_id t) (spaces s) = Some sp"
  shows "task_watermark_ready t s = ready_for (note_watermark sp) (memory_watermark sp) (payload_json t)"
  using assms
  by (auto simp: waits_def gated_def task_watermark_ready_def ready_for_def json_text_def json_int_def
      pget_def Let_def)

text \<open>The consistency class and the required watermark of a payload.\<close>

definition class_of :: "payload \<Rightarrow> string" where
  "class_of p = (if truthy (pget p ''consistency'') then py_str (pget p ''consistency'') else ''weak'')"

definition required_of :: "payload \<Rightarrow> int" where
  "required_of p = (case pget p ''required_watermark'' of JInt i \<Rightarrow> i | _ \<Rightarrow> 0)"

lemma ready_alt:
  "task_watermark_ready t s \<longleftrightarrow> class_of (payload_json t) \<notin> {''note'', ''memory''} \<or>
     (\<exists>sp. get_space (task_space_id t) (spaces s) = Some sp \<and>
        required_of (payload_json t) \<le> (if class_of (payload_json t) = ''memory''
          then memory_watermark sp else note_watermark sp))"
  by (simp add: task_watermark_ready_def class_of_def [symmetric] required_of_def [symmetric] Let_def
      split: option.split)

lemma ready_mono:
  assumes "task_watermark_ready t s" "payload_json t' = payload_json t"
    "task_space_id t' = task_space_id t"
    and "\<And>sp. get_space (task_space_id t) (spaces s) = Some sp \<Longrightarrow>
      \<exists>sp'. get_space (task_space_id t) (spaces s') = Some sp' \<and>
        note_watermark sp \<le> note_watermark sp' \<and> memory_watermark sp \<le> memory_watermark sp'"
  shows "task_watermark_ready t' s'"
proof (cases "class_of (payload_json t) \<in> {''note'', ''memory''}")
  case True
  with assms(1) obtain sp where sp: "get_space (task_space_id t) (spaces s) = Some sp"
    "required_of (payload_json t) \<le> (if class_of (payload_json t) = ''memory''
       then memory_watermark sp else note_watermark sp)"
    unfolding ready_alt by blast
  from assms(4) [OF sp(1)] sp(2) show ?thesis
    unfolding ready_alt assms(2,3) by (auto split: if_splits)
qed (simp add: ready_alt assms(2))

subsection \<open>Effects that keep the invariant\<close>

lemma order_inv_spaces_ext:
  assumes inv: "order_inv D s" and ext: "spaces_ext s s'"
  shows "order_inv D s'"
proof -
  from ext obtain ts new where s': "s' = s\<lparr>tenants := ts, spaces := spaces s @ new\<rparr>"
    and d: "distinct (map space_id new)" "space_id ` set new \<inter> space_id ` set (spaces s) = {}"
    and zero: "\<And>r. r \<in> set new \<Longrightarrow> note_watermark r = 0 \<and> memory_watermark r = 0"
    unfolding spaces_ext_def by blast
  have si: "space_inbox i s' = space_inbox i s" for i by (simp add: s')
  have empty: "space_inbox (space_id r) s = []" if "r \<in> set new" for r
  proof -
    have "inbox_space_id ` set (inbox s) \<subseteq> space_id ` set (spaces s)" using inv by (simp add: order_defs)
    with d(2) that have "space_id r \<notin> inbox_space_id ` set (inbox s)" by blast
    then show ?thesis by (auto simp: space_inbox_def filter_empty_conv) (metis image_eqI)
  qed
  have old: "get_space i (spaces s') = get_space i (spaces s)" if "i \<in> space_id ` set (spaces s)" for i
  proof -
    from that have "get_space i (spaces s) \<noteq> None" by (simp add: sp.lookup_None_iff)
    then show ?thesis by (auto simp: s' sp.lookup_append)
  qed
  have ready: "task_watermark_ready t s' = task_watermark_ready t s" if "t \<in> set (tasks s)" for t
  proof -
    from inv that have "task_space_id t \<in> space_id ` set (spaces s)"
      by (auto simp: order_defs task_ok_def)
    from old [OF this] show ?thesis by (simp add: task_watermark_ready_def)
  qed
  have "keys_ok s'" using inv d by (auto simp: order_defs s')
  moreover have "rows_ok s'" using inv by (auto simp: order_defs s' si)
  moreover have "marks_ok D s'"
    using inv empty zero by (auto simp: order_defs s' si mark_sound_def mark_tight_def)
  moreover have "\<forall>t \<in> set (tasks s'). task_ok D s' t"
    using inv ready by (auto simp: order_defs s' task_ok_def image_Un)
  ultimately show ?thesis by (simp add: order_inv_def)
qed

lemma space_inbox_snoc: "space_inbox sid (s\<lparr>inbox := inbox s @ [r]\<rparr>) =
    space_inbox sid s @ (if inbox_space_id r = sid then [r] else [])"
  by (simp add: space_inbox_def)

lemma next_sequence_no_eq: "order_inv D s \<Longrightarrow> next_sequence_no sid s = int (length (space_inbox sid s)) + 1"
  by (simp add: next_sequence_no_def order_defs seqs_ok_max)

lemma order_inv_new_message:
  assumes inv: "order_inv D s" and fresh: "inbox_id r \<notin> inbox_id ` set (inbox s)"
    and sp: "inbox_space_id r \<in> space_id ` set (spaces s)"
    and seq: "sequence_no r = next_sequence_no (inbox_space_id r) s"
    and D': "D \<subseteq> D'" "inbox_space_id r \<notin> D' \<Longrightarrow> \<not> closed (note_status r) \<and> \<not> closed (memory_status r)"
  shows "order_inv D' (s\<lparr>inbox := inbox s @ [r]\<rparr>)"
proof -
  let ?s = "s\<lparr>inbox := inbox s @ [r]\<rparr>"
  have n: "sequence_no r = int (length (space_inbox (inbox_space_id r) s)) + 1"
    using seq next_sequence_no_eq [OF inv] by simp
  have seqs: "seqs_ok (space_inbox i ?s)" for i
    using inv n by (auto simp: space_inbox_snoc order_defs intro: seqs_ok_snoc)
  have gat: "gated (inbox ?s) t" if "gated (inbox s) t" for t
    by (rule gated_mono [OF that]) auto
  have "keys_ok ?s" "rows_ok ?s" using inv fresh sp seqs by (auto simp: order_defs)
  moreover have "marks_ok D' ?s"
    unfolding marks_ok_def
  proof (intro ballI, goal_cases)
    case (1 x)
    with inv have x: "mark_sound (note_watermark x) note_status (space_inbox (space_id x) s)"
      "mark_sound (memory_watermark x) memory_status (space_inbox (space_id x) s)"
      "space_id x \<notin> D' \<Longrightarrow> mark_tight (note_watermark x) note_status (space_inbox (space_id x) s) \<and>
        mark_tight (memory_watermark x) memory_status (space_inbox (space_id x) s)"
      using D'(1) by (auto simp: order_defs)
    then show ?case
      using n D'(2) by (auto simp: space_inbox_snoc mark_sound_def mark_tight_def)
  qed
  moreover have "\<forall>t \<in> set (tasks ?s). task_ok D' ?s t"
    using inv gat D'(1) by (auto simp: order_inv_def task_ok_def ready_cong [of ?s s])
  ultimately show ?thesis by (simp add: order_inv_def)
qed

lemma order_inv_new_task:
  assumes inv: "order_inv D s" and fresh: "task_id t \<notin> task_id ` set (tasks s)"
      "idempotency_key t \<notin> idempotency_key ` set (tasks s)"
    and t: "task_ok D s t"
  shows "order_inv D (s\<lparr>tasks := tasks s @ [t]\<rparr>)"
  using assms by (auto simp: order_defs task_ok_def ready_cong [of "s\<lparr>tasks := tasks s @ [t]\<rparr>" s])

text \<open>A change of task rows that moves no task into or out of the waiting room.\<close>

definition task_move :: "(task_row \<Rightarrow> bool) \<Rightarrow> (task_row \<Rightarrow> task_row) \<Rightarrow> task_row list \<Rightarrow> bool" where
  "task_move P f ts \<longleftrightarrow> (\<forall>t \<in> set ts. P t \<longrightarrow> task_id (f t) = task_id t \<and>
     idempotency_key (f t) = idempotency_key t \<and> task_space_id (f t) = task_space_id t \<and>
     payload_json (f t) = payload_json t \<and> 0 \<le> attempt_count (f t) \<and>
     task_status (f t) \<noteq> Blocked \<and>
     (task_status (f t) = Cancelled \<or> task_status t \<notin> {Blocked, Cancelled}))"

lemma order_inv_task_move:
  assumes inv: "order_inv D s" and mv: "task_move P f (tasks s)"
  shows "order_inv D (s\<lparr>tasks := upd_where P f (tasks s)\<rparr>)"
proof -
  let ?s = "s\<lparr>tasks := upd_where P f (tasks s)\<rparr>"
  have "map task_id (tasks ?s) = map task_id (tasks s)"
    "map idempotency_key (tasks ?s) = map idempotency_key (tasks s)"
    using mv by (auto simp: task_move_def table_simps)
  then have "keys_ok ?s" using inv by (simp add: order_defs)
  moreover have "rows_ok ?s" "marks_ok D ?s" using inv by (auto simp: order_defs)
  moreover have "task_ok D ?s (if P t then f t else t)" if "t \<in> set (tasks s)" for t
  proof -
    have ok: "task_ok D s t" using inv that by (simp add: order_inv_def)
    show ?thesis
    proof (cases "P t")
      case True
      with mv that have f: "task_space_id (f t) = task_space_id t" "payload_json (f t) = payload_json t"
        "0 \<le> attempt_count (f t)" "task_status (f t) \<noteq> Blocked"
        "task_status (f t) = Cancelled \<or> task_status t \<notin> {Blocked, Cancelled}"
        by (auto simp: task_move_def)
      then show ?thesis
        using ok True by (auto simp: task_ok_def gated_def ready_cong [of ?s s "f t" t])
    qed (use ok in \<open>auto simp: task_ok_def ready_cong [of ?s s]\<close>)
  qed
  then have "\<forall>t \<in> set (upd_where P f (tasks s)). task_ok D ?s t" unfolding ball_upd_where by blast
  ultimately show ?thesis by (simp add: order_inv_def)
qed

text \<open>A change of message rows that closes stages and opens none.\<close>

definition stage_write :: "(inbox_row \<Rightarrow> inbox_row) \<Rightarrow> inbox_row \<Rightarrow> bool" where
  "stage_write f r \<longleftrightarrow> inbox_id (f r) = inbox_id r \<and> inbox_space_id (f r) = inbox_space_id r \<and>
     sequence_no (f r) = sequence_no r \<and> (closed (note_status r) \<longrightarrow> closed (note_status (f r))) \<and>
     (closed (memory_status r) \<longrightarrow> closed (memory_status (f r)))"

lemma mark_sound_write:
  "mark_sound wm stage rows \<Longrightarrow> (\<And>r. r \<in> set rows \<Longrightarrow> P r \<Longrightarrow> sequence_no (f r) = sequence_no r \<and>
     (closed (stage r) \<longrightarrow> closed (stage (f r)))) \<Longrightarrow> mark_sound wm stage (upd_where P f rows)"
  by (auto simp: mark_sound_def table_simps)

lemma order_inv_stage_write:
  assumes inv: "order_inv D s" and ib: "ib \<in> set (inbox s)" and ib': "stage_write (\<lambda>_. ib') ib"
    and D': "D \<subseteq> D'" "inbox_space_id ib \<in> D'"
  shows "order_inv D' (s\<lparr>inbox := upd_where (\<lambda>r. inbox_id r = inbox_id ib) (\<lambda>_. ib') (inbox s)\<rparr>)"
proof -
  let ?P = "\<lambda>r. inbox_id r = inbox_id ib" and ?f = "\<lambda>_::inbox_row. ib'"
  let ?s = "s\<lparr>inbox := upd_where ?P ?f (inbox s)\<rparr>"
  have only: "r = ib" if "r \<in> set (inbox s)" "?P r" for r
    using ib.same_row [of "inbox s" r ib] inv ib that by (auto simp: order_defs)
  have w: "stage_write ?f r" if "r \<in> set (inbox s)" "?P r" for r using only [OF that] ib' by simp
  have si: "space_inbox i ?s = upd_where ?P ?f (space_inbox i s)" for i
  proof -
    have "filter (\<lambda>r. inbox_space_id r = i) (upd_where ?P ?f rows) =
        upd_where ?P ?f (filter (\<lambda>r. inbox_space_id r = i) rows)" if "set rows \<subseteq> set (inbox s)" for rows
      using that w by (induction rows) (auto simp: stage_write_def)
    then show ?thesis by (simp add: space_inbox_def)
  qed
  have sub: "set (space_inbox i s) \<subseteq> set (inbox s)" for i by (auto simp: space_inbox_def)
  have seq: "map sequence_no (space_inbox i ?s) = map sequence_no (space_inbox i s)" for i
    unfolding si using w sub by (intro map_upd_where) (auto simp: stage_write_def)
  have other: "space_inbox i ?s = space_inbox i s" if "i \<noteq> inbox_space_id ib" for i
    unfolding si using only that by (intro upd_where_none) (auto simp: space_inbox_def)
  have gat: "gated (inbox ?s) t" if "gated (inbox s) t" for t
    using that
  proof (rule gated_mono)
    fix r assume "r \<in> set (inbox s)"
    then show "\<exists>q \<in> set (inbox ?s). inbox_id q = inbox_id r \<and> sequence_no q = sequence_no r \<and>
        inbox_space_id q = inbox_space_id r"
      using w [of r] by (intro bexI [of _ "if ?P r then ib' else r"])
        (auto simp: set_upd_where stage_write_def)
  qed simp_all
  have "map inbox_id (inbox ?s) = map inbox_id (inbox s)"
    using w by (auto simp: stage_write_def intro!: map_upd_where)
  then have "keys_ok ?s" using inv by (simp add: order_defs)
  moreover have "rows_ok ?s"
    using inv seqs_ok_map_seq [OF seq] w by (fastforce simp: order_defs set_upd_where stage_write_def)
  moreover have "marks_ok D' ?s"
    unfolding marks_ok_def
  proof (intro ballI, goal_cases)
    case (1 x)
    with inv D' have x: "mark_sound (note_watermark x) note_status (space_inbox (space_id x) s)"
      "mark_sound (memory_watermark x) memory_status (space_inbox (space_id x) s)"
      "space_id x \<notin> D' \<Longrightarrow> mark_tight (note_watermark x) note_status (space_inbox (space_id x) s) \<and>
        mark_tight (memory_watermark x) memory_status (space_inbox (space_id x) s)"
      by (auto simp: order_defs)
    have "mark_sound (note_watermark x) note_status (space_inbox (space_id x) ?s)"
      "mark_sound (memory_watermark x) memory_status (space_inbox (space_id x) ?s)"
      unfolding si using x(1,2) w sub by (auto intro!: mark_sound_write simp: stage_write_def subset_iff)
    moreover have "space_inbox (space_id x) ?s = space_inbox (space_id x) s" if "space_id x \<notin> D'"
      using that other D'(2) by metis
    ultimately show ?case using x(3) by simp
  qed
  moreover have "\<forall>t \<in> set (tasks ?s). task_ok D' ?s t"
    using inv gat D'(1) by (auto simp: order_inv_def task_ok_def ready_cong [of ?s s])
  ultimately show ?thesis by (simp add: order_inv_def)
qed

text \<open>A space row rewritten without touching its watermarks.\<close>

lemma order_inv_space_write:
  assumes inv: "order_inv D s" and sp: "sp \<in> set (spaces s)"
    and sp': "space_id sp' = space_id sp" "note_watermark sp' = note_watermark sp"
      "memory_watermark sp' = memory_watermark sp"
  shows "order_inv D (s\<lparr>spaces := upd_where (\<lambda>r. space_id r = space_id sp) (\<lambda>_. sp') (spaces s)\<rparr>)"
proof -
  let ?P = "\<lambda>r. space_id r = space_id sp"
  let ?s = "s\<lparr>spaces := upd_where ?P (\<lambda>_. sp') (spaces s)\<rparr>"
  have only: "r = sp" if "r \<in> set (spaces s)" "?P r" for r
    using sp.same_row [of "spaces s" r sp] inv sp that by (auto simp: order_defs)
  have ids: "map space_id (spaces ?s) = map space_id (spaces s)"
    using sp' by (auto intro!: map_upd_where)
  have look: "get_space i (spaces ?s) =
      map_option (\<lambda>r. if ?P r then sp' else r) (get_space i (spaces s))" for i
    using sp' by (simp add: sp.lookup_upd_where)
  have at: "r = sp" if "get_space i (spaces s) = Some r" "?P r" for i r
    using sp.lookup_mem [OF that(1)] only that(2) by blast
  have upw: "\<exists>r'. get_space i (spaces ?s) = Some r' \<and> note_watermark r \<le> note_watermark r' \<and>
      memory_watermark r \<le> memory_watermark r'" if "get_space i (spaces s) = Some r" for i r
    unfolding look using that at [OF that] sp' by (cases "?P r") auto
  have down: "\<exists>r. get_space i (spaces s) = Some r \<and> note_watermark r' \<le> note_watermark r \<and>
      memory_watermark r' \<le> memory_watermark r" if "get_space i (spaces ?s) = Some r'" for i r'
  proof -
    from that obtain q where q: "get_space i (spaces s) = Some q" "r' = (if ?P q then sp' else q)"
      unfolding look by auto
    with at [OF q(1)] sp' show ?thesis by auto
  qed
  have ready: "task_watermark_ready t ?s = task_watermark_ready t s" for t
    using ready_mono [of t s t ?s, OF _ refl refl upw] ready_mono [of t ?s t s, OF _ refl refl down]
    by blast
  have ids': "space_id ` set (spaces ?s) = space_id ` set (spaces s)" using ids by (metis list.set_map)
  have "keys_ok ?s" "rows_ok ?s" using inv ids ids' by (auto simp: order_defs)
  moreover have "marks_ok D ?s"
    using inv only sp' sp by (auto simp: order_defs set_upd_where)
  moreover have "\<forall>t \<in> set (tasks ?s). task_ok D ?s t"
    using inv ready ids' by (auto simp: order_inv_def task_ok_def)
  ultimately show ?thesis by (simp add: order_inv_def)
qed

text \<open>
  The advance: the watermarks of a space move to the closed prefix and the waiting tasks of the
  space that are ready at the new watermarks, the set \<open>I\<close>, are queued.
\<close>

lemma order_inv_advance:
  assumes inv: "order_inv D s" and sp: "sp \<in> set (spaces s)" and sid: "space_id sp' = space_id sp"
    and nwm: "note_watermark sp' =
      advance_mark (note_watermark sp) note_status (space_inbox (space_id sp) s)"
    and mwm: "memory_watermark sp' =
      advance_mark (memory_watermark sp) memory_status (space_inbox (space_id sp) s)"
    and s1: "s1 = s\<lparr>spaces := upd_where (\<lambda>r. space_id r = space_id sp) (\<lambda>_. sp') (spaces s)\<rparr>"
    and I: "\<And>t. t \<in> set (tasks s) \<Longrightarrow> task_id t \<in> I \<longleftrightarrow>
      task_space_id t = space_id sp \<and> task_status t = Blocked \<and> task_watermark_ready t s1"
  shows "order_inv (D - {space_id sp}) (s1\<lparr>tasks := upd_where (\<lambda>t. task_id t \<in> I) requeue (tasks s)\<rparr>)"
proof -
  let ?P = "\<lambda>r. space_id r = space_id sp" and ?D = "D - {space_id sp}"
  let ?s = "s1\<lparr>tasks := upd_where (\<lambda>t. task_id t \<in> I) requeue (tasks s)\<rparr>"
  have only: "r = sp" if "r \<in> set (spaces s)" "?P r" for r
    using sp.same_row [of "spaces s" r sp] inv sp that by (auto simp: order_defs)
  have ids: "map space_id (spaces ?s) = map space_id (spaces s)"
    using sid by (auto simp: s1 intro!: map_upd_where)
  then have ids': "space_id ` set (spaces ?s) = space_id ` set (spaces s)" by (metis list.set_map)
  have look: "get_space i (spaces ?s) =
      map_option (\<lambda>r. if ?P r then sp' else r) (get_space i (spaces s))" for i
    using sid by (simp add: s1 sp.lookup_upd_where)
  have adv: "mark_sound (note_watermark sp') note_status (space_inbox (space_id sp) s)"
    "mark_tight (note_watermark sp') note_status (space_inbox (space_id sp) s)"
    "note_watermark sp \<le> note_watermark sp'"
    "mark_sound (memory_watermark sp') memory_status (space_inbox (space_id sp) s)"
    "mark_tight (memory_watermark sp') memory_status (space_inbox (space_id sp) s)"
    "memory_watermark sp \<le> memory_watermark sp'"
    using advance_mark_ok inv sp by (auto simp: nwm mwm order_defs)
  have up: "\<exists>r'. get_space i (spaces ?s) = Some r' \<and> note_watermark r \<le> note_watermark r' \<and>
      memory_watermark r \<le> memory_watermark r'" if "get_space i (spaces s) = Some r" for i r
    unfolding look using that only [of r] sp.lookup_mem [OF that] adv by (cases "?P r") auto
  have ready: "task_watermark_ready t' ?s" if "task_watermark_ready t s"
      "payload_json t' = payload_json t" "task_space_id t' = task_space_id t" for t t'
    using ready_mono [OF that up] .
  have ready1: "task_watermark_ready t' ?s = task_watermark_ready t s1"
    if "payload_json t' = payload_json t" "task_space_id t' = task_space_id t" for t t'
    using that by (intro ready_cong) (simp_all add: s1)
  have away: "task_watermark_ready t s1 = task_watermark_ready t s" if "task_space_id t \<noteq> space_id sp" for t
  proof -
    have "get_space (task_space_id t) (spaces s1) = get_space (task_space_id t) (spaces s)"
      using look [of "task_space_id t"] that sp.lookup_mem [of "task_space_id t" "spaces s"]
      by (cases "get_space (task_space_id t) (spaces s)") auto
    then show ?thesis by (simp add: task_watermark_ready_def)
  qed
  have si: "space_inbox i ?s = space_inbox i s" for i by (simp add: s1)
  have "keys_ok ?s" using inv ids by (auto simp: order_defs s1 table_simps)
  moreover have "rows_ok ?s" using inv ids' by (auto simp: order_defs si s1)
  moreover have "marks_ok ?D ?s"
  proof -
    have "\<forall>x \<in> set (upd_where ?P (\<lambda>_. sp') (spaces s)).
      mark_sound (note_watermark x) note_status (space_inbox (space_id x) s) \<and>
      mark_sound (memory_watermark x) memory_status (space_inbox (space_id x) s) \<and>
      (space_id x \<notin> ?D \<longrightarrow> mark_tight (note_watermark x) note_status (space_inbox (space_id x) s) \<and>
        mark_tight (memory_watermark x) memory_status (space_inbox (space_id x) s))"
      unfolding ball_upd_where using inv adv sid by (auto simp: order_defs)
    then show ?thesis by (simp add: marks_ok_def si s1)
  qed
  moreover have "\<forall>t \<in> set (upd_where (\<lambda>t. task_id t \<in> I) requeue (tasks s)). task_ok ?D ?s t"
    unfolding ball_upd_where
  proof
    fix t assume t: "t \<in> set (tasks s)"
    have ok: "task_ok D s t" using inv t by (simp add: order_inv_def)
    have in': "inbox ?s = inbox s" by (simp add: s1)
    show "task_ok ?D ?s (if task_id t \<in> I then requeue t else t)"
    proof (cases "task_id t \<in> I")
      case True
      with I [OF t] have "task_watermark_ready (requeue t) ?s" by (subst ready1) auto
      with True ok show ?thesis unfolding task_ok_def ids' in' by (simp add: gated_def)
    next
      case False
      have "\<not> task_watermark_ready t ?s" if "task_status t = Blocked" "task_space_id t \<notin> ?D"
        using that False I [OF t] ok away [of t] unfolding ready1 [of t t, OF refl refl]
        by (auto simp: task_ok_def)
      with False ok ready [of t t] show ?thesis unfolding task_ok_def ids' in' by simp
    qed
  qed
  ultimately show ?thesis by (simp add: order_inv_def s1)
qed

end
