(* ===== verification/Ordering_Ops.thy ===== *)
theory Ordering_Ops
  imports Ordering
begin

text \<open>Every operation on the task pipeline keeps the ordering invariant.\<close>

subsection \<open>The advance\<close>

lemma ready_rows_ids:
  assumes inv: "order_inv D s" and sp: "sp \<in> set (spaces s)" and sid: "space_id sp' = space_id sp"
    and s1: "s1 = s\<lparr>spaces := upd_where (\<lambda>r. space_id r = space_id sp) (\<lambda>_. sp') (spaces s)\<rparr>"
    and t: "t \<in> set (tasks s)"
  shows "task_id t \<in> task_id ` set (ready_rows sp' s) \<longleftrightarrow>
    task_space_id t = space_id sp \<and> task_status t = Blocked \<and> task_watermark_ready t s1"
proof -
  have uniq: "u = t" if "u \<in> set (tasks s)" "task_id u = task_id t" for u
    using tk.same_row [of "tasks s" u t] inv t that by (auto simp: order_defs)
  have get1: "get_space (space_id sp) (spaces s1) = Some sp'"
    using order_get_space [OF inv sp] sid by (simp add: s1 sp.lookup_upd_where)
  have ok: "task_ok D s t" using inv t by (simp add: order_inv_def)
  have "task_watermark_ready t s1 = ready_for (note_watermark sp') (memory_watermark sp') (payload_json t)"
    if "task_space_id t = space_id sp" "task_status t = Blocked"
    using ok that get1 by (intro ready_for_iff [of t "inbox s"]) (auto simp: task_ok_def)
  moreover have "task_id t \<in> task_id ` set (ready_rows sp' s) \<longleftrightarrow> t \<in> set (ready_rows sp' s)"
    using uniq by (auto simp: ready_rows_def)
  ultimately show ?thesis
    using t sid by (auto simp: ready_rows_def)
qed

lemma advance_order_inv:
  assumes inv: "order_inv D s" and sp: "sp \<in> set (spaces s)"
    and adv: "advance_watermarks_in_session E now sp s = Inr (n, s')"
  shows "order_inv (D - {space_id sp}) s'"
proof -
  let ?s1 = "s\<lparr>spaces := upd_where (\<lambda>r. space_id r = space_id sp) (\<lambda>_. advanced_space sp s) (spaces s)\<rparr>"
  let ?I = "task_id ` set (ready_rows (advanced_space sp s) s)"
  have "\<forall>t \<in> set (tasks s). 0 \<le> attempt_count t" using inv by (auto simp: order_inv_def task_ok_def)
  from advance_requeued [OF adv this] obtain evs k where
    s': "s' = ?s1\<lparr>tasks := upd_where (\<lambda>t. task_id t \<in> ?I) requeue (tasks s), outbox := outbox s @ evs,
      uuid_pos := k\<rparr>"
    unfolding requeued_def by auto
  have "order_inv (D - {space_id sp}) (?s1\<lparr>tasks := upd_where (\<lambda>t. task_id t \<in> ?I) requeue (tasks s)\<rparr>)"
    using ready_rows_ids [OF inv sp _ refl, of "advanced_space sp s"]
    by (intro order_inv_advance [OF inv sp _ _ _ refl]) auto
  then show ?thesis unfolding s' frame_simps .
qed

lemma order_inv_weaken: "order_inv D s \<Longrightarrow> D \<subseteq> D' \<Longrightarrow> order_inv D' s"
  by (auto simp: order_defs task_ok_def)

subsection \<open>New tasks\<close>

lemma task_added_order_inv:
  assumes "order_inv D s" "task_added t s s'" "task_ok D s t"
  shows "order_inv D s' \<and> spaces s' = spaces s \<and> inbox s' = inbox s"
proof -
  from assms(2) obtain evs k where fresh: "task_id t \<notin> task_id ` set (tasks s)"
      "idempotency_key t \<notin> idempotency_key ` set (tasks s)"
    and s': "s' = s\<lparr>tasks := tasks s @ [t], outbox := outbox s @ evs, uuid_pos := k\<rparr>"
    unfolding task_added_def by blast
  from order_inv_new_task [OF assms(1) fresh assms(3)] show ?thesis
    unfolding s' frame_simps by simp
qed

lemma enqueue_in_session_order_inv:
  assumes inv: "order_inv D s"
    and run: "enqueue_task_in_session E now ctx ty tn sid msg idem p prio maxa st (st = Queued) s
      = Inr ((tid, created), s')"
    and ok: "\<And>t. task_space_id t = sid \<Longrightarrow> task_status t = st \<Longrightarrow> attempt_count t = 0 \<Longrightarrow>
      payload_json t = trace_payload ctx p \<Longrightarrow> task_ok D s t"
  shows "order_inv D s' \<and> spaces s' = spaces s \<and> inbox s' = inbox s"
proof (cases created)
  case True
  with enqueue_in_session_Inr [OF run] have
    "task_added (new_task_row tid now ty tn sid msg idem (trace_payload ctx p) prio maxa st) s s'" by simp
  from task_added_order_inv [OF inv this] ok show ?thesis by simp
next
  case False
  with enqueue_in_session_Inr [OF run] inv show ?thesis by (simp add: frame_simps)
qed

text \<open>
  The program enqueues follow-up tasks (delivery, memory, enrichment, summary, ...) as queued and
  published tasks whose payload carries no consistency class.
\<close>

lemma enqueue_task_order_inv:
  assumes inv: "order_inv D s" and p: "map_of p ''consistency'' = None"
    and run: "enqueue_task E now ctx ty sid idem p tn msg prio maxa Queued True s = Inr ((tid, created), s')"
  shows "order_inv D s'"
proof -
  from run obtain sid' s1 where ext: "ensure_tenant_space E sid tn ''feishu'' [] s = Inr (sid', s1)"
    and enq: "enqueue_task_in_session E now ctx ty tn sid' msg idem p prio maxa Queued (Queued = Queued) s1 =
      Inr ((tid, created), s')"
    by (auto simp: enqueue_task_def split: sum.splits prod.splits)
  from ensure_tenant_space_ext [OF ext] have inv1: "order_inv D s1" and sid': "sid' \<in> space_id ` set (spaces s1)"
    using order_inv_spaces_ext [OF inv] by auto
  have ok: "task_ok D s1 t" if "task_space_id t = sid'" "task_status t = Queued" "attempt_count t = 0"
    "payload_json t = trace_payload ctx p" for t
    using that sid' p by (simp add: task_ok_def gated_def task_watermark_ready_def pget_def)
  show ?thesis by (rule conjunct1 [OF enqueue_in_session_order_inv [OF inv1 enq ok]])
qed

subsection \<open>Receiving a command\<close>

lemma accepted_payload:
  fixes p sp iid seq c req
  defines "q \<equiv> pmerge p [(''source_space_id'', JStr sp), (''inbox_id'', JStr iid),
      (''sequence_no'', JInt seq), (''consistency'', JStr c), (''required_watermark'', JInt req)]"
  shows "map_of q ''inbox_id'' = Some (JStr iid)" "map_of q ''consistency'' = Some (JStr c)"
    "map_of q ''required_watermark'' = Some (JInt req)"
  by (simp_all add: q_def map_of_pmerge)

lemma accepted_task_ok:
  assumes inv: "order_inv D s" and space: "get_space sid (spaces s) = Some space"
    and r: "r \<in> set (inbox s)" "inbox_space_id r = sid" "inbox_id r = iid" "sequence_no r = seq" "1 \<le> seq"
    and t: "task_space_id t = sid" "attempt_count t = 0"
      "map_of (payload_json t) ''inbox_id'' = Some (JStr iid)"
      "map_of (payload_json t) ''consistency'' = Some (JStr c)"
      "map_of (payload_json t) ''required_watermark'' = Some (JInt (max 0 (seq - 1)))"
    and st: "task_status t = (if c \<in> {''note'', ''memory''} \<and>
      (if c = ''memory'' then memory_watermark space else note_watermark space) < max 0 (seq - 1)
      then Blocked else Queued)"
  shows "task_ok D s t"
proof -
  have "gated (inbox s) t" unfolding gated_def using r t by (auto intro!: bexI [of _ r])
  moreover have "sid \<in> space_id ` set (spaces s)"
    using sp.lookup_mem [OF space] by (metis image_eqI)
  moreover have "class_of (payload_json t) = (if c = [] then ''weak'' else c)"
    "required_of (payload_json t) = max 0 (seq - 1)"
    using t by (auto simp: class_of_def required_of_def pget_def)
  ultimately show ?thesis
    using st space t by (auto simp: task_ok_def ready_alt waits_def split: if_splits)
qed

lemma inbox_row_of_sel [simp]:
  "inbox_id (inbox_row_of iid tn sid seq c) = iid"
  "inbox_space_id (inbox_row_of iid tn sid seq c) = sid"
  "inbox_tenant_id (inbox_row_of iid tn sid seq c) = tn"
  "sequence_no (inbox_row_of iid tn sid seq c) = seq"
  "note_status (inbox_row_of iid tn sid seq c) =
     (if cmd_task_type c = ''ingest'' then StagePending else StageCompleted)"
  "memory_status (inbox_row_of iid tn sid seq c) =
     (if cmd_task_type c = ''ingest'' then StagePending else StageCompleted)"
  by (simp_all add: inbox_row_of_def Let_def)

text \<open>The three steps of \<open>accept_command\<close>: the message, the task, the advance.\<close>

lemma accept_command_Inr:
  assumes "accept_command E now ctx c tenant sid s = Inr (res, s')"
  defines "seq \<equiv> next_sequence_no sid s" and "cons \<equiv> task_consistency E (cmd_task_type c) (cmd_payload c)"
    and "iid \<equiv> ''inbox_'' @ take 12 (uuid_hex E (uuid_pos s))"
  defines "r \<equiv> inbox_row_of iid tenant sid seq c"
    and "p \<equiv> pmerge (cmd_payload c) [(''source_space_id'', JStr (cmd_space_id c)), (''inbox_id'', JStr iid),
      (''sequence_no'', JInt seq), (''consistency'', JStr cons),
      (''required_watermark'', JInt (max 0 (seq - 1)))]"
  shows "\<exists>space tid created s3 st.
    insert_inbox r (s\<lparr>uuid_pos := Suc (uuid_pos s)\<rparr>) =
      Inr ((), s\<lparr>uuid_pos := Suc (uuid_pos s), inbox := inbox s @ [r]\<rparr>) \<and>
    get_space sid (spaces s) = Some space \<and>
    st = (if cons \<in> {''note'', ''memory''} \<and>
      (if cons = ''memory'' then memory_watermark space else note_watermark space) < max 0 (seq - 1)
      then Blocked else Queued) \<and>
    enqueue_task_in_session E now ctx (cmd_task_type c) tenant sid (Some (cmd_source_message_id c))
      (command_key tenant (cmd_task_type c) (cmd_source c) (cmd_source_message_id c))
      p 0 (cmd_max_attempts c) st (st = Queued)
      (s\<lparr>uuid_pos := Suc (uuid_pos s), inbox := inbox s @ [r]\<rparr>) = Inr ((tid, created), s3) \<and>
    res = \<lparr>res_inbox_id = iid, res_task_id = Some tid, res_created = True, res_duplicate = False,
      res_in_progress = False\<rparr> \<and>
    (if cmd_task_type c = ''ingest'' then s' = s3
     else \<exists>n. advance_watermarks_in_session E now space s3 = Inr (n, s'))"
proof -
  have r0: "r = inbox_row_of (''inbox_'' @ take 12 (uuid_hex E (uuid_pos s))) tenant sid
      (next_sequence_no sid s) c" by (simp add: r_def iid_def seq_def)
  from assms(1) obtain space where
    ins: "insert_inbox r (s\<lparr>uuid_pos := Suc (uuid_pos s)\<rparr>) =
      Inr ((), s\<lparr>uuid_pos := Suc (uuid_pos s), inbox := inbox s @ [r]\<rparr>)"
    and sp: "get_space sid (spaces s) = Some space"
    by (auto simp: accept_command_def new_id_def draw_def Let_def r0 insert_inbox_Inr
        split: sum.splits option.splits)
  show ?thesis
    using assms(1) ins sp
    by (auto simp: accept_command_def new_id_def draw_def Let_def r_def iid_def seq_def cons_def p_def
        split: sum.splits prod.splits if_splits)
qed

lemma accept_command_order_inv:
  assumes inv: "order_inv {} s" and run: "accept_command E now ctx c tenant sid s = Inr (res, s')"
  shows "order_inv {} s'"
proof -
  define seq where "seq = next_sequence_no sid s"
  define cons where "cons = task_consistency E (cmd_task_type c) (cmd_payload c)"
  define iid where "iid = ''inbox_'' @ take 12 (uuid_hex E (uuid_pos s))"
  define r where "r = inbox_row_of iid tenant sid seq c"
  define p where "p = pmerge (cmd_payload c) [(''source_space_id'', JStr (cmd_space_id c)),
    (''inbox_id'', JStr iid), (''sequence_no'', JInt seq), (''consistency'', JStr cons),
    (''required_watermark'', JInt (max 0 (seq - 1)))]"
  let ?s1 = "s\<lparr>uuid_pos := Suc (uuid_pos s)\<rparr>"
  let ?s2 = "?s1\<lparr>inbox := inbox s @ [r]\<rparr>"
  let ?D = "if cmd_task_type c = ''ingest'' then {} else {sid}"
  from accept_command_Inr [OF run, folded seq_def cons_def iid_def, folded r_def p_def]
  obtain space tid created s3 st where ins: "insert_inbox r ?s1 = Inr ((), ?s2)"
    and sp: "get_space sid (spaces s) = Some space"
    and st: "st = (if cons \<in> {''note'', ''memory''} \<and>
      (if cons = ''memory'' then memory_watermark space else note_watermark space) < max 0 (seq - 1)
      then Blocked else Queued)"
    and enq: "enqueue_task_in_session E now ctx (cmd_task_type c) tenant sid (Some (cmd_source_message_id c))
      (command_key tenant (cmd_task_type c) (cmd_source c) (cmd_source_message_id c))
      p 0 (cmd_max_attempts c) st (st = Queued) ?s2 = Inr ((tid, created), s3)"
    and fin: "if cmd_task_type c = ''ingest'' then s' = s3
      else \<exists>n. advance_watermarks_in_session E now space s3 = Inr (n, s')"
    by blast
  have space: "space \<in> set (spaces s)" "space_id space = sid" using sp.lookup_mem [OF sp] by auto
  have inv2: "order_inv ?D ?s2"
  proof (rule order_inv_new_message [where D = "{}" and s = ?s1, simplified])
    show "order_inv {} ?s1" using inv by (simp add: frame_simps)
    show "inbox_id r \<notin> inbox_id ` set (inbox s)" using ins by (simp add: insert_inbox_Inr)
    show "inbox_space_id r \<in> space_id ` set (spaces s)" using space by (auto simp: r_def)
    show "sequence_no r = next_sequence_no (inbox_space_id r) ?s1"
      by (simp add: r_def seq_def next_sequence_no_def)
    show "inbox_space_id r \<notin> ?D \<Longrightarrow> \<not> closed (note_status r) \<and> \<not> closed (memory_status r)"
      by (auto simp: r_def closed_def split: if_splits)
  qed
  have seq1: "1 \<le> seq" unfolding seq_def next_sequence_no_eq [OF inv] by simp
  then have m: "max 0 (seq - 1) = seq - 1" by simp
  have ok: "task_ok ?D ?s2 t" if "task_space_id t = sid" "task_status t = st" "attempt_count t = 0"
    "payload_json t = trace_payload ctx p" for t
    using that sp st seq1 accepted_payload [of "cmd_payload c" "cmd_space_id c" iid seq cons "max 0 (seq - 1)"]
    by (intro accepted_task_ok [OF inv2, of sid space r iid seq t cons])
       (simp_all add: r_def p_def m)
  have inv3: "order_inv ?D s3 \<and> spaces s3 = spaces ?s2 \<and> inbox s3 = inbox ?s2"
    by (rule enqueue_in_session_order_inv [OF inv2 enq ok])
  then have space3: "space \<in> set (spaces s3)" using space by simp
  show ?thesis
  proof (cases "cmd_task_type c = ''ingest''")
    case False
    with fin obtain n where "advance_watermarks_in_session E now space s3 = Inr (n, s')" by auto
    from advance_order_inv [OF conjunct1 [OF inv3] space3 this] space(2) False show ?thesis by simp
  qed (use fin inv3 in simp)
qed

lemma receive_command_order_inv:
  assumes inv: "order_inv {} s" and run: "receive_command E now ctx c s = Inr (res, s')"
  shows "order_inv {} s'"
proof -
  let ?tn = "if cmd_tenant_id c = [] then ''default'' else cmd_tenant_id c"
  from run obtain sid s1 where ext: "ensure_tenant_space E (cmd_space_id c) ?tn (cmd_source c) [] s = Inr (sid, s1)"
    and rest: "s' = s1 \<or> accept_command E now ctx c ?tn sid s1 = Inr (res, s')"
    by (auto simp: receive_command_def Let_def split: sum.splits option.splits prod.splits if_splits)
  have "order_inv {} s1" using order_inv_spaces_ext [OF inv] ensure_tenant_space_ext [OF ext] by blast
  with rest accept_command_order_inv show ?thesis by blast
qed

subsection \<open>Stages of a message\<close>

lemma put_rows_order_inv:
  assumes inv: "order_inv D s" and ib: "ib \<in> set (inbox s)" "stage_write (\<lambda>_. ib') ib"
    and sp: "sp \<in> set (spaces s)" "inbox_space_id ib = space_id sp" "space_id sp' = space_id sp"
      "note_watermark sp' = note_watermark sp" "memory_watermark sp' = memory_watermark sp"
  shows "order_inv (insert (space_id sp) D) (put_rows ib' sp' s)"
proof -
  let ?s1 = "s\<lparr>inbox := upd_where (\<lambda>r. inbox_id r = inbox_id ib) (\<lambda>_. ib') (inbox s)\<rparr>"
  have "order_inv (insert (space_id sp) D) ?s1"
    by (rule order_inv_stage_write [OF inv ib]) (use sp in auto)
  from order_inv_space_write [OF this, of sp sp'] sp ib show ?thesis
    by (simp add: put_rows_def stage_write_def)
qed

lemma put_rows_mem: "sp \<in> set (spaces s) \<Longrightarrow> space_id sp' = space_id sp \<Longrightarrow> sp' \<in> set (spaces (put_rows ib' sp' s))"
  by (auto simp: put_rows_def set_upd_where image_iff intro!: bexI [of _ sp])

lemma closed_simps [simp]: "closed StageCompleted" "closed StageFailed" "\<not> closed StagePending"
  by (simp_all add: closed_def)

lemma stage_rows_write:
  assumes "stage_rows now note memory finalize success error (ib, sp) = (ib', sp')"
  shows "stage_write (\<lambda>_. ib') ib \<and> space_id sp' = space_id sp \<and>
    note_watermark sp' = note_watermark sp \<and> memory_watermark sp' = memory_watermark sp"
  using assms
  by (auto simp: stage_rows_def complete_note_stage_def complete_memory_stage_def finalize_stage_def
      record_memory_gap_def stage_write_def Let_def split: if_splits)

lemma complete_inbox_stage_order_inv:
  assumes inv: "order_inv D s"
    and run: "complete_inbox_stage_in_session E now iid note memory finalize success error s = Inr (n, s')"
  shows "order_inv D s'"
proof -
  from run obtain ib sp ib' sp' where ib: "get_inbox iid (inbox s) = Some ib"
    and sp: "get_space (inbox_space_id ib) (spaces s) = Some sp"
    and rows: "stage_rows now note memory finalize success error (ib, sp) = (ib', sp')"
    and adv: "advance_watermarks_in_session E now sp' (put_rows ib' sp' s) = Inr (n, s')"
    by (auto simp: complete_inbox_stage_in_session_def split: option.splits prod.splits)
  note w = stage_rows_write [OF rows]
  have m: "ib \<in> set (inbox s)" "sp \<in> set (spaces s)" "inbox_space_id ib = space_id sp"
    using ib.lookup_mem [OF ib] sp.lookup_mem [OF sp] by auto
  from w m have "order_inv (insert (space_id sp) D) (put_rows ib' sp' s)"
    by (intro put_rows_order_inv [OF inv]) auto
  from advance_order_inv [OF this _ adv] put_rows_mem [OF m(2), of sp' ib'] w
  have "order_inv (insert (space_id sp) D - {space_id sp}) s'" by simp
  then show ?thesis by (rule order_inv_weaken) auto
qed

lemma cancel_root_order_inv:
  "order_inv D s \<Longrightarrow> order_inv D (s\<lparr>tasks := cancel_root_tasks now reason msg (tasks s)\<rparr>)"
  unfolding cancel_root_tasks_def
  by (rule order_inv_task_move) (auto simp: task_move_def order_inv_def task_ok_def)

lemma skip_inbox_order_inv:
  assumes inv: "order_inv D s" and run: "skip_inbox_record E now iid st cancel s = Inr (b, s')"
  shows "order_inv D s'"
proof (cases "get_inbox iid (inbox s)")
  case None
  with run inv show ?thesis by (simp add: skip_inbox_record_def)
next
  case (Some ib)
  define ib' where "ib' = ib\<lparr>inbox_status := st, note_status := StageCompleted,
    memory_status := StageCompleted, note_completed_at := Some now, memory_completed_at := Some now\<rparr>"
  from run Some obtain sp s2 n where sp: "get_space (inbox_space_id ib) (spaces s) = Some sp"
    and s2: "s2 = put_rows ib' sp s \<or> (\<exists>m r. s2 = (put_rows ib' sp s)\<lparr>tasks :=
      cancel_root_tasks now r m (tasks (put_rows ib' sp s))\<rparr>)"
    and adv: "advance_watermarks_in_session E now sp s2 = Inr (n, s')"
    unfolding skip_inbox_record_def ib'_def Let_def
    by (simp split: option.splits sum.splits prod.splits if_splits) blast+
  have m: "ib \<in> set (inbox s)" "sp \<in> set (spaces s)" "inbox_space_id ib = space_id sp"
    using ib.lookup_mem [OF Some] sp.lookup_mem [OF sp] by auto
  have "stage_write (\<lambda>_. ib') ib" by (simp add: stage_write_def ib'_def)
  with m have "order_inv (insert (space_id sp) D) (put_rows ib' sp s)"
    by (intro put_rows_order_inv [OF inv]) auto
  with s2 have "order_inv (insert (space_id sp) D) s2" "spaces s2 = spaces (put_rows ib' sp s)"
    using cancel_root_order_inv by auto
  with advance_order_inv [OF this(1) _ adv] put_rows_mem [OF m(2), of sp ib']
  have "order_inv (insert (space_id sp) D - {space_id sp}) s'" by simp
  then show ?thesis by (rule order_inv_weaken) auto
qed

subsection \<open>Operations of the lease holder\<close>

lemma order_inv_attempt_nonneg: "order_inv D s \<Longrightarrow> t \<in> set (tasks s) \<Longrightarrow> 0 \<le> attempt_count t"
  by (simp add: order_inv_def task_ok_def)

lemma claim_order_inv:
  assumes inv: "order_inv D s" and run: "claim_task E now tid worker stale s = Inr (x, s')"
  shows "order_inv D s'"
proof (cases x)
  case None
  with run inv show ?thesis
    by (auto simp: claim_task_def draw_def Let_def frame_simps split: option.splits if_splits)
next
  case (Some c)
  let ?before = "now - max 1 stale * second" and ?tok = "uuid_hex E (uuid_pos s)"
  from run Some obtain cand ats where
    cand: "find (\<lambda>t. task_id t = tid \<and> claimable now ?before t) (tasks s) = Some cand"
    and s': "s' = s\<lparr>uuid_pos := Suc (uuid_pos s), tasks := upd_where (\<lambda>t. task_id t = tid)
        (claimed_row now worker ?tok (now + max 1 stale * second)) (tasks s), attempts := ats\<rparr>"
    by (auto simp: claim_task_def draw_def Let_def split: option.splits if_splits)
  have c: "cand \<in> set (tasks s)" "task_id cand = tid" "claimable now ?before cand"
    using cand by (auto simp: find_Some_iff)
  have only: "t = cand" if "t \<in> set (tasks s)" "task_id t = tid" for t
    using tk.same_row [of "tasks s" t cand] inv c that by (auto simp: order_defs)
  have "task_move (\<lambda>t. task_id t = tid) (claimed_row now worker ?tok (now + max 1 stale * second)) (tasks s)"
    unfolding task_move_def
  proof (intro ballI impI)
    fix t assume t: "t \<in> set (tasks s)" "task_id t = tid"
    then have "claimable now ?before t" using only c(3) by blast
    moreover have "0 \<le> attempt_count t" using order_inv_attempt_nonneg [OF inv t(1)] .
    ultimately show "task_id (claimed_row now worker ?tok (now + max 1 stale * second) t) = task_id t \<and>
        idempotency_key (claimed_row now worker ?tok (now + max 1 stale * second) t) = idempotency_key t \<and>
        task_space_id (claimed_row now worker ?tok (now + max 1 stale * second) t) = task_space_id t \<and>
        payload_json (claimed_row now worker ?tok (now + max 1 stale * second) t) = payload_json t \<and>
        0 \<le> attempt_count (claimed_row now worker ?tok (now + max 1 stale * second) t) \<and>
        task_status (claimed_row now worker ?tok (now + max 1 stale * second) t) \<noteq> Blocked \<and>
        (task_status (claimed_row now worker ?tok (now + max 1 stale * second) t) = Cancelled \<or>
         task_status t \<notin> {Blocked, Cancelled})"
      by (simp add: claimed_row_def claimable_def)
  qed
  from order_inv_task_move [OF inv this] show ?thesis
    unfolding s' by (rule order_inv_cong) simp_all
qed

lemma renew_order_inv: "order_inv D s \<Longrightarrow> order_inv D (snd (renew_task_lease now tid tok v secs s))"
  unfolding renew_task_lease_def snd_conv
  by (rule order_inv_task_move) (auto simp: task_move_def holds_lease_def order_inv_attempt_nonneg)

lemma finish_task_order_inv:
  assumes inv: "order_inv D s" and row: "row \<in> set (tasks s)" "task_status row \<notin> {Blocked, Cancelled}"
    and f: "task_id (f row) = task_id row" "idempotency_key (f row) = idempotency_key row"
      "task_space_id (f row) = task_space_id row" "payload_json (f row) = payload_json row"
      "attempt_count (f row) = attempt_count row" "task_status (f row) \<noteq> Blocked"
  shows "order_inv D (finish_task f g row s)"
proof -
  have "t = row" if "t \<in> set (tasks s)" "task_id t = task_id row" for t
    using tk.same_row [of "tasks s" t row] inv row that by (auto simp: order_defs)
  then have "task_move (\<lambda>t. task_id t = task_id row) f (tasks s)"
    unfolding task_move_def using f row order_inv_attempt_nonneg [OF inv row(1)] by metis
  from order_inv_task_move [OF inv this] show ?thesis
    unfolding finish_task_def by (rule order_inv_cong) simp_all
qed

lemma owned_running_task_mem:
  "owned_running_task now tid tok v s = Some row \<Longrightarrow>
     row \<in> set (tasks s) \<and> holds_lease tid tok v row \<and> lease_live now row"
  by (auto simp: owned_running_task_def find_Some_iff)

lemma owned_finish_order_inv:
  assumes "order_inv D s" "row \<in> set (tasks s)" "holds_lease tid tok v row"
    "task_id (f row) = task_id row" "idempotency_key (f row) = idempotency_key row"
    "task_space_id (f row) = task_space_id row" "payload_json (f row) = payload_json row"
    "attempt_count (f row) = attempt_count row" "task_status (f row) \<noteq> Blocked"
  shows "order_inv D (finish_task f g row s)"
  using assms by (intro finish_task_order_inv) (auto simp: holds_lease_def)

lemma completed_row_sel [simp]:
  "task_id (completed_row now t) = task_id t" "idempotency_key (completed_row now t) = idempotency_key t"
  "task_space_id (completed_row now t) = task_space_id t" "payload_json (completed_row now t) = payload_json t"
  "attempt_count (completed_row now t) = attempt_count t" "task_status (completed_row now t) = Completed"
  "failure_count (completed_row now t) = failure_count t" "max_attempts (completed_row now t) = max_attempts t"
  "claim_version (completed_row now t) = claim_version t" "lease_token (completed_row now t) = None"
  by (simp_all add: completed_row_def)

lemma complete_plain_order_inv:
  "order_inv D s \<Longrightarrow> order_inv D (snd (complete_task_plain now tid tok v s))"
  by (auto simp: complete_task_plain_def find_Some_iff split: option.splits
      intro!: owned_finish_order_inv [where tid = tid and tok = tok and v = v])

lemma defer_order_inv: "order_inv D s \<Longrightarrow> order_inv D (snd (defer_task now tid reason delay tok v s))"
  by (auto simp: defer_task_def deferred_row_def split: option.splits
      intro!: owned_finish_order_inv [where tid = tid and tok = tok and v = v]
      dest!: owned_running_task_mem)

lemma failed_row_sel [simp]:
  "task_id (failed_row now err d t) = task_id t" "idempotency_key (failed_row now err d t) = idempotency_key t"
  "task_space_id (failed_row now err d t) = task_space_id t"
  "payload_json (failed_row now err d t) = payload_json t"
  "attempt_count (failed_row now err d t) = attempt_count t"
  "task_status (failed_row now err d t) =
     (if failure_count t + 1 \<ge> max_attempts t then DeadLetter else Retry)"
  "failure_count (failed_row now err d t) = failure_count t + 1"
  "max_attempts (failed_row now err d t) = max_attempts t"
  "claim_version (failed_row now err d t) = claim_version t" "lease_token (failed_row now err d t) = None"
  by (simp_all add: failed_row_def Let_def)

lemma cancel_dependents_order_inv:
  "order_inv D s \<Longrightarrow> order_inv D (cancel_blocked_dependents now parent err s)"
  unfolding cancel_blocked_dependents_def
  by (rule order_inv_task_move) (auto simp: task_move_def order_inv_attempt_nonneg)

text \<open>
  What an operation keeps follows from what its phases keep; the same rule serves every invariant.
\<close>

lemma fail_task_keeps:
  assumes run: "fail_task E now tid err delay tok v s = Inr (res, s')"
    and P: "P s"
    and finish: "\<And>row. owned_running_task now tid tok v s = Some row \<Longrightarrow>
      P (finish_task (failed_row now err delay)
        (failed_attempt now err (failure_count row + 1 \<ge> max_attempts row)) row s)"
    and cancel: "\<And>u. P u \<Longrightarrow> P (cancel_blocked_dependents now tid err u)"
    and stage: "\<And>u u' iid m f n. P u \<Longrightarrow>
      complete_inbox_stage_in_session E now iid False m f False (Some err) u = Inr (n, u') \<Longrightarrow> P u'"
  shows "P s'"
proof (cases "owned_running_task now tid tok v s")
  case None
  with run P show ?thesis by (simp add: fail_task_def)
next
  case (Some row)
  let ?s1 = "finish_task (failed_row now err delay)
    (failed_attempt now err (failure_count row + 1 \<ge> max_attempts row)) row s"
  let ?s2 = "if truthy (pget (payload_json row) ''inbox_id'') then cancel_blocked_dependents now tid err ?s1 else ?s1"
  have P2: "P ?s1" "P ?s2" using finish [OF Some] cancel by auto
  show ?thesis
  proof (cases "failure_count row + 1 \<ge> max_attempts row")
    case False
    with run Some have "s' = ?s1" by (simp add: fail_task_def)
    with P2 show ?thesis by simp
  next
    case exhausted: True
    show ?thesis
    proof (cases "barrier_inbox_id row")
    case None
    with run Some exhausted have "s' = ?s2" by (auto simp: fail_task_def Let_def)
    with P2 show ?thesis by simp
  next
    case iid: (Some iid)
    from run Some exhausted iid obtain n m s3 where
      "s3 = ?s2 \<or> complete_inbox_stage_in_session E now iid False True False False (Some err) ?s2 = Inr (n, s3)"
      "complete_inbox_stage_in_session E now iid False False True False (Some err) s3 = Inr (m, s')"
      unfolding fail_task_def mark_inbox_memory_completed_in_session_def finalize_inbox_in_session_def
      by (simp add: Let_def split: sum.splits prod.splits if_splits) blast+
    with P2(2) stage show ?thesis by blast
    qed
  qed
qed

lemma fail_order_inv:
  assumes inv: "order_inv D s" and run: "fail_task E now tid err delay tok v s = Inr (res, s')"
  shows "order_inv D s'"
proof (rule fail_task_keeps [where P = "order_inv D", OF run inv])
  show "order_inv D (finish_task (failed_row now err delay) (failed_attempt now err x) row s)"
    if "owned_running_task now tid tok v s = Some row" for row x
    using owned_running_task_mem [OF that]
    by (intro owned_finish_order_inv [where tid = tid and tok = tok and v = v, OF inv]) auto
qed (use cancel_dependents_order_inv complete_inbox_stage_order_inv in blast)+

subsection \<open>Due retries\<close>

lemma retry_rows_order_inv:
  assumes "order_inv D s" "retry_rows E now rows s = Inr (n, s')"
    "\<forall>r \<in> set rows. \<forall>t \<in> set (tasks s). task_id t = task_id r \<longrightarrow> task_status t \<in> {Retry, Queued}"
  shows "order_inv D s'"
  using assms
proof (induction rows arbitrary: s n)
  case (Cons r rows)
  let ?P = "\<lambda>t. task_id t = task_id r"
  from Cons.prems(2) obtain e m where
    rest: "retry_rows E now rows (s\<lparr>uuid_pos := Suc (uuid_pos s), outbox := outbox s @ [e],
      tasks := upd_where ?P requeue (tasks s)\<rparr>) = Inr (m, s')"
    by (auto simp: new_id_def draw_def insert_outbox_Inr Let_def split: sum.splits prod.splits)
  have "task_move ?P requeue (tasks s)"
    unfolding task_move_def using Cons.prems(3) order_inv_attempt_nonneg [OF Cons.prems(1)] by auto
  from order_inv_task_move [OF Cons.prems(1) this]
  have "order_inv D (s\<lparr>uuid_pos := Suc (uuid_pos s), outbox := outbox s @ [e],
      tasks := upd_where ?P requeue (tasks s)\<rparr>)" by (rule order_inv_cong) simp_all
  moreover have "\<forall>x \<in> set rows. \<forall>t \<in> set (upd_where ?P requeue (tasks s)).
      task_id t = task_id x \<longrightarrow> task_status t \<in> {Retry, Queued}"
    unfolding ball_upd_where using Cons.prems(3) by simp
  ultimately show ?case using Cons.IH [OF _ rest] by simp
qed simp

lemma due_retries_order_inv:
  assumes inv: "order_inv D s" and run: "enqueue_due_retries E now limit ids s = Inr (n, s')"
  shows "order_inv D s'"
proof -
  have "task_status t = Retry" if "r \<in> set (due_retry_rows now limit ids s)" "t \<in> set (tasks s)"
    "task_id t = task_id r" for r t
  proof -
    have r: "r \<in> set (tasks s)" "task_status r = Retry"
      using that(1) by (auto simp: due_retry_rows_def dest: in_set_takeD)
    with tk.same_row [of "tasks s" t r] inv that show ?thesis by (auto simp: order_defs)
  qed
  with retry_rows_order_inv [OF inv run [unfolded enqueue_due_retries_def]] show ?thesis by blast
qed

subsection \<open>The single-statement completion\<close>

lemma cte_ready_for_eq:
  "waits t \<Longrightarrow> gated rows t \<Longrightarrow> cte_ready_for n m (payload_json t) = ready_for n m (payload_json t)"
  by (auto simp: waits_def gated_def cte_ready_for_def ready_for_def json_text_def json_int_def Let_def)

lemma cte_inbox_sel [simp]:
  "inbox_id (cte_inbox now a b c r) = inbox_id r" "inbox_space_id (cte_inbox now a b c r) = inbox_space_id r"
  "sequence_no (cte_inbox now a b c r) = sequence_no r"
  by (simp_all add: cte_inbox_def)

lemma cte_inbox_write: "stage_write (\<lambda>_. cte_inbox now a b c r) r"
  by (simp add: stage_write_def cte_inbox_def)

lemma cte_space_advance:
  assumes d: "distinct (map inbox_id (inbox s))" and ib: "ib \<in> set (inbox s)"
    and s1: "inbox s1 = upd_where (\<lambda>r. inbox_id r = inbox_id ib) (cte_inbox now a b c) (inbox s)"
  shows "note_watermark (cte_space fin (cte_inbox now a b c ib) (space_inbox sid s) sp) =
      advance_mark (note_watermark sp) note_status (space_inbox sid s1)"
    "memory_watermark (cte_space fin (cte_inbox now a b c ib) (space_inbox sid s) sp) =
      advance_mark (memory_watermark sp) memory_status (space_inbox sid s1)"
proof -
  have si: "space_inbox sid s1 =
      upd_where (\<lambda>r. inbox_id r = inbox_id (cte_inbox now a b c ib)) (cte_inbox now a b c) (space_inbox sid s)"
    unfolding space_inbox_def s1 by (simp add: map_upd_where_filter)
  have "r = ib" if "r \<in> set (space_inbox sid s)" "inbox_id r = inbox_id ib" for r
    using ib.same_row [OF d _ ib that(2)] that(1) by (simp add: space_inbox_def)
  then have st: "\<forall>r \<in> set (space_inbox sid s). inbox_id r = inbox_id (cte_inbox now a b c ib) \<longrightarrow>
      f (cte_inbox now a b c r) = f (cte_inbox now a b c ib)" for f :: "inbox_row \<Rightarrow> stage_status" by auto
  have eqn: "cte_mark w f (cte_inbox now a b c ib) (space_inbox sid s) = advance_mark w f
      (upd_where (\<lambda>r. inbox_id r = inbox_id (cte_inbox now a b c ib)) (cte_inbox now a b c) (space_inbox sid s))"
    for w and f :: "inbox_row \<Rightarrow> stage_status" by (rule cte_mark_advance [OF _ st]) simp
  show "note_watermark (cte_space fin (cte_inbox now a b c ib) (space_inbox sid s) sp) =
      advance_mark (note_watermark sp) note_status (space_inbox sid s1)"
    "memory_watermark (cte_space fin (cte_inbox now a b c ib) (space_inbox sid s) sp) =
      advance_mark (memory_watermark sp) memory_status (space_inbox sid s1)"
    unfolding si cte_space_def by (simp_all del: cte_inbox_sel add: eqn)
qed

text \<open>The successful statement, with every clause spelled out.\<close>

lemma complete_cte_Inr:
  assumes "complete_task_with_inbox_outcome E now tid tok v iid a b c s = Inr (done, s')"
  shows "(\<not> done \<and> s' = s) \<or> (\<exists>ib row. done \<and> get_inbox iid (inbox s) = Some ib \<and>
    row \<in> set (tasks s) \<and> holds_lease tid tok v row \<and> lease_live now row \<and>
    task_tenant_id row = inbox_tenant_id ib \<and> task_space_id row = inbox_space_id ib \<and>
    (let s1 = (finish_task (completed_row now) (completed_attempt now) row s)
         \<lparr>inbox := upd_where (\<lambda>r. inbox_id r = iid) (cte_inbox now a b c) (inbox s)\<rparr> in
     case get_space (inbox_space_id ib) (spaces s) of None \<Rightarrow> s' = s1
     | Some sp \<Rightarrow>
        let sp' = cte_space c (cte_inbox now a b c ib) (space_inbox (space_id sp) s) sp;
            act = cte_activated sp' (tasks s)
        in s' = s1\<lparr>spaces := upd_where (\<lambda>r. space_id r = space_id sp) (\<lambda>_. sp') (spaces s),
             tasks := upd_where (\<lambda>t. task_id t \<in> task_id ` set act) requeue (tasks s1),
             outbox := fold (\<lambda>t. insert_event_once (cte_event E now t)) act (outbox s)\<rparr>))"
  using assms
  by (auto simp: complete_task_with_inbox_outcome_def Let_def split: option.splits dest!: find_SomeD)

lemma cte_activated_ids:
  assumes inv: "order_inv D s" and row: "row \<in> set (tasks s)" "holds_lease tid tok v row"
    and get: "get_space (space_id sp') (spaces s2) = Some sp'"
    and t: "t \<in> set (upd_where (\<lambda>t. task_id t = task_id row) (completed_row now) (tasks s))"
  shows "task_id t \<in> task_id ` set (cte_activated sp' (tasks s)) \<longleftrightarrow>
    task_space_id t = space_id sp' \<and> task_status t = Blocked \<and> task_watermark_ready t s2"
proof -
  have uniq: "x = y" if "x \<in> set (tasks s)" "y \<in> set (tasks s)" "task_id x = task_id y" for x y
    using tk.same_row [of "tasks s" x y] inv that by (simp add: order_defs)
  from t obtain u where u: "u \<in> set (tasks s)"
    "t = (if task_id u = task_id row then completed_row now u else u)"
    by (auto simp: upd_where_def)
  then have "task_id t = task_id u" by simp
  then have "task_id t \<in> task_id ` set (cte_activated sp' (tasks s)) \<longleftrightarrow> u \<in> set (cte_activated sp' (tasks s))"
    using u(1) uniq by (auto simp: cte_activated_def)
  also have "\<dots> \<longleftrightarrow> task_space_id t = space_id sp' \<and> task_status t = Blocked \<and> task_watermark_ready t s2"
  proof (cases "task_id u = task_id row")
    case True
    then have "u = row" using uniq u row by blast
    with u row show ?thesis by (simp add: cte_activated_def holds_lease_def)
  next
    case False
    have ok: "task_ok D s u" using inv u by (simp add: order_inv_def)
    have "task_watermark_ready u s2 = cte_ready_for (note_watermark sp') (memory_watermark sp') (payload_json u)"
      if "task_space_id u = space_id sp'" "task_status u = Blocked"
      using ok that get cte_ready_for_eq [of u "inbox s"] ready_for_iff [of u "inbox s" s2 sp'] by (simp add: task_ok_def)
    with False u show ?thesis by (auto simp: cte_activated_def)
  qed
  finally show ?thesis .
qed

lemma complete_cte_order_inv:
  assumes inv: "order_inv D s"
    and run: "complete_task_with_inbox_outcome E now tid tok v iid a b c s = Inr (done, s')"
  shows "order_inv D s'"
proof (cases "s' = s")
  case changed: False
  define f where "f = cte_inbox now a b c"
  from complete_cte_Inr [OF run, folded f_def] changed obtain ib row where
    ib: "get_inbox iid (inbox s) = Some ib" and row: "row \<in> set (tasks s)" "holds_lease tid tok v row"
    and out: "let s1 = (finish_task (completed_row now) (completed_attempt now) row s)
         \<lparr>inbox := upd_where (\<lambda>r. inbox_id r = iid) f (inbox s)\<rparr> in
     case get_space (inbox_space_id ib) (spaces s) of None \<Rightarrow> s' = s1
     | Some sp \<Rightarrow>
        let sp' = cte_space c (f ib) (space_inbox (space_id sp) s) sp;
            act = cte_activated sp' (tasks s)
        in s' = s1\<lparr>spaces := upd_where (\<lambda>r. space_id r = space_id sp) (\<lambda>_. sp') (spaces s),
             tasks := upd_where (\<lambda>t. task_id t \<in> task_id ` set act) requeue (tasks s1),
             outbox := fold (\<lambda>t. insert_event_once (cte_event E now t)) act (outbox s)\<rparr>"
    by blast
  have ibm: "ib \<in> set (inbox s)" "inbox_id ib = iid" using ib.lookup_mem [OF ib] by auto
  have d: "distinct (map inbox_id (inbox s))" "distinct (map task_id (tasks s))"
    using inv by (auto simp: order_defs)
  have "inbox_space_id ib \<in> space_id ` set (spaces s)" using inv ibm by (auto simp: order_defs)
  then obtain sp where sp: "get_space (inbox_space_id ib) (spaces s) = Some sp"
    using sp.lookup_None_iff by fastforce
  have spm: "sp \<in> set (spaces s)" "space_id sp = inbox_space_id ib" using sp.lookup_mem [OF sp] by auto
  define sA where "sA = finish_task (completed_row now) (completed_attempt now) row s"
  define sB where "sB = sA\<lparr>inbox := upd_where (\<lambda>r. inbox_id r = iid) f (inbox s)\<rparr>"
  define sp' where "sp' = cte_space c (f ib) (space_inbox (space_id sp) s) sp"
  let ?I = "task_id ` set (cte_activated sp' (tasks s))"
  let ?sC = "sB\<lparr>spaces := upd_where (\<lambda>r. space_id r = space_id sp) (\<lambda>_. sp') (spaces sB)\<rparr>"
  have A: "order_inv D sA" unfolding sA_def
    using row by (intro owned_finish_order_inv [where tid = tid and tok = tok and v = v, OF inv]) auto
  have same: "spaces sA = spaces s" "inbox sA = inbox s" by (simp_all add: sA_def finish_task_def)
  have "f r = f ib" if "r \<in> set (inbox s)" "inbox_id r = iid" for r
    using ib.same_row [OF d(1) that(1) ibm(1)] that(2) ibm(2) by simp
  then have "upd_where (\<lambda>r. inbox_id r = iid) f (inbox s) =
      upd_where (\<lambda>r. inbox_id r = inbox_id ib) (\<lambda>_. f ib) (inbox sA)"
    unfolding same ibm(2) by (rule upd_where_cong [OF refl])
  moreover have "order_inv (insert (space_id sp) D)
      (sA\<lparr>inbox := upd_where (\<lambda>r. inbox_id r = inbox_id ib) (\<lambda>_. f ib) (inbox sA)\<rparr>)"
    unfolding f_def by (rule order_inv_stage_write [OF A _ cte_inbox_write]) (use ibm spm same in auto)
  ultimately have B: "order_inv (insert (space_id sp) D) sB" by (simp add: sB_def)
  have s': "s' = ?sC\<lparr>tasks := upd_where (\<lambda>t. task_id t \<in> ?I) requeue (tasks sB),
      outbox := fold (\<lambda>t. insert_event_once (cte_event E now t)) (cte_activated sp' (tasks s)) (outbox s)\<rparr>"
    using out sp by (simp add: Let_def sA_def sB_def sp'_def finish_task_def)
  have sid: "space_id sp' = space_id sp" by (simp add: sp'_def cte_space_def)
  have get: "get_space (space_id sp') (spaces ?sC) = Some sp'"
    using order_get_space [OF inv spm(1)] sid same by (simp add: sp.lookup_upd_where sB_def)
  have I: "task_id t \<in> ?I \<longleftrightarrow> task_space_id t = space_id sp \<and> task_status t = Blocked \<and>
      task_watermark_ready t ?sC" if "t \<in> set (tasks sB)" for t
    using cte_activated_ids [OF inv row get] that sid by (simp add: sB_def sA_def finish_task_def)
  have marks: "note_watermark sp' = advance_mark (note_watermark sp) note_status (space_inbox (space_id sp) sB)"
    "memory_watermark sp' = advance_mark (memory_watermark sp) memory_status (space_inbox (space_id sp) sB)"
    unfolding sp'_def f_def using ibm by (auto intro!: cte_space_advance [OF d(1)] simp: sB_def f_def)
  have "order_inv (insert (space_id sp) D - {space_id sp})
      (?sC\<lparr>tasks := upd_where (\<lambda>t. task_id t \<in> ?I) requeue (tasks sB)\<rparr>)"
    by (rule order_inv_advance [OF B _ sid marks refl I]) (use spm same in \<open>simp_all add: sB_def\<close>)
  then have "order_inv D (?sC\<lparr>tasks := upd_where (\<lambda>t. task_id t \<in> ?I) requeue (tasks sB)\<rparr>)"
    by (rule order_inv_weaken) auto
  then show ?thesis unfolding s' frame_simps .
qed (simp add: inv)

text \<open>
  \<open>complete_task\<close> as the worker calls it: \<open>activate_task_id\<close> is never set by a handler, so the
  object path at its end is not reached.
\<close>

lemma complete_task_cases:
  assumes "complete_task E now tid tok v out s = Inr (done, s')" "activate_task_id out = None"
  shows "(done, s') = complete_task_plain now tid tok v s \<or>
    (\<exists>iid a b c. complete_task_with_inbox_outcome E now tid tok v iid a b c s = Inr (done, s'))"
  using assms
  by (auto simp: complete_task_def outcome_values_def some_text_def split: if_splits option.splits)

lemma complete_task_order_inv:
  assumes inv: "order_inv D s" and run: "complete_task E now tid tok v out s = Inr (done, s')"
    and out: "activate_task_id out = None"
  shows "order_inv D s'"
  using complete_task_cases [OF run out]
proof (elim disjE exE)
  assume "(done, s') = complete_task_plain now tid tok v s"
  then have "s' = snd (complete_task_plain now tid tok v s)" by (metis snd_conv)
  with complete_plain_order_inv [OF inv] show ?thesis by simp
qed (rule complete_cte_order_inv [OF inv])

end
