(* ===== verification/Leases.thy ===== *)
theory Leases
  imports Ordering_Ops
begin

text \<open>
  The lease and attempt invariant of the task table: a task is running exactly while it carries a
  lease, its attempt rows are numbered from one to its attempt count, only the last one can be
  running, and the failure budget decides between retry and dead letter.
\<close>

subsection \<open>Waking tasks\<close>

text \<open>
  \<open>woken E I evs s s'\<close>: the tasks \<open>I\<close>, none of them running, are queued and the events \<open>evs\<close> are
  appended to the outbox; attempts and all other tasks stay as they are.
\<close>

definition woken :: "env \<Rightarrow> string set \<Rightarrow> outbox_row list \<Rightarrow> db \<Rightarrow> db \<Rightarrow> bool" where
  "woken E I evs s s' \<longleftrightarrow> tasks s' = upd_where (\<lambda>t. task_id t \<in> I) requeue (tasks s) \<and>
     attempts s' = attempts s \<and> outbox s' = outbox s @ evs \<and>
     (\<forall>t \<in> set (tasks s). task_id t \<in> I \<longrightarrow> task_status t \<in> {Blocked, Retry}) \<and>
     distinct (map event_id evs) \<and> event_id ` set evs \<inter> event_id ` set (outbox s) = {} \<and>
     (\<forall>e \<in> set evs. event_status e = EvPending \<and> published_at e = None \<and> event_id_ok E e \<and>
        (\<exists>t \<in> set (tasks s). task_id t \<in> I \<and> request_for t e))"

definition covered :: "string set \<Rightarrow> db \<Rightarrow> db \<Rightarrow> bool" where
  "covered I s s' \<longleftrightarrow> (\<forall>t \<in> set (tasks s). task_id t \<in> I \<longrightarrow> (\<exists>e \<in> set (outbox s'). request_for t e))"

lemma requeued_woken:
  assumes r: "requeued I s0 s'" and s0: "tasks s0 = tasks s" "attempts s0 = attempts s" "outbox s0 = outbox s"
    and d: "distinct (map task_id (tasks s))"
    and I: "\<And>t. t \<in> set (tasks s) \<Longrightarrow> task_id t \<in> I \<Longrightarrow> task_status t \<in> {Blocked, Retry}"
  shows "\<exists>evs. woken E I evs s s' \<and> covered I s s'"
proof -
  from r obtain evs k where s': "s' = s0\<lparr>tasks := upd_where (\<lambda>t. task_id t \<in> I) requeue (tasks s0),
      outbox := outbox s0 @ evs, uuid_pos := k\<rparr>"
    and ids: "distinct (map event_id evs)" "event_id ` set evs \<inter> event_id ` set (outbox s0) = {}"
    and agg: "aggregate_id ` set evs = I"
    and each: "\<And>e. e \<in> set evs \<Longrightarrow> event_status e = EvPending \<and> published_at e = None \<and>
        length (event_id e) \<le> 18 \<and> (\<exists>t \<in> set (tasks s0). request_for t e)"
    unfolding requeued_def by blast
  have "task_id t \<in> I" if "e \<in> set evs" "request_for t e" for t e
    using that agg by (metis image_eqI request_for_def)
  then have "woken E I evs s s'"
    unfolding woken_def using s' s0 ids each I by (fastforce simp: event_id_ok_def)
  moreover have "covered I s s'"
    unfolding covered_def
  proof (intro ballI impI)
    fix t assume t: "t \<in> set (tasks s)" "task_id t \<in> I"
    then have "task_id t \<in> aggregate_id ` set evs" using agg by simp
    then obtain e where e: "e \<in> set evs" "aggregate_id e = task_id t" by (metis imageE)
    with each [OF e(1)] s0 obtain u where u: "u \<in> set (tasks s)" "request_for u e" by auto
    with e have "task_id u = task_id t" by (simp add: request_for_def)
    with tk.same_row [OF d u(1) t(1)] u e s' show "\<exists>e \<in> set (outbox s'). request_for t e" by auto
  qed
  ultimately show ?thesis by blast
qed

lemma advance_woken:
  assumes adv: "advance_watermarks_in_session E now sp s = Inr (n, s')"
    and pos: "\<forall>t \<in> set (tasks s). 0 \<le> attempt_count t" and d: "distinct (map task_id (tasks s))"
  shows "\<exists>I evs. woken E I evs s s' \<and> covered I s s'"
proof -
  let ?R = "ready_rows (advanced_space sp s) s"
  have "task_status t \<in> {Blocked, Retry}" if t: "t \<in> set (tasks s)" "task_id t \<in> task_id ` set ?R" for t
  proof -
    from t(2) obtain u where u: "u \<in> set ?R" "task_id u = task_id t" by auto
    with tk.same_row [OF d _ t(1)] have "u = t" by (auto simp: ready_rows_def)
    with u show ?thesis by (simp add: ready_rows_def)
  qed
  with requeued_woken [OF advance_requeued [OF adv pos], of s E] d show ?thesis by auto
qed

lemma woken_cong:
  "woken E I evs s0 s' \<Longrightarrow> tasks s0 = tasks s \<Longrightarrow> attempts s0 = attempts s \<Longrightarrow> outbox s0 = outbox s \<Longrightarrow>
     woken E I evs s s'"
  by (simp add: woken_def)

lemma covered_cong: "covered I s0 s' \<Longrightarrow> tasks s0 = tasks s \<Longrightarrow> covered I s s'"
  by (simp add: covered_def)

lemma stage_woken:
  assumes run: "complete_inbox_stage_in_session E now iid a b c ok err s = Inr (n, s')"
    and pos: "\<forall>t \<in> set (tasks s). 0 \<le> attempt_count t" and d: "distinct (map task_id (tasks s))"
  shows "\<exists>I evs. woken E I evs s s' \<and> covered I s s'"
proof -
  from run obtain ib' sp' where
    adv: "advance_watermarks_in_session E now sp' (put_rows ib' sp' s) = Inr (n, s')"
    by (auto simp: complete_inbox_stage_in_session_def split: option.splits prod.splits)
  from advance_woken [OF adv] pos d show ?thesis
    using woken_cong [of E _ _ "put_rows ib' sp' s" s' s] covered_cong [of _ "put_rows ib' sp' s" s' s]
    by (simp add: put_rows_def) blast
qed

subsection \<open>The invariant\<close>

definition lease_ok :: "task_row \<Rightarrow> bool" where
  "lease_ok t \<longleftrightarrow> (task_status t = Running \<longleftrightarrow> lease_token t \<noteq> None) \<and>
     (lease_token t = None \<longleftrightarrow> lease_expires_at t = None) \<and>
     claim_version t = attempt_count t \<and> 0 \<le> failure_count t \<and> 0 \<le> defer_count t \<and>
     failure_count t + defer_count t + (if task_status t = Running then 1 else 0) \<le> attempt_count t \<and>
     failure_count t \<le> max 1 (max_attempts t) \<and>
     (task_status t = DeadLetter \<longleftrightarrow> failure_count t \<ge> max 1 (max_attempts t))"

definition attempts_ok :: "task_row list \<Rightarrow> attempt_row list \<Rightarrow> bool" where
  "attempts_ok ts as \<longleftrightarrow> att_task_id ` set as \<subseteq> task_id ` set ts \<and>
     distinct (map (\<lambda>a. (att_task_id a, attempt_no a)) as) \<and>
     (\<forall>t \<in> set ts. attempt_no ` {a \<in> set as. att_task_id a = task_id t} = {1..attempt_count t}) \<and>
     (\<forall>t \<in> set ts. \<forall>a \<in> set as. att_task_id a = task_id t \<longrightarrow>
        (att_status a = AttRunning \<longleftrightarrow> task_status t = Running \<and> attempt_no a = attempt_count t))"

definition lease_inv :: "db \<Rightarrow> bool" where
  "lease_inv s \<longleftrightarrow> distinct (map task_id (tasks s)) \<and> (\<forall>t \<in> set (tasks s). lease_ok t) \<and>
     attempts_ok (tasks s) (attempts s)"

lemma lease_inv_cong: "lease_inv s \<Longrightarrow> tasks s' = tasks s \<Longrightarrow> attempts s' = attempts s \<Longrightarrow> lease_inv s'"
  by (simp add: lease_inv_def)

lemma lease_attempts_pos: "lease_inv s \<Longrightarrow> t \<in> set (tasks s) \<Longrightarrow> 0 \<le> attempt_count t"
  unfolding lease_inv_def lease_ok_def by (smt (verit))

text \<open>Updates that neither start nor stop an attempt.\<close>

definition quiet :: "(task_row \<Rightarrow> bool) \<Rightarrow> (task_row \<Rightarrow> task_row) \<Rightarrow> task_row list \<Rightarrow> bool" where
  "quiet P f ts \<longleftrightarrow> (\<forall>t \<in> set ts. P t \<longrightarrow> task_id (f t) = task_id t \<and>
     attempt_count (f t) = attempt_count t \<and>
     (task_status (f t) = Running \<longleftrightarrow> task_status t = Running) \<and> (lease_ok t \<longrightarrow> lease_ok (f t)))"

lemma lease_inv_quiet:
  assumes inv: "lease_inv s" and q: "quiet P f (tasks s)"
  shows "lease_inv (s\<lparr>tasks := upd_where P f (tasks s)\<rparr>)"
proof -
  let ?ts = "upd_where P f (tasks s)"
  have ids: "map task_id ?ts = map task_id (tasks s)" using q by (intro map_upd_where) (simp add: quiet_def)
  have "att_task_id ` set (attempts s) \<subseteq> task_id ` set ?ts"
    using inv ids by (metis attempts_ok_def lease_inv_def list.set_map)
  then have "attempts_ok ?ts (attempts s)"
    using inv q unfolding attempts_ok_def lease_inv_def ball_upd_where quiet_def by simp
  moreover have "\<forall>t \<in> set ?ts. lease_ok t"
    using inv q unfolding lease_inv_def ball_upd_where quiet_def by simp
  ultimately show ?thesis using inv ids by (simp add: lease_inv_def)
qed

lemma lease_ok_requeue: "task_status t \<in> {Blocked, Retry, Queued} \<Longrightarrow> lease_ok t \<Longrightarrow> lease_ok (requeue t)"
  by (auto simp: lease_ok_def requeue_def)

lemma lease_inv_woken:
  assumes inv: "lease_inv s" and w: "woken E I evs s s'"
  shows "lease_inv s'"
proof -
  have "quiet (\<lambda>t. task_id t \<in> I) requeue (tasks s)"
    using w lease_ok_requeue by (auto simp: woken_def quiet_def)
  from lease_inv_quiet [OF inv this] show ?thesis
    using w by (auto simp: woken_def intro: lease_inv_cong)
qed

lemma lease_inv_new_task:
  assumes inv: "lease_inv s" and add: "task_added t s s'"
    and t: "attempt_count t = 0" "task_status t \<noteq> Running" "lease_ok t"
  shows "lease_inv s'"
proof -
  from add obtain evs k where fresh: "task_id t \<notin> task_id ` set (tasks s)"
    and s': "s' = s\<lparr>tasks := tasks s @ [t], outbox := outbox s @ evs, uuid_pos := k\<rparr>"
    unfolding task_added_def by blast
  have "att_task_id ` set (attempts s) \<subseteq> task_id ` set (tasks s)"
    using inv by (simp add: lease_inv_def attempts_ok_def)
  with fresh have "att_task_id a \<noteq> task_id t" if "a \<in> set (attempts s)" for a
    using that by (metis imageI subsetD)
  then have "{a \<in> set (attempts s). att_task_id a = task_id t} = {}" by blast
  then have "attempts_ok (tasks s @ [t]) (attempts s)"
    using inv t by (auto simp: lease_inv_def attempts_ok_def)
  then show ?thesis using inv fresh t by (simp add: s' lease_inv_def)
qed

lemma lease_inv_attempts:
  "lease_inv s \<Longrightarrow> t \<in> set (tasks s) \<Longrightarrow>
     attempt_no ` {a \<in> set (attempts s). att_task_id a = task_id t} = {1..attempt_count t}"
  by (simp add: lease_inv_def attempts_ok_def)

lemma attempt_keys:
  fixes xs ys :: "attempt_row list"
  assumes keys: "map (\<lambda>a. (att_task_id a, attempt_no a)) xs = map (\<lambda>a. (att_task_id a, attempt_no a)) ys"
  shows "att_task_id ` set xs = att_task_id ` set ys"
    and "attempt_no ` {a \<in> set xs. att_task_id a = i} = attempt_no ` {a \<in> set ys. att_task_id a = i}"
proof -
  from arg_cong [OF keys, of set]
  have kset: "(\<lambda>a. (att_task_id a, attempt_no a)) ` set xs = (\<lambda>a. (att_task_id a, attempt_no a)) ` set ys"
    by (simp only: set_map)
  from arg_cong [OF kset, of "image fst"] show "att_task_id ` set xs = att_task_id ` set ys"
    by (simp only: image_image fst_conv)
  from kset have "snd ` {p \<in> (\<lambda>a. (att_task_id a, attempt_no a)) ` set xs. fst p = i} =
      snd ` {p \<in> (\<lambda>a. (att_task_id a, attempt_no a)) ` set ys. fst p = i}" by (simp only:)
  moreover have "snd ` {p \<in> (\<lambda>a. (att_task_id a, attempt_no a)) ` X. fst p = i} =
      attempt_no ` {a \<in> X. att_task_id a = i}" for X :: "attempt_row set" by force
  ultimately show "attempt_no ` {a \<in> set xs. att_task_id a = i} = attempt_no ` {a \<in> set ys. att_task_id a = i}"
    by (simp only:)
qed

lemma lease_inv_finish:
  assumes inv: "lease_inv s" and row: "row \<in> set (tasks s)" "task_status row = Running"
    and f: "task_id (f row) = task_id row" "attempt_count (f row) = attempt_count row"
      "task_status (f row) \<noteq> Running" "lease_ok (f row)"
    and g: "\<And>a. att_task_id (g a) = att_task_id a \<and> attempt_no (g a) = attempt_no a \<and> att_status (g a) \<noteq> AttRunning"
  shows "lease_inv (finish_task f g row s)"
proof -
  let ?P = "\<lambda>t. task_id t = task_id row"
  let ?Q = "\<lambda>a. att_task_id a = task_id row \<and> attempt_no a = attempt_count row"
  let ?ts = "upd_where ?P f (tasks s)" and ?as = "upd_where ?Q g (attempts s)"
  have only: "t = row" if "t \<in> set (tasks s)" "?P t" for t
    using tk.same_row [OF _ that(1) row(1) that(2)] inv by (simp add: lease_inv_def)
  have ids: "map task_id ?ts = map task_id (tasks s)"
    by (rule map_upd_where) (metis only f(1))
  have keys: "map (\<lambda>a. (att_task_id a, attempt_no a)) ?as = map (\<lambda>a. (att_task_id a, attempt_no a)) (attempts s)"
    by (rule map_upd_where) (simp add: g)
  note owners = attempt_keys(1) [OF keys] and nos = attempt_keys(2) [OF keys]
  have run: "(att_status a = AttRunning) = (task_status t = Running \<and> attempt_no a = attempt_count t)"
    if "t \<in> set (tasks s)" "a \<in> set (attempts s)" "att_task_id a = task_id t" for t a
    using inv that by (simp add: lease_inv_def attempts_ok_def)
  have "attempts_ok ?ts ?as"
    unfolding attempts_ok_def ball_upd_where
  proof (intro conjI ballI)
    show "att_task_id ` set ?as \<subseteq> task_id ` set ?ts"
      using inv ids owners by (metis attempts_ok_def lease_inv_def list.set_map)
    show "distinct (map (\<lambda>a. (att_task_id a, attempt_no a)) ?as)"
      unfolding keys using inv by (simp add: lease_inv_def attempts_ok_def)
    fix t assume t: "t \<in> set (tasks s)"
    show "attempt_no ` {a \<in> set ?as. att_task_id a = task_id (if ?P t then f t else t)} =
        {1..attempt_count (if ?P t then f t else t)}"
      unfolding nos using lease_inv_attempts [OF inv t] only [OF t] f by (cases "?P t") auto
    fix a assume a: "a \<in> set (attempts s)"
    show "att_task_id (if ?Q a then g a else a) = task_id (if ?P t then f t else t) \<longrightarrow>
        (att_status (if ?Q a then g a else a) = AttRunning) =
        (task_status (if ?P t then f t else t) = Running \<and>
         attempt_no (if ?Q a then g a else a) = attempt_count (if ?P t then f t else t))"
      using run [OF t a] only [OF t] f g row by (cases "?P t"; cases "?Q a") auto
  qed
  moreover have "\<forall>t \<in> set ?ts. lease_ok t"
    unfolding ball_upd_where using inv only f by (auto simp: lease_inv_def)
  ultimately show ?thesis
    using inv ids by (simp add: lease_inv_def finish_task_def)
qed

text \<open>A claim: the expired attempt is closed and a new attempt starts.\<close>

definition expire_attempt :: "time \<Rightarrow> task_row \<Rightarrow> attempt_row list \<Rightarrow> attempt_row list" where
  "expire_attempt now cand = upd_where (\<lambda>a. task_status cand = Running \<and> att_task_id a = task_id cand \<and>
     attempt_no a = attempt_count cand \<and> att_status a = AttRunning)
     (\<lambda>a. a\<lparr>att_status := AttLeaseExpired, finished_at := Some now\<rparr>)"

definition new_attempt :: "time \<Rightarrow> string \<Rightarrow> task_row \<Rightarrow> attempt_row" where
  "new_attempt now worker cand = \<lparr>att_task_id = task_id cand, att_worker_id = worker,
     attempt_no = attempt_count cand + 1, att_status = AttRunning, att_started_at = now,
     finished_at = None, error_type = None, error_summary = None\<rparr>"

lemma claimed_row_sel [simp]:
  "task_id (claimed_row now w tok x t) = task_id t" "task_status (claimed_row now w tok x t) = Running"
  "attempt_count (claimed_row now w tok x t) = attempt_count t + 1"
  "claim_version (claimed_row now w tok x t) = claim_version t + 1"
  "lease_token (claimed_row now w tok x t) = Some tok" "lease_expires_at (claimed_row now w tok x t) = Some x"
  "claimed_by (claimed_row now w tok x t) = Some w" "failure_count (claimed_row now w tok x t) = failure_count t"
  "defer_count (claimed_row now w tok x t) = defer_count t" "max_attempts (claimed_row now w tok x t) = max_attempts t"
  "payload_json (claimed_row now w tok x t) = payload_json t"
  by (simp_all add: claimed_row_def)

lemma lease_inv_no_collision:
  assumes inv: "lease_inv s" and t: "t \<in> set (tasks s)" and a: "a \<in> set (attempts s)"
    "att_task_id a = task_id t"
  shows "1 \<le> attempt_no a \<and> attempt_no a \<le> attempt_count t"
proof -
  from a have "attempt_no a \<in> attempt_no ` {a \<in> set (attempts s). att_task_id a = task_id t}" by blast
  then show ?thesis unfolding lease_inv_attempts [OF inv t] by simp
qed

lemma claim_task_Inr:
  fixes E :: env
  assumes inv: "lease_inv s"
  defines "tok \<equiv> uuid_hex E (uuid_pos s)" and "expires now stale \<equiv> now + max 1 stale * second"
  shows "claim_task E now tid worker stale s =
    (case find (\<lambda>t. task_id t = tid \<and> claimable now (now - max 1 stale * second) t) (tasks s) of
       None \<Rightarrow> Inr (None, s\<lparr>uuid_pos := Suc (uuid_pos s)\<rparr>)
     | Some cand \<Rightarrow> Inr (Some \<lparr>claim_task_row = claimed_row now worker tok (expires now stale) cand,
           previous_status = task_status cand, previous_claimed_by = claimed_by cand,
           previous_lease_expires_at = lease_expires_at cand\<rparr>,
         s\<lparr>uuid_pos := Suc (uuid_pos s),
           tasks := upd_where (\<lambda>t. task_id t = tid) (claimed_row now worker tok (expires now stale)) (tasks s),
           attempts := expire_attempt now cand (attempts s) @ [new_attempt now worker cand]\<rparr>))"
proof (cases "find (\<lambda>t. task_id t = tid \<and> claimable now (now - max 1 stale * second) t) (tasks s)")
  case None
  then show ?thesis by (simp add: claim_task_def draw_def)
next
  case (Some cand)
  then have c: "cand \<in> set (tasks s)" "task_id cand = tid" by (auto dest: find_SomeD)
  have "\<not> (\<exists>a \<in> set (attempts s). att_task_id a = tid \<and> attempt_no a = attempt_count cand + 1)"
    using lease_inv_no_collision [OF inv c(1)] c(2) by force
  then show ?thesis
    using Some c by (simp add: claim_task_def draw_def Let_def tok_def expires_def expire_attempt_def new_attempt_def)
qed

lemma lease_ok_claimed:
  "lease_ok t \<Longrightarrow> claimable now before t \<Longrightarrow> lease_ok (claimed_row now w tok x t)"
  by (auto simp: lease_ok_def claimable_def split: if_splits)

lemma lease_inv_claimed:
  assumes inv: "lease_inv s" and cand: "cand \<in> set (tasks s)" and ok: "lease_ok (claimed_row now w tok x cand)"
  shows "lease_inv (s\<lparr>uuid_pos := k,
    tasks := upd_where (\<lambda>t. task_id t = task_id cand) (claimed_row now w tok x) (tasks s),
    attempts := expire_attempt now cand (attempts s) @ [new_attempt now w cand]\<rparr>)"
proof -
  let ?P = "\<lambda>t. task_id t = task_id cand" and ?f = "claimed_row now w tok x"
  let ?ts = "upd_where ?P ?f (tasks s)" and ?as = "expire_attempt now cand (attempts s)"
  let ?new = "new_attempt now w cand"
  have only: "t = cand" if "t \<in> set (tasks s)" "?P t" for t
    using tk.same_row [OF _ that(1) cand that(2)] inv by (simp add: lease_inv_def)
  have ids: "map task_id ?ts = map task_id (tasks s)" by (rule map_upd_where) simp
  from arg_cong [OF ids, of set] have ids': "task_id ` set ?ts = task_id ` set (tasks s)" by (simp only: set_map)
  have keys: "map (\<lambda>a. (att_task_id a, attempt_no a)) ?as = map (\<lambda>a. (att_task_id a, attempt_no a)) (attempts s)"
    unfolding expire_attempt_def by (rule map_upd_where) simp
  note owners = attempt_keys(1) [OF keys] and nos = attempt_keys(2) [OF keys]
  have new: "att_task_id ?new = task_id cand" "attempt_no ?new = attempt_count cand + 1" "att_status ?new = AttRunning"
    by (simp_all add: new_attempt_def)
  have run: "(att_status a = AttRunning) = (task_status t = Running \<and> attempt_no a = attempt_count t)"
    if "t \<in> set (tasks s)" "a \<in> set (attempts s)" "att_task_id a = task_id t" for t a
    using inv that by (simp add: lease_inv_def attempts_ok_def)
  have old: "attempt_no a \<noteq> attempt_count cand + 1" if "a \<in> set ?as" "att_task_id a = task_id cand" for a
  proof -
    from that have "attempt_no a \<in> {1..attempt_count cand}"
      using nos [of "task_id cand"] lease_inv_attempts [OF inv cand] by blast
    then show ?thesis by simp
  qed
  have "attempts_ok ?ts (?as @ [?new])"
    unfolding attempts_ok_def ball_upd_where
  proof (intro conjI ballI)
    show "att_task_id ` set (?as @ [?new]) \<subseteq> task_id ` set ?ts"
      using inv ids' owners cand new by (simp add: attempts_ok_def lease_inv_def)
    show "distinct (map (\<lambda>a. (att_task_id a, attempt_no a)) (?as @ [?new]))"
    proof -
      have "(task_id cand, attempt_count cand + 1) \<notin> (\<lambda>a. (att_task_id a, attempt_no a)) ` set ?as"
      proof
        assume "(task_id cand, attempt_count cand + 1) \<in> (\<lambda>a. (att_task_id a, attempt_no a)) ` set ?as"
        then obtain a where "a \<in> set ?as" "(task_id cand, attempt_count cand + 1) = (att_task_id a, attempt_no a)"
          by (rule imageE)
        with old [of a] show False by simp
      qed
      moreover have "distinct (map (\<lambda>a. (att_task_id a, attempt_no a)) ?as)"
        unfolding keys using inv by (simp add: lease_inv_def attempts_ok_def)
      ultimately show ?thesis using new by simp
    qed
    fix t assume t: "t \<in> set (tasks s)"
    have "{a \<in> set (?as @ [?new]). att_task_id a = task_id t} =
        {a \<in> set ?as. att_task_id a = task_id t} \<union> (if ?P t then {?new} else {})"
      using new by auto
    then show "attempt_no ` {a \<in> set (?as @ [?new]). att_task_id a = task_id (if ?P t then ?f t else t)} =
        {1..attempt_count (if ?P t then ?f t else t)}"
      using nos lease_inv_attempts [OF inv t] only [OF t] new lease_attempts_pos [OF inv cand]
      by (cases "?P t") (auto simp: image_Un)
    fix a assume "a \<in> set (?as @ [?new])"
    then consider (fresh) "a = ?new" | (old) b where "b \<in> set (attempts s)"
      "a = (if task_status cand = Running \<and> att_task_id b = task_id cand \<and> attempt_no b = attempt_count cand \<and>
         att_status b = AttRunning then b\<lparr>att_status := AttLeaseExpired, finished_at := Some now\<rparr> else b)"
      by (auto simp: expire_attempt_def upd_where_def)
    then show "att_task_id a = task_id (if ?P t then ?f t else t) \<longrightarrow>
        (att_status a = AttRunning) = (task_status (if ?P t then ?f t else t) = Running \<and>
         attempt_no a = attempt_count (if ?P t then ?f t else t))"
    proof cases
      case fresh
      show ?thesis unfolding fresh new using only [OF t] by (cases "?P t") auto
    next
      case old
      then show ?thesis
        using run [OF t old(1)] only [OF t] lease_inv_no_collision [OF inv t old(1)]
        by (cases "?P t") auto
    qed
  qed
  moreover have "\<forall>t \<in> set ?ts. lease_ok t"
    unfolding ball_upd_where using inv only ok by (auto simp: lease_inv_def)
  ultimately show ?thesis using inv ids by (simp add: lease_inv_def)
qed

lemma claim_lease_inv:
  assumes inv: "lease_inv s" and run: "claim_task E now tid worker stale s = Inr (x, s')"
  shows "lease_inv s'"
proof (cases "find (\<lambda>t. task_id t = tid \<and> claimable now (now - max 1 stale * second) t) (tasks s)")
  case None
  with run have "s' = s\<lparr>uuid_pos := Suc (uuid_pos s)\<rparr>" by (simp add: claim_task_Inr [OF inv])
  with inv show ?thesis by (auto intro: lease_inv_cong)
next
  case (Some cand)
  then have c: "cand \<in> set (tasks s)" "task_id cand = tid" "claimable now (now - max 1 stale * second) cand"
    by (auto dest: find_SomeD)
  have "lease_ok cand" using inv c by (simp add: lease_inv_def)
  from lease_inv_claimed [OF inv c(1) lease_ok_claimed [OF this c(3)]] run Some c(2) show ?thesis
    by (auto simp: claim_task_Inr [OF inv])
qed

subsection \<open>Every operation keeps the invariant\<close>

lemma woken_keeps_lease_inv:
  "\<exists>I evs. woken E I evs s s' \<and> covered I s s' \<Longrightarrow> lease_inv s \<Longrightarrow> lease_inv s'"
  using lease_inv_woken by blast

lemma lease_pos: "lease_inv s \<Longrightarrow> \<forall>t \<in> set (tasks s). 0 \<le> attempt_count t"
  using lease_attempts_pos by blast

lemma lease_distinct: "lease_inv s \<Longrightarrow> distinct (map task_id (tasks s))"
  by (simp add: lease_inv_def)

lemma stage_lease_inv:
  "lease_inv s \<Longrightarrow> complete_inbox_stage_in_session E now iid a b c ok err s = Inr (n, s') \<Longrightarrow> lease_inv s'"
  using stage_woken [of E now iid a b c ok err s n s'] lease_pos lease_distinct woken_keeps_lease_inv by blast

lemma renew_lease_inv: "lease_inv s \<Longrightarrow> lease_inv (snd (renew_task_lease now tid tok v secs s))"
  unfolding renew_task_lease_def snd_conv
  by (rule lease_inv_quiet) (auto simp: quiet_def holds_lease_def lease_ok_def)

lemma owned_finish_lease_inv:
  assumes "lease_inv s" "row \<in> set (tasks s)" "holds_lease tid tok v row"
    and "task_id (f row) = task_id row" "attempt_count (f row) = attempt_count row"
      "task_status (f row) \<noteq> Running" "lease_ok row \<Longrightarrow> lease_ok (f row)"
    and "\<And>a. att_task_id (g a) = att_task_id a \<and> attempt_no (g a) = attempt_no a \<and> att_status (g a) \<noteq> AttRunning"
  shows "lease_inv (finish_task f g row s)"
  using assms by (intro lease_inv_finish) (auto simp: holds_lease_def lease_inv_def)

lemma lease_ok_completed: "lease_ok t \<Longrightarrow> task_status t = Running \<Longrightarrow> lease_ok (completed_row now t)"
  by (auto simp: lease_ok_def completed_row_def split: if_splits)

lemma lease_ok_failed: "lease_ok t \<Longrightarrow> task_status t = Running \<Longrightarrow> lease_ok (failed_row now err d t)"
  by (auto simp: lease_ok_def failed_row_def Let_def split: if_splits)

lemma lease_ok_deferred: "lease_ok t \<Longrightarrow> task_status t = Running \<Longrightarrow> lease_ok (deferred_row now r d t)"
  by (auto simp: lease_ok_def deferred_row_def split: if_splits)

lemma complete_plain_lease_inv:
  "lease_inv s \<Longrightarrow> lease_inv (snd (complete_task_plain now tid tok v s))"
  by (auto simp: complete_task_plain_def completed_attempt_def split: option.splits dest!: find_SomeD
      intro!: owned_finish_lease_inv [where tid = tid and tok = tok and v = v] lease_ok_completed)
     (simp add: holds_lease_def)

lemma defer_lease_inv: "lease_inv s \<Longrightarrow> lease_inv (snd (defer_task now tid reason delay tok v s))"
  by (auto simp: defer_task_def split: option.splits dest!: owned_running_task_mem
      intro!: owned_finish_lease_inv [where tid = tid and tok = tok and v = v] lease_ok_deferred)
     (simp_all add: deferred_row_def holds_lease_def)

lemma cancel_dependents_lease_inv:
  "lease_inv s \<Longrightarrow> lease_inv (cancel_blocked_dependents now parent err s)"
  unfolding cancel_blocked_dependents_def
  by (rule lease_inv_quiet) (auto simp: quiet_def lease_ok_def)

lemma fail_lease_inv:
  assumes inv: "lease_inv s" and run: "fail_task E now tid err delay tok v s = Inr (res, s')"
  shows "lease_inv s'"
proof (rule fail_task_keeps [where P = lease_inv, OF run inv])
  show "lease_inv (finish_task (failed_row now err delay) (failed_attempt now err x) row s)"
    if "owned_running_task now tid tok v s = Some row" for row x
    using owned_running_task_mem [OF that]
    by (intro owned_finish_lease_inv [where tid = tid and tok = tok and v = v, OF inv])
       (auto simp: failed_attempt_def holds_lease_def lease_ok_failed)
qed (use cancel_dependents_lease_inv stage_lease_inv in blast)+

lemma skip_lease_inv:
  assumes inv: "lease_inv s" and run: "skip_inbox_record E now iid st cancel s = Inr (b, s')"
  shows "lease_inv s'"
proof (cases "get_inbox iid (inbox s)")
  case None
  with run inv show ?thesis by (simp add: skip_inbox_record_def)
next
  case (Some ib)
  from run Some obtain ib' sp s2 n where
    s2: "s2 = put_rows ib' sp s \<or> (\<exists>m r. s2 = (put_rows ib' sp s)\<lparr>tasks :=
      cancel_root_tasks now r m (tasks (put_rows ib' sp s))\<rparr>)"
    and adv: "advance_watermarks_in_session E now sp s2 = Inr (n, s')"
    unfolding skip_inbox_record_def Let_def
    by (simp split: option.splits sum.splits prod.splits if_splits) blast+
  have 1: "lease_inv (put_rows ib' sp s)" using inv by (auto simp: put_rows_def intro: lease_inv_cong)
  have "lease_inv (u\<lparr>tasks := cancel_root_tasks now r m (tasks u)\<rparr>)" if "lease_inv u" for u r m
    unfolding cancel_root_tasks_def using that
    by (rule lease_inv_quiet) (auto simp: quiet_def lease_ok_def)
  with s2 1 have "lease_inv s2" by blast
  with advance_woken [OF adv] lease_pos lease_distinct woken_keeps_lease_inv show ?thesis by blast
qed

text \<open>The due retries are distinct rows of the table in status retry.\<close>

lemma retry_rows_requeued:
  assumes "retry_rows E now rows s = Inr (n, s')"
    and "\<forall>r \<in> set rows. \<exists>t \<in> set (tasks s). task_id t = task_id r \<and> attempt_count t = attempt_count r"
  shows "n = length rows \<and> requeued (task_id ` set rows) s s'"
  using assms
proof (induction rows arbitrary: s n)
  case Nil
  then show ?case by (simp add: requeued_empty)
next
  case (Cons r rows)
  let ?P = "\<lambda>t. task_id t = task_id r"
  define e where "e = task_request_event (''event_'' @ take 12 (uuid_hex E (uuid_pos s))) now (task_id r)
    (task_type r) (attempt_count r + 1) (trace_of (payload_json r))"
  from Cons.prems(1) obtain m where fresh: "event_id e \<notin> event_id ` set (outbox s)"
    and rest: "retry_rows E now rows (s\<lparr>uuid_pos := Suc (uuid_pos s), outbox := outbox s @ [e],
      tasks := upd_where ?P requeue (tasks s)\<rparr>) = Inr (m, s')" and n: "n = Suc m"
    by (auto simp: new_id_def draw_def insert_outbox_Inr Let_def e_def split: sum.splits prod.splits)
  have e: "event_id e \<notin> event_id ` set (outbox s)" "length (event_id e) \<le> 18"
      "event_status e = EvPending" "published_at e = None" "aggregate_id e = task_id r"
      "pget (event_payload e) ''attempt'' = JInt (attempt_count r + 1)"
    using fresh by (simp_all add: e_def)
  from Cons.prems(2) obtain t where t: "t \<in> set (tasks s)" "task_id t = task_id r"
    "attempt_count t = attempt_count r" by auto
  let ?s1 = "s\<lparr>tasks := upd_where ?P requeue (tasks s), uuid_pos := Suc (uuid_pos s), outbox := outbox s @ [e]\<rparr>"
  have s1: "s\<lparr>uuid_pos := Suc (uuid_pos s), outbox := outbox s @ [e], tasks := upd_where ?P requeue (tasks s)\<rparr> = ?s1"
    by simp
  have "\<exists>t \<in> set (tasks ?s1). task_id t = task_id x \<and> attempt_count t = attempt_count x" if "x \<in> set rows" for x
  proof -
    from that Cons.prems(2) obtain y where "y \<in> set (tasks s)" "task_id y = task_id x"
      "attempt_count y = attempt_count x" by auto
    then show ?thesis
      by (intro bexI [of _ "if task_id y = task_id r then requeue y else y"]) (auto simp: table_simps)
  qed
  with Cons.IH [OF rest [unfolded s1]] have IH: "m = length rows" "requeued (task_id ` set rows) ?s1 s'" by auto
  have "requeued (insert (task_id t) (task_id ` set rows)) s s'"
    using requeued_one [OF e(1-4) t(1)] IH(2) e(5,6) t(2,3) by (simp add: request_for_def)
  with n IH t show ?case by simp
qed

lemma due_retries_woken:
  assumes d: "distinct (map task_id (tasks s))" and run: "enqueue_due_retries E now limit ids s = Inr (n, s')"
  shows "n = length (due_retry_rows now limit ids s) \<and>
    (\<exists>evs. woken E (task_id ` set (due_retry_rows now limit ids s)) evs s s' \<and>
       covered (task_id ` set (due_retry_rows now limit ids s)) s s')"
proof -
  let ?R = "due_retry_rows now limit ids s"
  have R: "r \<in> set (tasks s) \<and> task_status r = Retry" if "r \<in> set ?R" for r
    using that by (auto simp: due_retry_rows_def dest: in_set_takeD)
  then have "\<forall>r \<in> set ?R. \<exists>t \<in> set (tasks s). task_id t = task_id r \<and> attempt_count t = attempt_count r" by blast
  from retry_rows_requeued [OF run [unfolded enqueue_due_retries_def] this]
  have rq: "n = length ?R" "requeued (task_id ` set ?R) s s'" by auto
  have "task_status t \<in> {Blocked, Retry}" if t: "t \<in> set (tasks s)" "task_id t \<in> task_id ` set ?R" for t
  proof -
    from t(2) obtain r where r: "r \<in> set ?R" "task_id r = task_id t" by auto
    with tk.same_row [OF d _ t(1)] R have "r = t" by blast
    with r R show ?thesis by blast
  qed
  with requeued_woken [OF rq(2) refl refl refl d] rq(1) show ?thesis by blast
qed

lemma due_retries_lease_inv:
  "lease_inv s \<Longrightarrow> enqueue_due_retries E now limit ids s = Inr (n, s') \<Longrightarrow> lease_inv s'"
  using due_retries_woken lease_distinct lease_inv_woken by blast

end
