(* ===== verification/Requests.thy ===== *)
theory Requests
  imports Leases
begin

text \<open>
  The transactional outbox: a queued task always has a request for its next attempt in the outbox.
  The single-statement completion names its requests by the MD5 of task and attempt and drops a
  request whose name is taken, so there the guarantee rests on MD5 not colliding on the keys in use
  (\<open>md5_ok\<close>).
\<close>

subsection \<open>Request keys determine task and attempt\<close>

definition digits_value :: "string \<Rightarrow> nat" where
  "digits_value cs = foldl (\<lambda>a c. 10 * a + (of_char c - 48)) 0 cs"

lemma digits_value_chars: "digits_value (digit_chars n) = n"
proof (induction n rule: digit_chars.induct)
  case (1 n)
  show ?case
  proof (cases "n < 10")
    case True
    then show ?thesis by (subst digit_chars.simps) (simp add: digits_value_def of_char_of)
  next
    case False
    then have "digits_value (digit_chars n) =
        10 * digits_value (digit_chars (n div 10)) + (of_char (char_of (48 + n mod 10) :: char) - 48)"
      by (subst digit_chars.simps) (simp add: digits_value_def)
    also have "\<dots> = 10 * (n div 10) + n mod 10" using 1 [OF False] by (simp add: of_char_of)
    finally show ?thesis by simp
  qed
qed

lemma digit_chars_range: "c \<in> set (digit_chars n) \<Longrightarrow> 48 \<le> (of_char c :: nat) \<and> (of_char c :: nat) \<le> 57"
proof (induction n rule: digit_chars.induct)
  case (1 n)
  have d: "48 \<le> (of_char (char_of (48 + k mod 10) :: char) :: nat) \<and>
      (of_char (char_of (48 + k mod 10) :: char) :: nat) \<le> 57" for k :: nat
  proof -
    have "k mod 10 < 10" by simp
    then show ?thesis by (simp add: of_char_of)
  qed
  show ?case
  proof (cases "n < 10")
    case True
    with 1(2) have "c = char_of (48 + n mod 10)" by (subst (asm) digit_chars.simps) simp
    with d show ?thesis by blast
  next
    case False
    with 1(2) have "c \<in> set (digit_chars (n div 10)) \<or> c = char_of (48 + n mod 10)"
      by (subst (asm) digit_chars.simps) auto
    with 1(1) [OF False] d show ?thesis by blast
  qed
qed

lemma show_int_no_colon: "CHR '':'' \<notin> set (show_int i)"
proof
  assume "CHR '':'' \<in> set (show_int i)"
  then have "\<exists>n. CHR '':'' \<in> set (digit_chars n)" by (auto simp: show_int_def split: if_splits)
  then show False using digit_chars_range [of "CHR '':''"] by auto
qed

lemma show_int_inj: "show_int i = show_int j \<longleftrightarrow> i = j"
proof
  assume eq: "show_int i = show_int j"
  have no_minus: "digit_chars n \<noteq> CHR ''-'' # cs" for n cs
    using digit_chars_range [of "CHR ''-''" n] by auto
  have inj: "digit_chars m = digit_chars n \<Longrightarrow> m = n" for m n by (metis digits_value_chars)
  show "i = j"
    using eq no_minus no_minus [symmetric]
    by (auto simp: show_int_def split: if_splits dest!: inj)
qed simp

definition request_key :: "string \<Rightarrow> int \<Rightarrow> string" where
  "request_key tid n = tid @ '':'' @ show_int n"

lemma request_key_inj: "request_key t n = request_key u m \<longleftrightarrow> t = u \<and> n = m"
  using last_colon_split [of t "show_int n" u "show_int m"] show_int_no_colon show_int_inj
  by (auto simp: request_key_def)

subsection \<open>The invariant\<close>

definition request_keys :: "db \<Rightarrow> string set" where
  "request_keys s = (\<lambda>t. request_key (task_id t) (attempt_count t + 1)) ` set (tasks s) \<union>
     {request_key (aggregate_id e) n | e n. e \<in> set (outbox s) \<and> pget (event_payload e) ''attempt'' = JInt n}"

definition md5_ok :: "env \<Rightarrow> db \<Rightarrow> bool" where
  "md5_ok E s \<longleftrightarrow> inj_on (pg_md5 E) (request_keys s) \<and> (\<forall>x. length (pg_md5 E x) = 32)"

definition request_inv :: "env \<Rightarrow> db \<Rightarrow> bool" where
  "request_inv E s \<longleftrightarrow> distinct (map event_id (outbox s)) \<and> (\<forall>e \<in> set (outbox s). event_id_ok E e) \<and>
     (\<forall>t \<in> set (tasks s). task_status t = Queued \<longrightarrow> (\<exists>e \<in> set (outbox s). request_for t e))"

lemma request_inv_cong: "request_inv E s \<Longrightarrow> tasks s' = tasks s \<Longrightarrow> outbox s' = outbox s \<Longrightarrow> request_inv E s'"
  by (simp add: request_inv_def)

lemma request_inv_tasks:
  assumes "request_inv E s" "outbox s' = outbox s" "tasks s' = upd_where P f (tasks s)"
    and "\<And>t. t \<in> set (tasks s) \<Longrightarrow> P t \<Longrightarrow> task_status (f t) \<noteq> Queued"
  shows "request_inv E s'"
  using assms by (simp add: request_inv_def ball_upd_where)

lemma request_inv_woken:
  assumes inv: "request_inv E s" and w: "woken E I evs s s'" and c: "covered I s s'"
  shows "request_inv E s'"
proof -
  from w have s': "tasks s' = upd_where (\<lambda>t. task_id t \<in> I) requeue (tasks s)" "outbox s' = outbox s @ evs"
    and ids: "distinct (map event_id evs)" "event_id ` set evs \<inter> event_id ` set (outbox s) = {}"
    and ok: "\<forall>e \<in> set evs. event_id_ok E e" by (auto simp: woken_def)
  have "distinct (map event_id (outbox s'))" using inv ids s' by (auto simp: request_inv_def)
  moreover have "\<forall>t \<in> set (tasks s'). task_status t = Queued \<longrightarrow> (\<exists>e \<in> set (outbox s'). request_for t e)"
    unfolding s'(1) ball_upd_where
    using inv c s'(2) by (auto simp: request_inv_def covered_def)
  ultimately show ?thesis using inv ok s' by (auto simp: request_inv_def)
qed

lemma request_inv_new_task:
  assumes inv: "request_inv E s" and add: "task_added t s s'"
  shows "request_inv E s'"
proof -
  from add obtain evs k where s': "s' = s\<lparr>tasks := tasks s @ [t], outbox := outbox s @ evs, uuid_pos := k\<rparr>"
    and evs: "evs = [] \<and> task_status t \<noteq> Queued \<or>
      (\<exists>e. evs = [e] \<and> event_id e \<notin> event_id ` set (outbox s) \<and> request_for t e \<and>
        event_status e = EvPending \<and> published_at e = None \<and> length (event_id e) \<le> 18)"
    unfolding task_added_def by blast
  have "distinct (map event_id (outbox s @ evs))"
    using evs inv by (elim disjE exE conjE) (simp_all add: request_inv_def)
  moreover have "\<forall>e \<in> set (outbox s @ evs). event_id_ok E e"
    using evs inv by (auto simp: request_inv_def event_id_ok_def)
  moreover have "\<forall>u \<in> set (tasks s'). task_status u = Queued \<longrightarrow> (\<exists>e \<in> set (outbox s @ evs). request_for u e)"
    using evs inv by (auto simp: s' request_inv_def)
  ultimately show ?thesis by (simp add: s' request_inv_def)
qed

lemma advance_request_inv:
  "request_inv E s \<Longrightarrow> \<exists>I evs. woken E I evs s s' \<and> covered I s s' \<Longrightarrow> request_inv E s'"
  using request_inv_woken by blast

subsection \<open>Requests of the single-statement completion\<close>

definition event_key_id :: "env \<Rightarrow> task_row \<Rightarrow> string" where
  "event_key_id E t = ''event_'' @ pg_md5 E (request_key (task_id t) (attempt_count t + 1))"

lemma cte_event_sel [simp]:
  "event_id (cte_event E now t) = event_key_id E t" "aggregate_id (cte_event E now t) = task_id t"
  "event_status (cte_event E now t) = EvPending" "published_at (cte_event E now t) = None"
  "request_for t (cte_event E now t)" "event_id_ok E (cte_event E now t)"
  by (simp_all add: cte_event_def event_key_id_def request_key_def request_for_def event_id_ok_def)

lemma fold_insert_events:
  "\<exists>evs. fold (\<lambda>t. insert_event_once (cte_event E now t)) ts rows = rows @ evs \<and>
     distinct (map event_id evs) \<and> event_id ` set evs \<inter> event_id ` set rows = {} \<and>
     set evs \<subseteq> cte_event E now ` set ts \<and>
     (\<forall>t \<in> set ts. event_key_id E t \<in> event_id ` set (rows @ evs))"
proof (induction ts arbitrary: rows)
  case (Cons t ts)
  let ?e = "cte_event E now t"
  show ?case
  proof (cases "event_key_id E t \<in> event_id ` set rows")
    case True
    then have "fold (\<lambda>t. insert_event_once (cte_event E now t)) (t # ts) rows =
        fold (\<lambda>t. insert_event_once (cte_event E now t)) ts rows" by (simp add: insert_event_once_def)
    with Cons.IH [of rows] True show ?thesis by (auto intro: image_eqI)
  next
    case False
    then have f: "fold (\<lambda>t. insert_event_once (cte_event E now t)) (t # ts) rows =
        fold (\<lambda>t. insert_event_once (cte_event E now t)) ts (rows @ [?e])" by (simp add: insert_event_once_def)
    from Cons.IH [of "rows @ [?e]"] obtain evs where
      "fold (\<lambda>t. insert_event_once (cte_event E now t)) ts (rows @ [?e]) = (rows @ [?e]) @ evs"
      "distinct (map event_id evs)" "event_id ` set evs \<inter> event_id ` set (rows @ [?e]) = {}"
      "set evs \<subseteq> cte_event E now ` set ts"
      "\<forall>t \<in> set ts. event_key_id E t \<in> event_id ` set ((rows @ [?e]) @ evs)" by blast
    with f False show ?thesis by (intro exI [of _ "?e # evs"]) auto
  qed
qed simp

lemma cte_request_covered:
  assumes md5: "md5_ok E s" and rows: "\<forall>e \<in> set (outbox s). event_id_ok E e"
    and new: "set evs \<subseteq> cte_event E now ` set ts" and ts: "set ts \<subseteq> set (tasks s)"
    and t: "t \<in> set ts" and e: "e \<in> set (outbox s @ evs)" "event_id e = event_key_id E t"
  shows "request_for t e"
proof -
  have len: "length (event_key_id E t) = 38" using md5 by (simp add: event_key_id_def md5_ok_def)
  have inj: "inj_on (pg_md5 E) (request_keys s)" using md5 by (simp add: md5_ok_def)
  have kt: "request_key (task_id u) (attempt_count u + 1) \<in> request_keys s" if "u \<in> set ts" for u
    using that ts by (auto simp: request_keys_def)
  from e(1) consider "e \<in> set (outbox s)" | u where "u \<in> set ts" "e = cte_event E now u" using new by auto
  then show ?thesis
  proof cases
    case 1
    with rows len e(2) obtain n where n: "event_id e = ''event_'' @ pg_md5 E (request_key (aggregate_id e) n)"
      "pget (event_payload e) ''attempt'' = JInt n" by (force simp: event_id_ok_def request_key_def)
    with 1 have "request_key (aggregate_id e) n \<in> request_keys s" by (auto simp: request_keys_def)
    moreover have "pg_md5 E (request_key (aggregate_id e) n) = pg_md5 E (request_key (task_id t) (attempt_count t + 1))"
      using e(2) n(1) by (simp add: event_key_id_def)
    ultimately have "request_key (aggregate_id e) n = request_key (task_id t) (attempt_count t + 1)"
      using inj kt [OF t] by (meson inj_on_def)
    with n(2) show ?thesis by (simp add: request_key_inj request_for_def)
  next
    case 2
    with e(2) have "pg_md5 E (request_key (task_id u) (attempt_count u + 1)) =
        pg_md5 E (request_key (task_id t) (attempt_count t + 1))" by (simp add: event_key_id_def)
    with inj kt [OF t] kt [OF 2(1)] have "request_key (task_id u) (attempt_count u + 1) =
        request_key (task_id t) (attempt_count t + 1)" by (meson inj_on_def)
    then have "request_for t e = request_for u e" by (simp add: request_key_inj request_for_def)
    with 2 show ?thesis by simp
  qed
qed

text \<open>The statement as the completion of the row followed by waking tasks.\<close>

lemma complete_cte_woken:
  assumes d: "distinct (map task_id (tasks s))"
    and run: "complete_task_with_inbox_outcome E now tid tok v iid a b c s = Inr (done, s')"
  shows "(\<not> done \<and> s' = s) \<or> (\<exists>row s1 I evs. done \<and> row \<in> set (tasks s) \<and> holds_lease tid tok v row \<and>
    lease_live now row \<and> s1 = finish_task (completed_row now) (completed_attempt now) row s \<and>
    woken E I evs s1 s' \<and>
    (md5_ok E s \<longrightarrow> request_inv E s \<longrightarrow> covered I s1 s'))"
proof (cases "done")
  case False
  with complete_cte_Inr [OF run] show ?thesis by blast
next
  case True
  define f where "f = cte_inbox now a b c"
  from complete_cte_Inr [OF run, folded f_def] True obtain ib row where
    row: "row \<in> set (tasks s)" "holds_lease tid tok v row" "lease_live now row"
    and out: "let s1 = (finish_task (completed_row now) (completed_attempt now) row s)
         \<lparr>inbox := upd_where (\<lambda>r. inbox_id r = iid) f (inbox s)\<rparr> in
     case get_space (inbox_space_id ib) (spaces s) of None \<Rightarrow> s' = s1
     | Some sp \<Rightarrow>
        let sp' = cte_space c (f ib) (space_inbox (space_id sp) s) sp;
            act = cte_activated sp' (tasks s)
        in s' = s1\<lparr>spaces := upd_where (\<lambda>r. space_id r = space_id sp) (\<lambda>_. sp') (spaces s),
             tasks := upd_where (\<lambda>t. task_id t \<in> task_id ` set act) requeue (tasks s1),
             outbox := fold (\<lambda>t. insert_event_once (cte_event E now t)) act (outbox s)\<rparr>"
    by blast
  let ?s1 = "finish_task (completed_row now) (completed_attempt now) row s"
  show ?thesis
  proof (cases "get_space (inbox_space_id ib) (spaces s)")
    case None
    with out have "woken E {} [] ?s1 s' \<and> covered {} ?s1 s'"
      by (simp add: woken_def covered_def finish_task_def upd_where_none)
    with row True show ?thesis by blast
  next
    case (Some sp)
    define act where "act = cte_activated (cte_space c (f ib) (space_inbox (space_id sp) s) sp) (tasks s)"
    let ?I = "task_id ` set act"
    from fold_insert_events [of E now act "outbox s"] obtain evs where
      evs: "fold (\<lambda>t. insert_event_once (cte_event E now t)) act (outbox s) = outbox s @ evs"
        "distinct (map event_id evs)" "event_id ` set evs \<inter> event_id ` set (outbox s) = {}"
        "set evs \<subseteq> cte_event E now ` set act"
        "\<forall>t \<in> set act. event_key_id E t \<in> event_id ` set (outbox s @ evs)" by blast
    from out Some have s': "tasks s' = upd_where (\<lambda>t. task_id t \<in> ?I) requeue (tasks ?s1)"
      "attempts s' = attempts ?s1" "outbox s' = outbox s @ evs"
      by (simp_all add: Let_def act_def [symmetric] evs(1) finish_task_def)
    have act: "u \<in> set (tasks s)" "task_status u = Blocked" if "u \<in> set act" for u
      using that by (auto simp: act_def cte_activated_def)
    have not_row: "task_id u \<noteq> task_id row" if "u \<in> set act" for u
      using tk.same_row [OF d act(1) [OF that] row(1)] act(2) [OF that] row(2) by (auto simp: holds_lease_def)
    have in1: "u \<in> set (tasks ?s1)" if "u \<in> set act" for u
      using act(1) [OF that] not_row [OF that] by (force simp: finish_task_def set_upd_where)
    have of_I: "t \<in> set act" if t: "t \<in> set (tasks ?s1)" "task_id t \<in> ?I" for t
    proof -
      from t(2) obtain u where u: "u \<in> set act" "task_id t = task_id u" by (rule imageE)
      from t(1) obtain x where x: "x \<in> set (tasks s)" "t = (if task_id x = task_id row then completed_row now x else x)"
        by (auto simp: finish_task_def upd_where_def)
      then have "task_id x = task_id u" using u by (auto split: if_splits)
      then have "x = u" using tk.same_row [OF d x(1) act(1) [OF u(1)]] by simp
      with x not_row [OF u(1)] u show ?thesis by simp
    qed
    have "woken E ?I evs ?s1 s'"
      unfolding woken_def
    proof (intro conjI ballI impI)
      show "\<exists>t \<in> set (tasks ?s1). task_id t \<in> ?I \<and> request_for t e" if "e \<in> set evs" for e
        using that evs(4) in1 by fastforce
    qed (use s' evs of_I act(2) in \<open>auto simp: finish_task_def\<close>)
    moreover have "covered ?I ?s1 s'" if md5: "md5_ok E s" and inv: "request_inv E s"
      unfolding covered_def
    proof (intro ballI impI)
      fix t assume "t \<in> set (tasks ?s1)" "task_id t \<in> ?I"
      then have t: "t \<in> set act" by (rule of_I)
      with evs(5) obtain e where e: "e \<in> set (outbox s @ evs)" "event_id e = event_key_id E t" by (metis imageE)
      have "\<forall>e \<in> set (outbox s). event_id_ok E e" using inv by (simp add: request_inv_def)
      from cte_request_covered [OF md5 this evs(4) _ t e] act(1) e(1) s'(3)
      show "\<exists>e \<in> set (outbox s'). request_for t e" by auto
    qed
    ultimately show ?thesis using row True by blast
  qed
qed

lemma complete_cte_lease_inv:
  assumes inv: "lease_inv s"
    and run: "complete_task_with_inbox_outcome E now tid tok v iid a b c s = Inr (done, s')"
  shows "lease_inv s'"
  using complete_cte_woken [OF lease_distinct [OF inv] run]
proof (elim disjE exE conjE)
  fix row s1 I evs assume row: "row \<in> set (tasks s)" "holds_lease tid tok v row"
    and s1: "s1 = finish_task (completed_row now) (completed_attempt now) row s" and w: "woken E I evs s1 s'"
  have "lease_inv s1" unfolding s1
    by (rule owned_finish_lease_inv [OF inv row])
       (use row in \<open>auto simp: completed_attempt_def holds_lease_def lease_ok_completed\<close>)
  with w show ?thesis by (rule lease_inv_woken [rotated])
qed (simp add: inv)

end
