(* ===== verification/Outbox.thy ===== *)
theory Outbox
  imports Requests
begin

text \<open>
  \<open>repositories/postgres/outbox.py\<close>: the relay claims due events under a lease, hands them to the
  publisher and records the outcome. Each mark is a transaction of its own. The publisher (Redis
  XADD) is outside the repository's control: it is a function of the event and of a broker state
  that either fails with an error text or returns a message identifier.
\<close>

definition outbox_due :: "time \<Rightarrow> outbox_row \<Rightarrow> bool" where
  "outbox_due now e \<longleftrightarrow> published_at e = None \<and>
     ((event_status e \<in> {EvPending, EvRetry} \<and>
        (case next_attempt_at e of None \<Rightarrow> True | Some t \<Rightarrow> t \<le> now)) \<or>
      (event_status e = EvPublishing \<and>
        (case event_lease_expires_at e of None \<Rightarrow> False | Some t \<Rightarrow> t \<le> now)))"

definition claimed_event_row :: "time \<Rightarrow> string \<Rightarrow> string \<Rightarrow> int \<Rightarrow> outbox_row \<Rightarrow> outbox_row" where
  "claimed_event_row now worker token lease_seconds e = e\<lparr>event_status := EvPublishing,
     event_claimed_by := Some worker, event_lease_token := Some token,
     event_lease_expires_at := Some (now + max 1 lease_seconds * second),
     last_attempt_at := Some now, publish_attempt_count := publish_attempt_count e + 1,
     event_max_attempts := (if event_max_attempts e = 0 then 10 else event_max_attempts e)\<rparr>"

record claimed_event =
  ce_id :: string
  ce_payload :: payload
  ce_token :: string
  ce_attempt :: int
  ce_max_attempts :: int

fun claim_events ::
  "env \<Rightarrow> time \<Rightarrow> string \<Rightarrow> int \<Rightarrow> outbox_row list \<Rightarrow> db \<Rightarrow> claimed_event list \<times> db" where
  "claim_events E now worker secs [] s = ([], s)"
| "claim_events E now worker secs (row # rows) s =
     (let (token, s1) = draw E s;
          row' = claimed_event_row now worker token secs row;
          s2 = s1\<lparr>outbox := upd_where (\<lambda>e. event_id e = event_id row) (\<lambda>_. row') (outbox s1)\<rparr>;
          (cs, s3) = claim_events E now worker secs rows s2
      in (\<lparr>ce_id = event_id row, ce_payload = event_payload row, ce_token = token,
           ce_attempt = publish_attempt_count row', ce_max_attempts = event_max_attempts row'\<rparr> # cs, s3))"

definition due_events :: "time \<Rightarrow> int \<Rightarrow> string list option \<Rightarrow> db \<Rightarrow> outbox_row list" where
  "due_events now limit ids s = take (nat (max 1 limit)) (sort_key event_created_at
     (filter (\<lambda>e. outbox_due now e \<and> (case ids of None \<Rightarrow> True | Some l \<Rightarrow> event_id e \<in> set l)) (outbox s)))"

definition claim_outbox_batch ::
  "env \<Rightarrow> time \<Rightarrow> string \<Rightarrow> int \<Rightarrow> string list option \<Rightarrow> int \<Rightarrow> db \<Rightarrow> claimed_event list \<times> db" where
  "claim_outbox_batch E now worker limit ids secs s =
     claim_events E now worker secs (due_events now limit ids s) s"

definition holds_event :: "string \<Rightarrow> string \<Rightarrow> outbox_row \<Rightarrow> bool" where
  "holds_event eid token e \<longleftrightarrow> event_id e = eid \<and> event_status e = EvPublishing \<and>
     event_lease_token e = Some token"

definition published_row :: "time \<Rightarrow> outbox_row \<Rightarrow> outbox_row" where
  "published_row now e = e\<lparr>event_status := EvPublished, published_at := Some now,
     event_claimed_by := None, event_lease_token := None, event_lease_expires_at := None,
     next_attempt_at := None, event_last_error := None\<rparr>"

definition mark_outbox_published :: "time \<Rightarrow> string \<Rightarrow> string \<Rightarrow> db \<Rightarrow> bool \<times> db" where
  "mark_outbox_published now eid token s =
     (list_ex (holds_event eid token) (outbox s),
      s\<lparr>outbox := upd_where (holds_event eid token) (published_row now) (outbox s)\<rparr>)"

definition publish_exhausted :: "outbox_row \<Rightarrow> bool" where
  "publish_exhausted e \<longleftrightarrow> publish_attempt_count e \<ge>
     max 1 (if event_max_attempts e = 0 then 10 else event_max_attempts e)"

definition publish_backoff :: "outbox_row \<Rightarrow> int" where
  "publish_backoff e = min 300 (2 ^ nat (max 0 (publish_attempt_count e - 1)))"

definition publish_failed_row :: "time \<Rightarrow> string \<Rightarrow> outbox_row \<Rightarrow> outbox_row" where
  "publish_failed_row now error e = e\<lparr>
     event_status := (if publish_exhausted e then EvDead else EvRetry),
     failed_at := (if publish_exhausted e then Some now else None),
     next_attempt_at := (if publish_exhausted e then None else Some (now + publish_backoff e * second)),
     event_last_error := Some (take 2000 error), event_claimed_by := None,
     event_lease_token := None, event_lease_expires_at := None\<rparr>"

datatype relay_status = RelayStale | RelayIs outbox_status

definition mark_outbox_failed :: "time \<Rightarrow> string \<Rightarrow> string \<Rightarrow> string \<Rightarrow> db \<Rightarrow> relay_status \<times> db" where
  "mark_outbox_failed now eid token error s =
     (case find (holds_event eid token) (outbox s) of
        None \<Rightarrow> (RelayStale, s)
      | Some row \<Rightarrow> (RelayIs (event_status (publish_failed_row now error row)),
          s\<lparr>outbox := upd_where (\<lambda>e. event_id e = event_id row) (\<lambda>_. publish_failed_row now error row)
            (outbox s)\<rparr>))"

subsection \<open>The relay loop\<close>

record relay_report =
  rep_published :: nat
  rep_failed :: nat
  rep_dead :: nat
  rep_stale :: nat

type_synonym 'w publisher = "string \<Rightarrow> payload \<Rightarrow> 'w \<Rightarrow> (string + string) \<times> 'w"

text \<open>One round of the loop body; \<open>clock\<close> is the time at which the outcome of an event is recorded.\<close>

definition relay_event ::
  "'w publisher \<Rightarrow> (string \<Rightarrow> time) \<Rightarrow> claimed_event \<Rightarrow> relay_report \<times> db \<times> 'w \<Rightarrow> relay_report \<times> db \<times> 'w" where
  "relay_event publish clock c = (\<lambda>(r, s, w).
     case publish (ce_id c) (ce_payload c) w of
       (Inl error, w') \<Rightarrow>
         (case mark_outbox_failed (clock (ce_id c)) (ce_id c) (ce_token c) error s of
            (RelayStale, s') \<Rightarrow> (r\<lparr>rep_stale := rep_stale r + 1\<rparr>, s', w')
          | (RelayIs EvDead, s') \<Rightarrow>
              (r\<lparr>rep_dead := rep_dead r + 1, rep_failed := rep_failed r + 1\<rparr>, s', w')
          | (RelayIs _, s') \<Rightarrow> (r\<lparr>rep_failed := rep_failed r + 1\<rparr>, s', w'))
     | (Inr _, w') \<Rightarrow>
         (case mark_outbox_published (clock (ce_id c)) (ce_id c) (ce_token c) s of
            (True, s') \<Rightarrow> (r\<lparr>rep_published := rep_published r + 1\<rparr>, s', w')
          | (False, s') \<Rightarrow> (r\<lparr>rep_stale := rep_stale r + 1\<rparr>, s', w')))"

definition relay_outbox_batch ::
  "env \<Rightarrow> time \<Rightarrow> 'w publisher \<Rightarrow> (string \<Rightarrow> time) \<Rightarrow> int \<Rightarrow> string list option \<Rightarrow> string \<Rightarrow> db \<Rightarrow> 'w \<Rightarrow>
   relay_report \<times> db \<times> 'w" where
  "relay_outbox_batch E now publish clock limit ids worker s w =
     (let (events, s1) = claim_outbox_batch E now worker limit ids 30 s
      in fold (relay_event publish clock) events
           (\<lparr>rep_published = 0, rep_failed = 0, rep_dead = 0, rep_stale = 0\<rparr>, s1, w))"

subsection \<open>What the relay leaves alone\<close>

definition outbox_step :: "db \<Rightarrow> db \<Rightarrow> bool" where
  "outbox_step s s' \<longleftrightarrow> (\<exists>es k. s' = s\<lparr>outbox := es, uuid_pos := k\<rparr> \<and>
     map (\<lambda>e. (event_id e, aggregate_id e, event_payload e)) es =
     map (\<lambda>e. (event_id e, aggregate_id e, event_payload e)) (outbox s))"

lemma outbox_step_refl: "outbox_step s s"
  unfolding outbox_step_def by (rule exI [of _ "outbox s"], rule exI [of _ "uuid_pos s"]) simp

lemma outbox_step_trans: "outbox_step s t \<Longrightarrow> outbox_step t u \<Longrightarrow> outbox_step s u"
  unfolding outbox_step_def by force

lemma claimed_event_row_sel [simp]:
  "event_id (claimed_event_row now w tok secs e) = event_id e"
  "aggregate_id (claimed_event_row now w tok secs e) = aggregate_id e"
  "event_payload (claimed_event_row now w tok secs e) = event_payload e"
  "event_status (claimed_event_row now w tok secs e) = EvPublishing"
  "event_lease_token (claimed_event_row now w tok secs e) = Some tok"
  "event_lease_expires_at (claimed_event_row now w tok secs e) = Some (now + max 1 secs * second)"
  "publish_attempt_count (claimed_event_row now w tok secs e) = publish_attempt_count e + 1"
  "published_at (claimed_event_row now w tok secs e) = published_at e"
  by (simp_all add: claimed_event_row_def)

lemma published_row_sel [simp]:
  "event_id (published_row now e) = event_id e" "aggregate_id (published_row now e) = aggregate_id e"
  "event_payload (published_row now e) = event_payload e" "event_status (published_row now e) = EvPublished"
  "published_at (published_row now e) = Some now" "event_lease_token (published_row now e) = None"
  by (simp_all add: published_row_def)

lemma publish_failed_row_sel [simp]:
  "event_id (publish_failed_row now err e) = event_id e"
  "aggregate_id (publish_failed_row now err e) = aggregate_id e"
  "event_payload (publish_failed_row now err e) = event_payload e"
  "event_status (publish_failed_row now err e) = (if publish_exhausted e then EvDead else EvRetry)"
  "published_at (publish_failed_row now err e) = published_at e"
  "event_lease_token (publish_failed_row now err e) = None"
  by (simp_all add: publish_failed_row_def)

lemma outbox_step_upd:
  assumes "\<And>e. e \<in> set (outbox s) \<Longrightarrow> P e \<Longrightarrow> event_id (f e) = event_id e \<and>
    aggregate_id (f e) = aggregate_id e \<and> event_payload (f e) = event_payload e"
  shows "outbox_step s (s\<lparr>outbox := upd_where P f (outbox s), uuid_pos := k\<rparr>)"
  unfolding outbox_step_def
  by (rule exI [of _ "upd_where P f (outbox s)"], rule exI [of _ k]) (use assms in \<open>simp add: map_upd_where\<close>)

lemma outbox_step_upd_keep:
  assumes "\<And>e. e \<in> set (outbox s) \<Longrightarrow> P e \<Longrightarrow> event_id (f e) = event_id e \<and>
    aggregate_id (f e) = aggregate_id e \<and> event_payload (f e) = event_payload e"
  shows "outbox_step s (s\<lparr>outbox := upd_where P f (outbox s)\<rparr>)"
proof -
  have "outbox_step s (s\<lparr>outbox := upd_where P f (outbox s), uuid_pos := uuid_pos s\<rparr>)"
    by (rule outbox_step_upd) (rule assms)
  then show ?thesis by simp
qed

lemma mark_published_step: "outbox_step s (snd (mark_outbox_published now eid tok s))"
  unfolding mark_outbox_published_def snd_conv by (rule outbox_step_upd_keep) simp

lemma mark_failed_step:
  assumes d: "distinct (map event_id (outbox s))"
  shows "outbox_step s (snd (mark_outbox_failed now eid tok err s))"
proof (cases "find (holds_event eid tok) (outbox s)")
  case None
  then show ?thesis by (simp add: mark_outbox_failed_def outbox_step_refl)
next
  case (Some row)
  then have row: "row \<in> set (outbox s)" by (auto dest: find_SomeD)
  have "outbox_step s (s\<lparr>outbox := upd_where (\<lambda>e. event_id e = event_id row)
      (\<lambda>_. publish_failed_row now err row) (outbox s)\<rparr>)"
    by (rule outbox_step_upd_keep) (use ev.same_row [OF d _ row] in auto)
  with Some show ?thesis by (simp add: mark_outbox_failed_def)
qed

lemma claim_events_step:
  assumes "distinct (map event_id (outbox s))" "set rows \<subseteq> set (outbox s)" "distinct (map event_id rows)"
  shows "outbox_step s (snd (claim_events E now worker secs rows s))"
  using assms
proof (induction rows arbitrary: s)
  case (Cons row rows)
  let ?P = "\<lambda>e. event_id e = event_id row"
  let ?row = "claimed_event_row now worker (uuid_hex E (uuid_pos s)) secs row"
  let ?s = "s\<lparr>outbox := upd_where ?P (\<lambda>_. ?row) (outbox s), uuid_pos := Suc (uuid_pos s)\<rparr>"
  have only: "e = row" if "e \<in> set (outbox s)" "?P e" for e
    using ev.same_row [OF Cons.prems(1) that(1) _ that(2)] Cons.prems(2) by simp
  have st: "outbox_step s ?s" by (rule outbox_step_upd) (use only in auto)
  have "map event_id (outbox ?s) = map event_id (outbox s)" using only by (auto intro!: map_upd_where)
  moreover have "set rows \<subseteq> set (outbox ?s)"
  proof
    fix e assume e: "e \<in> set rows"
    with Cons.prems(2) have "e \<in> set (outbox s)" by auto
    moreover have "event_id e \<noteq> event_id row" using e Cons.prems(3) by (metis distinct.simps(2) imageI list.simps(9) set_map)
    ultimately show "e \<in> set (outbox ?s)" by (simp add: set_upd_where)
  qed
  ultimately have "outbox_step ?s (snd (claim_events E now worker secs rows ?s))"
    using Cons.IH [of ?s] Cons.prems by simp
  with st have "outbox_step s (snd (claim_events E now worker secs rows ?s))" by (rule outbox_step_trans)
  moreover have "?s = s\<lparr>uuid_pos := Suc (uuid_pos s), outbox := upd_where ?P (\<lambda>_. ?row) (outbox s)\<rparr>" by simp
  ultimately show ?case by (simp add: draw_def Let_def case_prod_beta)
qed (simp add: outbox_step_refl)

lemma due_events_mem:
  assumes "distinct (map event_id (outbox s))"
  shows "set (due_events now limit ids s) \<subseteq> {e \<in> set (outbox s). outbox_due now e} \<and>
    distinct (map event_id (due_events now limit ids s)) \<and>
    int (length (due_events now limit ids s)) \<le> max 1 limit"
proof -
  let ?F = "filter (\<lambda>e. outbox_due now e \<and> (case ids of None \<Rightarrow> True | Some l \<Rightarrow> event_id e \<in> set l)) (outbox s)"
  have "distinct (map event_id ?F)" using assms by (rule distinct_map_filter)
  then have "distinct (map event_id (sort_key event_created_at ?F))" by (simp add: distinct_map)
  then have "distinct (map event_id (due_events now limit ids s))"
    unfolding due_events_def by (subst take_map [symmetric]) (rule distinct_take)
  moreover have "set (due_events now limit ids s) \<subseteq> set ?F"
    unfolding due_events_def by (rule subset_trans [OF set_take_subset]) simp
  ultimately show ?thesis by (auto simp: due_events_def)
qed

lemma claim_batch_step:
  "distinct (map event_id (outbox s)) \<Longrightarrow> outbox_step s (snd (claim_outbox_batch E now worker limit ids secs s))"
  unfolding claim_outbox_batch_def using due_events_mem [of s now limit ids]
  by (intro claim_events_step) auto

end
