(* ===== verification/Pipeline.thy ===== *)
theory Pipeline
  imports Outbox
begin

text \<open>
  The pipeline as a transition system: the transactions the program runs against the task tables,
  the states they reach and the invariants of those states.

  \<open>table_invariant\<close> is the interface between a predicate on the task tables and the operations: a
  predicate that survives the elementary changes (a new task, waking tasks, rewriting task rows
  under the lease rules) survives every transaction. It is interpreted for the lease invariant and
  for the outbox guarantee.
\<close>

subsection \<open>Transactions as elementary changes\<close>

lemma new_row_lease_ok: "lease_ok (new_task_row tid now ty tn sid msg idem p prio maxa st)"
  if "st \<in> {Blocked, Queued}"
  using that by (auto simp: lease_ok_def new_task_row_def)

lemma accept_command_phases:
  assumes "accept_command E now ctx c tn sid u = Inr (res, v)"
  shows "\<exists>r p st space tid created u3.
    enqueue_task_in_session E now ctx (cmd_task_type c) tn sid (Some (cmd_source_message_id c))
      (command_key tn (cmd_task_type c) (cmd_source c) (cmd_source_message_id c))
      p 0 (cmd_max_attempts c) st (st = Queued)
      (u\<lparr>uuid_pos := Suc (uuid_pos u), inbox := inbox u @ [r]\<rparr>) = Inr ((tid, created), u3) \<and>
    st \<in> {Blocked, Queued} \<and>
    (if cmd_task_type c = ''ingest'' then v = u3
     else \<exists>n. advance_watermarks_in_session E now space u3 = Inr (n, v))"
  using accept_command_Inr [OF assms]
proof (elim exE conjE, goal_cases)
  case (1 space tid created s3 st)
  have "st \<in> {Blocked, Queued}" unfolding 1(3) by simp
  with 1(4,6) show ?case by blast
qed

text \<open>
  A rewrite of a task row that respects the lease rules: the task is not finished, keeps its
  identifier, never loses an attempt, and is not queued by the rewrite itself.
\<close>

definition finished :: "task_row \<Rightarrow> bool" where
  "finished t \<longleftrightarrow> task_status t \<in> {Completed, Cancelled, DeadLetter}"

definition onward :: "task_row \<Rightarrow> task_row \<Rightarrow> bool" where
  "onward t t' \<longleftrightarrow> \<not> finished t \<and> task_id t' = task_id t \<and> attempt_count t \<le> attempt_count t' \<and>
     task_status t' \<noteq> Queued"

locale table_invariant =
  fixes E :: env and P :: "db \<Rightarrow> bool"
  assumes lease: "P u \<Longrightarrow> lease_inv u"
    and cong: "P u \<Longrightarrow> tasks v = tasks u \<Longrightarrow> attempts v = attempts u \<Longrightarrow> outbox v = outbox u \<Longrightarrow> P v"
    and new_task: "P u \<Longrightarrow> task_added t u v \<Longrightarrow> attempt_count t = 0 \<Longrightarrow>
      task_status t \<in> {Blocked, Queued} \<Longrightarrow> lease_ok t \<Longrightarrow> P v"
    and woken: "P u \<Longrightarrow> woken E I evs u v \<Longrightarrow> covered I u v \<Longrightarrow> P v"
    and retask: "P u \<Longrightarrow> lease_inv v \<Longrightarrow> outbox v = outbox u \<Longrightarrow> tasks v = upd_where Q f (tasks u) \<Longrightarrow>
      (\<And>t. t \<in> set (tasks u) \<Longrightarrow> Q t \<Longrightarrow> onward t (f t)) \<Longrightarrow> P v"
begin

lemma advance: "P u \<Longrightarrow> advance_watermarks_in_session E now sp u = Inr (n, v) \<Longrightarrow> P v"
  using advance_woken [of E now sp u n v] lease lease_pos lease_distinct woken by blast

lemma stage: "P u \<Longrightarrow> complete_inbox_stage_in_session E now iid a b c ok err u = Inr (n, v) \<Longrightarrow> P v"
  using stage_woken [of E now iid a b c ok err u n v] lease lease_pos lease_distinct woken by blast

lemma retries: "P u \<Longrightarrow> enqueue_due_retries E now limit ids u = Inr (n, v) \<Longrightarrow> P v"
  using due_retries_woken [of u E now limit ids n v] lease lease_distinct woken by blast

lemma enqueue_in_session:
  assumes "P u" "enqueue_task_in_session E now ctx ty tn sid msg idem p prio maxa st (st = Queued) u =
      Inr ((tid, created), v)" "st \<in> {Blocked, Queued}"
  shows "P v"
proof (cases created)
  case True
  with enqueue_in_session_Inr [OF assms(2)] have
    "task_added (new_task_row tid now ty tn sid msg idem (trace_payload ctx p) prio maxa st) u v" by simp
  from new_task [OF assms(1) this] assms(3) new_row_lease_ok show ?thesis by simp
next
  case False
  with enqueue_in_session_Inr [OF assms(2)] show ?thesis by (intro cong [OF assms(1)]) simp_all
qed

lemma spaces_ext: "P u \<Longrightarrow> spaces_ext u v \<Longrightarrow> P v"
  by (erule cong) (auto simp: spaces_ext_def)

lemma enqueue:
  assumes "P u" "enqueue_task E now ctx ty sid idem p tn msg prio maxa Queued True u = Inr ((tid, created), v)"
  shows "P v"
proof -
  from assms(2) obtain sid' u1 where ext: "ensure_tenant_space E sid tn ''feishu'' [] u = Inr (sid', u1)"
    and enq: "enqueue_task_in_session E now ctx ty tn sid' msg idem p prio maxa Queued (Queued = Queued) u1 =
      Inr ((tid, created), v)"
    by (auto simp: enqueue_task_def split: sum.splits prod.splits)
  from spaces_ext [OF assms(1)] ensure_tenant_space_ext [OF ext] have "P u1" by blast
  from enqueue_in_session [OF this enq] show ?thesis by simp
qed

lemma receive:
  assumes "P u" "receive_command E now ctx c u = Inr (res, v)"
  shows "P v"
proof -
  let ?tn = "if cmd_tenant_id c = [] then ''default'' else cmd_tenant_id c"
  from assms(2) obtain sid u1 where ext: "ensure_tenant_space E (cmd_space_id c) ?tn (cmd_source c) [] u = Inr (sid, u1)"
    and rest: "v = u1 \<or> accept_command E now ctx c ?tn sid u1 = Inr (res, v)"
    by (auto simp: receive_command_def Let_def split: sum.splits option.splits prod.splits if_splits)
  from spaces_ext [OF assms(1)] ensure_tenant_space_ext [OF ext] have u1: "P u1" by blast
  from rest show ?thesis
  proof
    assume "accept_command E now ctx c ?tn sid u1 = Inr (res, v)"
    from accept_command_phases [OF this] obtain r p st space tid created u3 where
      enq: "enqueue_task_in_session E now ctx (cmd_task_type c) ?tn sid (Some (cmd_source_message_id c))
        (command_key ?tn (cmd_task_type c) (cmd_source c) (cmd_source_message_id c))
        p 0 (cmd_max_attempts c) st (st = Queued)
        (u1\<lparr>uuid_pos := Suc (uuid_pos u1), inbox := inbox u1 @ [r]\<rparr>) = Inr ((tid, created), u3)"
      and st: "st \<in> {Blocked, Queued}"
      and fin: "if cmd_task_type c = ''ingest'' then v = u3
        else \<exists>n. advance_watermarks_in_session E now space u3 = Inr (n, v)" by blast
    have "P (u1\<lparr>uuid_pos := Suc (uuid_pos u1), inbox := inbox u1 @ [r]\<rparr>)" by (rule cong [OF u1]) simp_all
    from enqueue_in_session [OF this enq st] have "P u3" .
    with fin advance show ?thesis by (auto split: if_splits)
  qed (use u1 in simp)
qed

lemma claim:
  assumes "P u" "claim_task E now tid worker stale u = Inr (x, v)"
  shows "P v"
proof (cases "find (\<lambda>t. task_id t = tid \<and> claimable now (now - max 1 stale * second) t) (tasks u)")
  case None
  with assms(2) have "v = u\<lparr>uuid_pos := Suc (uuid_pos u)\<rparr>" by (simp add: claim_task_Inr [OF lease [OF assms(1)]])
  then show ?thesis by (auto intro: cong [OF assms(1)])
next
  case (Some cand)
  with assms(2) have "outbox v = outbox u" "tasks v = upd_where (\<lambda>t. task_id t = tid)
      (claimed_row now worker (uuid_hex E (uuid_pos u)) (now + max 1 stale * second)) (tasks u)"
    by (auto simp: claim_task_Inr [OF lease [OF assms(1)]])
  moreover have "claimable now (now - max 1 stale * second) t" if "t \<in> set (tasks u)" "task_id t = tid" for t
    using find_SomeD [OF Some] tk.same_row [OF lease_distinct [OF lease [OF assms(1)]] that(1)] that(2) by blast
  then have "onward t (claimed_row now worker (uuid_hex E (uuid_pos u)) (now + max 1 stale * second) t)"
    if "t \<in> set (tasks u)" "task_id t = tid" for t
    using that by (simp add: onward_def finished_def claimable_def)
  ultimately show ?thesis by (rule retask [OF assms(1) claim_lease_inv [OF lease [OF assms(1)] assms(2)]])
qed

lemma retask_upd:
  "P u \<Longrightarrow> lease_inv (u\<lparr>tasks := upd_where Q f (tasks u)\<rparr>) \<Longrightarrow>
     (\<And>t. t \<in> set (tasks u) \<Longrightarrow> Q t \<Longrightarrow> onward t (f t)) \<Longrightarrow>
     P (u\<lparr>tasks := upd_where Q f (tasks u)\<rparr>)"
  by (rule retask [where Q = Q and f = f]) simp_all

lemma renew: "P u \<Longrightarrow> P (snd (renew_task_lease now tid tok v secs u))"
  unfolding renew_task_lease_def snd_conv
  by (rule retask_upd)
     (use renew_lease_inv [OF lease, of u now tid tok v secs] in
       \<open>auto simp: holds_lease_def renew_task_lease_def onward_def finished_def\<close>)

lemma finish:
  assumes "P u" "row \<in> set (tasks u)" "holds_lease tid tok v row" "lease_inv (finish_task f g row u)"
    "task_id (f row) = task_id row" "attempt_count (f row) = attempt_count row" "task_status (f row) \<noteq> Queued"
  shows "P (finish_task f g row u)"
proof (rule retask [OF assms(1,4)])
  fix t assume "t \<in> set (tasks u)" "task_id t = task_id row"
  then have "t = row" using tk.same_row [OF lease_distinct [OF lease [OF assms(1)]] _ assms(2)] by blast
  with assms(3,5-7) show "onward t (f t)" by (simp add: onward_def finished_def holds_lease_def)
qed (simp_all add: finish_task_def)

lemma complete_plain:
  assumes "P u"
  shows "P (snd (complete_task_plain now tid tok v u))"
proof (cases "find (\<lambda>t. holds_lease tid tok v t \<and> lease_live now t) (tasks u)")
  case (Some row)
  with complete_plain_lease_inv [OF lease [OF assms], of now tid tok v] show ?thesis
    by (auto simp: complete_task_plain_def dest: find_SomeD intro: finish [OF assms])
qed (simp add: complete_task_plain_def assms)

lemma defer_keeps:
  assumes "P u"
  shows "P (snd (defer_task now tid reason delay tok v u))"
proof (cases "owned_running_task now tid tok v u")
  case (Some row)
  with defer_lease_inv [OF lease [OF assms], of now tid reason delay tok v] owned_running_task_mem [OF Some]
  show ?thesis by (auto simp: defer_task_def deferred_row_def intro: finish [OF assms])
qed (simp add: defer_task_def assms)

lemma cancel_dependents: "P u \<Longrightarrow> P (cancel_blocked_dependents now parent err u)"
  unfolding cancel_blocked_dependents_def
  by (rule retask_upd)
     (use cancel_dependents_lease_inv [OF lease, of u now parent err] in
       \<open>simp_all add: cancel_blocked_dependents_def onward_def finished_def\<close>)

lemma fail:
  assumes "P u" "fail_task E now tid err delay tok v u = Inr (res, w)"
  shows "P w"
proof (rule fail_task_keeps [where P = P, OF assms(2,1)])
  fix row assume "owned_running_task now tid tok v u = Some row"
  note row = owned_running_task_mem [OF this]
  show "P (finish_task (failed_row now err delay)
      (failed_attempt now err (failure_count row + 1 \<ge> max_attempts row)) row u)"
  proof (rule finish [OF assms(1)])
    show "lease_inv (finish_task (failed_row now err delay)
        (failed_attempt now err (failure_count row + 1 \<ge> max_attempts row)) row u)"
      by (rule owned_finish_lease_inv [where tid = tid and tok = tok and v = v, OF lease [OF assms(1)]])
         (use row in \<open>auto simp: failed_attempt_def holds_lease_def lease_ok_failed\<close>)
  qed (use row in auto)
qed (use cancel_dependents stage in blast)+

lemma cancel_root: "P u \<Longrightarrow> P (u\<lparr>tasks := cancel_root_tasks now reason msg (tasks u)\<rparr>)"
  unfolding cancel_root_tasks_def
proof (rule retask_upd)
  assume "P u"
  from lease [OF this] show "lease_inv (u\<lparr>tasks := upd_where (\<lambda>t. source_message_id t = Some msg \<and>
      task_type t = ''ingest'' \<and> task_status t \<in> {Blocked, Queued, Retry})
      (\<lambda>t. t\<lparr>task_status := Cancelled, completed_at := Some now, last_error := Some reason\<rparr>) (tasks u)\<rparr>)"
    by (rule lease_inv_quiet) (auto simp: quiet_def lease_ok_def)
qed (auto simp: onward_def finished_def)

lemma skip:
  assumes "P u" "skip_inbox_record E now iid st cancel u = Inr (b, v)"
  shows "P v"
proof (cases "get_inbox iid (inbox u)")
  case None
  with assms show ?thesis by (simp add: skip_inbox_record_def)
next
  case (Some ib)
  with assms(2) obtain ib' sp u2 n where
    u2: "u2 = put_rows ib' sp u \<or> (\<exists>m r. u2 = (put_rows ib' sp u)\<lparr>tasks :=
      cancel_root_tasks now r m (tasks (put_rows ib' sp u))\<rparr>)"
    and adv: "advance_watermarks_in_session E now sp u2 = Inr (n, v)"
    unfolding skip_inbox_record_def Let_def
    by (simp split: option.splits sum.splits prod.splits if_splits) blast+
  have "P (put_rows ib' sp u)" by (rule cong [OF assms(1)]) (simp_all add: put_rows_def)
  with u2 cancel_root have "P u2" by blast
  with adv advance show ?thesis by blast
qed

end

text \<open>
  Predicates that do not care whether a woken task has its request survive the single-statement
  completion too, whatever MD5 does.
\<close>

locale uncovered_invariant = table_invariant +
  assumes woken_free: "P u \<Longrightarrow> woken E I evs u v \<Longrightarrow> P v"
begin

lemma complete:
  assumes "P u" "complete_task E now tid tok ver out u = Inr (done, v)" "activate_task_id out = None"
  shows "P v"
  using complete_task_cases [OF assms(2,3)]
proof (elim disjE exE)
  assume "(done, v) = complete_task_plain now tid tok ver u"
  then have "v = snd (complete_task_plain now tid tok ver u)" by (metis snd_conv)
  with complete_plain [OF assms(1)] show ?thesis by simp
next
  fix iid a b c assume run: "complete_task_with_inbox_outcome E now tid tok ver iid a b c u = Inr (done, v)"
  show ?thesis
    using complete_cte_woken [OF lease_distinct [OF lease [OF assms(1)]] run]
  proof (elim disjE exE conjE)
    fix row s1 I evs assume row: "row \<in> set (tasks u)" "holds_lease tid tok ver row"
      and s1: "s1 = finish_task (completed_row now) (completed_attempt now) row u" and w: "woken E I evs s1 v"
    have "lease_inv s1" unfolding s1
      by (rule owned_finish_lease_inv [OF lease [OF assms(1)] row])
         (use row in \<open>auto simp: completed_attempt_def holds_lease_def lease_ok_completed\<close>)
    then have "P s1" unfolding s1 by (intro finish [OF assms(1) row]) auto
    with w show ?thesis by (rule woken_free [rotated])
  qed (simp add: assms(1))
qed

end

interpretation leases: uncovered_invariant E lease_inv for E
proof unfold_locales
  show "lease_inv u \<Longrightarrow> task_added t u v \<Longrightarrow> attempt_count t = 0 \<Longrightarrow>
      task_status t \<in> {Blocked, Queued} \<Longrightarrow> lease_ok t \<Longrightarrow> lease_inv v" for u v t
    by (rule lease_inv_new_task) auto
qed (auto intro: lease_inv_cong lease_inv_woken)

interpretation requests: table_invariant E "\<lambda>s. lease_inv s \<and> request_inv E s" for E
proof unfold_locales
  show "lease_inv v \<and> request_inv E v" if "lease_inv u \<and> request_inv E u" "lease_inv v" "outbox v = outbox u"
    "tasks v = upd_where Q f (tasks u)" "\<And>t. t \<in> set (tasks u) \<Longrightarrow> Q t \<Longrightarrow> onward t (f t)" for u v Q f
    using request_inv_tasks [of E u v Q f] that by (simp add: onward_def)
qed (auto intro: lease_inv_cong lease_inv_woken request_inv_cong request_inv_woken request_inv_new_task
      lease_inv_new_task)

text \<open>The identifiers of the events, without the assumption on MD5.\<close>

definition names_ok :: "env \<Rightarrow> db \<Rightarrow> bool" where
  "names_ok E s \<longleftrightarrow> distinct (map event_id (outbox s)) \<and> (\<forall>e \<in> set (outbox s). event_id_ok E e)"

lemma names_ok_woken: "names_ok E u \<Longrightarrow> woken E I evs u v \<Longrightarrow> names_ok E v"
  by (auto simp: names_ok_def woken_def)

lemma names_ok_new_task:
  assumes "names_ok E u" "task_added t u v"
  shows "names_ok E v"
proof -
  from assms(2) obtain evs k where v: "v = u\<lparr>tasks := tasks u @ [t], outbox := outbox u @ evs, uuid_pos := k\<rparr>"
    and evs: "evs = [] \<or> (\<exists>e. evs = [e] \<and> event_id e \<notin> event_id ` set (outbox u) \<and> length (event_id e) \<le> 18)"
    unfolding task_added_def by blast
  have "distinct (map event_id (outbox u @ evs))"
    using evs assms(1) by (elim disjE exE conjE) (simp_all add: names_ok_def)
  moreover have "\<forall>e \<in> set (outbox u @ evs). event_id_ok E e"
    using evs assms(1) by (auto simp: names_ok_def event_id_ok_def)
  ultimately show ?thesis by (simp add: names_ok_def v)
qed

interpretation names: uncovered_invariant E "\<lambda>s. lease_inv s \<and> names_ok E s" for E
proof unfold_locales
  show "lease_inv v \<and> names_ok E v" if "lease_inv u \<and> names_ok E u" "lease_inv v" "outbox v = outbox u" for u v
    using that by (simp add: names_ok_def)
  show "lease_inv v \<and> names_ok E v" if "lease_inv u \<and> names_ok E u" "tasks v = tasks u"
    "attempts v = attempts u" "outbox v = outbox u" for u v
    using that by (auto simp: names_ok_def intro: lease_inv_cong)
qed (auto intro: lease_inv_woken names_ok_woken names_ok_new_task lease_inv_new_task)

text \<open>A task, once there, stays, and its claim version never decreases.\<close>

definition at_version :: "string \<Rightarrow> int \<Rightarrow> db \<Rightarrow> bool" where
  "at_version tid w s \<longleftrightarrow> (\<exists>t \<in> set (tasks s). task_id t = tid \<and> w \<le> attempt_count t)"

lemma at_version_upd:
  assumes "at_version tid w u" "tasks v = upd_where Q f (tasks u)"
    and "\<And>t. t \<in> set (tasks u) \<Longrightarrow> Q t \<Longrightarrow> task_id (f t) = task_id t \<and> attempt_count t \<le> attempt_count (f t)"
  shows "at_version tid w v"
proof -
  from assms(1) obtain t where t: "t \<in> set (tasks u)" "task_id t = tid" "w \<le> attempt_count t"
    by (auto simp: at_version_def)
  then show ?thesis
    unfolding at_version_def assms(2) using assms(3) [OF t(1)]
    by (intro bexI [of _ "if Q t then f t else t"]) (auto simp: upd_where_def)
qed

interpretation versions: uncovered_invariant E "\<lambda>s. lease_inv s \<and> at_version tid w s" for E tid w
proof unfold_locales
  show "lease_inv v \<and> at_version tid w v" if "lease_inv u \<and> at_version tid w u" "lease_inv v"
    "tasks v = upd_where Q f (tasks u)" "\<And>t. t \<in> set (tasks u) \<Longrightarrow> Q t \<Longrightarrow> onward t (f t)" for u v Q f
    using at_version_upd [of tid w u v Q f] that by (simp add: onward_def)
  show wake: "lease_inv v \<and> at_version tid w v" if "lease_inv u \<and> at_version tid w u" "woken E I evs u v" for u v I evs
    using that lease_inv_woken at_version_upd [of tid w u v "\<lambda>t. task_id t \<in> I" requeue] by (auto simp: woken_def)
  then show "lease_inv v \<and> at_version tid w v" if "lease_inv u \<and> at_version tid w u" "woken E I evs u v" for u v I evs
    using that by blast
  show "lease_inv v \<and> at_version tid w v" if "lease_inv u \<and> at_version tid w u" "task_added t u v"
    "attempt_count t = 0" "task_status t \<in> {Blocked, Queued}" "lease_ok t" for u v t
  proof -
    have "lease_inv v" using that by (auto intro: lease_inv_new_task)
    moreover have "set (tasks u) \<subseteq> set (tasks v)" using that(2) by (auto simp: task_added_def)
    ultimately show ?thesis using that(1) by (auto simp: at_version_def)
  qed
qed (auto intro: lease_inv_cong simp: at_version_def)

text \<open>A finished task keeps its row as it is.\<close>

interpretation terminal: uncovered_invariant E "\<lambda>s. lease_inv s \<and> t0 \<in> set (tasks s) \<and> finished t0" for E t0
proof unfold_locales
  show "lease_inv v \<and> t0 \<in> set (tasks v) \<and> finished t0" if "lease_inv u \<and> t0 \<in> set (tasks u) \<and> finished t0"
    "lease_inv v" "tasks v = upd_where Q f (tasks u)" "\<And>t. t \<in> set (tasks u) \<Longrightarrow> Q t \<Longrightarrow> onward t (f t)" for u v Q f
    using that by (auto simp: upd_where_def onward_def image_iff intro: bexI [of _ t0])
  show wake: "lease_inv v \<and> t0 \<in> set (tasks v) \<and> finished t0" if "lease_inv u \<and> t0 \<in> set (tasks u) \<and> finished t0"
    "woken E I evs u v" for u v I evs
  proof -
    have "task_id t0 \<notin> I" using that by (auto simp: woken_def finished_def)
    then have "t0 \<in> set (tasks v)" using that by (auto simp: woken_def upd_where_def image_iff)
    with that show ?thesis by (auto intro: lease_inv_woken)
  qed
  then show "lease_inv v \<and> t0 \<in> set (tasks v) \<and> finished t0" if "lease_inv u \<and> t0 \<in> set (tasks u) \<and> finished t0"
    "woken E I evs u v" for u v I evs using that by blast
  show "lease_inv v \<and> t0 \<in> set (tasks v) \<and> finished t0" if "lease_inv u \<and> t0 \<in> set (tasks u) \<and> finished t0"
    "task_added t u v" "attempt_count t = 0" "task_status t \<in> {Blocked, Queued}" "lease_ok t" for u v t
  proof -
    have "lease_inv v" using that by (auto intro: lease_inv_new_task)
    moreover have "set (tasks u) \<subseteq> set (tasks v)" using that(2) by (auto simp: task_added_def)
    ultimately show ?thesis using that(1) by auto
  qed
qed (auto intro: lease_inv_cong)

end
