(* ===== verification/Queue_System.thy ===== *)
theory Queue_System
  imports Pipeline
begin

text \<open>
  The reachable states of the task pipeline: any interleaving of the transactions the program runs,
  from the empty database. Each rule is one committed transaction with the arguments the callers
  pass; a transaction that raises leaves the state as it was and is no step.
  \<open>G\<close> restricts the states in which the program runs; it is only used for the guarantee that
  depends on MD5.
\<close>

inductive db_step :: "env \<Rightarrow> db \<Rightarrow> db \<Rightarrow> bool" for E where
  receive: "receive_command E now ctx c s = Inr (r, s') \<Longrightarrow> db_step E s s'"
| enqueue: "map_of p ''consistency'' = None \<Longrightarrow>
    enqueue_task E now ctx ty sid idem p tn msg prio maxa Queued True s = Inr ((tid, created), s') \<Longrightarrow>
    db_step E s s'"
| claim: "claim_task E now tid worker stale s = Inr (x, s') \<Longrightarrow> db_step E s s'"
| renew: "renew_task_lease now tid tok v secs s = (b, s') \<Longrightarrow> db_step E s s'"
| complete: "activate_task_id out = None \<Longrightarrow>
    complete_task E now tid tok v out s = Inr (done, s') \<Longrightarrow> db_step E s s'"
| fail: "fail_task E now tid err delay tok v s = Inr (res, s') \<Longrightarrow> db_step E s s'"
| postpone: "defer_task now tid reason delay tok v s = (b, s') \<Longrightarrow> db_step E s s'"
| retries: "enqueue_due_retries E now limit ids s = Inr (n, s') \<Longrightarrow> db_step E s s'"
| stage: "complete_inbox_stage_in_session E now iid note_stage memory_stage finalize ok err s = Inr (n, s') \<Longrightarrow>
    db_step E s s'"
| skip: "skip_inbox_record E now iid st cancel s = Inr (b, s') \<Longrightarrow> db_step E s s'"
| relay_claim: "claim_outbox_batch E now worker limit ids secs s = (cs, s') \<Longrightarrow> db_step E s s'"
| relay_published: "mark_outbox_published now eid tok s = (b, s') \<Longrightarrow> db_step E s s'"
| relay_failed: "mark_outbox_failed now eid tok err s = (r, s') \<Longrightarrow> db_step E s s'"

inductive reachable :: "env \<Rightarrow> (db \<Rightarrow> bool) \<Rightarrow> db \<Rightarrow> bool" for E G where
  init: "reachable E G empty_db"
| step: "reachable E G s \<Longrightarrow> G s \<Longrightarrow> db_step E s s' \<Longrightarrow> reachable E G s'"

definition system_inv :: "env \<Rightarrow> db \<Rightarrow> bool" where
  "system_inv E s \<longleftrightarrow> order_inv {} s \<and> lease_inv s \<and> names_ok E s"

lemma outbox_step_ids:
  assumes "outbox_step s s'"
  shows "tasks s' = tasks s" "attempts s' = attempts s" "spaces s' = spaces s" "inbox s' = inbox s"
    "map event_id (outbox s') = map event_id (outbox s)"
    "(\<lambda>e. (event_id e, aggregate_id e, event_payload e)) ` set (outbox s') =
     (\<lambda>e. (event_id e, aggregate_id e, event_payload e)) ` set (outbox s)"
proof -
  from assms obtain es k where s': "s' = s\<lparr>outbox := es, uuid_pos := k\<rparr>"
    and m: "map (\<lambda>e. (event_id e, aggregate_id e, event_payload e)) es =
      map (\<lambda>e. (event_id e, aggregate_id e, event_payload e)) (outbox s)"
    unfolding outbox_step_def by blast
  show "tasks s' = tasks s" "attempts s' = attempts s" "spaces s' = spaces s" "inbox s' = inbox s"
    by (simp_all add: s')
  from arg_cong [OF m, of "map fst"] show "map event_id (outbox s') = map event_id (outbox s)"
    by (simp add: s' comp_def)
  from arg_cong [OF m, of set] show "(\<lambda>e. (event_id e, aggregate_id e, event_payload e)) ` set (outbox s') =
     (\<lambda>e. (event_id e, aggregate_id e, event_payload e)) ` set (outbox s)"
    by (simp add: s')
qed

lemma outbox_step_event:
  assumes "outbox_step s s'" "e \<in> set (outbox s)"
  shows "\<exists>e' \<in> set (outbox s'). event_id e' = event_id e \<and> aggregate_id e' = aggregate_id e \<and>
    event_payload e' = event_payload e"
proof -
  from assms(2) have "(event_id e, aggregate_id e, event_payload e) \<in>
      (\<lambda>e. (event_id e, aggregate_id e, event_payload e)) ` set (outbox s')"
    unfolding outbox_step_ids(6) [OF assms(1)] by blast
  then obtain e' where "e' \<in> set (outbox s')"
    "(event_id e, aggregate_id e, event_payload e) = (event_id e', aggregate_id e', event_payload e')"
    by (rule imageE)
  then show ?thesis by (intro bexI [of _ e']) simp_all
qed

lemma outbox_step_names:
  assumes "outbox_step s s'" "names_ok E s"
  shows "names_ok E s'"
  unfolding names_ok_def
proof (intro conjI ballI)
  show "distinct (map event_id (outbox s'))" using assms outbox_step_ids(5) by (simp add: names_ok_def)
  fix e assume "e \<in> set (outbox s')"
  then have "(event_id e, aggregate_id e, event_payload e) \<in>
      (\<lambda>e. (event_id e, aggregate_id e, event_payload e)) ` set (outbox s)"
    unfolding outbox_step_ids(6) [OF assms(1), symmetric] by blast
  then obtain x where "x \<in> set (outbox s)"
    "(event_id e, aggregate_id e, event_payload e) = (event_id x, aggregate_id x, event_payload x)"
    by (rule imageE)
  with assms(2) show "event_id_ok E e" by (auto simp: names_ok_def event_id_ok_def)
qed

lemma outbox_step_requests:
  assumes st: "outbox_step s s'" and inv: "request_inv E s"
  shows "request_inv E s'"
proof -
  have n: "names_ok E s" using inv by (simp add: request_inv_def names_ok_def)
  have "\<exists>e \<in> set (outbox s'). request_for t e" if "t \<in> set (tasks s)" "task_status t = Queued" for t
  proof -
    from inv that obtain e where e: "e \<in> set (outbox s)" "request_for t e" by (auto simp: request_inv_def)
    from outbox_step_event [OF st e(1)] e(2) show ?thesis by (auto simp: request_for_def)
  qed
  with outbox_step_names [OF st n] outbox_step_ids(1) [OF st] show ?thesis
    by (simp add: request_inv_def names_ok_def)
qed

text \<open>The transactions of the relay change only delivery columns of the outbox.\<close>

lemma db_step_cases_relay:
  assumes "db_step E s s'" "names_ok E s"
  obtains (table) "\<And>P. uncovered_invariant E P \<Longrightarrow> P s \<Longrightarrow> P s'"
  | (relay) "outbox_step s s'"
  using assms(1)
proof cases
  case (receive now ctx c r)
  then show ?thesis
    by (intro table) (rule table_invariant.receive [OF uncovered_invariant.axioms(1)])
next
  case (enqueue p now ctx ty sid idem tn msg prio maxa tid created)
  then show ?thesis
    by (intro table) (rule table_invariant.enqueue [OF uncovered_invariant.axioms(1)])
next
  case (claim now tid worker stale x)
  then show ?thesis
    by (intro table) (rule table_invariant.claim [OF uncovered_invariant.axioms(1)])
next
  case (renew now tid tok v secs b)
  then have "s' = snd (renew_task_lease now tid tok v secs s)" by simp
  then show ?thesis
    by (intro table) (simp add: table_invariant.renew [OF uncovered_invariant.axioms(1)])
next
  case (complete out now tid tok v b)
  then show ?thesis by (intro table) (rule uncovered_invariant.complete)
next
  case (fail now tid err delay tok v res)
  then show ?thesis
    by (intro table) (rule table_invariant.fail [OF uncovered_invariant.axioms(1)])
next
  case (postpone now tid reason delay tok v b)
  then have "s' = snd (defer_task now tid reason delay tok v s)" by simp
  then show ?thesis
    by (intro table) (simp add: table_invariant.defer_keeps [OF uncovered_invariant.axioms(1)])
next
  case (retries now limit ids n)
  then show ?thesis
    by (intro table) (rule table_invariant.retries [OF uncovered_invariant.axioms(1)])
next
  case (stage now iid a b c ok err n)
  then show ?thesis
    by (intro table) (rule table_invariant.stage [OF uncovered_invariant.axioms(1)])
next
  case (skip now iid st cancel b)
  then show ?thesis
    by (intro table) (rule table_invariant.skip [OF uncovered_invariant.axioms(1)])
next
  case (relay_claim now worker limit ids secs cs)
  with claim_batch_step [of s E now worker limit ids secs] assms(2) show ?thesis
    by (intro relay) (simp add: names_ok_def)
next
  case (relay_published now eid tok b)
  with mark_published_step [of s now eid tok] show ?thesis by (intro relay) simp
next
  case (relay_failed now eid tok err r)
  with mark_failed_step [of s now eid tok err] assms(2) show ?thesis by (intro relay) (simp add: names_ok_def)
qed

lemma outbox_step_order_inv: "outbox_step s s' \<Longrightarrow> order_inv D s \<Longrightarrow> order_inv D s'"
  using outbox_step_ids [of s s'] by (auto intro: order_inv_cong)

lemma step_order_inv:
  assumes "db_step E s s'" "names_ok E s" and inv: "order_inv {} s"
  shows "order_inv {} s'"
  using assms(1)
proof cases
  case (renew now tid tok v secs b)
  with renew_order_inv [OF inv, of now tid tok v secs] show ?thesis by simp
next
  case (postpone now tid reason delay tok v b)
  with defer_order_inv [OF inv, of now tid reason delay tok v] show ?thesis by simp
next
  case (relay_claim now worker limit ids secs cs)
  with claim_batch_step [of s E now worker limit ids secs] assms(2) outbox_step_order_inv [OF _ inv]
  show ?thesis by (simp add: names_ok_def)
next
  case (relay_published now eid tok b)
  with mark_published_step [of s now eid tok] outbox_step_order_inv [OF _ inv] show ?thesis by simp
next
  case (relay_failed now eid tok err r)
  with mark_failed_step [of s now eid tok err] assms(2) outbox_step_order_inv [OF _ inv]
  show ?thesis by (simp add: names_ok_def)
qed (use inv in \<open>blast intro: receive_command_order_inv enqueue_task_order_inv claim_order_inv
  complete_task_order_inv fail_order_inv due_retries_order_inv complete_inbox_stage_order_inv
  skip_inbox_order_inv\<close>)+

lemma step_system_inv:
  assumes step: "db_step E s s'" and inv: "system_inv E s"
  shows "system_inv E s'"
proof -
  have n: "names_ok E s" and o: "order_inv {} s" and l: "lease_inv s" using inv by (auto simp: system_inv_def)
  have "lease_inv s' \<and> names_ok E s'"
    using step n
  proof (cases rule: db_step_cases_relay)
    case table
    from table [OF names.uncovered_invariant_axioms] n l show ?thesis by simp
  next
    case relay
    with n l show ?thesis
      using outbox_step_names outbox_step_ids [OF relay] by (auto intro: lease_inv_cong)
  qed
  with step_order_inv [OF step n o] show ?thesis by (simp add: system_inv_def)
qed

lemma empty_system_inv: "system_inv E empty_db"
  by (simp add: system_inv_def order_defs task_ok_def lease_inv_def attempts_ok_def names_ok_def empty_db_def
      space_inbox_def)

lemma reachable_inv: "reachable E G s \<Longrightarrow> system_inv E s"
  by (induction rule: reachable.induct) (auto intro: empty_system_inv step_system_inv)

lemma reachable_order: "reachable E G s \<Longrightarrow> order_inv {} s"
  and reachable_lease: "reachable E G s \<Longrightarrow> lease_inv s"
  and reachable_names: "reachable E G s \<Longrightarrow> names_ok E s"
  using reachable_inv by (auto simp: system_inv_def)

end
