(* ===== verification/Scenario.thy ===== *)
theory Scenario
  imports Queue_System
begin

text \<open>
  A concrete run of the pipeline, used to show that the hypotheses of the guarantees can hold: a
  note arrives, a question about it arrives and waits, a worker claims and completes the note, the
  question becomes ready.
\<close>

definition env0 :: env where
  "env0 = \<lparr>uuid_hex = digit_chars, pg_md5 = (\<lambda>x. take 32 (x @ replicate 32 CHR ''0'')),
     sha256_hex = (\<lambda>x. x), question_consistency = (\<lambda>_. ''note'')\<rparr>"

definition cmd0 :: "string \<Rightarrow> string \<Rightarrow> payload \<Rightarrow> command" where
  "cmd0 mid ttype p = \<lparr>cmd_source = ''feishu'', cmd_source_message_id = mid, cmd_source_event_id = None,
     cmd_tenant_id = ''t'', cmd_space_id = ''s'', cmd_chat_id = None, cmd_chat_type = None,
     cmd_sender = [], cmd_text = ''hi'', cmd_received_at = 0, cmd_task_type = ttype,
     cmd_payload = p, cmd_sensitivity = ''normal'', cmd_max_attempts = 2\<rparr>"

definition state_of :: "'a result \<Rightarrow> db" where
  "state_of x = snd (projr x)"

definition value_of :: "'a result \<Rightarrow> 'a" where
  "value_of x = fst (projr x)"

lemma ok_result: "\<not> isl x \<Longrightarrow> x = Inr (value_of x, state_of x)"
  by (cases x) (auto simp: value_of_def state_of_def)

definition run1 :: "dispatch_result result" where
  "run1 = receive_command env0 10 [] (cmd0 ''m1'' ''ingest'' []) empty_db"

definition st1 :: db where "st1 = state_of run1"

definition run2 :: "dispatch_result result" where
  "run2 = receive_command env0 20 [] (cmd0 ''m2'' ''query'' [(''question'', JStr ''q'')]) st1"

definition st2 :: db where "st2 = state_of run2"

definition no_outcome :: outcome where
  "no_outcome = \<lparr>release_inbox_id = None, activate_task_id = None, note_ready_inbox_id = None,
     memory_ready_inbox_id = None, ingest_complete_inbox_id = None\<rparr>"

definition run3 :: "claim option result" where
  "run3 = claim_task env0 30 ''task_1'' ''w1'' 60 st2"

definition st3 :: db where "st3 = state_of run3"

definition run4 :: "bool result" where
  "run4 = complete_task env0 40 ''task_1'' ''5'' 1 (no_outcome\<lparr>note_ready_inbox_id := Some ''inbox_0''\<rparr>)
     st3"

definition st4 :: db where "st4 = state_of run4"

text \<open>Instead of completing, the first worker may lose its lease to a second one.\<close>

definition run4b :: "claim option result" where
  "run4b = claim_task env0 70000000 ''task_1'' ''w2'' 60 st3"

definition st4b :: db where "st4b = state_of run4b"

text \<open>Or the task fails twice, which uses up its budget.\<close>

definition run4c :: "fail_status result" where
  "run4c = fail_task env0 40 ''task_1'' ''boom: x'' 1000000 ''5'' 1 st3"

definition st4c :: db where "st4c = state_of run4c"

definition run5c :: "claim option result" where
  "run5c = claim_task env0 2000000 ''task_1'' ''w1'' 60 st4c"

definition st5c :: db where "st5c = state_of run5c"

definition run6c :: "fail_status result" where
  "run6c = fail_task env0 2000001 ''task_1'' ''boom: y'' 1000000 ''6'' 2 st5c"

definition st6c :: db where "st6c = state_of run6c"


lemma runs_ok: "\<not> isl run1" "\<not> isl run2" "\<not> isl run3" "\<not> isl run4" "\<not> isl run4b" "\<not> isl run4c"
    "\<not> isl run5c" "\<not> isl run6c"
  by code_simp+

lemma run_results:
  "run1 = Inr (value_of run1, st1)" "run2 = Inr (value_of run2, st2)" "run3 = Inr (value_of run3, st3)"
  "run4 = Inr (value_of run4, st4)" "run4b = Inr (value_of run4b, st4b)" "run4c = Inr (value_of run4c, st4c)"
  "run5c = Inr (value_of run5c, st5c)" "run6c = Inr (value_of run6c, st6c)"
  using runs_ok [THEN ok_result]
  by (simp_all add: st1_def st2_def st3_def st4_def st4b_def st4c_def st5c_def st6c_def)

lemma scenario_steps:
  "db_step env0 empty_db st1" "db_step env0 st1 st2" "db_step env0 st2 st3" "db_step env0 st3 st4"
  "db_step env0 st3 st4b" "db_step env0 st3 st4c" "db_step env0 st4c st5c" "db_step env0 st5c st6c"
  by (rule db_step.receive [OF run_results(1) [unfolded run1_def]]
      db_step.receive [OF run_results(2) [unfolded run2_def]]
      db_step.claim [OF run_results(3) [unfolded run3_def]]
      db_step.complete [OF _ run_results(4) [unfolded run4_def]]
      db_step.claim [OF run_results(5) [unfolded run4b_def]]
      db_step.fail [OF run_results(6) [unfolded run4c_def]]
      db_step.claim [OF run_results(7) [unfolded run5c_def]]
      db_step.fail [OF run_results(8) [unfolded run6c_def]] | simp add: no_outcome_def)+

text \<open>A criterion for \<open>md5_ok\<close> that can be evaluated.\<close>

definition request_key_list :: "db \<Rightarrow> string list" where
  "request_key_list s = map (\<lambda>t. request_key (task_id t) (attempt_count t + 1)) (tasks s) @
     concat (map (\<lambda>e. case pget (event_payload e) ''attempt'' of
       JInt n \<Rightarrow> [request_key (aggregate_id e) n] | _ \<Rightarrow> []) (outbox s))"

lemma request_keys_list: "request_keys s \<subseteq> set (request_key_list s)"
  by (auto simp: request_keys_def request_key_list_def intro!: bexI)

lemma md5_okI: "distinct (map (pg_md5 env0) (remdups (request_key_list s))) \<Longrightarrow> md5_ok env0 s"
proof -
  assume "distinct (map (pg_md5 env0) (remdups (request_key_list s)))"
  then have "inj_on (pg_md5 env0) (set (request_key_list s))" by (simp add: distinct_map)
  with request_keys_list [of s] have "inj_on (pg_md5 env0) (request_keys s)" by (rule inj_on_subset [rotated])
  moreover have "length (pg_md5 env0 x) = 32" for x by (cases "length x \<le> 32") (simp_all add: env0_def)
  ultimately show ?thesis by (simp add: md5_ok_def)
qed

lemma scenario_md5: "md5_ok env0 empty_db" "md5_ok env0 st1" "md5_ok env0 st2" "md5_ok env0 st3"
  by (rule md5_okI, code_simp)+

lemma scenario_reachable:
  assumes "G empty_db" "G st1" "G st2" "G st3"
  shows "reachable env0 G st1" "reachable env0 G st2" "reachable env0 G st3" "reachable env0 G st4"
    "reachable env0 G st4b" "reachable env0 G st4c"
proof -
  show 1: "reachable env0 G st1" by (rule reachable.step [where E = env0 and G = G, OF reachable.init assms(1) scenario_steps(1)])
  show 2: "reachable env0 G st2" by (rule reachable.step [where E = env0 and G = G, OF 1 assms(2) scenario_steps(2)])
  show 3: "reachable env0 G st3" by (rule reachable.step [where E = env0 and G = G, OF 2 assms(3) scenario_steps(3)])
  show "reachable env0 G st4" by (rule reachable.step [where E = env0 and G = G, OF 3 assms(4) scenario_steps(4)])
  show "reachable env0 G st4b" by (rule reachable.step [where E = env0 and G = G, OF 3 assms(4) scenario_steps(5)])
  show "reachable env0 G st4c" by (rule reachable.step [where E = env0 and G = G, OF 3 assms(4) scenario_steps(6)])
qed

abbreviation anywhere :: "db \<Rightarrow> bool" where
  "anywhere \<equiv> (\<lambda>_. True)"

lemma run_reachable:
  "reachable env0 anywhere st1" "reachable env0 anywhere st2" "reachable env0 anywhere st3"
  "reachable env0 anywhere st4" "reachable env0 anywhere st4b" "reachable env0 anywhere st4c"
  by (rule scenario_reachable; simp)+

lemma run_reachable_dead: "reachable env0 anywhere st5c" "reachable env0 anywhere st6c"
proof -
  show 5: "reachable env0 anywhere st5c"
    by (rule reachable.step [where E = env0 and G = anywhere, OF run_reachable(6) _ scenario_steps(7)]) simp
  show "reachable env0 anywhere st6c"
    by (rule reachable.step [where E = env0 and G = anywhere, OF 5 _ scenario_steps(8)]) simp
qed

definition row_of :: "string \<Rightarrow> db \<Rightarrow> task_row" where
  "row_of tid s = the (get_task_row tid (tasks s))"

end
