(* ===== verification/Guarantees.thy ===== *)
theory Guarantees
  imports Scenario
begin

text \<open>
  What the task pipeline promises in every reachable state: ordering of messages, exact watermarks,
  fenced leases, bounded retries and the transactional outbox. The witnesses use the run of
  \<open>Scenario\<close>.
\<close>

subsection \<open>Ordering\<close>

text \<open>The stage of a message that a task of class \<open>c\<close> waits for.\<close>

definition class_stage :: "string \<Rightarrow> inbox_row \<Rightarrow> stage_status" where
  "class_stage c = (if c = ''memory'' then memory_status else note_status)"

lemma ready_at_mark:
  assumes inv: "order_inv {} s" and t: "t \<in> set (tasks s)"
    and c: "c \<in> {''note'', ''memory''}"
    and p: "map_of (payload_json t) ''consistency'' = Some (JStr c)"
  shows "\<exists>r \<in> set (inbox s). \<exists>wm. inbox_space_id r = task_space_id t \<and>
    map_of (payload_json t) ''inbox_id'' = Some (JStr (inbox_id r)) \<and>
    mark_sound wm (class_stage c) (space_inbox (task_space_id t) s) \<and>
    mark_tight wm (class_stage c) (space_inbox (task_space_id t) s) \<and>
    (task_watermark_ready t s \<longleftrightarrow> sequence_no r - 1 \<le> wm)"
proof -
  have ok: "task_ok {} s t" using inv t by (simp add: order_inv_def)
  with p obtain r where r: "r \<in> set (inbox s)" "inbox_space_id r = task_space_id t"
    "map_of (payload_json t) ''inbox_id'' = Some (JStr (inbox_id r))"
    "map_of (payload_json t) ''required_watermark'' = Some (JInt (sequence_no r - 1))"
    by (auto simp: task_ok_def gated_def)
  from ok obtain sp where sp: "get_space (task_space_id t) (spaces s) = Some sp"
    by (metis not_Some_eq sp.lookup_None_iff task_ok_def)
  then have spm: "sp \<in> set (spaces s)" "space_id sp = task_space_id t" using sp.lookup_mem by auto
  have "class_of (payload_json t) = c" "required_of (payload_json t) = sequence_no r - 1"
    using c p r(4) by (auto simp: class_of_def required_of_def pget_def)
  then have rdy: "task_watermark_ready t s \<longleftrightarrow>
      sequence_no r - 1 \<le> (if c = ''memory'' then memory_watermark sp else note_watermark sp)"
    using c sp by (auto simp: ready_alt)
  let ?wm = "if c = ''memory'' then memory_watermark sp else note_watermark sp"
  have "mark_sound ?wm (class_stage c) (space_inbox (task_space_id t) s)" "mark_tight ?wm (class_stage c) (space_inbox (task_space_id t) s)"
    using inv spm by (auto simp: order_defs class_stage_def)
  with r rdy show ?thesis by blast
qed

text \<open>
  C1: a question or summary never overtakes the messages before it. In every reachable state, a task
  of class note (memory) that has left the waiting room belongs to a message of its space all of
  whose predecessors have a closed note (memory) stage.
\<close>

theorem causal_order:
  assumes "reachable E G s" "t \<in> set (tasks s)" "task_status t \<notin> {Blocked, Cancelled}"
    and "c \<in> {''note'', ''memory''}"
    and "map_of (payload_json t) ''consistency'' = Some (JStr c)"
  shows "\<exists>r \<in> set (inbox s). inbox_space_id r = task_space_id t \<and>
    map_of (payload_json t) ''inbox_id'' = Some (JStr (inbox_id r)) \<and>
    (\<forall>q \<in> set (inbox s). inbox_space_id q = inbox_space_id r \<longrightarrow> sequence_no q < sequence_no r \<longrightarrow>
       closed (class_stage c q))"
proof -
  note inv = reachable_order [OF assms(1)]
  have rdy: "task_watermark_ready t s" using inv assms(2,3) by (auto simp: order_inv_def task_ok_def)
  from ready_at_mark [OF inv assms(2,4,5)] obtain r wm where
    r: "r \<in> set (inbox s)" "inbox_space_id r = task_space_id t"
      "map_of (payload_json t) ''inbox_id'' = Some (JStr (inbox_id r))"
    and wm: "mark_sound wm (class_stage c) (space_inbox (task_space_id t) s)" "sequence_no r - 1 \<le> wm"
    using rdy by blast
  with wm r show ?thesis by (intro bexI [of _ r]) (auto simp: mark_sound_def space_inbox_def)
qed

lemma causal_order_witness:
  "task_status (row_of ''task_4'' st4) = Queued \<and>
   (\<exists>r \<in> set (inbox st4). inbox_space_id r = task_space_id (row_of ''task_4'' st4) \<and>
     map_of (payload_json (row_of ''task_4'' st4)) ''inbox_id'' = Some (JStr (inbox_id r)) \<and>
     (\<forall>q \<in> set (inbox st4). inbox_space_id q = inbox_space_id r \<longrightarrow> sequence_no q < sequence_no r \<longrightarrow>
        closed (class_stage ''note'' q)))"
  by (rule conjI, code_simp, rule causal_order [OF run_reachable(4)]) code_simp+

text \<open>
  C2: no wake-up is lost. In every reachable state, a task that still waits does so for a reason: an
  earlier message of its space has an open stage of the class the task waits for.
\<close>

theorem no_lost_wakeup:
  assumes "reachable E G s" "t \<in> set (tasks s)" "task_status t = Blocked"
  shows "\<exists>r \<in> set (inbox s). \<exists>q \<in> set (inbox s). \<exists>c \<in> {''note'', ''memory''}.
    map_of (payload_json t) ''consistency'' = Some (JStr c) \<and>
    map_of (payload_json t) ''inbox_id'' = Some (JStr (inbox_id r)) \<and>
    inbox_space_id r = task_space_id t \<and> inbox_space_id q = task_space_id t \<and>
    sequence_no q < sequence_no r \<and> \<not> closed (class_stage c q)"
proof -
  note inv = reachable_order [OF assms(1)]
  have ok: "task_ok {} s t" using inv assms(2) by (simp add: order_inv_def)
  then have w: "waits t" "\<not> task_watermark_ready t s" using assms(3) by (auto simp: task_ok_def)
  then obtain c where c: "c \<in> {''note'', ''memory''}"
    "map_of (payload_json t) ''consistency'' = Some (JStr c)" by (auto simp: waits_def)
  from ready_at_mark [OF inv assms(2) c] w(2) obtain r wm where
    r: "r \<in> set (inbox s)" "inbox_space_id r = task_space_id t"
      "map_of (payload_json t) ''inbox_id'' = Some (JStr (inbox_id r))"
    and wm: "mark_sound wm (class_stage c) (space_inbox (task_space_id t) s)"
      "mark_tight wm (class_stage c) (space_inbox (task_space_id t) s)" "wm < sequence_no r - 1"
    by fastforce
  have seqs: "seqs_ok (space_inbox (task_space_id t) s)" using inv by (simp add: order_defs)
  have "r \<in> set (space_inbox (task_space_id t) s)" using r by (simp add: space_inbox_def)
  from seqs_ok_range [OF seqs this] wm obtain q where
    q: "q \<in> set (space_inbox (task_space_id t) s)" "sequence_no q = wm + 1"
    using seqs_ok_ex [OF seqs, of "wm + 1"] by (auto simp: mark_sound_def)
  with wm have "\<not> closed (class_stage c q)" "sequence_no q < sequence_no r" by (auto simp: mark_tight_def)
  with q(1) r c show ?thesis by (intro bexI [of _ r] bexI [of _ q] bexI [of _ c])
    (auto simp: space_inbox_def)
qed

lemma no_lost_wakeup_witness:
  "\<exists>r \<in> set (inbox st2). \<exists>q \<in> set (inbox st2). \<exists>c \<in> {''note'', ''memory''}.
    map_of (payload_json (row_of ''task_4'' st2)) ''consistency'' = Some (JStr c) \<and>
    map_of (payload_json (row_of ''task_4'' st2)) ''inbox_id'' = Some (JStr (inbox_id r)) \<and>
    inbox_space_id r = task_space_id (row_of ''task_4'' st2) \<and>
    inbox_space_id q = task_space_id (row_of ''task_4'' st2) \<and>
    sequence_no q < sequence_no r \<and> \<not> closed (class_stage c q)"
  by (rule no_lost_wakeup [OF run_reachable(2)]) code_simp+

text \<open>
  C3: in every reachable state both watermarks of every space are exactly the number of leading
  messages, in sequence order, whose stage is closed.
\<close>

theorem watermarks_are_prefixes:
  assumes "reachable E G s" "sp \<in> set (spaces s)"
  shows "note_watermark sp = closed_prefix note_status (space_inbox (space_id sp) s) \<and>
    memory_watermark sp = closed_prefix memory_status (space_inbox (space_id sp) s)"
proof -
  note inv = reachable_order [OF assms(1)]
  have seqs: "seqs_ok (space_inbox (space_id sp) s)" using inv by (simp add: order_defs)
  show ?thesis
    using inv assms(2) closed_prefix_sound_tight [OF seqs] mark_unique [OF seqs]
    by (auto simp: order_defs)
qed

lemma watermarks_are_prefixes_witness:
  "note_watermark (hd (spaces st4)) = closed_prefix note_status (space_inbox (space_id (hd (spaces st4))) st4) \<and>
   memory_watermark (hd (spaces st4)) = closed_prefix memory_status (space_inbox (space_id (hd (spaces st4))) st4)"
  by (rule watermarks_are_prefixes [OF run_reachable(4)]) code_simp

text \<open>
  In every reachable state the messages of a space are numbered 1, 2, 3, ... without gaps or
  repetitions, whatever the order in which the commands arrived.
\<close>

theorem messages_numbered:
  assumes "reachable E G s"
  shows "map sequence_no (sort_key sequence_no (space_inbox sid s)) =
    [1..int (length (space_inbox sid s))]"
proof (rule nth_equalityI)
  have seqs: "seqs_ok (space_inbox sid s)"
    using reachable_order [OF assms] by (simp add: order_defs)
  show "length (map sequence_no (sort_key sequence_no (space_inbox sid s))) =
      length [1..int (length (space_inbox sid s))]" by simp
  fix i assume "i < length (map sequence_no (sort_key sequence_no (space_inbox sid s)))"
  with sorted_seqs_nth [OF seqs, of i]
  show "map sequence_no (sort_key sequence_no (space_inbox sid s)) ! i =
      [1..int (length (space_inbox sid s))] ! i" by simp
qed

lemma messages_numbered_witness:
  "map sequence_no (sort_key sequence_no (space_inbox ''s'' st4)) = [1..int (length (space_inbox ''s'' st4))]"
  by (rule messages_numbered [OF run_reachable(4)])

end
