(* ===== verification/Lease_Guarantees.thy ===== *)
theory Lease_Guarantees
  imports Guarantees
begin

text \<open>Guarantees about claiming, fencing, retry budgets and the outbox.\<close>

subsection \<open>Claims\<close>

text \<open>
  C5: in a reachable state \<open>claim_task\<close> never raises (the attempt number it inserts is always free).
  It returns a claim exactly if the task is claimable, and then the task is running under the new
  token until the new deadline, with one more attempt and the next claim version.
\<close>

theorem claim_total:
  assumes "reachable E G s"
  shows "\<exists>x s'. claim_task E now tid worker stale s = Inr (x, s') \<and>
    (x = None \<longleftrightarrow> \<not> (\<exists>t \<in> set (tasks s). task_id t = tid \<and>
       claimable now (now - max 1 stale * second) t)) \<and>
    (\<forall>c. x = Some c \<longrightarrow> (\<exists>t \<in> set (tasks s). task_id t = tid \<and>
       claimable now (now - max 1 stale * second) t \<and> previous_status c = task_status t \<and>
       claim_task_row c \<in> set (tasks s') \<and> task_id (claim_task_row c) = tid \<and>
       task_status (claim_task_row c) = Running \<and>
       lease_token (claim_task_row c) = Some (uuid_hex E (uuid_pos s)) \<and>
       lease_expires_at (claim_task_row c) = Some (now + max 1 stale * second) \<and>
       claim_version (claim_task_row c) = claim_version t + 1 \<and>
       attempt_count (claim_task_row c) = attempt_count t + 1))"
proof (cases "find (\<lambda>t. task_id t = tid \<and> claimable now (now - max 1 stale * second) t) (tasks s)")
  case None
  then have "\<not> (\<exists>t \<in> set (tasks s). task_id t = tid \<and> claimable now (now - max 1 stale * second) t)"
    by (auto simp: find_None_iff)
  with None show ?thesis by (simp add: claim_task_Inr [OF reachable_lease [OF assms]])
next
  case (Some t)
  then have t: "t \<in> set (tasks s)" "task_id t = tid" "claimable now (now - max 1 stale * second) t"
    by (auto dest: find_SomeD)
  then have "claimed_row now worker tok x t \<in> set (upd_where (\<lambda>t. task_id t = tid) (claimed_row now worker tok x) (tasks s))"
    for tok x by (auto simp: set_upd_where)
  with Some t show ?thesis
    by (simp add: claim_task_Inr [OF reachable_lease [OF assms]]) blast
qed

lemma claim_total_witness:
  "\<exists>x s'. claim_task env0 70000000 ''task_1'' ''w2'' 60 st3 = Inr (x, s') \<and>
    (x = None \<longleftrightarrow> \<not> (\<exists>t \<in> set (tasks st3). task_id t = ''task_1'' \<and>
       claimable 70000000 (70000000 - max 1 60 * second) t)) \<and>
    (\<forall>c. x = Some c \<longrightarrow> (\<exists>t \<in> set (tasks st3). task_id t = ''task_1'' \<and>
       claimable 70000000 (70000000 - max 1 60 * second) t \<and> previous_status c = task_status t \<and>
       claim_task_row c \<in> set (tasks s') \<and> task_id (claim_task_row c) = ''task_1'' \<and>
       task_status (claim_task_row c) = Running \<and>
       lease_token (claim_task_row c) = Some (uuid_hex env0 (uuid_pos st3)) \<and>
       lease_expires_at (claim_task_row c) = Some (70000000 + max 1 60 * second) \<and>
       claim_version (claim_task_row c) = claim_version t + 1 \<and>
       attempt_count (claim_task_row c) = attempt_count t + 1))"
  by (rule claim_total [OF run_reachable(3)])

subsection \<open>Fencing\<close>

lemma not_holding:
  assumes d: "distinct (map task_id (tasks s))" and t: "t \<in> set (tasks s)" "task_id t = tid" "claim_version t \<noteq> v"
    and r: "r \<in> set (tasks s)"
  shows "\<not> holds_lease tid tok v r"
  using tk.same_row [OF d r t(1)] t(2,3) by (auto simp: holds_lease_def)

lemma stale_noop:
  assumes "distinct (map task_id (tasks s))" "t \<in> set (tasks s)" "task_id t = tid" "claim_version t \<noteq> v"
  shows "owned_running_task now tid tok v s = None"
    and "renew_task_lease now tid tok v secs s = (False, s)"
    and "defer_task now tid reason delay tok v s = (False, s)"
    and "fail_task E now tid err delay tok v s = Inr (Stale, s)"
    and "complete_task_plain now tid tok v s = (False, s)"
    and "complete_task_orm E now tid tok v out s = Inr (False, s)"
    and "complete_task_with_inbox_outcome E now tid tok v iid a b c s = Inr (False, s)"
proof -
  have no: "\<not> holds_lease tid tok v r" if "r \<in> set (tasks s)" for r
    using not_holding [OF assms that] .
  then show o: "owned_running_task now tid tok v s = None" by (auto simp: owned_running_task_def find_None_iff)
  have "upd_where (holds_lease tid tok v) f (tasks s) = tasks s" for f by (rule upd_where_none) (rule no)
  moreover have "\<not> list_ex (holds_lease tid tok v) (tasks s)" using no by (auto simp: list_ex_iff)
  ultimately show "renew_task_lease now tid tok v secs s = (False, s)" by (simp add: renew_task_lease_def)
  show "defer_task now tid reason delay tok v s = (False, s)" by (simp add: defer_task_def o)
  show "fail_task E now tid err delay tok v s = Inr (Stale, s)" by (simp add: fail_task_def o)
  have "find (\<lambda>t. holds_lease tid tok v t \<and> Q t) (tasks s) = None" for Q
    using no by (auto simp: find_None_iff)
  then show "complete_task_plain now tid tok v s = (False, s)"
    and "complete_task_with_inbox_outcome E now tid tok v iid a b c s = Inr (False, s)"
    by (simp_all add: complete_task_plain_def complete_task_with_inbox_outcome_def split: option.split)
  show "complete_task_orm E now tid tok v out s = Inr (False, s)" by (simp add: complete_task_orm_def o)
qed

lemma at_version_step:
  assumes "db_step E s s'" "system_inv E s" "at_version tid w s"
  shows "at_version tid w s'"
proof -
  have l: "lease_inv s" "names_ok E s" using assms(2) by (auto simp: system_inv_def)
  from assms(1) l(2) show ?thesis
  proof (cases rule: db_step_cases_relay)
    case table
    from table [OF versions.uncovered_invariant_axioms] l assms(3) show ?thesis by blast
  next
    case relay
    with assms(3) show ?thesis by (simp add: at_version_def outbox_step_ids(1))
  qed
qed

lemma system_inv_steps: "(db_step E)\<^sup>*\<^sup>* s s' \<Longrightarrow> system_inv E s \<Longrightarrow> system_inv E s'"
  by (induction rule: rtranclp_induct) (auto intro: step_system_inv)

lemma at_version_steps:
  "(db_step E)\<^sup>*\<^sup>* s s' \<Longrightarrow> system_inv E s \<Longrightarrow> at_version tid w s \<Longrightarrow> at_version tid w s'"
proof (induction rule: rtranclp_induct)
  case (step y z)
  then show ?case using at_version_step system_inv_steps by blast
qed

text \<open>
  C6: fencing. Once a task has been claimed again, a worker that still holds an older claim version
  can neither complete, fail, defer nor renew it, at any later time: every such call reports that
  the lease is lost and changes nothing, whatever token and clock the worker uses.
\<close>

theorem stale_holder_rejected:
  assumes "reachable E G s" "claim_task E now tid worker stale s = Inr (Some c, s1)"
    and "(db_step E)\<^sup>*\<^sup>* s1 s'" "v < claim_version (claim_task_row c)"
  shows "renew_task_lease now' tid tok v secs s' = (False, s') \<and>
    defer_task now' tid reason delay tok v s' = (False, s') \<and>
    fail_task E now' tid err delay tok v s' = Inr (Stale, s') \<and>
    complete_task E now' tid tok v
      \<lparr>release_inbox_id = None, activate_task_id = None, note_ready_inbox_id = None,
       memory_ready_inbox_id = None, ingest_complete_inbox_id = None\<rparr> s' = Inr (False, s') \<and>
    complete_task_with_inbox_outcome E now' tid tok v iid note_stage memory_stage finalize s' =
      Inr (False, s')"
proof -
  have inv1: "system_inv E s1"
    by (rule step_system_inv [OF db_step.claim [OF assms(2)] reachable_inv [OF assms(1)]])
  from claim_total [OF assms(1), of now tid worker stale] assms(2)
  have "claim_task_row c \<in> set (tasks s1)" "task_id (claim_task_row c) = tid" by auto
  moreover have "claim_version (claim_task_row c) = attempt_count (claim_task_row c)"
    using inv1 calculation(1) by (auto simp: system_inv_def lease_inv_def lease_ok_def)
  ultimately have "at_version tid (claim_version (claim_task_row c)) s1" by (auto simp: at_version_def)
  from at_version_steps [OF assms(3) inv1 this] obtain t where
    t: "t \<in> set (tasks s')" "task_id t = tid" "claim_version (claim_task_row c) \<le> attempt_count t"
    by (auto simp: at_version_def)
  have l: "lease_inv s'" using system_inv_steps [OF assms(3) inv1] by (simp add: system_inv_def)
  then have "claim_version t = attempt_count t" using t(1) by (auto simp: lease_inv_def lease_ok_def)
  with t(3) assms(4) have "claim_version t \<noteq> v" by simp
  note noop = stale_noop [OF lease_distinct [OF l] t(1,2) this]
  show ?thesis by (simp add: noop complete_task_def outcome_values_def some_text_def)
qed

lemma stale_holder_rejected_witness:
  "renew_task_lease 71000000 ''task_1'' ''5'' 1 60 st4b = (False, st4b) \<and>
   defer_task 71000000 ''task_1'' ''busy'' 1000000 ''5'' 1 st4b = (False, st4b) \<and>
   fail_task env0 71000000 ''task_1'' ''late'' 1000000 ''5'' 1 st4b = Inr (Stale, st4b) \<and>
   complete_task env0 71000000 ''task_1'' ''5'' 1
     \<lparr>release_inbox_id = None, activate_task_id = None, note_ready_inbox_id = None,
      memory_ready_inbox_id = None, ingest_complete_inbox_id = None\<rparr> st4b = Inr (False, st4b) \<and>
   complete_task_with_inbox_outcome env0 71000000 ''task_1'' ''5'' 1 ''inbox_0'' True True True st4b =
     Inr (False, st4b)"
proof -
  have "value_of run4b \<noteq> None" "1 < claim_version (claim_task_row (the (value_of run4b)))"
    by code_simp+
  then have "claim_task env0 70000000 ''task_1'' ''w2'' 60 st3 = Inr (Some (the (value_of run4b)), st4b)"
    using run_results(5) by (simp add: run4b_def)
  from stale_holder_rejected [OF run_reachable(3) this rtranclp.rtrancl_refl]
    \<open>1 < claim_version (claim_task_row (the (value_of run4b)))\<close> show ?thesis by blast
qed

text \<open>
  C7: completed, cancelled and dead-lettered tasks are final. No transaction changes such a row in
  any column; in particular it is never claimed, re-queued or failed again.
\<close>

theorem finished_for_good:
  assumes "reachable E G s" "t \<in> set (tasks s)" "task_status t \<in> {Completed, Cancelled, DeadLetter}"
    and "(db_step E)\<^sup>*\<^sup>* s s'"
  shows "t \<in> set (tasks s')"
proof -
  have fin: "finished t" using assms(3) by (simp add: finished_def)
  from assms(4) reachable_inv [OF assms(1)] assms(2) show ?thesis
  proof (induction rule: rtranclp_induct)
    case (step y z)
    then have y: "t \<in> set (tasks y)" "system_inv E y" using system_inv_steps by blast+
    then have l: "lease_inv y" "names_ok E y" by (auto simp: system_inv_def)
    from step(2) l(2) show ?case
    proof (cases rule: db_step_cases_relay)
      case table
      from table [OF terminal.uncovered_invariant_axioms] l y(1) fin show ?thesis by blast
    next
      case relay
      with y show ?thesis by (simp add: outbox_step_ids(1))
    qed
  qed
qed

lemma finished_for_good_witness: "row_of ''task_1'' st4 \<in> set (tasks st4) \<and> finished (row_of ''task_1'' st4)"
  by (rule conjI, rule finished_for_good [OF run_reachable(4) _ _ rtranclp.rtrancl_refl]) code_simp+

text \<open>
  C8: attempts are accounted for. In every reachable state the attempt rows of a task are numbered
  exactly 1 to its attempt count; one is running only while the task is, and then it is the last;
  failures and deferrals never exceed the finished attempts; a lease is present exactly while the
  task runs.
\<close>

theorem attempts_accounted:
  assumes "reachable E G s" "t \<in> set (tasks s)"
  shows "attempt_no ` {a \<in> set (attempts s). att_task_id a = task_id t} = {1..attempt_count t} \<and>
    (\<forall>a \<in> set (attempts s). att_task_id a = task_id t \<longrightarrow>
       (att_status a = AttRunning \<longleftrightarrow> task_status t = Running \<and> attempt_no a = attempt_count t)) \<and>
    failure_count t + defer_count t + (if task_status t = Running then 1 else 0) \<le> attempt_count t \<and>
    (task_status t = Running \<longleftrightarrow> lease_token t \<noteq> None) \<and>
    claim_version t = attempt_count t"
  using reachable_lease [OF assms(1)] assms(2)
  by (auto simp: lease_inv_def attempts_ok_def lease_ok_def)

lemma attempts_accounted_witness:
  "attempt_no ` {a \<in> set (attempts st5c). att_task_id a = task_id (row_of ''task_1'' st5c)} =
     {1..attempt_count (row_of ''task_1'' st5c)} \<and> attempt_count (row_of ''task_1'' st5c) = 2"
  by (rule conjI, rule attempts_accounted [THEN conjunct1, OF run_reachable_dead(1)]) code_simp+

text \<open>
  C9: retries are bounded. In every reachable state a task is dead-lettered exactly if its failures
  have used up its budget (at least one), and no task ever fails more often than that.
\<close>

theorem retry_budget:
  assumes "reachable E G s" "t \<in> set (tasks s)"
  shows "(task_status t = DeadLetter \<longleftrightarrow> failure_count t = max 1 (max_attempts t)) \<and>
    failure_count t \<le> max 1 (max_attempts t)"
proof -
  have "lease_ok t" using reachable_lease [OF assms(1)] assms(2) by (simp add: lease_inv_def)
  then show ?thesis unfolding lease_ok_def by linarith
qed

lemma retry_budget_witness:
  "task_status (row_of ''task_1'' st6c) = DeadLetter \<and>
   failure_count (row_of ''task_1'' st6c) = max 1 (max_attempts (row_of ''task_1'' st6c))"
proof -
  have "row_of ''task_1'' st6c \<in> set (tasks st6c)" "task_status (row_of ''task_1'' st6c) = DeadLetter"
    by code_simp+
  with retry_budget [OF run_reachable_dead(2) this(1)] show ?thesis by blast
qed

subsection \<open>The transactional outbox\<close>

lemma step_request_inv:
  assumes step: "db_step E s s'" and md5: "md5_ok E s" and inv: "lease_inv s \<and> request_inv E s"
  shows "lease_inv s' \<and> request_inv E s'"
proof -
  have n: "names_ok E s" using inv by (simp add: request_inv_def names_ok_def)
  from step show ?thesis
  proof cases
    case (renew now tid tok v secs b)
    with requests.renew [OF inv, of now tid tok v secs] show ?thesis by simp
  next
    case (postpone now tid reason delay tok v b)
    with requests.defer_keeps [OF inv, of now tid reason delay tok v] show ?thesis by simp
  next
    case (complete out now tid tok v b)
    from complete_task_cases [OF complete(2,1)] show ?thesis
    proof (elim disjE exE)
      assume "(b, s') = complete_task_plain now tid tok v s"
      then have "s' = snd (complete_task_plain now tid tok v s)" by (metis snd_conv)
      with requests.complete_plain [OF inv] show ?thesis by simp
    next
      fix iid x y z assume run: "complete_task_with_inbox_outcome E now tid tok v iid x y z s = Inr (b, s')"
      from complete_cte_woken [OF lease_distinct [OF conjunct1 [OF inv]] run] show ?thesis
      proof (elim disjE exE conjE)
        fix row s1 I evs assume row: "row \<in> set (tasks s)" "holds_lease tid tok v row"
          and s1: "s1 = finish_task (completed_row now) (completed_attempt now) row s" and w: "woken E I evs s1 s'"
          and cov: "md5_ok E s \<longrightarrow> request_inv E s \<longrightarrow> covered I s1 s'"
        have "lease_inv s1" unfolding s1
          by (rule owned_finish_lease_inv [OF conjunct1 [OF inv] row])
             (use row in \<open>auto simp: completed_attempt_def holds_lease_def lease_ok_completed\<close>)
        then have "lease_inv s1 \<and> request_inv E s1" unfolding s1 by (intro requests.finish [OF inv row]) auto
        with w cov md5 inv show ?thesis using requests.woken by blast
      qed (simp add: inv)
    qed
  next
    case (relay_claim now worker limit ids secs cs)
    with claim_batch_step [of s E now worker limit ids secs] n have "outbox_step s s'" by (simp add: names_ok_def)
    then show ?thesis using inv outbox_step_requests outbox_step_ids by (metis lease_inv_cong)
  next
    case (relay_published now eid tok b)
    with mark_published_step [of s now eid tok] have "outbox_step s s'" by simp
    then show ?thesis using inv outbox_step_requests outbox_step_ids by (metis lease_inv_cong)
  next
    case (relay_failed now eid tok err r)
    with mark_failed_step [of s now eid tok err] n have "outbox_step s s'" by (simp add: names_ok_def)
    then show ?thesis using inv outbox_step_requests outbox_step_ids by (metis lease_inv_cong)
  next
    case (receive now ctx c r)
    with requests.receive [OF inv] show ?thesis by simp
  next
    case (enqueue p now ctx ty sid idem tn msg prio maxa tid created)
    with requests.enqueue [OF inv] show ?thesis by simp
  next
    case (claim now tid worker stale x)
    with requests.claim [OF inv] show ?thesis by simp
  next
    case (fail now tid err delay tok v res)
    with requests.fail [OF inv] show ?thesis by simp
  next
    case (retries now limit ids n)
    with requests.retries [OF inv] show ?thesis by simp
  next
    case (stage now iid a b c ok err n)
    with requests.stage [OF inv] show ?thesis by simp
  next
    case (skip now iid st cancel b)
    with requests.skip [OF inv] show ?thesis by simp
  qed
qed

text \<open>
  C10: the transactional outbox. If MD5 does not collide on the request keys in use, then in every
  reachable state each queued task has a request in the outbox that asks for exactly its next
  attempt: work is never queued without being announced.
\<close>

theorem queued_is_requested:
  assumes "reachable E (md5_ok E) s" "t \<in> set (tasks s)" "task_status t = Queued"
  shows "\<exists>e \<in> set (outbox s). aggregate_id e = task_id t \<and>
    pget (event_payload e) ''attempt'' = JInt (attempt_count t + 1)"
proof -
  have "lease_inv s \<and> request_inv E s"
    using assms(1)
  proof (induction rule: reachable.induct)
    case init
    then show ?case by (simp add: empty_db_def lease_inv_def attempts_ok_def request_inv_def)
  next
    case (step s s')
    then show ?case using step_request_inv by blast
  qed
  with assms(2,3) show ?thesis by (auto simp: request_inv_def request_for_def)
qed

lemma queued_is_requested_witness:
  "\<exists>e \<in> set (outbox st4). aggregate_id e = task_id (row_of ''task_4'' st4) \<and>
    pget (event_payload e) ''attempt'' = JInt (attempt_count (row_of ''task_4'' st4) + 1)"
  by (rule queued_is_requested [OF scenario_reachable(4) [OF scenario_md5]]) code_simp+

end
