(* ===== verification/Redis.thy ===== *)
theory Redis
  imports Tables
begin

text \<open>
  The Redis commands the program relies on, as an interface: Redis itself is a service outside the
  repository. \<open>redis\<close> holds the commands as functions of the server's clock and state, the locale
  \<open>redis_service\<close> states their documented behaviour through \<open>cell\<close>, the value and the expiry time
  a key has. The program expires every key it writes. \<open>mem\<close> is a store of our own on which the
  interface is interpreted, so that the laws are seen to be consistent and runs can be evaluated.
  Durations are in microseconds (\<open>EX\<close> seconds and \<open>PX\<close> milliseconds are converted).
\<close>

record 's redis =
  r_get :: "time \<Rightarrow> string \<Rightarrow> 's \<Rightarrow> string option"
  r_set :: "time \<Rightarrow> string \<Rightarrow> string \<Rightarrow> int \<Rightarrow> 's \<Rightarrow> 's"
  r_setnx :: "time \<Rightarrow> string \<Rightarrow> string \<Rightarrow> int \<Rightarrow> 's \<Rightarrow> bool \<times> 's"
  r_del :: "time \<Rightarrow> string \<Rightarrow> 's \<Rightarrow> bool \<times> 's"
  r_pexpire :: "time \<Rightarrow> string \<Rightarrow> int \<Rightarrow> 's \<Rightarrow> bool \<times> 's"
  r_incrby :: "time \<Rightarrow> string \<Rightarrow> int \<Rightarrow> 's \<Rightarrow> int \<times> 's"
  r_pttl :: "time \<Rightarrow> string \<Rightarrow> 's \<Rightarrow> int"

type_synonym 'v cells = "string \<Rightarrow> ('v \<times> time) option"

definition alive :: "time \<Rightarrow> ('v \<times> time) option \<Rightarrow> 'v option" where
  "alive now c = (case c of None \<Rightarrow> None | Some (v, e) \<Rightarrow> if now < e then Some v else None)"

text \<open>String keys: GET, SET with an expiry, SET NX, DEL, PEXPIRE.\<close>

locale redis_strings =
  fixes R :: "('s, 'z) redis_scheme" and cell :: "'s \<Rightarrow> string cells"
  assumes get: "r_get R now k s = alive now (cell s k)"
    and set_cell: "cell (r_set R now k v ttl s) = (cell s)(k \<mapsto> (v, now + ttl))"
    and setnx_free: "alive now (cell s k) = None \<Longrightarrow> fst (r_setnx R now k v ttl s) \<and>
      cell (snd (r_setnx R now k v ttl s)) = (cell s)(k \<mapsto> (v, now + ttl))"
    and setnx_taken: "alive now (cell s k) \<noteq> None \<Longrightarrow> \<not> fst (r_setnx R now k v ttl s) \<and>
      cell (snd (r_setnx R now k v ttl s)) = cell s"
    and del_cell: "cell (snd (r_del R now k s)) = (cell s)(k := None)"
    and pexpire_cell: "alive now (cell s k) = Some v \<Longrightarrow>
      cell (snd (r_pexpire R now k ttl s)) = (cell s)(k \<mapsto> (v, now + ttl))"

text \<open>
  Counters: INCRBY, PEXPIRE, PTTL. A missing or expired counter counts as zero without an expiry;
  INCRBY keeps the expiry.
\<close>

definition live_counter :: "time \<Rightarrow> (int \<times> time option) option \<Rightarrow> int \<times> time option" where
  "live_counter now c = (case c of
     Some (v, Some e) \<Rightarrow> if now < e then (v, Some e) else (0, None)
   | Some (v, None) \<Rightarrow> (v, None)
   | None \<Rightarrow> (0, None))"

locale redis_counters =
  fixes R :: "('s, 'z) redis_scheme" and counter :: "'s \<Rightarrow> string \<Rightarrow> (int \<times> time option) option"
  assumes incr_value: "fst (r_incrby R now k n s) = fst (live_counter now (counter s k)) + n"
    and incr_cell: "counter (snd (r_incrby R now k n s)) = (counter s)
      (k \<mapsto> (fst (live_counter now (counter s k)) + n, snd (live_counter now (counter s k))))"
    and expire_counter: "counter s k = Some (v, x) \<Longrightarrow> x = None \<or> (\<exists>e. x = Some e \<and> now < e) \<Longrightarrow>
      counter (snd (r_pexpire R now k ttl s)) = (counter s)(k \<mapsto> (v, Some (now + ttl)))"
    and pttl: "counter s k = Some (v, Some e) \<Longrightarrow> now < e \<Longrightarrow> r_pttl R now k s = (e - now) div 1000"

text \<open>A server has both kinds of keys.\<close>

locale redis_service = redis_strings R cell + redis_counters R counter
  for R :: "('s, 'z) redis_scheme" and cell counter

subsection \<open>A store on which the laws hold\<close>

record mem =
  m_strings :: "string cells"
  m_counters :: "string \<Rightarrow> (int \<times> time option) option"

definition mem_empty :: mem where
  "mem_empty = \<lparr>m_strings = (\<lambda>_. None), m_counters = (\<lambda>_. None)\<rparr>"

definition mem_set :: "time \<Rightarrow> string \<Rightarrow> string \<Rightarrow> int \<Rightarrow> mem \<Rightarrow> mem" where
  "mem_set now k v ttl s = s\<lparr>m_strings := (m_strings s)(k \<mapsto> (v, now + ttl))\<rparr>"

definition mem_pexpire :: "time \<Rightarrow> string \<Rightarrow> int \<Rightarrow> mem \<Rightarrow> bool \<times> mem" where
  "mem_pexpire now k ttl s =
     (let c = live_counter now (m_counters s k);
          s1 = (case alive now (m_strings s k) of None \<Rightarrow> s | Some v \<Rightarrow> mem_set now k v ttl s);
          s2 = (case m_counters s k of None \<Rightarrow> s1
            | Some _ \<Rightarrow> s1\<lparr>m_counters := (m_counters s)(k \<mapsto> (fst c, Some (now + ttl)))\<rparr>)
      in (alive now (m_strings s k) \<noteq> None \<or> m_counters s k \<noteq> None, s2))"

definition mem_redis :: "mem redis" where
  "mem_redis = \<lparr>
     r_get = (\<lambda>now k s. alive now (m_strings s k)),
     r_set = mem_set,
     r_setnx = (\<lambda>now k v ttl s. if alive now (m_strings s k) = None
       then (True, mem_set now k v ttl s) else (False, s)),
     r_del = (\<lambda>now k s. (alive now (m_strings s k) \<noteq> None,
       s\<lparr>m_strings := (m_strings s)(k := None)\<rparr>)),
     r_pexpire = mem_pexpire,
     r_incrby = (\<lambda>now k n s. let c = live_counter now (m_counters s k) in
       (fst c + n, s\<lparr>m_counters := (m_counters s)(k \<mapsto> (fst c + n, snd c))\<rparr>)),
     r_pttl = (\<lambda>now k s. case m_counters s k of Some (v, Some e) \<Rightarrow> (e - now) div 1000 | _ \<Rightarrow> - 1)\<rparr>"

interpretation mem: redis_service mem_redis m_strings m_counters
  by unfold_locales
    (auto simp: mem_redis_def mem_set_def mem_pexpire_def Let_def live_counter_def split: option.splits)

end
