(* ===== verification/Coordination.thy ===== *)
theory Coordination
  imports Redis
begin

text \<open>
  Locks, rate limits, idempotency marks and the overload signal (\<open>infrastructure/redis_lock.py\<close>,
  \<open>redis_rate_limit.py\<close>, \<open>redis_idempotency.py\<close>, \<open>overload.py\<close>). The Lua scripts are translated
  command by command; a script runs atomically at one reading of the server's clock. The Redis
  server is the argument \<open>R\<close>.
\<close>

subsection \<open>The distributed lock\<close>

text \<open>One SET NX PX of the loop in \<open>acquire\<close>; \<open>ttl\<close> is \<open>max(100, ttl_ms)\<close> milliseconds.\<close>

definition lock_ttl :: "int \<Rightarrow> int" where
  "lock_ttl ttl_ms = max 100 ttl_ms * 1000"

text \<open>
  The loop: one element of the list per turn, with the server clock of the SET, the local clock of
  the deadline test that follows, and what other processes did to the server before it. The loop
  is still waiting when the list ends (None).
\<close>

fun lock_acquire ::
  "('s, 'z) redis_scheme \<Rightarrow> string \<Rightarrow> string \<Rightarrow> int \<Rightarrow> time \<Rightarrow> (time \<times> time \<times> ('s \<Rightarrow> 's)) list \<Rightarrow> 's \<Rightarrow>
     bool option \<times> 's" where
  "lock_acquire R key token ttl deadline [] s = (None, s)"
| "lock_acquire R key token ttl deadline ((now, local, other) # turns) s =
     (let (ok, s1) = r_setnx R now key token ttl (other s) in
      if ok then (Some True, s1)
      else if local \<ge> deadline then (Some False, s1)
      else lock_acquire R key token ttl deadline turns s1)"

text \<open>\<open>_RENEW_LUA\<close> and \<open>_RELEASE_LUA\<close>\<close>

definition lock_renew ::
  "('s, 'z) redis_scheme \<Rightarrow> time \<Rightarrow> string \<Rightarrow> string \<Rightarrow> int \<Rightarrow> 's \<Rightarrow> bool \<times> 's" where
  "lock_renew R now key token ttl s =
     (if r_get R now key s = Some token then r_pexpire R now key ttl s else (False, s))"

definition lock_release ::
  "('s, 'z) redis_scheme \<Rightarrow> time \<Rightarrow> string \<Rightarrow> string \<Rightarrow> 's \<Rightarrow> bool \<times> 's" where
  "lock_release R now key token s =
     (if r_get R now key s = Some token then r_del R now key s else (False, s))"

text \<open>The calls on one lock, by holders that are told apart by their tokens.\<close>

datatype lock_op = TryLock string | Renew string | Release string

fun lock_step ::
  "('s, 'z) redis_scheme \<Rightarrow> string \<Rightarrow> int \<Rightarrow> time \<Rightarrow> lock_op \<Rightarrow> 's \<Rightarrow> bool \<times> 's" where
  "lock_step R key ttl now (TryLock tok) s = r_setnx R now key tok ttl s"
| "lock_step R key ttl now (Renew tok) s = lock_renew R now key tok ttl s"
| "lock_step R key ttl now (Release tok) s = lock_release R now key tok s"

fun lock_run ::
  "('s, 'z) redis_scheme \<Rightarrow> string \<Rightarrow> int \<Rightarrow> (time \<times> lock_op) list \<Rightarrow> 's \<Rightarrow> bool list \<times> 's" where
  "lock_run R key ttl [] s = ([], s)"
| "lock_run R key ttl ((now, p) # ps) s =
     (let (b, s1) = lock_step R key ttl now p s; (bs, s2) = lock_run R key ttl ps s1 in (b # bs, s2))"

subsection \<open>The coordinated lock\<close>

text \<open>
  \<open>coordinated_lock\<close> with the Redis backend: who is inside, under which backend. \<open>holders\<close> are the
  sessions that hold the PostgreSQL advisory lock of the key (at most one).
\<close>

datatype backend = InRedis string | InPostgres string

record 's coord =
  server :: 's
  advisory :: "string option"
  inside :: "backend list"

text \<open>\<open>RedisError\<close>: a non-critical caller gets the exception of the Redis client.\<close>

datatype entry = Entered backend | TimedOut | RedisError | Waiting

definition coordinated_enter ::
  "('s, 'z) redis_scheme \<Rightarrow> string \<Rightarrow> int \<Rightarrow> bool \<Rightarrow> bool \<Rightarrow> time \<Rightarrow> string \<Rightarrow>
     (time \<times> time \<times> ('s \<Rightarrow> 's)) list \<Rightarrow> 's coord \<Rightarrow> entry \<times> 's coord" where
  "coordinated_enter R key ttl critical redis_raises deadline who turns c =
     (if redis_raises \<and> \<not> critical then (RedisError, c)
      else let (got, s) = (if redis_raises then (Some False, server c)
            else lock_acquire R key who ttl deadline turns (server c));
          c1 = c\<lparr>server := s\<rparr>
      in case got of
           None \<Rightarrow> (Waiting, c1)
         | Some True \<Rightarrow> (Entered (InRedis who), c1\<lparr>inside := inside c1 @ [InRedis who]\<rparr>)
         | Some False \<Rightarrow>
             if \<not> critical then (TimedOut, c1)
             else if advisory c1 = None
             then (Entered (InPostgres who),
               c1\<lparr>advisory := Some who, inside := inside c1 @ [InPostgres who]\<rparr>)
             else (Waiting, c1))"

definition coordinated_exit ::
  "('s, 'z) redis_scheme \<Rightarrow> string \<Rightarrow> time \<Rightarrow> backend \<Rightarrow> 's coord \<Rightarrow> 's coord" where
  "coordinated_exit R key now b c =
     (let c1 = c\<lparr>inside := removeAll b (inside c)\<rparr> in
      case b of
        InRedis who \<Rightarrow> c1\<lparr>server := snd (lock_release R now key who (server c1))\<rparr>
      | InPostgres who \<Rightarrow> c1\<lparr>advisory := None\<rparr>)"

subsection \<open>Idempotency marks\<close>

definition processing_mark :: string where "processing_mark = ''processing''"
definition completed_mark :: string where "completed_mark = ''completed''"
definition failed_mark :: string where "failed_mark = ''failed''"

text \<open>\<open>_BEGIN_LUA\<close>; \<open>ttl\<close> in seconds, at least one.\<close>

definition idem_begin :: "('s, 'z) redis_scheme \<Rightarrow> time \<Rightarrow> int \<Rightarrow> string \<Rightarrow> 's \<Rightarrow> bool \<times> 's" where
  "idem_begin R now ttl key s =
     (case r_get R now key s of
        None \<Rightarrow> (True, r_set R now key processing_mark (max 1 ttl * 1000000) s)
      | Some v \<Rightarrow> if v = failed_mark
          then (True, r_set R now key processing_mark (max 1 ttl * 1000000) s) else (False, s))"

definition idem_complete :: "('s, 'z) redis_scheme \<Rightarrow> time \<Rightarrow> int \<Rightarrow> string \<Rightarrow> 's \<Rightarrow> 's" where
  "idem_complete R now ttl key s = r_set R now key completed_mark (max 1 ttl * 1000000) s"

definition idem_fail :: "('s, 'z) redis_scheme \<Rightarrow> time \<Rightarrow> int \<Rightarrow> string \<Rightarrow> 's \<Rightarrow> 's" where
  "idem_fail R now ttl key s = r_set R now key failed_mark (min (max 1 ttl) 60 * 1000000) s"

definition idem_get :: "('s, 'z) redis_scheme \<Rightarrow> time \<Rightarrow> string \<Rightarrow> 's \<Rightarrow> string option" where
  "idem_get R now key s = r_get R now key s"

text \<open>\<open>LocalIdempotencyStore\<close>: a dictionary from keys to a mark and its expiry.\<close>

definition local_begin :: "time \<Rightarrow> int \<Rightarrow> string \<Rightarrow> string cells \<Rightarrow> bool \<times> string cells" where
  "local_begin now ttl key m =
     (if (case m key of None \<Rightarrow> False | Some (v, e) \<Rightarrow> e > now) then (False, m)
      else (True, m(key \<mapsto> (processing_mark, now + max 1 ttl * 1000000))))"

definition local_complete :: "time \<Rightarrow> int \<Rightarrow> string \<Rightarrow> string cells \<Rightarrow> string cells" where
  "local_complete now ttl key m = m(key \<mapsto> (completed_mark, now + max 1 ttl * 1000000))"

definition local_fail :: "time \<Rightarrow> int \<Rightarrow> string \<Rightarrow> string cells \<Rightarrow> string cells" where
  "local_fail now ttl key m = m(key \<mapsto> (failed_mark, now + min (max 1 ttl) 60 * 1000000))"

definition local_get :: "time \<Rightarrow> string \<Rightarrow> string cells \<Rightarrow> string option \<times> string cells" where
  "local_get now key m = (case m key of
     None \<Rightarrow> (None, m)
   | Some (v, e) \<Rightarrow> if e \<le> now then (None, m(key := None)) else (Some v, m))"

subsection \<open>Rate limits\<close>

record limit_result =
  allowed :: bool
  current :: int
  retry_after_ms :: int

text \<open>\<open>_FIXED_WINDOW_LUA\<close> and \<open>RedisRateLimiter.allow\<close>; \<open>window\<close> is \<open>max(1, window_seconds * 1000)\<close>.\<close>

definition redis_allow ::
  "('s, 'z) redis_scheme \<Rightarrow> time \<Rightarrow> string \<Rightarrow> int \<Rightarrow> int \<Rightarrow> int \<Rightarrow> 's \<Rightarrow> limit_result \<times> 's" where
  "redis_allow R now key limit window_seconds cost s =
     (let n = max 1 cost;
          (v, s1) = r_incrby R now key n s;
          s2 = (if v = n then snd (r_pexpire R now key (max 1 (window_seconds * 1000) * 1000) s1)
                else s1);
          ttl = r_pttl R now key s2
      in (\<lparr>allowed = (v \<le> max 1 limit), current = v, retry_after_ms = max 0 ttl\<rparr>, s2))"

text \<open>\<open>LocalRateLimiter.allow\<close>: the window's end and what was used of it.\<close>

definition local_allow ::
  "time \<Rightarrow> string \<Rightarrow> int \<Rightarrow> int \<Rightarrow> int \<Rightarrow> (string \<Rightarrow> (time \<times> int) option) \<Rightarrow>
     limit_result \<times> (string \<Rightarrow> (time \<times> int) option)" where
  "local_allow now key limit window_seconds cost m =
     (let fresh = (now + window_seconds * 1000000, 0);
          (e, c) = (case m key of None \<Rightarrow> fresh | Some w \<Rightarrow> w);
          (e1, c1) = (if e \<le> now then fresh else (e, c));
          c2 = c1 + max 1 cost
      in (\<lparr>allowed = (c2 \<le> limit), current = c2,
           retry_after_ms = max 0 ((e1 - now) div 1000)\<rparr>, m(key \<mapsto> (e1, c2))))"

text \<open>The slots of \<open>LocalRateLimiter\<close>: tokens with their expiry, in insertion order.\<close>

type_synonym slots = "string \<Rightarrow> (string \<times> time) list"

definition acquire_slot ::
  "env \<Rightarrow> nat \<Rightarrow> time \<Rightarrow> string \<Rightarrow> int \<Rightarrow> int \<Rightarrow> slots \<Rightarrow> string option \<times> slots" where
  "acquire_slot E n now key limit ttl_seconds m =
     (let live = filter (\<lambda>(tok, e). now < e) (m key) in
      if int (length live) \<ge> limit then (None, m(key := live))
      else let tok = uuid_hex E n in
        (Some tok, m(key := AList.update tok (now + ttl_seconds * 1000000) live)))"

definition release_slot :: "string \<Rightarrow> string \<Rightarrow> slots \<Rightarrow> slots" where
  "release_slot key tok m = m(key := AList.delete tok (m key))"

subsection \<open>Overload\<close>

datatype overload_state = Overload | Degraded | Normal

definition overload_snapshot :: "int \<Rightarrow> int \<Rightarrow> int \<Rightarrow> overload_state \<times> int \<times> int" where
  "overload_snapshot checked_out pool_size max_overflow =
     (let capacity = max 1 (max 1 pool_size + max 0 max_overflow);
          st = (if 10 * checked_out \<ge> 9 * capacity then Overload
                else if 10 * checked_out \<ge> 7 * capacity then Degraded else Normal)
      in (st, checked_out, capacity))"

end
