(* ===== verification/Redis_Keys.thy ===== *)
theory Redis_Keys
  imports Tables
begin

text \<open>
  The names of everything the program keeps in Redis (\<open>infrastructure/redis_keys.py\<close>). Each part of
  a name is percent-encoded, so a part cannot reach into its neighbour: the names of different
  tenants, messages, spaces, users and streams never coincide.
\<close>

subsection \<open>Percent encoding\<close>

definition unreserved :: "char \<Rightarrow> bool" where
  "unreserved c = (let n = of_char c :: nat in
     (65 \<le> n \<and> n \<le> 90) \<or> (97 \<le> n \<and> n \<le> 122) \<or> (48 \<le> n \<and> n \<le> 57) \<or>
     c \<in> set ''-_.~'')"

definition hex_digit :: "nat \<Rightarrow> char" where
  "hex_digit n = char_of (if n < 10 then 48 + n else 55 + n)"

definition hex_value :: "char \<Rightarrow> nat" where
  "hex_value c = (let n = of_char c :: nat in if n < 58 then n - 48 else n - 55)"

definition quote_char :: "char \<Rightarrow> string" where
  "quote_char c = (if unreserved c then [c]
     else let n = of_char c :: nat in [CHR ''%'', hex_digit (n div 16), hex_digit (n mod 16)])"

text \<open>\<open>urllib.parse.quote(s, safe="-_.")\<close>\<close>

definition quote :: "string \<Rightarrow> string" where
  "quote s = concat (map quote_char s)"

fun unquote :: "string \<Rightarrow> string" where
  "unquote (c # a # b # cs) = (if c = CHR ''%''
     then char_of (hex_value a * 16 + hex_value b) # unquote cs else c # unquote (a # b # cs))"
| "unquote (c # cs) = c # unquote cs"
| "unquote [] = []"

definition key_part :: "string \<Rightarrow> string" where
  "key_part v = quote (if v = [] then ''unknown'' else v)"

definition key_hash :: "env \<Rightarrow> string \<Rightarrow> string" where
  "key_hash E v = take 24 (sha256_hex E v)"

subsection \<open>The names\<close>

definition key_prefix :: "string \<Rightarrow> string" where
  "key_prefix environment = ''sxj:'' @ key_part environment"

definition tenant_key :: "string \<Rightarrow> string \<Rightarrow> string" where
  "tenant_key pre tenant = pre @ '':tenant:'' @ key_part tenant"

definition rate_user_key :: "string \<Rightarrow> string \<Rightarrow> string \<Rightarrow> string \<Rightarrow> string" where
  "rate_user_key pre tenant user action =
     tenant_key pre tenant @ '':rate:user:'' @ key_part user @ '':'' @ key_part action"

definition rate_tenant_tokens_key :: "string \<Rightarrow> string \<Rightarrow> string" where
  "rate_tenant_tokens_key pre tenant = tenant_key pre tenant @ '':rate:llm-tokens''"

definition concurrency_llm_key :: "string \<Rightarrow> string \<Rightarrow> string" where
  "concurrency_llm_key pre tenant = tenant_key pre tenant @ '':concurrency:llm''"

definition idempotency_name :: "string \<Rightarrow> string \<Rightarrow> string \<Rightarrow> string \<Rightarrow> string" where
  "idempotency_name pre tenant source mid =
     tenant_key pre tenant @ '':idem:message:'' @ key_part source @ '':'' @ key_part mid"

definition lock_space_key :: "string \<Rightarrow> string \<Rightarrow> string \<Rightarrow> string" where
  "lock_space_key pre tenant sid = tenant_key pre tenant @ '':lock:space:'' @ key_part sid"

definition lock_memory_key :: "string \<Rightarrow> string \<Rightarrow> string \<Rightarrow> string" where
  "lock_memory_key pre tenant mem = tenant_key pre tenant @ '':lock:memory:'' @ key_part mem"

definition lock_memory_key_key :: "env \<Rightarrow> string \<Rightarrow> string \<Rightarrow> string \<Rightarrow> string \<Rightarrow> string" where
  "lock_memory_key_key E pre tenant sid mkey = tenant_key pre tenant @ '':lock:memory-key:'' @
     key_part sid @ '':'' @ key_hash E mkey"

definition lock_scheduler_key :: "string \<Rightarrow> string \<Rightarrow> string" where
  "lock_scheduler_key pre job = pre @ '':lock:scheduler:'' @ key_part job"

definition cache_version_key :: "string \<Rightarrow> string \<Rightarrow> string \<Rightarrow> string" where
  "cache_version_key pre tenant sid = tenant_key pre tenant @ '':cachever:space:'' @ key_part sid"

definition cache_search_key ::
  "env \<Rightarrow> string \<Rightarrow> string \<Rightarrow> string \<Rightarrow> string \<Rightarrow> int \<Rightarrow> string \<Rightarrow> string" where
  "cache_search_key E pre tenant kind sid version q = tenant_key pre tenant @ '':cache:'' @
     key_part kind @ '':'' @ key_part sid @ '':'' @ show_int version @ '':'' @ key_hash E q"

definition cache_embedding_key :: "env \<Rightarrow> string \<Rightarrow> string \<Rightarrow> string \<Rightarrow> string" where
  "cache_embedding_key E pre model txt =
     pre @ '':cache:embedding:'' @ key_part model @ '':'' @ key_hash E txt"

definition memory_access_counts_key :: "string \<Rightarrow> string \<Rightarrow> string" where
  "memory_access_counts_key pre tenant = tenant_key pre tenant @ '':memory:access:counts''"

definition memory_access_last_seen_key :: "string \<Rightarrow> string \<Rightarrow> string" where
  "memory_access_last_seen_key pre tenant = tenant_key pre tenant @ '':memory:access:last-seen''"

definition session_key :: "string \<Rightarrow> string \<Rightarrow> string \<Rightarrow> string" where
  "session_key pre tenant user = pre @ '':session:'' @ key_part tenant @ '':'' @ key_part user"

definition stream_key :: "string \<Rightarrow> string \<Rightarrow> string" where
  "stream_key pre ty = pre @ '':stream:'' @ key_part ty"

definition dead_letter_key :: "string \<Rightarrow> string" where
  "dead_letter_key pre = stream_key pre ''deadletter''"

subsection \<open>Decoding\<close>

lemma hex_value_digit: "n < 16 \<Longrightarrow> hex_value (hex_digit n) = n"
  by (simp add: hex_value_def hex_digit_def Let_def take_bit_eq_mod)

lemma percent_reserved: "\<not> unreserved (CHR ''%'')" "\<not> unreserved (CHR '':'')"
  by code_simp+

lemma unquote_quote_char: "unquote (quote_char c @ s) = c # unquote s"
proof (cases "unreserved c")
  case True
  then have "c \<noteq> CHR ''%''" using percent_reserved by metis
  with True show ?thesis
    by (cases s rule: unquote.cases) (auto simp: quote_char_def)
next
  case False
  let ?n = "of_char c :: nat"
  have n: "?n < 256" by (metis of_char_mod_256 mod_less_divisor zero_less_numeral)
  then have "hex_value (hex_digit (?n div 16)) * 16 + hex_value (hex_digit (?n mod 16)) = ?n"
    by (simp add: hex_value_digit less_mult_imp_div_less)
  with False show ?thesis by (simp add: quote_char_def Let_def)
qed

lemma unquote_quote: "unquote (quote s) = s"
  by (induction s) (simp_all add: quote_def unquote_quote_char)

lemma hex_digit_no_colon: "n < 16 \<Longrightarrow> hex_digit n \<noteq> CHR '':''"
proof
  assume "n < 16" "hex_digit n = CHR '':''"
  then have "(of_char (hex_digit n) :: nat) = 58" by simp
  with \<open>n < 16\<close> show False by (auto simp: hex_digit_def split: if_splits)
qed

lemma quote_char_no_colon: "CHR '':'' \<notin> set (quote_char c)"
proof (cases "unreserved c")
  case True
  then show ?thesis using percent_reserved by (auto simp: quote_char_def)
next
  case False
  have "(of_char c :: nat) < 256" by (metis of_char_mod_256 mod_less_divisor zero_less_numeral)
  then have "(of_char c :: nat) div 16 < 16" "(of_char c :: nat) mod 16 < 16"
    by (simp_all add: less_mult_imp_div_less)
  with hex_digit_no_colon have "hex_digit ((of_char c :: nat) div 16) \<noteq> CHR '':''"
    "hex_digit ((of_char c :: nat) mod 16) \<noteq> CHR '':''" by blast+
  with False show ?thesis by (auto simp: quote_char_def Let_def)
qed

lemma quote_no_colon: "CHR '':'' \<notin> set (quote s)"
  using quote_char_no_colon by (auto simp: quote_def)

lemma quote_inj: "quote a = quote b \<Longrightarrow> a = b"
  by (metis unquote_quote)

lemma key_part_no_colon: "CHR '':'' \<notin> set (key_part v)"
  by (simp add: key_part_def quote_no_colon)

lemma key_part_inj: "key_part a = key_part b \<Longrightarrow> a \<noteq> [] \<Longrightarrow> b \<noteq> [] \<Longrightarrow> a = b"
  by (auto simp: key_part_def dest: quote_inj)

lemmas part_split = first_colon_split [OF _ key_part_no_colon key_part_no_colon]

lemma tenant_key_split:
  assumes "tenant_key pre t @ CHR '':'' # x = tenant_key pre t' @ CHR '':'' # y"
  shows "key_part t = key_part t' \<and> x = y"
  using part_split [of t x t' y] assms by (simp add: tenant_key_def)

end
