(* ===== verification/Receiver.thy ===== *)
theory Receiver
  imports Coordination Redis_Keys Dispatch
begin

text \<open>
  The entrance of the pipeline (\<open>apps/receiver.py\<close>): an idempotency mark in Redis in front of the
  transaction \<open>receive_command\<close>. Redis may be off (\<open>coordinated\<close> is false) or a call may raise
  (\<open>faults\<close>; a raising call leaves the server as it was): then the transaction alone decides.
\<close>

record inbox_command =
  ic_source :: string
  ic_message_id :: string
  ic_space_id :: string
  ic_text :: string
  ic_task_type :: string
  ic_task_payload :: payload
  ic_event_id :: "string option"
  ic_tenant_id :: string
  ic_chat_id :: "string option"
  ic_chat_type :: "string option"
  ic_sender :: payload
  ic_received_at :: time

record faults =
  begin_raises :: bool
  complete_raises :: bool
  fail_raises :: bool

text \<open>The keyword arguments of the call to \<open>receive_command\<close>; \<open>WORKER_MAX_ATTEMPTS\<close> is 5.\<close>

definition command_of :: "env \<Rightarrow> inbox_command \<Rightarrow> command" where
  "command_of E c =
     \<lparr>cmd_source = ic_source c, cmd_source_message_id = ic_message_id c,
      cmd_source_event_id = ic_event_id c, cmd_tenant_id = ic_tenant_id c,
      cmd_space_id = ic_space_id c, cmd_chat_id = ic_chat_id c, cmd_chat_type = ic_chat_type c,
      cmd_sender = ic_sender c, cmd_text = ic_text c, cmd_received_at = ic_received_at c,
      cmd_task_type = ic_task_type c,
      cmd_payload = pset ''consistency''
        (JStr (task_consistency E (ic_task_type c) (ic_task_payload c))) (ic_task_payload c),
      cmd_sensitivity = ''normal'', cmd_max_attempts = 5\<rparr>"

definition redis_answer :: "string \<Rightarrow> bool \<Rightarrow> bool \<Rightarrow> dispatch_result" where
  "redis_answer tag dup busy = \<lparr>res_inbox_id = tag, res_task_id = None, res_created = False,
     res_duplicate = dup, res_in_progress = busy\<rparr>"

text \<open>
  The part before the transaction: an answer, or whether a store takes part in the rest.
\<close>

definition enter_receive ::
  "('s, 'z) redis_scheme \<Rightarrow> bool \<Rightarrow> faults \<Rightarrow> time \<Rightarrow> int \<Rightarrow> string \<Rightarrow> 's \<Rightarrow>
     (dispatch_result + bool) \<times> 's" where
  "enter_receive R coordinated fs now ttl key s =
     (if \<not> coordinated \<or> begin_raises fs then (Inr False, s)
      else if idem_get R now key s = Some completed_mark
      then (Inl (redis_answer ''redis-completed'' True False), s)
      else if idem_get R now key s = Some processing_mark
      then (Inl (redis_answer ''redis-processing'' False True), s)
      else case idem_begin R now ttl key s of
        (False, s1) \<Rightarrow> (Inl (redis_answer ''redis-processing'' False True), s1)
      | (True, s1) \<Rightarrow> (Inr True, s1))"

definition receive ::
  "('s, 'z) redis_scheme \<Rightarrow> env \<Rightarrow> string \<Rightarrow> bool \<Rightarrow> faults \<Rightarrow> int \<Rightarrow> time \<Rightarrow> payload \<Rightarrow>
     inbox_command \<Rightarrow> 's \<times> db \<Rightarrow> (db_error + dispatch_result) \<times> 's \<times> db" where
  "receive R E pre coordinated fs ttl now ctx c sd =
     (let key = idempotency_name pre (ic_tenant_id c) (ic_source c) (ic_message_id c) in
      case enter_receive R coordinated fs now ttl key (fst sd) of
        (Inl ans, s1) \<Rightarrow> (Inr ans, s1, snd sd)
      | (Inr use, s1) \<Rightarrow>
        (case receive_command E now ctx (command_of E c) (snd sd) of
           Inl e \<Rightarrow> (Inl e, if use \<and> \<not> fail_raises fs then idem_fail R now ttl key s1 else s1, snd sd)
         | Inr (res, d) \<Rightarrow>
             (Inr res, if use \<and> \<not> complete_raises fs then idem_complete R now ttl key s1 else s1, d)))"

end
