(* ===== verification/Coordination_Guarantees.thy ===== *)
theory Coordination_Guarantees
  imports Receiver Scenario
begin

text \<open>
  What the coordination layer promises: names that keep tenants apart, locks that exclude, limits
  that hold, and a receiver that answers "duplicate" only for messages it has stored.
\<close>

subsection \<open>Names\<close>

text \<open>
  Percent encoding loses nothing: decoding a part of a Redis name gives the original text.
\<close>

theorem quote_roundtrip: "unquote (quote s) = s \<and> CHR '':'' \<notin> set (quote s)"
  by (simp add: unquote_quote quote_no_colon)

text \<open>
  C22: the idempotency marks of different messages are different keys, and so are the locks of
  different spaces; every non-empty tenant, source, message and space identifier is allowed, with any
  characters.
\<close>

theorem names_injective:
  assumes "ten \<noteq> []" "ten' \<noteq> []" "src \<noteq> []" "src' \<noteq> []" "mid \<noteq> []" "mid' \<noteq> []"
    "sid \<noteq> []" "sid' \<noteq> []"
  shows "(idempotency_name pre ten src mid = idempotency_name pre ten' src' mid' \<longleftrightarrow>
      ten = ten' \<and> src = src' \<and> mid = mid') \<and>
    (lock_space_key pre ten sid = lock_space_key pre ten' sid' \<longleftrightarrow> ten = ten' \<and> sid = sid') \<and>
    idempotency_name pre ten src mid \<noteq> lock_space_key pre ten' sid'"
proof (intro conjI iffI)
  assume eq: "idempotency_name pre ten src mid = idempotency_name pre ten' src' mid'"
  then have "key_part ten = key_part ten' \<and>
      key_part src @ CHR '':'' # key_part mid = key_part src' @ CHR '':'' # key_part mid'"
    using tenant_key_split [of pre ten "''idem:message:'' @ key_part src @ CHR '':'' # key_part mid" ten'
        "''idem:message:'' @ key_part src' @ CHR '':'' # key_part mid'"]
    by (simp add: idempotency_name_def)
  with part_split [of src "key_part mid" src' "key_part mid'"] assms
  show "ten = ten'" "src = src'" "mid = mid'" by (auto dest: key_part_inj)
next
  assume eq: "lock_space_key pre ten sid = lock_space_key pre ten' sid'"
  then have "key_part ten = key_part ten' \<and> key_part sid = key_part sid'"
    using tenant_key_split [of pre ten "''lock:space:'' @ key_part sid" ten' "''lock:space:'' @ key_part sid'"]
    by (simp add: lock_space_key_def)
  with assms show "ten = ten'" "sid = sid'" by (auto dest: key_part_inj)
next
  show "idempotency_name pre ten src mid \<noteq> lock_space_key pre ten' sid'"
  proof
    assume "idempotency_name pre ten src mid = lock_space_key pre ten' sid'"
    then show False
      using tenant_key_split [of pre ten "''idem:message:'' @ key_part src @ CHR '':'' # key_part mid" ten'
          "''lock:space:'' @ key_part sid'"]
      by (simp add: idempotency_name_def lock_space_key_def)
  qed
qed auto

lemma names_injective_witness:
  "lock_space_key ''sxj:dev'' ''a'' ''b:lock:space:c'' \<noteq> lock_space_key ''sxj:dev'' ''a'' ''c'' \<and>
   idempotency_name ''sxj:dev'' ''a'' ''b'' ''c:d'' \<noteq> idempotency_name ''sxj:dev'' ''a'' ''b:c'' ''d''"
proof -
  have c: "''a'' \<noteq> []" "''b'' \<noteq> []" "''b:c'' \<noteq> []" "''c:d'' \<noteq> []" "''d'' \<noteq> []" "''b:lock:space:c'' \<noteq> []"
    "''c'' \<noteq> []" by simp_all
  from names_injective [where pre = "''sxj:dev''", OF c(1,1,2,3,4,5,6,7)] show ?thesis by simp
qed

subsection \<open>Locks\<close>

definition holds_until :: "(string \<times> time) option \<Rightarrow> string \<Rightarrow> time \<Rightarrow> bool" where
  "holds_until c tok t \<longleftrightarrow> (\<exists>e \<ge> t. c = Some (tok, e))"

fun releases :: "string \<Rightarrow> lock_op \<Rightarrow> bool" where
  "releases tok (Release tok') = (tok' = tok)"
| "releases tok _ = False"

fun tries_lock :: "lock_op \<Rightarrow> bool" where
  "tries_lock (TryLock tok) = True"
| "tries_lock _ = False"

context redis_strings
begin

lemma lock_step_held:
  assumes h: "holds_until (cell s key) tok end_at" and t: "now < end_at" "end_at \<le> now + ttl"
    and r: "\<not> releases tok p" and run: "lock_step R key ttl now p s = (b, s')"
  shows "holds_until (cell s' key) tok end_at \<and> (tries_lock p \<longrightarrow> \<not> b)"
proof -
  obtain e where e: "cell s key = Some (tok, e)" "end_at \<le> e" using h by (auto simp: holds_until_def)
  then have a: "alive now (cell s key) = Some tok" using t by (simp add: alive_def)
  show ?thesis
  proof (cases p)
    case (TryLock x)
    then show ?thesis using setnx_taken [of now s key x ttl] a run h by auto
  next
    case (Renew x)
    then show ?thesis using pexpire_cell [OF a, of ttl] run a h t
      by (auto simp: lock_renew_def get holds_until_def split: if_splits)
  next
    case (Release x)
    then show ?thesis using run a r h by (auto simp: lock_release_def get split: if_splits)
  qed
qed

lemma lock_run_held:
  assumes "holds_until (cell s key) tok end_at"
    and "\<forall>(now, p) \<in> set ps. now < end_at \<and> end_at \<le> now + ttl \<and> \<not> releases tok p"
    and "lock_run R key ttl ps s = (bs, s')"
  shows "holds_until (cell s' key) tok end_at \<and>
    (\<forall>i < length ps. tries_lock (snd (ps ! i)) \<longrightarrow> \<not> bs ! i)"
  using assms
proof (induction ps arbitrary: s bs)
  case (Cons c ps)
  obtain now p where c: "c = (now, p)" by (cases c)
  obtain b s1 where s1: "lock_step R key ttl now p s = (b, s1)" by fastforce
  obtain bs1 where bs: "lock_run R key ttl ps s1 = (bs1, s')" "bs = b # bs1"
    using Cons.prems(3) by (auto simp: c s1 split: prod.splits)
  from lock_step_held [OF Cons.prems(1) _ _ _ s1] Cons.prems(2)
  have h: "holds_until (cell s1 key) tok end_at" "tries_lock p \<longrightarrow> \<not> b" by (auto simp: c)
  from Cons.IH [OF h(1) _ bs(1)] Cons.prems(2)
  have "holds_until (cell s' key) tok end_at \<and> (\<forall>i < length ps. tries_lock (snd (ps ! i)) \<longrightarrow> \<not> bs1 ! i)"
    by simp
  with h(2) show ?case by (auto simp: c bs(2) nth_Cons split: nat.splits)
qed simp

lemma lock_taken:
  assumes "lock_step R key ttl t (TryLock tok) s = (True, s1)"
  shows "holds_until (cell s1 key) tok (t + ttl)"
  using assms setnx_free [of t s key tok ttl] setnx_taken [of t s key tok ttl]
  by (cases "alive t (cell s key) = None") (auto simp: holds_until_def)

end



text \<open>
  Waiting for the lock ends. If successive turns of the loop are at least 50 ms apart on the
  local clock, the loop has returned after at most \<open>wait / 50 ms + 2\<close> turns, whatever the server and
  the other processes do.
\<close>

lemma lock_acquire_deadline:
  "x \<in> set turns \<Longrightarrow> fst (snd x) \<ge> deadline \<Longrightarrow>
     fst (lock_acquire R key tok ttl deadline turns s) \<noteq> None"
proof (induction turns arbitrary: s)
  case (Cons y turns)
  obtain now local other where y: "y = (now, local, other)" by (cases y)
  show ?case
  proof (cases "fst (r_setnx R now key tok ttl (other s)) \<or> local \<ge> deadline")
    case True
    then show ?thesis by (auto simp: y split: prod.splits)
  next
    case False
    then have "x \<in> set turns" using Cons.prems by (auto simp: y)
    from Cons.IH [OF this Cons.prems(2)] False show ?thesis by (simp add: y split: prod.splits)
  qed
qed simp

theorem lock_wait_ends:
  assumes "nat (max 0 wait div 50000) + 2 \<le> length turns"
    and "\<forall>i < length turns. fst (snd (turns ! i)) \<ge> start + int i * 50000"
  shows "fst (lock_acquire R key tok ttl (start + max 0 wait) turns s) \<noteq> None"
proof -
  let ?i = "nat (max 0 wait div 50000) + 1"
  have i: "?i < length turns" using assms(1) by simp
  have step: "w \<le> (w div 50000 + 1) * 50000" for w :: int
    using div_mult_mod_eq [of w 50000] pos_mod_bound [of 50000 w] by (simp add: algebra_simps)
  have "int ?i = max 0 wait div 50000 + 1" by simp
  with step [of "max 0 wait"] have "max 0 wait \<le> int ?i * 50000" by metis
  moreover have "start + int ?i * 50000 \<le> fst (snd (turns ! ?i))" using assms(2) i by blast
  ultimately have "start + max 0 wait \<le> fst (snd (turns ! ?i))" by linarith
  with lock_acquire_deadline [OF nth_mem [OF i]] show ?thesis by blast
qed

lemma lock_wait_ends_witness:
  "fst (lock_acquire mem_redis ''k'' ''b'' 1000000 100000
     [(0, 0, id), (50000, 50000, id), (100000, 100000, id), (150000, 150000, id)]
     (snd (lock_step mem_redis ''k'' 1000000 0 (TryLock ''a'') mem_empty))) \<noteq> None"
  using lock_wait_ends [where start = 0 and wait = 100000 and R = mem_redis and key = "''k''" and tok = "''b''"
      and ttl = 1000000 and turns = "[(0, 0, id), (50000, 50000, id), (100000, 100000, id), (150000, 150000, id)]"
      and s = "snd (lock_step mem_redis ''k'' 1000000 0 (TryLock ''a'') mem_empty)"]
  by (simp add: All_less_Suc nth_Cons' numeral_nat)

text \<open>
  The coordinated lock does not exclude: a critical caller that cannot get the Redis lock within its
  waiting time enters under the PostgreSQL advisory lock, while the holder of the Redis lock is still
  inside.
\<close>

lemma two_holders:
  "inside (snd (coordinated_enter mem_redis ''k'' 30000000 True False 5000000 ''b''
       [(1000000, 1000000, id), (5000000, 5000000, id)]
     (snd (coordinated_enter mem_redis ''k'' 30000000 True False 5000000 ''a'' [(0, 0, id)]
       \<lparr>server = mem_empty, advisory = None, inside = []\<rparr>)))) = [InRedis ''a'', InPostgres ''b'']"
  by code_simp

end
