(* ===== verification/Receiver_Guarantees.thy ===== *)
theory Receiver_Guarantees
  imports Coordination_Guarantees
begin

text \<open>
  The limits and the entrance: both rate limiters decide alike and keep their limit, and the
  receiver answers without an error only for messages that are in the inbox.
\<close>

subsection \<open>Rate limits\<close>

text \<open>The answers to successive calls with one key, limit and window.\<close>

fun limit_run ::
  "(time \<Rightarrow> int \<Rightarrow> 's \<Rightarrow> limit_result \<times> 's) \<Rightarrow> (time \<times> int) list \<Rightarrow> 's \<Rightarrow> limit_result list" where
  "limit_run f [] s = []"
| "limit_run f ((now, cost) # calls) s = (let (r, s') = f now cost s in r # limit_run f calls s')"

definition granted_cost :: "(time \<times> int) list \<Rightarrow> limit_result list \<Rightarrow> int" where
  "granted_cost calls rs =
     sum_list (map (\<lambda>((now, cost), r). if allowed r then max 1 cost else 0) (zip calls rs))"

definition same_window :: "(int \<times> time option) option \<Rightarrow> (time \<times> int) option \<Rightarrow> bool" where
  "same_window c w = (case c of
     None \<Rightarrow> w = None
   | Some (v, Some e) \<Rightarrow> 0 < v \<and> w = Some (e, v)
   | Some (v, None) \<Rightarrow> False)"

context redis_counters
begin

lemma allow_agrees:
  assumes "same_window (counter s key) (m key)" and "1 \<le> limit" and "1 \<le> window"
  shows "\<exists>s' m'. redis_allow R now key limit window cost s = (fst (local_allow now key limit window cost m), s') \<and>
    snd (local_allow now key limit window cost m) = m' \<and> same_window (counter s' key) (m' key)"
proof -
  let ?n = "max 1 cost"
  let ?W = "window * 1000000"
  have W: "max 1 (window * 1000) * 1000 = ?W" "0 < ?W" using assms(3) by auto
  obtain v s1 where s1: "r_incrby R now key ?n s = (v, s1)" by fastforce
  have v: "v = fst (live_counter now (counter s key)) + ?n"
    and c1: "counter s1 key = Some (v, snd (live_counter now (counter s key)))"
    using incr_value [of now key ?n s] incr_cell [of now key ?n s] s1 by auto
  show ?thesis
  proof (cases "\<exists>x e. counter s key = Some (x, Some e) \<and> now < e")
    case True
    then obtain x e where x: "counter s key = Some (x, Some e)" "now < e" "0 < x" "m key = Some (e, x)"
      using assms(1) by (auto simp: same_window_def)
    then have v': "v = x + ?n" "counter s1 key = Some (v, Some e)" using v c1 by (simp_all add: live_counter_def)
    with x s1 pttl [OF v'(2) x(2)] assms(2) show ?thesis
      by (auto simp: redis_allow_def local_allow_def Let_def same_window_def)
  next
    case False
    then have l: "live_counter now (counter s key) = (0, None)"
      using assms(1) by (auto simp: same_window_def live_counter_def split: option.splits)
    then have v': "v = ?n" "counter s1 key = Some (v, None)" using v c1 by auto
    obtain b s2 where s2: "r_pexpire R now key ?W s1 = (b, s2)" by fastforce
    have c2: "counter s2 key = Some (?n, Some (now + ?W))"
      using expire_counter [OF v'(2), of now ?W] s2 v'(1) by simp
    have m: "m key = None \<or> (\<exists>e x. m key = Some (e, x) \<and> e \<le> now)"
      using assms(1) False by (auto simp: same_window_def split: option.splits)
    then have loc: "local_allow now key limit window cost m =
        (\<lparr>allowed = (?n \<le> limit), current = ?n, retry_after_ms = max 0 (?W div 1000)\<rparr>, m(key \<mapsto> (now + ?W, ?n)))"
      by (elim disjE exE conjE) (simp_all add: local_allow_def Let_def)
    have "redis_allow R now key limit window cost s =
        (\<lparr>allowed = (?n \<le> limit), current = ?n, retry_after_ms = max 0 (?W div 1000)\<rparr>, s2)"
    proof -
      have "r_pexpire R now key (max 1 (window * 1000) * 1000) s1 = (b, s2)" by (simp only: W(1) s2)
      with s1 v'(1) W(2) assms(2) pttl [OF c2, of now] show ?thesis by (simp add: redis_allow_def Let_def)
    qed
    with loc c2 show ?thesis by (simp add: same_window_def)
  qed
qed

lemma limit_runs_agree:
  assumes "1 \<le> limit" "1 \<le> window"
  shows "same_window (counter s key) (m key) \<Longrightarrow>
    limit_run (\<lambda>now cost. redis_allow R now key limit window cost) calls s =
    limit_run (\<lambda>now cost. local_allow now key limit window cost) calls m"
proof (induction calls arbitrary: s m)
  case (Cons c calls)
  obtain now cost where c: "c = (now, cost)" by (cases c)
  from allow_agrees [of s key m limit window now cost] Cons.prems assms obtain s' where
    "redis_allow R now key limit window cost s = (fst (local_allow now key limit window cost m), s')"
    "same_window (counter s' key) (snd (local_allow now key limit window cost m) key)" by blast
  with Cons.IH [of s' "snd (local_allow now key limit window cost m)"] show ?case by (simp add: c split: prod.splits)
qed simp

end



lemma granted_cost_Cons:
  "granted_cost ((now, cost) # calls) (r # rs) =
     (if allowed r then max 1 cost else 0) + granted_cost calls rs"
  by (simp add: granted_cost_def)

lemma window_arith: "g \<le> max 0 (limit - (c + max 1 cost)) \<Longrightarrow>
    (if c + max 1 cost \<le> limit then max 1 cost else 0) + g \<le> max 0 (limit - c)" for g limit c cost :: int
  by (auto simp: max_def split: if_splits)

lemma local_window_bound:
  assumes "m key = Some (e, c)" "\<forall>(now, cost) \<in> set calls. now < e" "0 \<le> c"
  shows "granted_cost calls (limit_run (\<lambda>now cost. local_allow now key limit window cost) calls m)
    \<le> max 0 (limit - c)"
  using assms
proof (induction calls arbitrary: m c)
  case (Cons x calls)
  obtain now cost where x: "x = (now, cost)" by (cases x)
  let ?c = "c + max 1 cost"
  have a: "local_allow now key limit window cost m =
      (\<lparr>allowed = (?c \<le> limit), current = ?c, retry_after_ms = max 0 ((e - now) div 1000)\<rparr>, m(key \<mapsto> (e, ?c)))"
    using Cons.prems by (auto simp: local_allow_def Let_def x)
  have "granted_cost calls (limit_run (\<lambda>now cost. local_allow now key limit window cost) calls (m(key \<mapsto> (e, ?c))))
      \<le> max 0 (limit - ?c)"
    using Cons.prems by (intro Cons.IH) auto
  moreover have "granted_cost (x # calls) (limit_run (\<lambda>now cost. local_allow now key limit window cost) (x # calls) m) =
      (if ?c \<le> limit then max 1 cost else 0) + granted_cost calls
        (limit_run (\<lambda>now cost. local_allow now key limit window cost) calls (m(key \<mapsto> (e, ?c))))"
    by (simp add: x a granted_cost_Cons)
  ultimately show ?case using window_arith by metis
qed (simp add: granted_cost_def)

text \<open>
  A window never grants more than its limit. Among calls within one window of the first one,
  the costs of the calls that the Redis limiter allows sum to at most the limit.
\<close>

theorem window_respects_limit:
  assumes "redis_counters R counter" and "counter s key = None" and "1 \<le> limit" and "1 \<le> window"
    and "\<forall>(t, cost) \<in> set calls. t < now + window * 1000000"
  shows "granted_cost ((now, cost) # calls)
    (limit_run (\<lambda>now cost. redis_allow R now key limit window cost) ((now, cost) # calls) s) \<le> limit"
proof -
  let ?W = "window * 1000000"
  let ?m = "(\<lambda>_. None)(key \<mapsto> (now + ?W, max 1 cost))"
  have eq: "limit_run (\<lambda>now cost. redis_allow R now key limit window cost) ((now, cost) # calls) s =
      limit_run (\<lambda>now cost. local_allow now key limit window cost) ((now, cost) # calls) (\<lambda>_. None)"
    by (rule redis_counters.limit_runs_agree [OF assms(1,3,4)]) (simp add: assms(2) same_window_def)
  have a: "local_allow now key limit window cost (\<lambda>_. None) =
      (\<lparr>allowed = (max 1 cost \<le> limit), current = max 1 cost, retry_after_ms = max 0 (?W div 1000)\<rparr>, ?m)"
    using assms(4) by (simp add: local_allow_def Let_def)
  have "granted_cost calls (limit_run (\<lambda>now cost. local_allow now key limit window cost) calls ?m)
      \<le> max 0 (limit - max 1 cost)"
    using assms(5) by (intro local_window_bound) auto
  moreover have "granted_cost ((now, cost) # calls)
      (limit_run (\<lambda>now cost. local_allow now key limit window cost) ((now, cost) # calls) (\<lambda>_. None)) =
      (if 0 + max 1 cost \<le> limit then max 1 cost else 0) + granted_cost calls
        (limit_run (\<lambda>now cost. local_allow now key limit window cost) calls ?m)"
    by (simp add: a granted_cost_Cons)
  ultimately have "granted_cost ((now, cost) # calls)
      (limit_run (\<lambda>now cost. local_allow now key limit window cost) ((now, cost) # calls) (\<lambda>_. None)) \<le> max 0 (limit - 0)"
    using window_arith [of _ limit 0 cost] by simp
  with assms(3) show ?thesis unfolding eq by simp
qed

lemma window_respects_limit_witness:
  "granted_cost [(0, 1), (5, 1), (7, 1)]
     (limit_run (\<lambda>now cost. redis_allow mem_redis now ''k'' 2 1 cost) [(0, 1), (5, 1), (7, 1)] mem_empty) \<le> 2"
  by (rule window_respects_limit [OF mem.redis_counters_axioms]) (simp_all add: mem_empty_def)

subsection \<open>The entrance\<close>

definition stored :: "string \<Rightarrow> string \<Rightarrow> string \<Rightarrow> db \<Rightarrow> bool" where
  "stored ten src mid d \<longleftrightarrow> (\<exists>r \<in> set (inbox d). inbox_tenant_id r = (if ten = [] then ''default'' else ten) \<and>
     inbox_source r = src \<and> inbox_source_message_id r = mid)"

lemma publish_inbox: "publish_task_request E now tid ty n s = Inr (x, s') \<Longrightarrow> inbox s' = inbox s"
  by (auto simp: publish_task_request_def Let_def new_id_def draw_def insert_outbox_def split: if_splits)

lemma activate_rows_inbox: "activate_rows E now rows s = Inr (n, s') \<Longrightarrow> inbox s' = inbox s"
proof (induction rows arbitrary: s n)
  case (Cons row rows)
  then show ?case by (auto split: sum.splits prod.splits dest!: publish_inbox)
qed simp

lemma advance_inbox: "advance_watermarks_in_session E now sp s = Inr (n, s') \<Longrightarrow> inbox s' = inbox s"
  by (auto simp: advance_watermarks_in_session_def activate_ready_tasks_in_session_def Let_def
      dest!: activate_rows_inbox)

lemma enqueue_inbox:
  "enqueue_task_in_session E now ctx ty tn sid msg idem p prio maxa st pub s = Inr (x, s') \<Longrightarrow> inbox s' = inbox s"
  by (auto simp: enqueue_task_in_session_def Let_def new_id_def draw_def insert_task_once_def
      split: if_splits sum.splits prod.splits option.splits dest!: publish_inbox)

lemma receive_command_stores:
  assumes "receive_command E now ctx c s = Inr (res, s')"
  shows "set (inbox s) \<subseteq> set (inbox s') \<and>
    stored (cmd_tenant_id c) (cmd_source c) (cmd_source_message_id c) s'"
proof -
  let ?tn = "if cmd_tenant_id c = [] then ''default'' else cmd_tenant_id c"
  obtain sid s1 where ext: "ensure_tenant_space E (cmd_space_id c) ?tn (cmd_source c) [] s = Inr (sid, s1)"
    using assms by (auto simp: receive_command_def Let_def split: sum.splits)
  have i1: "inbox s1 = inbox s" using ensure_tenant_space_ext [OF ext] by (auto simp: spaces_ext_def)
  show ?thesis
  proof (cases "find (\<lambda>r. inbox_tenant_id r = ?tn \<and> inbox_source r = cmd_source c \<and>
      inbox_source_message_id r = cmd_source_message_id c) (inbox s1)")
    case (Some r)
    with assms ext i1 show ?thesis
      by (auto simp: receive_command_def Let_def stored_def dest!: find_SomeD)
  next
    case None
    with assms ext have "accept_command E now ctx c ?tn sid s1 = Inr (res, s')"
      by (simp add: receive_command_def Let_def)
    from accept_command_Inr [OF this] obtain space tid created s3 st seq cons where
      enq: "enqueue_task_in_session E now ctx (cmd_task_type c) ?tn sid (Some (cmd_source_message_id c))
        (command_key ?tn (cmd_task_type c) (cmd_source c) (cmd_source_message_id c))
        (pmerge (cmd_payload c) cons) 0 (cmd_max_attempts c) st (st = Queued)
        (s1\<lparr>uuid_pos := Suc (uuid_pos s1), inbox := inbox s1 @
          [inbox_row_of (''inbox_'' @ take 12 (uuid_hex E (uuid_pos s1))) ?tn sid seq c]\<rparr>) = Inr ((tid, created), s3)"
      and fin: "if cmd_task_type c = ''ingest'' then s' = s3
        else \<exists>n. advance_watermarks_in_session E now space s3 = Inr (n, s')" by blast
    have "inbox s' = inbox s1 @ [inbox_row_of (''inbox_'' @ take 12 (uuid_hex E (uuid_pos s1))) ?tn sid seq c]"
      using enqueue_inbox [OF enq] fin advance_inbox by (auto split: if_splits)
    with i1 show ?thesis by (auto simp: stored_def inbox_row_of_def Let_def)
  qed
qed

text \<open>What the server says is completed is stored, for messages with non-empty identifiers.\<close>

definition marks_sound :: "('s \<Rightarrow> string cells) \<Rightarrow> string \<Rightarrow> 's \<Rightarrow> db \<Rightarrow> bool" where
  "marks_sound cell pre s d \<longleftrightarrow> (\<forall>ten src mid e. ten \<noteq> [] \<longrightarrow> src \<noteq> [] \<longrightarrow> mid \<noteq> [] \<longrightarrow>
     cell s (idempotency_name pre ten src mid) = Some (completed_mark, e) \<longrightarrow> stored ten src mid d)"

lemma marks_sound_other:
  assumes "marks_sound cell pre s d" "cell s' = (cell s)(key \<mapsto> (v, e))" "v \<noteq> completed_mark"
  shows "marks_sound cell pre s' d"
  unfolding marks_sound_def
proof (intro allI impI)
  fix ten src mid e' assume ne: "ten \<noteq> []" "src \<noteq> []" "mid \<noteq> []"
    and c: "cell s' (idempotency_name pre ten src mid) = Some (completed_mark, e')"
  have "idempotency_name pre ten src mid \<noteq> key" using c assms(2,3) by auto
  with c have "cell s (idempotency_name pre ten src mid) = Some (completed_mark, e')"
    unfolding assms(2) by simp
  with assms(1) ne show "stored ten src mid d" unfolding marks_sound_def by blast
qed

lemma stored_mono: "stored ten src mid d \<Longrightarrow> set (inbox d) \<subseteq> set (inbox d2) \<Longrightarrow> stored ten src mid d2"
  unfolding stored_def by blast

lemma marks_sound_mono:
  assumes "marks_sound cell pre s d" "set (inbox d) \<subseteq> set (inbox d2)"
  shows "marks_sound cell pre s d2"
  unfolding marks_sound_def
  by (intro allI impI, rule stored_mono [OF _ assms(2)])
    (use assms(1) in \<open>unfold marks_sound_def, blast\<close>)

definition identified :: "inbox_command \<Rightarrow> bool" where
  "identified c \<longleftrightarrow> ic_tenant_id c \<noteq> [] \<and> ic_source c \<noteq> [] \<and> ic_message_id c \<noteq> []"

lemma idempotency_name_inj:
  assumes "idempotency_name pre ten src mid = idempotency_name pre ten' src' mid'"
    and "ten \<noteq> []" "ten' \<noteq> []" "src \<noteq> []" "src' \<noteq> []" "mid \<noteq> []" "mid' \<noteq> []"
  shows "ten = ten' \<and> src = src' \<and> mid = mid'"
proof -
  have "key_part ten = key_part ten' \<and>
      key_part src @ CHR '':'' # key_part mid = key_part src' @ CHR '':'' # key_part mid'"
    using tenant_key_split [of pre ten "''idem:message:'' @ key_part src @ CHR '':'' # key_part mid" ten'
        "''idem:message:'' @ key_part src' @ CHR '':'' # key_part mid'"] assms(1)
    by (simp add: idempotency_name_def)
  with part_split [of src "key_part mid" src' "key_part mid'"] assms(2-) show ?thesis
    by (auto dest: key_part_inj)
qed

context redis_strings
begin

lemma enter_receive_cell:
  assumes "enter_receive R coordinated fs now ttl key s = (x, s1)"
  shows "(cell s1 = cell s \<or> (\<exists>e. cell s1 = (cell s)(key \<mapsto> (processing_mark, e)))) \<and>
    (case x of Inl ans \<Rightarrow> res_in_progress ans \<or> (\<exists>e. cell s key = Some (completed_mark, e)) | Inr _ \<Rightarrow> True)"
proof (cases "coordinated \<and> \<not> begin_raises fs")
  case False
  with assms show ?thesis by (auto simp: enter_receive_def)
next
  case True
  show ?thesis
  proof (cases "alive now (cell s key)")
    case None
    with assms True show ?thesis
      by (auto simp: enter_receive_def idem_get_def idem_begin_def get set_cell)
  next
    case (Some v)
    then have "\<exists>e. cell s key = Some (v, e)" by (auto simp: alive_def split: option.splits if_splits)
    with assms True Some show ?thesis
      by (cases "v = completed_mark"; cases "v = processing_mark"; cases "v = failed_mark")
        (auto simp: enter_receive_def idem_get_def idem_begin_def get set_cell redis_answer_def)
  qed
qed

lemma receive_keeps:
  assumes inv: "marks_sound cell pre s d" and c: "identified c"
    and run: "receive R E pre coordinated fs ttl now ctx c (s, d) = (res, s', d')"
  shows "marks_sound cell pre s' d' \<and> set (inbox d) \<subseteq> set (inbox d') \<and>
    (\<forall>ans. res = Inr ans \<longrightarrow> \<not> res_in_progress ans \<longrightarrow>
       stored (ic_tenant_id c) (ic_source c) (ic_message_id c) d')"
proof -
  let ?key = "idempotency_name pre (ic_tenant_id c) (ic_source c) (ic_message_id c)"
  obtain x s1 where x: "enter_receive R coordinated fs now ttl ?key s = (x, s1)" by fastforce
  note ent = enter_receive_cell [OF x]
  have p: "processing_mark \<noteq> completed_mark" "failed_mark \<noteq> completed_mark" by code_simp+
  have sound1: "marks_sound cell pre s1 d"
    using ent
  proof (elim conjE disjE exE)
    assume "cell s1 = cell s"
    with inv show ?thesis by (simp add: marks_sound_def)
  qed (rule marks_sound_other [OF inv _ p(1)])
  show ?thesis
  proof (cases x)
    case (Inl ans)
    with run x have r: "res = Inr ans" "s' = s1" "d' = d" by (auto simp: receive_def Let_def)
    have "stored (ic_tenant_id c) (ic_source c) (ic_message_id c) d" if "\<not> res_in_progress ans"
      using ent Inl that inv c unfolding marks_sound_def identified_def by simp
    with r sound1 show ?thesis by auto
  next
    case (Inr use)
    show ?thesis
    proof (cases "receive_command E now ctx (command_of E c) d")
      case (Inl e)
      with run x Inr have r: "res = Inl e" "d' = d"
        "s' = (if use \<and> \<not> fail_raises fs then idem_fail R now ttl ?key s1 else s1)"
        by (auto simp: receive_def Let_def)
      have "marks_sound cell pre (idem_fail R now ttl ?key s1) d"
        by (rule marks_sound_other [OF sound1 _ p(2)]) (simp add: idem_fail_def set_cell)
      with sound1 have "marks_sound cell pre s' d" by (simp add: r(3))
      with r show ?thesis by auto
    next
      case ok: (Inr y)
      obtain ans d2 where y: "y = (ans, d2)" by (cases y)
      from run x Inr ok y have r: "res = Inr ans" "d' = d2"
        "s' = (if use \<and> \<not> complete_raises fs then idem_complete R now ttl ?key s1 else s1)"
        by (auto simp: receive_def Let_def)
      from receive_command_stores [OF ok [unfolded y]] have st: "set (inbox d) \<subseteq> set (inbox d2)"
        "stored (ic_tenant_id c) (ic_source c) (ic_message_id c) d2" by (simp_all add: command_of_def)
      note m = marks_sound_mono [OF sound1 st(1)]
      have "marks_sound cell pre s' d2"
        unfolding r(3) marks_sound_def
      proof (intro allI impI)
        fix ten src mid e assume ne: "ten \<noteq> []" "src \<noteq> []" "mid \<noteq> []"
          and e: "cell (if use \<and> \<not> complete_raises fs then idem_complete R now ttl ?key s1 else s1)
            (idempotency_name pre ten src mid) = Some (completed_mark, e)"
        show "stored ten src mid d2"
        proof (cases "idempotency_name pre ten src mid = ?key")
          case True
          with idempotency_name_inj [OF True] ne c st(2) show ?thesis by (simp add: identified_def)
        next
          case False
          with e have "cell s1 (idempotency_name pre ten src mid) = Some (completed_mark, e)"
            by (auto simp: idem_complete_def set_cell split: if_splits)
          with m ne show ?thesis unfolding marks_sound_def by blast
        qed
      qed
      with r st show ?thesis by auto
    qed
  qed
qed

end

text \<open>
  A history of the entrance: messages received with any clock and any faults of Redis, and between
  them any change of the database that keeps the inbox rows.
\<close>

type_synonym arrival = "bool \<times> faults \<times> time \<times> payload \<times> inbox_command"

fun receive_all ::
  "('s, 'z) redis_scheme \<Rightarrow> env \<Rightarrow> string \<Rightarrow> int \<Rightarrow> arrival list \<Rightarrow> 's \<times> db \<Rightarrow> 's \<times> db" where
  "receive_all R E pre ttl [] sd = sd"
| "receive_all R E pre ttl ((coordinated, fs, now, ctx, c) # as) sd =
     receive_all R E pre ttl as (snd (receive R E pre coordinated fs ttl now ctx c sd))"

text \<open>
  C27: the receiver never forgets a message. After any history of arrivals, with Redis working,
  failing or switched off at any moment, an answer without an error that does not say "in progress"
  means that the message is in the inbox, whether the answer came from the database or from a mark
  in Redis.
\<close>

theorem answered_is_stored:
  assumes "redis_strings R cell" and "\<forall>k. cell s k = None"
    and "\<forall>(coordinated, fs, now, ctx, c) \<in> set as. identified c" and "identified c"
    and "receive R E pre coordinated fs ttl now ctx c (receive_all R E pre ttl as (s, d)) = (Inr ans, s', d')"
    and "\<not> res_in_progress ans"
  shows "stored (ic_tenant_id c) (ic_source c) (ic_message_id c) d'"
proof -
  note keeps = redis_strings.receive_keeps [OF assms(1)]
  have inv: "marks_sound cell pre (fst (receive_all R E pre ttl as sd)) (snd (receive_all R E pre ttl as sd))"
    if "marks_sound cell pre (fst sd) (snd sd)" for sd
    using that assms(3)
  proof (induction as arbitrary: sd)
    case (Cons a as)
    obtain co fs now ctx c where a: "a = (co, fs, now, ctx, c)" by (cases a)
    obtain res s1 d1 where r: "receive R E pre co fs ttl now ctx c sd = (res, s1, d1)" by (metis prod.collapse)
    have "marks_sound cell pre s1 d1"
      using keeps [of pre "fst sd" "snd sd" c E co fs ttl now ctx res s1 d1] Cons.prems r by (simp add: a)
    with Cons.IH [of "(s1, d1)"] Cons.prems(2) show ?case by (simp add: a r)
  qed simp
  have "marks_sound cell pre s d" using assms(2) by (simp add: marks_sound_def)
  with inv [of "(s, d)"] have "marks_sound cell pre (fst (receive_all R E pre ttl as (s, d)))
      (snd (receive_all R E pre ttl as (s, d)))" by simp
  from keeps [OF this assms(4), of E coordinated fs ttl now ctx "Inr ans" s' d'] assms(5,6)
  show ?thesis by simp
qed

definition no_faults :: faults where
  "no_faults = \<lparr>begin_raises = False, complete_raises = False, fail_raises = False\<rparr>"

definition hello :: inbox_command where
  "hello = \<lparr>ic_source = ''feishu'', ic_message_id = ''m1'', ic_space_id = ''s'', ic_text = ''hi'',
     ic_task_type = ''ingest'', ic_task_payload = [], ic_event_id = None, ic_tenant_id = ''t'',
     ic_chat_id = None, ic_chat_type = None, ic_sender = [], ic_received_at = 0\<rparr>"

lemma answered_is_stored_witness:
  "stored ''t'' ''feishu'' ''m1'' (snd (snd (receive mem_redis env0 ''sxj:dev'' True no_faults 600 20 [] hello
     (receive_all mem_redis env0 ''sxj:dev'' 600 [(True, no_faults, 10, [], hello)] (mem_empty, empty_db)))))"
proof -
  let ?r = "receive mem_redis env0 ''sxj:dev'' True no_faults 600 20 [] hello
     (receive_all mem_redis env0 ''sxj:dev'' 600 [(True, no_faults, 10, [], hello)] (mem_empty, empty_db))"
  have a: "fst ?r = Inr (redis_answer ''redis-completed'' True False)" by code_simp
  have i: "identified hello" by code_simp
  from a have r: "?r = (Inr (redis_answer ''redis-completed'' True False), fst (snd ?r), snd (snd ?r))"
    by (simp add: prod_eq_iff)
  have "stored (ic_tenant_id hello) (ic_source hello) (ic_message_id hello) (snd (snd ?r))"
    by (rule answered_is_stored [OF mem.redis_strings_axioms _ _ i r]) (simp_all add: mem_empty_def i redis_answer_def)
  then show ?thesis by (simp add: hello_def)
qed

text \<open>
  The two idempotency stores differ: after a failure the Redis store lets the message be tried again
  at once, the in-process store refuses it until the mark has expired.
\<close>

lemma failed_marks_differ:
  "fst (idem_begin mem_redis 20 600 ''k'' (idem_fail mem_redis 10 600 ''k'' mem_empty)) = True \<and>
   fst (local_begin 20 600 ''k'' (local_fail 10 600 ''k'' (\<lambda>_. None))) = False"
  by code_simp

end
