(* ===== verification/Wal.thy ===== *)
theory Wal
  imports Tables
begin

text \<open>
  The write-ahead log of a local installation (\<open>core/wal.py\<close>) with the file names of
  \<open>core/file_lock.py\<close>. A log is a file per space, one JSON line per record; the state is the list of
  the files by their stem, in the order of their creation. Every operation holds the lock of its
  space from the first read to the last write, so it is one step. Space identifiers are ASCII.
\<close>

subsection \<open>File names\<close>

definition in_range :: "nat \<Rightarrow> nat \<Rightarrow> char \<Rightarrow> bool" where
  "in_range a b c \<longleftrightarrow> a \<le> (of_char c :: nat) \<and> (of_char c :: nat) \<le> b"

definition safe_char :: "char \<Rightarrow> bool" where
  "safe_char c \<longleftrightarrow> in_range 97 122 c \<or> in_range 65 90 c \<or> in_range 48 57 c \<or>
     c \<in> set ''_.-''"

definition safe_space_id :: "string \<Rightarrow> string" where
  "safe_space_id sid = map (\<lambda>c. if safe_char c then c else CHR ''_'') sid"

subsection \<open>Records\<close>

record wal_record =
  wr_id :: string
  wr_source :: string
  wr_event_id :: "string option"
  wr_message_id :: string
  wr_space_id :: string
  wr_chat_id :: "string option"
  wr_chat_type :: string
  wr_sender :: payload
  wr_ts :: time
  wr_text :: string
  wr_status :: string
  wr_sensitivity :: string

type_synonym wal = "(string \<times> wal_record list) list"

definition create_pending_record ::
  "string \<Rightarrow> time \<Rightarrow> string \<Rightarrow> string \<Rightarrow> string \<Rightarrow> string option \<Rightarrow> string option \<Rightarrow> string \<Rightarrow>
     payload \<Rightarrow> wal_record" where
  "create_pending_record uuid now mid sid txt eid chat ctype sender =
     \<lparr>wr_id = uuid, wr_source = ''feishu'', wr_event_id = eid, wr_message_id = mid,
      wr_space_id = sid, wr_chat_id = chat, wr_chat_type = ctype, wr_sender = sender,
      wr_ts = now, wr_text = txt, wr_status = ''pending'', wr_sensitivity = ''normal''\<rparr>"

definition create_blocked_sensitive_record ::
  "string \<Rightarrow> time \<Rightarrow> string \<Rightarrow> string \<Rightarrow> string \<Rightarrow> string option \<Rightarrow> string option \<Rightarrow> string \<Rightarrow>
     payload \<Rightarrow> wal_record" where
  "create_blocked_sensitive_record uuid now mid sid category eid chat ctype sender =
     \<lparr>wr_id = uuid, wr_source = ''feishu'', wr_event_id = eid, wr_message_id = mid,
      wr_space_id = sid, wr_chat_id = chat, wr_chat_type = ctype, wr_sender = sender,
      wr_ts = now, wr_text = redacted_text, wr_status = ''blocked_sensitive'',
      wr_sensitivity = (if category = [] then ''sensitive'' else category)\<rparr>"

subsection \<open>Operations\<close>

definition wal_list_space_ids :: "wal \<Rightarrow> string list" where
  "wal_list_space_ids W = sort (map fst W)"

definition wal_load_records :: "string \<Rightarrow> wal \<Rightarrow> wal_record list" where
  "wal_load_records sid W =
     (case map_of W (safe_space_id sid) of None \<Rightarrow> [] | Some rs \<Rightarrow> rs)"

definition wal_write :: "string \<Rightarrow> wal_record list \<Rightarrow> wal \<Rightarrow> wal" where
  "wal_write sid rs W = AList.update (safe_space_id sid) rs W"

definition wal_append_record :: "wal_record \<Rightarrow> wal \<Rightarrow> wal" where
  "wal_append_record r W =
     wal_write (wr_space_id r) (wal_load_records (wr_space_id r) W @ [r]) W"

definition wal_message_exists :: "string \<Rightarrow> string \<Rightarrow> wal \<Rightarrow> bool" where
  "wal_message_exists sid mid W \<longleftrightarrow>
     list_ex (\<lambda>r. wr_message_id r = mid) (wal_load_records sid W)"

definition wal_append_message_once :: "wal_record \<Rightarrow> wal \<Rightarrow> bool \<times> wal" where
  "wal_append_message_once r W =
     (if wal_message_exists (wr_space_id r) (wr_message_id r) W then (False, W)
      else (True, wal_append_record r W))"

definition wal_load_pending_records :: "string \<Rightarrow> wal \<Rightarrow> wal_record list" where
  "wal_load_pending_records sid W =
     filter (\<lambda>r. wr_status r = ''pending'') (wal_load_records sid W)"

definition wal_mark_processed :: "string \<Rightarrow> string \<Rightarrow> wal \<Rightarrow> wal" where
  "wal_mark_processed sid rid W =
     wal_write sid (upd_where (\<lambda>r. wr_id r = rid) (\<lambda>r. r\<lparr>wr_status := ''processed''\<rparr>)
       (wal_load_records sid W)) W"

definition wal_mark_sensitive_blocked :: "string \<Rightarrow> string \<Rightarrow> string \<Rightarrow> bool \<Rightarrow> wal \<Rightarrow> wal" where
  "wal_mark_sensitive_blocked sid rid category preserve_pending W =
     wal_write sid (upd_where (\<lambda>r. wr_id r = rid)
       (\<lambda>r. r\<lparr>wr_text := redacted_text,
              wr_status := (if preserve_pending then ''pending'' else ''blocked_sensitive''),
              wr_sensitivity := (if category = [] then ''sensitive'' else category)\<rparr>)
       (wal_load_records sid W)) W"

subsection \<open>Reading what was written\<close>

lemma safe_space_id_idem [simp]: "safe_space_id (safe_space_id sid) = safe_space_id sid"
  by (simp add: safe_space_id_def safe_char_def)

lemma safe_space_id_safe: "list_all safe_char sid \<Longrightarrow> safe_space_id sid = sid"
  by (simp add: safe_space_id_def list_all_iff map_idI)

lemma wal_load_write [simp]:
  "wal_load_records s (wal_write sid rs W) =
     (if safe_space_id s = safe_space_id sid then rs else wal_load_records s W)"
  by (simp add: wal_load_records_def wal_write_def update_conv')

lemma wal_load_append [simp]:
  "wal_load_records s (wal_append_record r W) =
     (if safe_space_id s = safe_space_id (wr_space_id r)
      then wal_load_records s W @ [r] else wal_load_records s W)"
  by (simp add: wal_append_record_def) (simp add: wal_load_records_def)

lemma wal_load_mark [simp]:
  "wal_load_records s (wal_mark_processed sid rid W) =
     (if safe_space_id s = safe_space_id sid
      then upd_where (\<lambda>r. wr_id r = rid) (\<lambda>r. r\<lparr>wr_status := ''processed''\<rparr>) (wal_load_records s W)
      else wal_load_records s W)"
  by (simp add: wal_mark_processed_def) (simp add: wal_load_records_def)

lemma wal_load_block [simp]:
  "wal_load_records s (wal_mark_sensitive_blocked sid rid cat keep W) =
     (if safe_space_id s = safe_space_id sid
      then upd_where (\<lambda>r. wr_id r = rid)
        (\<lambda>r. r\<lparr>wr_text := redacted_text,
               wr_status := (if keep then ''pending'' else ''blocked_sensitive''),
               wr_sensitivity := (if cat = [] then ''sensitive'' else cat)\<rparr>) (wal_load_records s W)
      else wal_load_records s W)"
  by (simp add: wal_mark_sensitive_blocked_def) (simp add: wal_load_records_def)

end
