(* ===== verification/Notes.thy ===== *)
theory Notes
  imports Wal
begin

text \<open>
  The notes of a local installation (\<open>storage/note_storage.py\<close>): an index file per space, which is
  rewritten by every change, and the readable archive to which every saved note is appended once
  (its Markdown layout and its division into days are not modelled). \<open>assess\<close> stands for the
  regular expressions of \<open>core/sensitive.py\<close>.
\<close>

record note_meta =
  nm_id :: string
  nm_message_id :: string
  nm_space_id :: string
  nm_ts :: time
  nm_title :: string
  nm_tags :: "string list"
  nm_type :: string
  nm_summary :: string
  nm_text :: string
  nm_related :: "string list"
  nm_enrichment_status :: string
  nm_enrichment_attempts :: int
  nm_enrichment_error :: "string option"
  nm_enrichment_started_at :: "time option"
  nm_enrichment_updated_at :: "time option"
  nm_sensitivity :: string
  nm_tenant_id :: string

record note_store =
  note_index :: "(string \<times> note_meta list) list"
  archive :: "(string \<times> note_meta) list"

record assessment =
  is_sensitive :: bool
  category :: "string option"
  blocks_storage :: bool

definition load_index :: "string \<Rightarrow> note_store \<Rightarrow> note_meta list" where
  "load_index sid N = (case map_of (note_index N) (safe_space_id sid) of None \<Rightarrow> [] | Some ns \<Rightarrow> ns)"

definition save_index :: "string \<Rightarrow> note_meta list \<Rightarrow> note_store \<Rightarrow> note_store" where
  "save_index sid items N =
     N\<lparr>note_index := AList.update (safe_space_id sid) items (note_index N)\<rparr>"

definition is_note_queryable :: "(string \<Rightarrow> assessment) \<Rightarrow> note_meta \<Rightarrow> bool" where
  "is_note_queryable assess n \<longleftrightarrow>
     py_lower (if nm_sensitivity n = [] then ''normal'' else nm_sensitivity n)
       \<in> {'''', ''normal'', ''none''} \<and>
     \<not> is_sensitive (assess (nm_text n))"

definition load_queryable_index :: "(string \<Rightarrow> assessment) \<Rightarrow> string \<Rightarrow> note_store \<Rightarrow> note_meta list" where
  "load_queryable_index assess sid N = filter (is_note_queryable assess) (load_index sid N)"

definition local_find_note :: "string \<Rightarrow> string \<Rightarrow> note_store \<Rightarrow> note_meta option" where
  "local_find_note sid nid N = find (\<lambda>n. nm_id n = nid) (load_index sid N)"

text \<open>The loop that updates the first match and then leaves.\<close>

fun update_first :: "('a \<Rightarrow> bool) \<Rightarrow> ('a \<Rightarrow> 'a) \<Rightarrow> 'a list \<Rightarrow> 'a option \<times> 'a list" where
  "update_first P f [] = (None, [])"
| "update_first P f (x # xs) =
     (if P x then (Some (f x), f x # xs)
      else let (u, ys) = update_first P f xs in (u, x # ys))"

definition update_note_metadata ::
  "string \<Rightarrow> string \<Rightarrow> (note_meta \<Rightarrow> note_meta) \<Rightarrow> note_store \<Rightarrow> note_meta option \<times> note_store" where
  "update_note_metadata sid nid updates N =
     (let (updated, items) = update_first (\<lambda>n. nm_id n = nid) updates (load_index sid N)
      in (updated, if updated = None then N else save_index sid items N))"

definition wants_enrichment :: "(string \<Rightarrow> assessment) \<Rightarrow> int \<Rightarrow> note_meta \<Rightarrow> bool" where
  "wants_enrichment assess max_tries n \<longleftrightarrow>
     (if nm_enrichment_status n = [] then ''ready'' else nm_enrichment_status n)
       \<in> {''provisional'', ''enriching'', ''failed''} \<and>
     nm_enrichment_attempts n < max_tries \<and> is_note_queryable assess n \<and> nm_id n \<noteq> []"

text \<open>The search stops at the limit: a prefix of all matches, space by space.\<close>

definition list_pending_enrichments ::
  "(string \<Rightarrow> assessment) \<Rightarrow> int \<Rightarrow> int \<Rightarrow> note_store \<Rightarrow> (string \<times> string) list" where
  "list_pending_enrichments assess limit max_tries N =
     take (nat (max 1 limit))
       (concat (map (\<lambda>d. filter (\<lambda>(sid, nid). sid \<noteq> [])
           (map (\<lambda>n. (if nm_space_id n = [] then d else nm_space_id n, nm_id n))
             (filter (wants_enrichment assess max_tries) (load_index d N))))
         (sort (map fst (note_index N)))))"

definition note_exists :: "string \<Rightarrow> string \<Rightarrow> note_store \<Rightarrow> bool" where
  "note_exists sid mid N \<longleftrightarrow> list_ex (\<lambda>n. nm_message_id n = mid) (load_index sid N)"

definition append_markdown_note :: "note_meta \<Rightarrow> note_store \<Rightarrow> note_store" where
  "append_markdown_note n N = N\<lparr>archive := archive N @ [(safe_space_id (nm_space_id n), n)]\<rparr>"

definition append_index :: "note_meta \<Rightarrow> note_store \<Rightarrow> note_store" where
  "append_index n N = save_index (nm_space_id n) (load_index (nm_space_id n) N @ [n]) N"

definition save_note :: "note_meta \<Rightarrow> note_store \<Rightarrow> note_store" where
  "save_note n N =
     (if note_exists (nm_space_id n) (nm_message_id n) N then N
      else append_index n (append_markdown_note n N))"

subsection \<open>Reading what was written\<close>

lemma load_save_index [simp]:
  "load_index s (save_index sid items N) =
     (if safe_space_id s = safe_space_id sid then items else load_index s N)"
  by (simp add: load_index_def save_index_def update_conv')

lemma load_index_markdown [simp]: "load_index s (append_markdown_note n N) = load_index s N"
  by (simp add: load_index_def append_markdown_note_def)

lemma load_same_file: "safe_space_id s = safe_space_id t \<Longrightarrow> load_index s N = load_index t N"
  by (simp add: load_index_def)

lemma load_save_note:
  "load_index s (save_note n N) =
     (if safe_space_id s = safe_space_id (nm_space_id n) \<and>
         \<not> note_exists (nm_space_id n) (nm_message_id n) N
      then load_index s N @ [n] else load_index s N)"
  using load_same_file [of s "nm_space_id n" N] by (simp add: save_note_def append_index_def)

lemma update_first_map:
  "(\<And>x. P x \<Longrightarrow> k (f x) = k x) \<Longrightarrow> map k (snd (update_first P f xs)) = map k xs"
  by (induction xs) (auto split: prod.splits)

lemma update_first_mem: "y \<in> set (snd (update_first P f xs)) \<Longrightarrow> y \<in> set xs \<or> (\<exists>x \<in> set xs. P x \<and> y = f x)"
  by (induction xs) (auto split: prod.splits if_splits)

lemma update_first_none: "fst (update_first P f xs) = None \<Longrightarrow> snd (update_first P f xs) = xs"
  by (induction xs) (auto split: prod.splits if_splits)

lemma load_update_metadata:
  "load_index s (snd (update_note_metadata sid nid f N)) =
     (if safe_space_id s = safe_space_id sid
      then snd (update_first (\<lambda>n. nm_id n = nid) f (load_index s N)) else load_index s N)"
proof -
  obtain u items where u: "update_first (\<lambda>n. nm_id n = nid) f (load_index sid N) = (u, items)" by fastforce
  have "u = None \<Longrightarrow> items = load_index sid N" using update_first_none [of "\<lambda>n. nm_id n = nid" f "load_index sid N"] u by simp
  with u load_same_file [of s sid N] show ?thesis by (auto simp: update_note_metadata_def)
qed

end
