(* ===== verification/Local_Worker.thy ===== *)
theory Local_Worker
  imports Notes
begin

text \<open>
  The worker of a local installation (\<open>core/worker.py\<close>): it turns pending records of the write-ahead
  log into notes, hands them to the memory extraction and enriches them in the background.

  Language models, embeddings, the vector store and the memory subsystem are parameters: the
  fields of \<open>local_services\<close>, on a state of their own (\<open>world_of\<close>). Errors of the disk are not
  modelled; a crash is any prefix of the writes, which are in the order of the source.
\<close>

record classification =
  cl_title :: string
  cl_tags :: "string list"
  cl_type :: string
  cl_summary :: string

record 'm local_services =
  assess :: "string \<Rightarrow> assessment"
  classify_text_local :: "string \<Rightarrow> classification"
  note_memory :: "note_meta \<Rightarrow> classification option \<Rightarrow> 'm \<Rightarrow> (string + unit) \<times> 'm"
  extraction_status :: "'m \<Rightarrow> string \<Rightarrow> string option"
  vector_item_exists :: "'m \<Rightarrow> string \<Rightarrow> string \<Rightarrow> string \<Rightarrow> bool"
  enrichment_calls :: "note_meta \<Rightarrow> 'm \<Rightarrow> (string + classification \<times> string list) \<times> 'm"

record 'm local_state =
  wal_of :: wal
  notes_of :: note_store
  world_of :: 'm

definition find_note_by_message_id :: "string \<Rightarrow> string \<Rightarrow> note_store \<Rightarrow> note_meta option" where
  "find_note_by_message_id sid mid N = find (\<lambda>n. nm_message_id n = mid) (load_index sid N)"

definition provisional_note :: "classification \<Rightarrow> wal_record \<Rightarrow> note_meta" where
  "provisional_note c r =
     \<lparr>nm_id = wr_id r, nm_message_id = wr_message_id r, nm_space_id = wr_space_id r,
      nm_ts = wr_ts r, nm_title = cl_title c, nm_tags = cl_tags c, nm_type = cl_type c,
      nm_summary = cl_summary c, nm_text = wr_text r, nm_related = [],
      nm_enrichment_status = ''provisional'', nm_enrichment_attempts = 0,
      nm_enrichment_error = None, nm_enrichment_started_at = None,
      nm_enrichment_updated_at = None, nm_sensitivity = ''normal'', nm_tenant_id = ''default''\<rparr>"

definition remember ::
  "'m local_services \<Rightarrow> note_meta \<Rightarrow> classification option \<Rightarrow> 'm local_state \<Rightarrow> 'm local_state" where
  "remember L n c st = st\<lparr>world_of := snd (note_memory L n c (world_of st))\<rparr>"

definition unless_deferred :: "bool \<Rightarrow> wal_record \<Rightarrow> 'm local_state \<Rightarrow> 'm local_state" where
  "unless_deferred defer_wal r st =
     (if defer_wal then st
      else st\<lparr>wal_of := wal_mark_processed (wr_space_id r) (wr_id r) (wal_of st)\<rparr>)"

text \<open>The branch for a note that is there already: only an unfinished extraction is repeated.\<close>

definition recover_memory ::
  "'m local_services \<Rightarrow> note_meta option \<Rightarrow> 'm local_state \<Rightarrow> 'm local_state" where
  "recover_memory L note st =
     (case note of
        None \<Rightarrow> st
      | Some n \<Rightarrow>
        if is_note_queryable (assess L) n \<and>
           (case (if nm_id n = [] then None else extraction_status L (world_of st) (nm_id n)) of
              None \<Rightarrow> True | Some x \<Rightarrow> x \<in> {''pending'', ''failed'', ''partial''})
        then remember L n None st else st)"

definition process_record ::
  "'m local_services \<Rightarrow> bool \<Rightarrow> bool \<Rightarrow> wal_record \<Rightarrow> 'm local_state \<Rightarrow>
     note_meta option \<times> 'm local_state" where
  "process_record L defer_memory defer_wal r st =
     (let sid = wr_space_id r; a = assess L (wr_text r) in
      if blocks_storage a then
        (None, st\<lparr>wal_of := wal_mark_sensitive_blocked sid (wr_id r)
           (case category a of None \<Rightarrow> ''sensitive'' | Some c \<Rightarrow> if c = [] then ''sensitive'' else c)
           defer_wal (wal_of st)\<rparr>)
      else if note_exists sid (wr_message_id r) (notes_of st) then
        (let note = find_note_by_message_id sid (wr_message_id r) (notes_of st) in
         (note, unless_deferred defer_wal r (if defer_memory then st else recover_memory L note st)))
      else
        (let c = classify_text_local L (wr_text r);
             note = provisional_note c r;
             st1 = st\<lparr>notes_of := save_note note (notes_of st)\<rparr>;
             st2 = (if defer_memory then st1 else remember L note (Some c) st1)
         in (Some note, unless_deferred defer_wal r st2)))"

text \<open>
  The loop of \<open>process_pending\<close>: a second record of the same message in the batch is marked
  without being looked at. An empty message identifier is never remembered.
\<close>

fun process_batch ::
  "'m local_services \<Rightarrow> string \<Rightarrow> wal_record list \<Rightarrow> string list \<Rightarrow> 'm local_state \<Rightarrow>
     nat \<times> 'm local_state" where
  "process_batch L sid [] seen st = (0, st)"
| "process_batch L sid (r # rs) seen st =
     (if wr_message_id r \<in> set seen then
        (if wr_id r = [] then process_batch L sid rs seen st
         else let (n, st') = process_batch L sid rs seen
                (st\<lparr>wal_of := wal_mark_processed sid (wr_id r) (wal_of st)\<rparr>) in (n + 1, st'))
      else
        let seen' = (if wr_message_id r = [] then seen else wr_message_id r # seen);
            (n, st') = process_batch L sid rs seen' (snd (process_record L False False r st))
        in (n + 1, st'))"

definition process_pending :: "'m local_services \<Rightarrow> string \<Rightarrow> 'm local_state \<Rightarrow> nat \<times> 'm local_state" where
  "process_pending L sid st = process_batch L sid (wal_load_pending_records sid (wal_of st)) [] st"

subsection \<open>Enrichment\<close>

definition enriching :: "time \<Rightarrow> int \<Rightarrow> note_meta \<Rightarrow> note_meta" where
  "enriching now tries n = n\<lparr>nm_enrichment_status := ''enriching'', nm_enrichment_attempts := tries,
     nm_enrichment_error := None, nm_enrichment_started_at := Some now,
     nm_enrichment_updated_at := Some now\<rparr>"

definition enriched :: "time \<Rightarrow> classification \<Rightarrow> string list \<Rightarrow> note_meta \<Rightarrow> note_meta" where
  "enriched now c related n = n\<lparr>nm_title := cl_title c, nm_tags := cl_tags c, nm_type := cl_type c,
     nm_summary := cl_summary c, nm_related := related, nm_enrichment_status := ''ready'',
     nm_enrichment_error := None, nm_enrichment_updated_at := Some now\<rparr>"

definition enrichment_failed :: "time \<Rightarrow> note_meta \<Rightarrow> note_meta" where
  "enrichment_failed now n = n\<lparr>nm_enrichment_status := ''failed'',
     nm_enrichment_error := Some ''background_enrichment_failed'',
     nm_enrichment_updated_at := Some now\<rparr>"

definition enrich_local_note ::
  "'m local_services \<Rightarrow> int \<Rightarrow> time \<Rightarrow> time \<Rightarrow> string \<Rightarrow> string \<Rightarrow> 'm local_state \<Rightarrow>
     (string + bool) \<times> 'm local_state" where
  "enrich_local_note L max_tries now now' sid nid st =
     (case local_find_note sid nid (notes_of st) of
        None \<Rightarrow> (Inr False, st)
      | Some n \<Rightarrow>
        let status = (if nm_enrichment_status n = [] then ''ready'' else nm_enrichment_status n);
            tries = nm_enrichment_attempts n
        in if \<not> is_note_queryable (assess L) n then (Inr False, st)
           else if status = ''ready'' \<and>
             vector_item_exists L (world_of st) sid nid (nm_message_id n) then (Inr False, st)
           else if status \<in> {''failed'', ''enriching''} \<and> tries \<ge> max_tries then (Inr False, st)
           else
             (let N1 = snd (update_note_metadata sid nid (enriching now (tries + 1)) (notes_of st));
                  (res, w) = enrichment_calls L n (world_of st);
                  done_update = (case res of Inl _ \<Rightarrow> enrichment_failed now'
                    | Inr (c, related) \<Rightarrow> enriched now' c related)
              in (case res of Inl err \<Rightarrow> Inl err | Inr _ \<Rightarrow> Inr True,
                  st\<lparr>notes_of := snd (update_note_metadata sid nid done_update N1), world_of := w\<rparr>)))"

end
