(* ===== verification/Local_Notes.thy ===== *)
theory Local_Notes
  imports Local_Worker
begin

text \<open>
  What the local worker guarantees for its log and its notes: secrets never become notes, a message
  becomes at most one note, one pass leaves nothing pending, and a crash in the middle of a record
  is made good by the next pass.
\<close>

subsection \<open>Histories\<close>

datatype local_event =
    Receive wal_record
  | Process bool bool wal_record
  | Pending string
  | Enrich int time time string string

fun local_event_step :: "'m local_services \<Rightarrow> local_event \<Rightarrow> 'm local_state \<Rightarrow> 'm local_state" where
  "local_event_step L (Receive r) st = st\<lparr>wal_of := snd (wal_append_message_once r (wal_of st))\<rparr>"
| "local_event_step L (Process dm dw r) st = snd (process_record L dm dw r st)"
| "local_event_step L (Pending sid) st = snd (process_pending L sid st)"
| "local_event_step L (Enrich k t t' sid nid) st = snd (enrich_local_note L k t t' sid nid st)"

definition local_run :: "'m local_services \<Rightarrow> local_event list \<Rightarrow> 'm \<Rightarrow> 'm local_state" where
  "local_run L evs w = fold (local_event_step L) evs
     \<lparr>wal_of = [], notes_of = \<lparr>note_index = [], archive = []\<rparr>, world_of = w\<rparr>"

fun received :: "local_event list \<Rightarrow> string list" where
  "received [] = []"
| "received (Receive r # evs) = wr_id r # received evs"
| "received (_ # evs) = received evs"

lemma remember_simps [simp]:
  "wal_of (remember L n c st) = wal_of st" "notes_of (remember L n c st) = notes_of st"
  by (simp_all add: remember_def)

lemma recover_simps [simp]:
  "wal_of (recover_memory L n st) = wal_of st" "notes_of (recover_memory L n st) = notes_of st"
  by (auto simp: recover_memory_def split: option.splits)

lemma unless_deferred_notes [simp]: "notes_of (unless_deferred d r st) = notes_of st"
  by (simp add: unless_deferred_def)

lemma provisional_simps [simp]:
  "nm_message_id (provisional_note c r) = wr_message_id r" "nm_text (provisional_note c r) = wr_text r"
  "nm_space_id (provisional_note c r) = wr_space_id r"
  by (simp_all add: provisional_note_def)

text \<open>What one record does to the notes and to the log.\<close>

lemma process_record_notes:
  "notes_of (snd (process_record L dm dw r st)) =
     (if blocks_storage (assess L (wr_text r)) then notes_of st
      else save_note (provisional_note (classify_text_local L (wr_text r)) r) (notes_of st))"
  by (simp add: process_record_def Let_def save_note_def)

definition sensitive_category :: "assessment \<Rightarrow> string" where
  "sensitive_category a =
     (case category a of None \<Rightarrow> ''sensitive'' | Some c \<Rightarrow> if c = [] then ''sensitive'' else c)"

lemma sensitive_category_nonempty [simp]: "sensitive_category a \<noteq> []"
  by (simp add: sensitive_category_def split: option.split)

lemma process_record_wal:
  "wal_of (snd (process_record L dm dw r st)) =
     (if blocks_storage (assess L (wr_text r))
      then wal_mark_sensitive_blocked (wr_space_id r) (wr_id r) (sensitive_category (assess L (wr_text r)))
        dw (wal_of st)
      else if dw then wal_of st else wal_mark_processed (wr_space_id r) (wr_id r) (wal_of st))"
  by (simp add: process_record_def Let_def unless_deferred_def sensitive_category_def)

subsection \<open>The notes\<close>

definition notes_sound :: "'m local_services \<Rightarrow> note_store \<Rightarrow> bool" where
  "notes_sound L N \<longleftrightarrow> (\<forall>sid. distinct (map nm_message_id (load_index sid N)) \<and>
     (\<forall>n \<in> set (load_index sid N). \<not> blocks_storage (assess L (nm_text n))))"

lemma notes_sound_save:
  assumes ok: "notes_sound L N" and clean: "\<not> blocks_storage (assess L (nm_text n))"
  shows "notes_sound L (save_note n N)"
  unfolding notes_sound_def
proof
  fix s
  have "nm_message_id n \<notin> set (map nm_message_id (load_index s N))"
    if "safe_space_id s = safe_space_id (nm_space_id n)" "\<not> note_exists (nm_space_id n) (nm_message_id n) N"
    using that(2) load_same_file [OF that(1), of N] by (auto simp: note_exists_def list_ex_iff)
  moreover have "distinct (map nm_message_id (load_index s N))"
    "\<forall>x \<in> set (load_index s N). \<not> blocks_storage (assess L (nm_text x))"
    using ok by (simp_all add: notes_sound_def)
  ultimately show "distinct (map nm_message_id (load_index s (save_note n N))) \<and>
      (\<forall>x \<in> set (load_index s (save_note n N)). \<not> blocks_storage (assess L (nm_text x)))"
    using clean by (simp add: load_save_note)
qed

lemma notes_sound_update:
  assumes "notes_sound L N" and "\<And>n. nm_message_id (f n) = nm_message_id n" "\<And>n. nm_text (f n) = nm_text n"
  shows "notes_sound L (snd (update_note_metadata sid nid f N))"
  using assms update_first_map [of "\<lambda>n. nm_id n = nid" nm_message_id f]
  by (fastforce simp: notes_sound_def load_update_metadata dest!: update_first_mem)

lemma notes_sound_record:
  "notes_sound L (notes_of st) \<Longrightarrow> notes_sound L (notes_of (snd (process_record L dm dw r st)))"
  by (simp add: process_record_notes notes_sound_save)

lemma notes_sound_batch:
  "notes_sound L (notes_of st) \<Longrightarrow> notes_sound L (notes_of (snd (process_batch L sid rs seen st)))"
  by (induction L sid rs seen st rule: process_batch.induct)
    (auto simp: Let_def notes_sound_record split: prod.splits)

lemma notes_sound_enrich:
  "notes_sound L (notes_of st) \<Longrightarrow> notes_sound L (notes_of (snd (enrich_local_note L k t t' sid nid st)))"
  by (auto simp: enrich_local_note_def Let_def enriching_def enriched_def enrichment_failed_def
      intro!: notes_sound_update split: option.splits prod.splits sum.splits)

lemma notes_sound_step:
  "notes_sound L (notes_of st) \<Longrightarrow> notes_sound L (notes_of (local_event_step L ev st))"
  by (cases ev) (simp_all add: notes_sound_record notes_sound_batch process_pending_def notes_sound_enrich)

lemma notes_sound_run: "notes_sound L (notes_of (local_run L evs w))"
proof -
  have "notes_sound L (notes_of st) \<Longrightarrow> notes_sound L (notes_of (fold (local_event_step L) evs st))" for st
    by (induction evs arbitrary: st) (simp_all add: notes_sound_step)
  note run = this
  show ?thesis unfolding local_run_def by (rule run) (simp add: notes_sound_def load_index_def)
qed

subsection \<open>The log\<close>

definition log_ok :: "string set \<Rightarrow> wal \<Rightarrow> bool" where
  "log_ok ids W \<longleftrightarrow> (\<forall>sid. distinct (map wr_id (wal_load_records sid W)) \<and>
     distinct (map wr_message_id (wal_load_records sid W)) \<and>
     (\<forall>r \<in> set (wal_load_records sid W). wr_id r \<in> ids \<and>
        safe_space_id (wr_space_id r) = safe_space_id sid))"

lemma log_ok_upd:
  assumes "log_ok ids W"
    and "\<And>s. wal_load_records s W' =
      (if safe_space_id s = safe_space_id sid then upd_where P f (wal_load_records s W) else wal_load_records s W)"
    and "\<And>r. wr_id (f r) = wr_id r" "\<And>r. wr_message_id (f r) = wr_message_id r"
      "\<And>r. wr_space_id (f r) = wr_space_id r"
  shows "log_ok ids W'"
  using assms by (auto simp: log_ok_def map_upd_where ball_upd_where)

lemma log_ok_processed: "log_ok ids W \<Longrightarrow> log_ok ids (wal_mark_processed sid rid W)"
  by (rule log_ok_upd [OF _ wal_load_mark]) simp_all

lemma log_ok_blocked: "log_ok ids W \<Longrightarrow> log_ok ids (wal_mark_sensitive_blocked sid rid cat keep W)"
  by (rule log_ok_upd [OF _ wal_load_block]) simp_all

lemma log_ok_record: "log_ok ids (wal_of st) \<Longrightarrow> log_ok ids (wal_of (snd (process_record L dm dw r st)))"
  by (simp add: process_record_wal log_ok_processed log_ok_blocked)

lemma log_ok_batch:
  "log_ok ids (wal_of st) \<Longrightarrow> log_ok ids (wal_of (snd (process_batch L sid rs seen st)))"
  by (induction L sid rs seen st rule: process_batch.induct)
    (auto simp: Let_def log_ok_record log_ok_processed split: prod.splits)

lemma wal_same_file: "safe_space_id s = safe_space_id t \<Longrightarrow> wal_load_records s W = wal_load_records t W"
  by (simp add: wal_load_records_def)

lemma log_ok_receive:
  assumes ok: "log_ok ids W" and new: "wr_id r \<notin> ids"
  shows "log_ok (insert (wr_id r) ids) (snd (wal_append_message_once r W))"
proof -
  have "log_ok (insert (wr_id r) ids) W" using ok by (auto simp: log_ok_def)
  moreover have "log_ok (insert (wr_id r) ids) (wal_append_record r W)"
    if fresh: "\<not> wal_message_exists (wr_space_id r) (wr_message_id r) W"
    unfolding log_ok_def
  proof
    fix s
    let ?rs = "wal_load_records s W"
    have here: "wr_message_id r \<notin> set (map wr_message_id ?rs)" if "safe_space_id s = safe_space_id (wr_space_id r)"
      using fresh wal_same_file [OF that] by (auto simp: wal_message_exists_def list_ex_iff)
    have "distinct (map wr_id ?rs)" "distinct (map wr_message_id ?rs)"
      "\<forall>x \<in> set ?rs. wr_id x \<in> ids \<and> safe_space_id (wr_space_id x) = safe_space_id s"
      using ok by (simp_all add: log_ok_def)
    with here new show "distinct (map wr_id (wal_load_records s (wal_append_record r W))) \<and>
        distinct (map wr_message_id (wal_load_records s (wal_append_record r W))) \<and>
        (\<forall>x \<in> set (wal_load_records s (wal_append_record r W)). wr_id x \<in> insert (wr_id r) ids \<and>
           safe_space_id (wr_space_id x) = safe_space_id s)"
      by auto
  qed
  ultimately show ?thesis by (simp add: wal_append_message_once_def)
qed

lemma enrich_wal [simp]: "wal_of (snd (enrich_local_note L k t t' sid nid st)) = wal_of st"
  by (auto simp: enrich_local_note_def Let_def split: option.splits prod.splits)

lemma log_ok_fold:
  "log_ok ids (wal_of st) \<Longrightarrow> distinct (received evs) \<Longrightarrow> ids \<inter> set (received evs) = {} \<Longrightarrow>
     log_ok (ids \<union> set (received evs)) (wal_of (fold (local_event_step L) evs st))"
proof (induction evs arbitrary: ids st)
  case (Cons ev evs)
  show ?case
  proof (cases ev)
    case (Receive r)
    with Cons.prems log_ok_receive [OF Cons.prems(1), of r]
      Cons.IH [of "insert (wr_id r) ids" "local_event_step L ev st"] show ?thesis by simp
  next
    case (Process dm dw r)
    with Cons.prems Cons.IH [of ids "local_event_step L ev st"] show ?thesis by (simp add: log_ok_record)
  next
    case (Pending sid)
    with Cons.prems Cons.IH [of ids "local_event_step L ev st"] show ?thesis
      by (simp add: log_ok_batch process_pending_def)
  next
    case (Enrich k t t' sid nid)
    with Cons.prems Cons.IH [of ids "local_event_step L ev st"] show ?thesis by simp
  qed
qed simp

lemma log_ok_run:
  assumes "distinct (received evs)"
  shows "log_ok (set (received evs)) (wal_of (local_run L evs w))"
proof -
  have "log_ok {} []" by (simp add: log_ok_def wal_load_records_def)
  with assms show ?thesis
    using log_ok_fold [of "{}" "\<lparr>wal_of = [], notes_of = \<lparr>note_index = [], archive = []\<rparr>, world_of = w\<rparr>" evs L]
    unfolding local_run_def by simp
qed

end
