(* ===== verification/Local_Guarantees.thy ===== *)
theory Local_Guarantees
  imports Local_Notes
begin

text \<open>
  The properties of the local worker: what reaches the notes, what a pass over the log leaves
  behind, and recovery after a crash.
\<close>

text \<open>
  C28: secrets never become notes, and no message becomes two notes. After any history of received
  messages, processed records (in any order, repeated, deferred or not), passes over the log and
  enrichments, no note of any space holds a text that the sensitivity check blocks, and the notes
  of a space come from different messages.
\<close>

theorem notes_hold_no_secrets:
  "list_all (\<lambda>n. \<not> blocks_storage (assess L (nm_text n))) (load_index sid (notes_of (local_run L evs w))) \<and>
   distinct (map nm_message_id (load_index sid (notes_of (local_run L evs w))))"
  using notes_sound_run [of L evs w] by (simp add: notes_sound_def list_all_iff)

subsection \<open>One pass over the log\<close>

definition settled_record :: "assessment \<Rightarrow> wal_record \<Rightarrow> wal_record" where
  "settled_record a r =
     (if blocks_storage a
      then r\<lparr>wr_text := redacted_text, wr_status := ''blocked_sensitive'',
             wr_sensitivity := sensitive_category a\<rparr>
      else r\<lparr>wr_status := ''processed''\<rparr>)"

lemma settled_record_id [simp]: "wr_id (settled_record a r) = wr_id r"
  by (simp add: settled_record_def)

lemma process_record_file:
  "safe_space_id (wr_space_id r) = safe_space_id sid \<Longrightarrow>
     wal_load_records sid (wal_of (snd (process_record L False False r st))) =
       upd_where (\<lambda>x. wr_id x = wr_id r) (settled_record (assess L (wr_text r)))
         (wal_load_records sid (wal_of st))"
  by (simp add: process_record_wal settled_record_def [abs_def])

lemma note_exists_save: "note_exists sid mid N \<Longrightarrow> note_exists sid mid (save_note n N)"
  by (simp add: note_exists_def load_save_note)

lemma note_exists_saved:
  assumes "safe_space_id (nm_space_id n) = safe_space_id sid"
  shows "note_exists sid (nm_message_id n) (save_note n N)"
  using load_same_file [OF assms, of N] assms by (auto simp: note_exists_def load_save_note)

lemma note_exists_batch:
  "note_exists s mid (notes_of st) \<Longrightarrow> note_exists s mid (notes_of (snd (process_batch L sid rs seen st)))"
  by (induction L sid rs seen st rule: process_batch.induct)
    (auto simp: Let_def process_record_notes note_exists_save split: prod.splits)

definition settle_by :: "'m local_services \<Rightarrow> wal_record list \<Rightarrow> wal_record \<Rightarrow> wal_record" where
  "settle_by L rs x = (case find (\<lambda>r. wr_id r = wr_id x) rs of
     None \<Rightarrow> x | Some r \<Rightarrow> settled_record (assess L (wr_text r)) x)"

lemma settle_by_Cons:
  assumes "wr_id r \<notin> set (map wr_id rs)"
  shows "map (settle_by L rs) (upd_where (\<lambda>x. wr_id x = wr_id r) (settled_record (assess L (wr_text r))) xs) =
    map (settle_by L (r # rs)) xs"
proof -
  have "find (\<lambda>x. wr_id x = wr_id r) rs = None" using assms unfolding find_None_iff by (metis image_eqI set_map)
  then show ?thesis by (induction xs) (auto simp: settle_by_def)
qed

lemma process_batch_effect:
  assumes "distinct (map wr_id rs)" "distinct (map wr_message_id rs)"
    and "list_all (\<lambda>r. wr_message_id r \<notin> set seen \<and> safe_space_id (wr_space_id r) = safe_space_id sid) rs"
  shows "fst (process_batch L sid rs seen st) = length rs \<and>
    wal_load_records sid (wal_of (snd (process_batch L sid rs seen st))) =
      map (settle_by L rs) (wal_load_records sid (wal_of st)) \<and>
    list_all (\<lambda>r. blocks_storage (assess L (wr_text r)) \<or>
      note_exists sid (wr_message_id r) (notes_of (snd (process_batch L sid rs seen st)))) rs"
  using assms
proof (induction rs arbitrary: seen st)
  case Nil
  show ?case by (simp add: settle_by_def map_idI)
next
  case (Cons r rs)
  let ?seen = "if wr_message_id r = [] then seen else wr_message_id r # seen"
  let ?st = "snd (process_record L False False r st)"
  have "list_all (\<lambda>r. wr_message_id r \<notin> set ?seen \<and> safe_space_id (wr_space_id r) = safe_space_id sid) rs"
    using Cons.prems by (auto simp: list_all_iff) (metis image_eqI)
  note IH = Cons.IH [OF _ _ this, of ?st]
  have "blocks_storage (assess L (wr_text r)) \<or> note_exists sid (wr_message_id r) (notes_of ?st)"
    using note_exists_saved [of "provisional_note (classify_text_local L (wr_text r)) r" sid] Cons.prems(3)
    by (simp add: process_record_notes)
  then have "blocks_storage (assess L (wr_text r)) \<or>
      note_exists sid (wr_message_id r) (notes_of (snd (process_batch L sid rs ?seen ?st)))"
    using note_exists_batch by blast
  moreover have "wal_load_records sid (wal_of ?st) =
      upd_where (\<lambda>x. wr_id x = wr_id r) (settled_record (assess L (wr_text r))) (wal_load_records sid (wal_of st))"
    using Cons.prems(3) by (intro process_record_file) simp
  moreover have "process_batch L sid (r # rs) seen st =
      (length rs + 1, snd (process_batch L sid rs ?seen ?st))"
    using IH Cons.prems by (simp add: Let_def case_prod_beta)
  ultimately show ?case
    using IH Cons.prems settle_by_Cons [of r rs L "wal_load_records sid (wal_of st)"]
    by (simp del: process_batch.simps)
qed

lemma settle_by_pending:
  assumes "distinct (map wr_id xs)" "x \<in> set xs"
  shows "settle_by L (filter P xs) x = (if P x then settled_record (assess L (wr_text x)) x else x)"
proof (cases "find (\<lambda>r. wr_id r = wr_id x) (filter P xs)")
  case None
  then have "\<not> P x" using assms(2) unfolding find_None_iff by auto
  with None show ?thesis by (simp add: settle_by_def)
next
  case (Some r)
  from find_SomeD [OF this] have r: "r \<in> set xs" "P r" "wr_id r = wr_id x" by auto
  with assms have "r = x" by (meson eq_key_imp_eq_value distinct_map inj_onD)
  with Some r show ?thesis by (simp add: settle_by_def)
qed


definition local_demo :: "nat local_services" where
  "local_demo = \<lparr>assess = \<lambda>t. if t = ''token: abcd'' then \<lparr>is_sensitive = True, category = Some ''credential'', blocks_storage = True\<rparr>
       else \<lparr>is_sensitive = False, category = None, blocks_storage = False\<rparr>,
     classify_text_local = \<lambda>t. \<lparr>cl_title = t, cl_tags = [], cl_type = ''life'', cl_summary = t\<rparr>,
     note_memory = \<lambda>n c m. (Inr (), m + 1), extraction_status = \<lambda>m nid. None,
     vector_item_exists = \<lambda>m s n k. False,
     enrichment_calls = \<lambda>n m. (Inl ''TimeoutError: x'', m)\<rparr>"

definition record_a :: wal_record where
  "record_a = create_pending_record ''u1'' 0 ''m1'' ''p_1'' ''tea at four'' None None ''p2p'' []"

definition record_b :: wal_record where
  "record_b = create_pending_record ''u2'' 1 ''m2'' ''p_1'' ''token: abcd'' None None ''p2p'' []"


subsection \<open>Crashes\<close>

text \<open>
  C30: a crash between the writes of a record is made good. If the process dies after the note was
  saved, with the memory extraction in any state, processing the record again leaves the log and
  the notes as if it had not died, and returns the same note; processing a finished record once
  more changes neither.
\<close>

lemma save_note_twice: "save_note n (save_note n N) = save_note n N"
  using note_exists_saved [of n "nm_space_id n" N] by (simp add: save_note_def [of n "save_note n N"])

lemma wal_processed_twice: "wal_mark_processed sid rid (wal_mark_processed sid rid W) = wal_mark_processed sid rid W"
proof -
  have "upd_where P f (upd_where P f rs) = upd_where P f rs" if "\<And>r. f (f r) = f r" for P f and rs :: "wal_record list"
    using that by (induction rs) auto
  moreover have "wal_write sid rs (wal_write sid rs' W) = wal_write sid rs W" for rs rs'
    by (simp add: wal_write_def)
  ultimately show ?thesis by (simp add: wal_mark_processed_def)
qed

lemma find_snoc: "find P (xs @ [x]) = (case find P xs of None \<Rightarrow> if P x then Some x else None | Some y \<Rightarrow> Some y)"
  by (induction xs) auto

lemma saved_note_found:
  assumes "\<not> note_exists (nm_space_id n) (nm_message_id n) N"
  shows "find_note_by_message_id (nm_space_id n) (nm_message_id n) (save_note n N) = Some n"
proof -
  have "find (\<lambda>x. nm_message_id x = nm_message_id n) (load_index (nm_space_id n) N) = None"
    using assms by (auto simp: note_exists_def list_ex_iff find_None_iff)
  with assms show ?thesis by (simp add: find_note_by_message_id_def load_save_note find_snoc)
qed


definition start_demo :: "nat local_state" where
  "start_demo = local_run local_demo [Receive record_a] 0"


subsection \<open>Two gaps\<close>

text \<open>Two spaces whose names differ only in unsafe characters share one log file.\<close>

lemma files_shared:
  "let W = wal_append_record (create_pending_record ''u1'' 0 ''m1'' ''a:b'' ''mine'' None None ''p2p'' []) []
   in map wr_text (wal_load_records ''a_b'' W) = [''mine''] \<and> wal_message_exists ''a_b'' ''m1'' W"
  by code_simp

text \<open>A duplicate that reached the log by \<open>append_record\<close> is marked without being looked at.\<close>

lemma duplicate_secret_stays:
  "let r1 = create_pending_record ''u1'' 0 ''m1'' ''s'' ''hello'' None None ''p2p'' [];
       r2 = create_pending_record ''u2'' 0 ''m1'' ''s'' ''token: abcd'' None None ''p2p'' [];
       st = \<lparr>wal_of = wal_append_record r2 (wal_append_record r1 []),
             notes_of = \<lparr>note_index = [], archive = []\<rparr>, world_of = 0\<rparr>
   in map (\<lambda>r. (wr_text r, wr_status r)) (wal_load_records ''s'' (wal_of (snd (process_pending local_demo ''s'' st)))) =
     [(''hello'', ''processed''), (''token: abcd'', ''processed'')]"
  by code_simp

end
