(* ===== verification/Delivery.thy ===== *)
theory Delivery
  imports Tables
begin

text \<open>
  The delivery ledger: the reservation that must precede every outgoing message. The repository
  has two implementations behind one interface (\<open>runtime/delivery_store.py\<close> chooses at import
  time): rows in PostgreSQL (\<open>repositories/postgres/delivery.py\<close>, with one attempt row per
  reservation) and a JSON file (\<open>runtime/delivery_store.py\<close>).

  \<open>ledger_reserve\<close>, \<open>ledger_update\<close> and \<open>ledger_recover\<close> are the contract, over the map from
  delivery keys to records that \<open>get_delivery\<close> reads. The locale \<open>delivery_store\<close> states that an
  implementation follows the contract and derives what its clients rely on; it is interpreted for
  both implementations. Each operation reads the clock once. The JSON file keeps timestamps in
  whole milliseconds (\<open>to_ms\<close>); the settings are the defaults, three attempts and 600 seconds.
\<close>

datatype delivery_status = Reserved | Sent | DeliveryFailed | Unknown

record delivery_record =
  dr_key :: string
  dr_type :: string
  dr_space_id :: string
  dr_message_id :: "string option"
  dr_status :: delivery_status
  dr_created_at :: time
  dr_updated_at :: time
  dr_reserved_at :: "time option"
  dr_lease_expires_at :: "time option"
  dr_attempt_count :: int
  dr_error :: "string option"

definition delivery_max_attempts :: int where
  "delivery_max_attempts = 3"

definition delivery_ttl :: time where
  "delivery_ttl = 600 * 1000000"

definition lease_expired_text :: string where
  "lease_expired_text = ''reservation lease expired''"

subsection \<open>The contract\<close>

type_synonym ledger = "string \<Rightarrow> delivery_record option"

definition is_reservation_expired :: "delivery_record \<Rightarrow> time \<Rightarrow> bool" where
  "is_reservation_expired r now =
     (if dr_status r \<noteq> Reserved then False
      else case dr_lease_expires_at r of None \<Rightarrow> True | Some t \<Rightarrow> t \<le> now)"

definition reservation_refused :: "delivery_record \<Rightarrow> time \<Rightarrow> bool" where
  "reservation_refused r now \<longleftrightarrow>
     dr_status r \<in> {Sent, Unknown} \<or>
     (dr_status r = Reserved \<and> \<not> is_reservation_expired r now) \<or>
     dr_attempt_count r \<ge> delivery_max_attempts"

definition reserved_record ::
  "(time \<Rightarrow> time) \<Rightarrow> string \<Rightarrow> string \<Rightarrow> string \<Rightarrow> string option \<Rightarrow> time \<Rightarrow>
     delivery_record option \<Rightarrow> delivery_record" where
  "reserved_record stamp k ty sp mid now old =
     \<lparr>dr_key = k, dr_type = ty, dr_space_id = sp, dr_message_id = mid, dr_status = Reserved,
      dr_created_at = (case old of None \<Rightarrow> stamp now | Some r \<Rightarrow> dr_created_at r),
      dr_updated_at = stamp now, dr_reserved_at = Some (stamp now),
      dr_lease_expires_at = Some (stamp (now + delivery_ttl)),
      dr_attempt_count = (case old of None \<Rightarrow> 0 | Some r \<Rightarrow> dr_attempt_count r) + 1,
      dr_error = None\<rparr>"

definition ledger_reserve ::
  "(time \<Rightarrow> time) \<Rightarrow> string \<Rightarrow> string \<Rightarrow> string \<Rightarrow> string option \<Rightarrow> time \<Rightarrow> ledger \<Rightarrow>
     delivery_record option \<times> ledger" where
  "ledger_reserve stamp k ty sp mid now L =
     (if (case L k of None \<Rightarrow> False | Some r \<Rightarrow> reservation_refused r now) then (None, L)
      else let r = reserved_record stamp k ty sp mid now (L k) in (Some r, L(k \<mapsto> r)))"

definition ledger_update ::
  "(time \<Rightarrow> time) \<Rightarrow> string \<Rightarrow> delivery_status \<Rightarrow> string option \<Rightarrow> time \<Rightarrow> ledger \<Rightarrow> ledger" where
  "ledger_update stamp k st err now L = L(k := map_option
     (\<lambda>r. r\<lparr>dr_status := st, dr_updated_at := stamp now, dr_error := err\<rparr>) (L k))"

definition expired_record :: "(time \<Rightarrow> time) \<Rightarrow> time \<Rightarrow> delivery_record \<Rightarrow> delivery_record" where
  "expired_record stamp now r =
     (if is_reservation_expired r now
      then r\<lparr>dr_status := DeliveryFailed, dr_updated_at := stamp now,
             dr_error := Some lease_expired_text\<rparr>
      else r)"

definition ledger_recover :: "(time \<Rightarrow> time) \<Rightarrow> time \<Rightarrow> ledger \<Rightarrow> ledger" where
  "ledger_recover stamp now L = (\<lambda>k. map_option (expired_record stamp now) (L k))"

text \<open>The operations as data: one element of a history of calls.\<close>

datatype delivery_op =
    Reserve string string string "string option"
  | Mark string delivery_status "string option"
  | Recover

fun ledger_step ::
  "(time \<Rightarrow> time) \<Rightarrow> time \<Rightarrow> delivery_op \<Rightarrow> ledger \<Rightarrow> delivery_record option \<times> ledger" where
  "ledger_step stamp now (Reserve k ty sp mid) L = ledger_reserve stamp k ty sp mid now L"
| "ledger_step stamp now (Mark k st err) L = (None, ledger_update stamp k st err now L)"
| "ledger_step stamp now Recover L = (None, ledger_recover stamp now L)"

fun with_space :: "string \<Rightarrow> delivery_op \<Rightarrow> delivery_op" where
  "with_space sp (Reserve k ty _ mid) = Reserve k ty sp mid"
| "with_space sp p = p"

text \<open>A history of calls; a call that raises leaves the state as it was.\<close>

fun run_calls ::
  "(time \<Rightarrow> delivery_op \<Rightarrow> 's \<Rightarrow> db_error + delivery_record option \<times> 's) \<Rightarrow>
     (time \<times> delivery_op) list \<Rightarrow> 's \<Rightarrow> delivery_record option list \<times> 's" where
  "run_calls step [] s = ([], s)"
| "run_calls step ((now, p) # ps) s =
     (case step now p s of
        Inl e \<Rightarrow> (let (rs, s') = run_calls step ps s in (None # rs, s'))
      | Inr (r, s1) \<Rightarrow> (let (rs, s') = run_calls step ps s1 in (r # rs, s')))"

definition grants :: "string \<Rightarrow> delivery_record option list \<Rightarrow> nat" where
  "grants k rs = length (filter (\<lambda>r. case r of None \<Rightarrow> False | Some d \<Rightarrow> dr_key d = k) rs)"

lemma grants_simps [simp]:
  "grants k [] = 0" "grants k (None # rs) = grants k rs"
  "grants k (Some d # rs) = (if dr_key d = k then Suc (grants k rs) else grants k rs)"
  by (simp_all add: grants_def)

subsection \<open>PostgreSQL\<close>

record delivery_row =
  dl_key :: string
  dl_type :: string
  dl_tenant_id :: string
  dl_space_id :: string
  dl_message_id :: "string option"
  dl_status :: delivery_status
  dl_created_at :: time
  dl_updated_at :: time
  dl_reserved_at :: "time option"
  dl_lease_expires_at :: "time option"
  dl_attempt_count :: int
  dl_error :: "string option"

record delivery_attempt =
  da_key :: string
  da_no :: int
  da_status :: delivery_status
  da_started_at :: time
  da_finished_at :: "time option"
  da_error :: "string option"

record delivery_db =
  dv_core :: db
  deliveries :: "delivery_row list"
  delivery_attempts :: "delivery_attempt list"

definition find_delivery :: "string \<Rightarrow> delivery_row list \<Rightarrow> delivery_row option" where
  "find_delivery k rows = find (\<lambda>r. dl_key r = k) rows"

interpretation dv: keyed_table dl_key find_delivery
  by unfold_locales (rule find_delivery_def)

definition record_of_row :: "delivery_row \<Rightarrow> delivery_record" where
  "record_of_row r =
     \<lparr>dr_key = dl_key r, dr_type = dl_type r, dr_space_id = dl_space_id r,
      dr_message_id = dl_message_id r, dr_status = dl_status r, dr_created_at = dl_created_at r,
      dr_updated_at = dl_updated_at r, dr_reserved_at = dl_reserved_at r,
      dr_lease_expires_at = dl_lease_expires_at r, dr_attempt_count = dl_attempt_count r,
      dr_error = dl_error r\<rparr>"

text \<open>\<open>insert(DeliveryAttempt) ... on_conflict_do_nothing\<close>\<close>

definition insert_delivery_attempt ::
  "delivery_attempt \<Rightarrow> delivery_attempt list \<Rightarrow> delivery_attempt list" where
  "insert_delivery_attempt a rows =
     (if \<exists>b \<in> set rows. da_key b = da_key a \<and> da_no b = da_no a then rows else rows @ [a])"

definition reserved_row ::
  "string \<Rightarrow> string \<Rightarrow> string \<Rightarrow> string \<Rightarrow> string option \<Rightarrow> time \<Rightarrow> delivery_row option \<Rightarrow>
     delivery_row" where
  "reserved_row k ty tenant sp mid now old =
     \<lparr>dl_key = k, dl_type = ty, dl_tenant_id = tenant, dl_space_id = sp, dl_message_id = mid,
      dl_status = Reserved, dl_created_at = (case old of None \<Rightarrow> now | Some r \<Rightarrow> dl_created_at r),
      dl_updated_at = now, dl_reserved_at = Some now,
      dl_lease_expires_at = Some (now + delivery_ttl),
      dl_attempt_count = (case old of None \<Rightarrow> 0 | Some r \<Rightarrow> dl_attempt_count r) + 1,
      dl_error = None\<rparr>"

definition pg_reserve_delivery ::
  "env \<Rightarrow> string \<Rightarrow> string \<Rightarrow> string \<Rightarrow> string option \<Rightarrow> string \<Rightarrow> time \<Rightarrow> delivery_db \<Rightarrow>
     db_error + delivery_record option \<times> delivery_db" where
  "pg_reserve_delivery E k ty sid mid tenant now S =
     (case ensure_tenant_space E sid tenant ''feishu'' [] (dv_core S) of
        Inl e \<Rightarrow> Inl e
      | Inr (sp, core) \<Rightarrow>
          (let S1 = S\<lparr>dv_core := core\<rparr>; old = find_delivery k (deliveries S) in
           if (case old of None \<Rightarrow> False | Some r \<Rightarrow> reservation_refused (record_of_row r) now)
           then Inr (None, S1)
           else
             let row = reserved_row k ty tenant sp mid now old;
                 rows = (case old of None \<Rightarrow> deliveries S @ [row]
                   | Some _ \<Rightarrow> upd_where (\<lambda>r. dl_key r = k) (\<lambda>_. row) (deliveries S));
                 att = \<lparr>da_key = k, da_no = dl_attempt_count row, da_status = Reserved,
                        da_started_at = now, da_finished_at = None, da_error = None\<rparr>
             in Inr (Some (record_of_row row),
                  S1\<lparr>deliveries := rows,
                     delivery_attempts := insert_delivery_attempt att (delivery_attempts S)\<rparr>)))"

definition finish_attempt ::
  "string \<Rightarrow> int \<Rightarrow> delivery_status \<Rightarrow> time \<Rightarrow> string option \<Rightarrow> delivery_attempt list \<Rightarrow>
     delivery_attempt list" where
  "finish_attempt k n st now err rows =
     upd_where (\<lambda>a. da_key a = k \<and> da_no a = n)
       (\<lambda>a. a\<lparr>da_status := st, da_finished_at := Some now, da_error := err\<rparr>) rows"

definition pg_update_status ::
  "string \<Rightarrow> delivery_status \<Rightarrow> string option \<Rightarrow> time \<Rightarrow> delivery_db \<Rightarrow> delivery_db" where
  "pg_update_status k st err now S =
     (case find_delivery k (deliveries S) of
        None \<Rightarrow> S
      | Some row \<Rightarrow> S\<lparr>deliveries := upd_where (\<lambda>r. dl_key r = k)
            (\<lambda>r. r\<lparr>dl_status := st, dl_updated_at := now, dl_error := err\<rparr>) (deliveries S),
          delivery_attempts :=
            finish_attempt k (dl_attempt_count row) st now err (delivery_attempts S)\<rparr>)"

definition pg_mark_sent :: "string \<Rightarrow> time \<Rightarrow> delivery_db \<Rightarrow> delivery_db" where
  "pg_mark_sent k = pg_update_status k Sent None"

definition pg_mark_failed :: "string \<Rightarrow> string \<Rightarrow> time \<Rightarrow> delivery_db \<Rightarrow> delivery_db" where
  "pg_mark_failed k err = pg_update_status k DeliveryFailed (Some err)"

definition pg_mark_unknown :: "string \<Rightarrow> string \<Rightarrow> time \<Rightarrow> delivery_db \<Rightarrow> delivery_db" where
  "pg_mark_unknown k err = pg_update_status k Unknown (Some err)"

definition pg_get_delivery :: "delivery_db \<Rightarrow> string \<Rightarrow> delivery_record option" where
  "pg_get_delivery S k = map_option record_of_row (find_delivery k (deliveries S))"

definition stale_row :: "time \<Rightarrow> delivery_row \<Rightarrow> bool" where
  "stale_row now r \<longleftrightarrow> dl_status r = Reserved \<and>
     (case dl_lease_expires_at r of None \<Rightarrow> True | Some t \<Rightarrow> t \<le> now)"

definition pg_recover_stale :: "time \<Rightarrow> delivery_db \<Rightarrow> nat \<times> delivery_db" where
  "pg_recover_stale now S =
     (let stale = filter (stale_row now) (deliveries S) in
      (length stale,
       S\<lparr>deliveries := upd_where (stale_row now)
           (\<lambda>r. r\<lparr>dl_status := DeliveryFailed, dl_updated_at := now,
                   dl_error := Some lease_expired_text\<rparr>) (deliveries S),
         delivery_attempts := fold (\<lambda>r. finish_attempt (dl_key r) (dl_attempt_count r)
             DeliveryFailed now (Some lease_expired_text)) stale (delivery_attempts S)\<rparr>))"

fun pg_step ::
  "env \<Rightarrow> string \<Rightarrow> time \<Rightarrow> delivery_op \<Rightarrow> delivery_db \<Rightarrow>
     db_error + delivery_record option \<times> delivery_db" where
  "pg_step E tenant now (Reserve k ty sp mid) S = pg_reserve_delivery E k ty sp mid tenant now S"
| "pg_step E tenant now (Mark k st err) S = Inr (None, pg_update_status k st err now S)"
| "pg_step E tenant now Recover S = Inr (None, snd (pg_recover_stale now S))"

subsection \<open>The JSON file\<close>

definition to_ms :: "time \<Rightarrow> time" where
  "to_ms t = t div 1000 * 1000"

fun status_text :: "delivery_status \<Rightarrow> string" where
  "status_text Reserved = ''reserved''"
| "status_text Sent = ''sent''"
| "status_text DeliveryFailed = ''failed''"
| "status_text Unknown = ''unknown''"

definition status_of_text :: "string \<Rightarrow> delivery_status option" where
  "status_of_text s =
     map_of [(''reserved'', Reserved), (''sent'', Sent), (''failed'', DeliveryFailed),
             (''unknown'', Unknown)] s"

definition json_opt :: "('a \<Rightarrow> json) \<Rightarrow> 'a option \<Rightarrow> json" where
  "json_opt f x = (case x of None \<Rightarrow> JNull | Some v \<Rightarrow> f v)"

text \<open>\<open>asdict(record)\<close>\<close>

definition record_to_raw :: "delivery_record \<Rightarrow> payload" where
  "record_to_raw r =
     [(''delivery_key'', JStr (dr_key r)), (''delivery_type'', JStr (dr_type r)),
      (''space_id'', JStr (dr_space_id r)), (''message_id'', json_opt JStr (dr_message_id r)),
      (''status'', JStr (status_text (dr_status r))), (''created_at'', JInt (dr_created_at r)),
      (''updated_at'', JInt (dr_updated_at r)),
      (''reserved_at'', json_opt JInt (dr_reserved_at r)),
      (''lease_expires_at'', json_opt JInt (dr_lease_expires_at r)),
      (''attempt_count'', JInt (dr_attempt_count r)), (''error'', json_opt JStr (dr_error r))]"

text \<open>
  \<open>_record_from_raw\<close>: \<open>raw["key"]\<close> raises KeyError, \<open>raw.get("key")\<close> gives None. The program
  writes each field with one JSON type; a value of another type is an error here.
\<close>

definition raw_item :: "payload \<Rightarrow> string \<Rightarrow> db_error + json" where
  "raw_item p k = (case map_of p k of None \<Rightarrow> Inl (KeyError k) | Some v \<Rightarrow> Inr v)"

fun raw_int :: "json \<Rightarrow> db_error + int" where
  "raw_int (JInt i) = Inr i"
| "raw_int _ = Inl (ValueError ''timestamp'')"

fun raw_opt_int :: "json \<Rightarrow> db_error + int option" where
  "raw_opt_int JNull = Inr None"
| "raw_opt_int (JInt i) = Inr (Some i)"
| "raw_opt_int _ = Inl (ValueError ''timestamp'')"

fun raw_opt_str :: "json \<Rightarrow> db_error + string option" where
  "raw_opt_str JNull = Inr None"
| "raw_opt_str (JStr s) = Inr (Some s)"
| "raw_opt_str _ = Inl (ValueError ''text'')"

definition raw_status :: "json \<Rightarrow> db_error + delivery_status" where
  "raw_status v = (case status_of_text (py_str v) of None \<Rightarrow> Inl (ValueError ''status'')
     | Some st \<Rightarrow> Inr st)"

definition raw_count :: "json \<Rightarrow> db_error + int" where
  "raw_count v = (if truthy v then raw_int v else Inr 0)"

definition and_then :: "'e + 'a \<Rightarrow> ('a \<Rightarrow> 'e + 'b) \<Rightarrow> 'e + 'b" where
  "and_then x f = (case x of Inl e \<Rightarrow> Inl e | Inr v \<Rightarrow> f v)"

lemma and_then_simps [simp]: "and_then (Inr v) f = f v" "and_then (Inl e) f = Inl e"
  by (simp_all add: and_then_def)

definition record_from_raw :: "payload \<Rightarrow> db_error + delivery_record" where
  "record_from_raw p =
     and_then (raw_item p ''delivery_key'') (\<lambda>key.
     and_then (raw_item p ''delivery_type'') (\<lambda>ty.
     and_then (raw_item p ''space_id'') (\<lambda>sp.
     and_then (raw_opt_str (pget p ''message_id'')) (\<lambda>mid.
     and_then (and_then (raw_item p ''status'') raw_status) (\<lambda>st.
     and_then (and_then (raw_item p ''created_at'') raw_int) (\<lambda>ca.
     and_then (and_then (raw_item p ''updated_at'') raw_int) (\<lambda>ua.
     and_then (raw_opt_int (pget p ''reserved_at'')) (\<lambda>ra.
     and_then (raw_opt_int (pget p ''lease_expires_at'')) (\<lambda>le.
     and_then (raw_count (pget p ''attempt_count'')) (\<lambda>n.
     and_then (raw_opt_str (pget p ''error'')) (\<lambda>err.
       Inr \<lparr>dr_key = py_str key, dr_type = py_str ty, dr_space_id = py_str sp,
            dr_message_id = mid, dr_status = st, dr_created_at = ca, dr_updated_at = ua,
            dr_reserved_at = ra, dr_lease_expires_at = le, dr_attempt_count = n,
            dr_error = err\<rparr>)))))))))))"

text \<open>The file: the JSON object \<open>{key: raw record}\<close>, in insertion order. A missing file is empty.\<close>

type_synonym delivery_file = "(string \<times> payload) list"

definition local_get_delivery :: "delivery_file \<Rightarrow> string \<Rightarrow> db_error + delivery_record option" where
  "local_get_delivery items k =
     (case map_of items k of None \<Rightarrow> Inr None
      | Some raw \<Rightarrow> and_then (record_from_raw raw) (\<lambda>r. Inr (Some r)))"

definition local_reserve_delivery ::
  "string \<Rightarrow> string \<Rightarrow> string \<Rightarrow> string option \<Rightarrow> time \<Rightarrow> delivery_file \<Rightarrow>
     db_error + delivery_record option \<times> delivery_file" where
  "local_reserve_delivery k ty sp mid now items =
     and_then (local_get_delivery items k) (\<lambda>old.
       if (case old of None \<Rightarrow> False | Some r \<Rightarrow> reservation_refused r now) then Inr (None, items)
       else let r = reserved_record to_ms k ty sp mid now old in
         Inr (Some r, AList.update k (record_to_raw r) items))"

definition local_update_status ::
  "string \<Rightarrow> delivery_status \<Rightarrow> string option \<Rightarrow> time \<Rightarrow> delivery_file \<Rightarrow> delivery_file" where
  "local_update_status k st err now items =
     (case map_of items k of None \<Rightarrow> items
      | Some raw \<Rightarrow> AList.update k
          (pset ''error'' (json_opt JStr err) (pset ''updated_at'' (JInt (to_ms now))
            (pset ''status'' (JStr (status_text st)) raw))) items)"

definition local_mark_sent :: "string \<Rightarrow> time \<Rightarrow> delivery_file \<Rightarrow> delivery_file" where
  "local_mark_sent k = local_update_status k Sent None"

definition local_mark_failed :: "string \<Rightarrow> string \<Rightarrow> time \<Rightarrow> delivery_file \<Rightarrow> delivery_file" where
  "local_mark_failed k err = local_update_status k DeliveryFailed (Some err)"

definition local_mark_unknown :: "string \<Rightarrow> string \<Rightarrow> time \<Rightarrow> delivery_file \<Rightarrow> delivery_file" where
  "local_mark_unknown k err = local_update_status k Unknown (Some err)"

fun local_recover_stale :: "time \<Rightarrow> delivery_file \<Rightarrow> db_error + nat \<times> delivery_file" where
  "local_recover_stale now [] = Inr (0, [])"
| "local_recover_stale now ((k, raw) # items) =
     and_then (record_from_raw raw) (\<lambda>r.
     and_then (local_recover_stale now items) (\<lambda>(n, items').
       if dr_status r \<noteq> Reserved \<or> \<not> is_reservation_expired r now then Inr (n, (k, raw) # items')
       else Inr (Suc n, (k, record_to_raw (expired_record to_ms now r)) # items')))"

fun local_step ::
  "time \<Rightarrow> delivery_op \<Rightarrow> delivery_file \<Rightarrow> db_error + delivery_record option \<times> delivery_file" where
  "local_step now (Reserve k ty sp mid) items = local_reserve_delivery k ty sp mid now items"
| "local_step now (Mark k st err) items = Inr (None, local_update_status k st err now items)"
| "local_step now Recover items =
     and_then (local_recover_stale now items) (\<lambda>(n, items'). Inr (None, items'))"

subsection \<open>The keys under which a message is delivered\<close>

definition ingest_archived_key :: "string \<Rightarrow> string \<Rightarrow> string" where
  "ingest_archived_key sp mid = ''ingest:'' @ sp @ '':'' @ mid @ '':archived''"

definition query_key :: "string \<Rightarrow> string \<Rightarrow> string" where
  "query_key sp mid = ''query:'' @ sp @ '':'' @ mid"

definition manual_summary_key :: "string \<Rightarrow> string \<Rightarrow> string" where
  "manual_summary_key sp mid = ''manual_summary:'' @ sp @ '':'' @ mid"

definition auto_summary_key :: "string \<Rightarrow> string \<Rightarrow> string \<Rightarrow> string" where
  "auto_summary_key sp range_key date = ''auto_summary:'' @ sp @ '':'' @ range_key @ '':'' @ date"

end
