(* ===== verification/Local_Tasks.thy ===== *)
theory Local_Tasks
  imports Delivery
begin

text \<open>
  The tasks of a local installation and their registry (\<open>runtime/task.py\<close>,
  \<open>runtime/task_registry.py\<close>). The registry is a Python dictionary: an association list in insertion
  order. Times are those of \<open>now_iso\<close>, which keeps milliseconds; durations are truncated to
  milliseconds (the rounding of the float multiplication in \<open>_duration_ms\<close> is not modelled).
\<close>

datatype local_status = TaskQueued | TaskRunning | TaskSuccess | TaskFailed | TaskRejected

record local_task =
  lt_id :: string
  lt_type :: string
  lt_space :: string
  lt_message :: "string option"
  lt_payload :: payload
  lt_status :: local_status
  lt_created_at :: time
  lt_started_at :: "time option"
  lt_finished_at :: "time option"
  lt_error :: "string option"
  lt_queue_wait_ms :: "int option"
  lt_execution_ms :: "int option"
  lt_total_ms :: "int option"

definition create_local_task ::
  "string \<Rightarrow> time \<Rightarrow> string \<Rightarrow> string \<Rightarrow> payload \<Rightarrow> string option \<Rightarrow> local_task" where
  "create_local_task uuid now ty sid p mid =
     \<lparr>lt_id = uuid, lt_type = ty, lt_space = sid, lt_message = mid, lt_payload = p,
      lt_status = TaskQueued, lt_created_at = to_ms now, lt_started_at = None,
      lt_finished_at = None, lt_error = None, lt_queue_wait_ms = None, lt_execution_ms = None,
      lt_total_ms = None\<rparr>"

definition unfinished :: "local_task \<Rightarrow> bool" where
  "unfinished t \<longleftrightarrow> lt_status t \<in> {TaskQueued, TaskRunning}"

record registry =
  rg_tasks :: "(string \<times> local_task) list"
  rg_limit :: nat
  rg_ttl :: int
  rg_success :: nat
  rg_failed :: nat
  rg_rejected :: nat
  rg_timeout_at :: "time option"
  rg_timeout_error :: "string option"

definition new_registry :: "nat \<Rightarrow> int \<Rightarrow> registry" where
  "new_registry limit ttl_hours = \<lparr>rg_tasks = [], rg_limit = limit, rg_ttl = ttl_hours * 3600000000,
     rg_success = 0, rg_failed = 0, rg_rejected = 0, rg_timeout_at = None, rg_timeout_error = None\<rparr>"

definition duration_ms :: "time option \<Rightarrow> time option \<Rightarrow> int option" where
  "duration_ms a b = (case (a, b) of (Some x, Some y) \<Rightarrow> Some (max 0 ((y - x) div 1000)) | _ \<Rightarrow> None)"

definition put_task :: "local_task \<Rightarrow> registry \<Rightarrow> registry" where
  "put_task t R = R\<lparr>rg_tasks := AList.update (lt_id t) t (rg_tasks R)\<rparr>"

subsection \<open>Pruning\<close>

definition recently_failed :: "time \<Rightarrow> registry \<Rightarrow> local_task \<Rightarrow> bool" where
  "recently_failed now R t \<longleftrightarrow> lt_status t = TaskFailed \<and>
     (case lt_finished_at t of None \<Rightarrow> False | Some f \<Rightarrow> f \<ge> now - rg_ttl R)"

text \<open>\<open>sorted(..., reverse=True)\<close> keeps the order of equal elements, as \<open>sort_key\<close> on the negated time does.\<close>

definition finish_order :: "local_task \<Rightarrow> int" where
  "finish_order t = - (case lt_finished_at t of Some f \<Rightarrow> f | None \<Rightarrow> lt_created_at t)"

definition keep_recent :: "registry \<Rightarrow> string list" where
  "keep_recent R = map fst (take (rg_limit R)
     (sort_key (\<lambda>(k, t). finish_order t) (filter (\<lambda>(k, t). \<not> unfinished t) (rg_tasks R))))"

definition prune_finished_tasks :: "time \<Rightarrow> registry \<Rightarrow> registry" where
  "prune_finished_tasks now R =
     (if filter (\<lambda>(k, t). \<not> unfinished t) (rg_tasks R) = [] then R
      else R\<lparr>rg_tasks := filter (\<lambda>(k, t). unfinished t \<or> recently_failed now R t \<or> k \<in> set (keep_recent R))
        (rg_tasks R)\<rparr>)"

subsection \<open>Operations\<close>

definition registry_add :: "local_task \<Rightarrow> registry \<Rightarrow> registry" where
  "registry_add t R = put_task t R"

definition rejected_task :: "time \<Rightarrow> string \<Rightarrow> local_task \<Rightarrow> local_task" where
  "rejected_task now err t = t\<lparr>lt_status := TaskRejected, lt_finished_at := Some (to_ms now),
     lt_total_ms := duration_ms (Some (lt_created_at t)) (Some (to_ms now)), lt_error := Some err\<rparr>"

definition registry_reject :: "time \<Rightarrow> local_task \<Rightarrow> string \<Rightarrow> registry \<Rightarrow> local_task \<times> registry" where
  "registry_reject now t err R =
     (let t' = rejected_task now err t;
          R1 = put_task t' R
      in (t', prune_finished_tasks now (R1\<lparr>rg_rejected := rg_rejected R1 + 1\<rparr>)))"

definition started_task :: "time \<Rightarrow> local_task \<Rightarrow> local_task" where
  "started_task now t = t\<lparr>lt_status := TaskRunning, lt_started_at := Some (to_ms now),
     lt_queue_wait_ms := duration_ms (Some (lt_created_at t)) (Some (to_ms now))\<rparr>"

definition registry_mark_running :: "time \<Rightarrow> string \<Rightarrow> registry \<Rightarrow> db_error + registry" where
  "registry_mark_running now tid R =
     (case map_of (rg_tasks R) tid of
        None \<Rightarrow> Inl (KeyError tid)
      | Some t \<Rightarrow> Inr (R\<lparr>rg_tasks := AList.update tid (started_task now t) (rg_tasks R)\<rparr>))"

definition finished_task :: "time \<Rightarrow> local_status \<Rightarrow> string option \<Rightarrow> local_task \<Rightarrow> local_task" where
  "finished_task now status err t = t\<lparr>lt_status := status, lt_finished_at := Some (to_ms now),
     lt_execution_ms := duration_ms (lt_started_at t) (Some (to_ms now)),
     lt_total_ms := duration_ms (Some (lt_created_at t)) (Some (to_ms now)), lt_error := err\<rparr>"

definition registry_mark_success :: "time \<Rightarrow> string \<Rightarrow> registry \<Rightarrow> db_error + registry" where
  "registry_mark_success now tid R =
     (case map_of (rg_tasks R) tid of
        None \<Rightarrow> Inl (KeyError tid)
      | Some t \<Rightarrow> Inr (prune_finished_tasks now (R\<lparr>rg_tasks := AList.update tid
            (finished_task now TaskSuccess (lt_error t) t) (rg_tasks R), rg_success := rg_success R + 1\<rparr>)))"

text \<open>\<open>_looks_like_timeout\<close>; the third marker is the Chinese word for a timeout, in UTF-8.\<close>

definition contains_text :: "string \<Rightarrow> string \<Rightarrow> bool" where
  "contains_text part s \<longleftrightarrow> list_ex (\<lambda>i. take (length part) (drop i s) = part) [0..<length s + 1]"

definition timeout_word :: string where
  "timeout_word = map char_of [232::nat, 182, 133, 230, 151, 182]"

definition looks_like_timeout :: "string \<Rightarrow> bool" where
  "looks_like_timeout err \<longleftrightarrow> (let low = py_lower err in
     contains_text ''timeout'' low \<or> contains_text ''timed out'' low \<or> contains_text timeout_word low)"

definition registry_mark_failed :: "time \<Rightarrow> string \<Rightarrow> string \<Rightarrow> registry \<Rightarrow> db_error + registry" where
  "registry_mark_failed now tid err R =
     (case map_of (rg_tasks R) tid of
        None \<Rightarrow> Inl (KeyError tid)
      | Some t \<Rightarrow>
          (let R1 = R\<lparr>rg_tasks := AList.update tid (finished_task now TaskFailed (Some err) t) (rg_tasks R),
                 rg_failed := rg_failed R + 1\<rparr>;
               R2 = (if looks_like_timeout err
                 then R1\<lparr>rg_timeout_at := Some (to_ms now), rg_timeout_error := Some err\<rparr> else R1)
           in Inr (prune_finished_tasks now R2)))"

record registry_stats =
  st_running :: nat
  st_queued :: nat
  st_success :: nat
  st_failed :: nat
  st_rejected :: nat
  st_oldest_wait :: int
  st_retained :: nat
  st_recent :: "local_task list"

definition registry_stats_of :: "time \<Rightarrow> registry \<Rightarrow> registry_stats" where
  "registry_stats_of now R =
     (let ts = map snd (rg_tasks R); queued = filter (\<lambda>t. lt_status t = TaskQueued) ts in
      \<lparr>st_running = length (filter (\<lambda>t. lt_status t = TaskRunning) ts),
       st_queued = length queued, st_success = rg_success R, st_failed = rg_failed R,
       st_rejected = rg_rejected R,
       st_oldest_wait = (if queued = [] then 0
         else max 0 ((now - Min (set (map lt_created_at queued))) div 1000000)),
       st_retained = length ts, st_recent = drop (length ts - 10) ts\<rparr>)"

subsection \<open>What pruning keeps\<close>

lemma prune_tasks:
  "rg_tasks (prune_finished_tasks now R) =
     filter (\<lambda>(k, t). unfinished t \<or> recently_failed now R t \<or> k \<in> set (keep_recent R)) (rg_tasks R)"
  by (auto simp: prune_finished_tasks_def filter_empty_conv intro!: filter_True [symmetric])

lemma prune_frame [simp]:
  "rg_limit (prune_finished_tasks now R) = rg_limit R" "rg_ttl (prune_finished_tasks now R) = rg_ttl R"
  "rg_success (prune_finished_tasks now R) = rg_success R" "rg_failed (prune_finished_tasks now R) = rg_failed R"
  "rg_rejected (prune_finished_tasks now R) = rg_rejected R"
  by (simp_all add: prune_finished_tasks_def)

end
