(* ===== verification/Executor.thy ===== *)
theory Executor
  imports Local_Tasks Wal
begin

text \<open>
  The bounded executor of a local installation (\<open>runtime/executor.py\<close>) and the two drainers that
  feed it (\<open>runtime/pending_drainer.py\<close>, \<open>runtime/enrichment_drainer.py\<close>). A thread pool is a queue
  of submitted jobs, which its threads take in order, and the jobs they run; \<open>start_next\<close> and
  \<open>finish_job\<close> are the two ends of \<open>_run_task\<close>, in between the thread executes the body of the task
  (theory \<open>Local_Runner\<close>). A submission is one step: a shutdown between the test of the flag and the
  hand-over to the pool is not modelled.
\<close>

record job =
  jb_task :: string
  jb_key :: "(string \<times> string) option"

record executor =
  ex_registry :: registry
  ex_max_workers :: nat
  ex_queue_size :: nat
  ex_slots :: nat
  ex_enrichment_workers :: nat
  ex_enrichment_queue_size :: nat
  ex_enrichment_slots :: nat
  ex_inflight :: "(string \<times> string) set"
  ex_enriching :: "(string \<times> string) set"
  ex_shutdown :: bool
  ex_queue :: "job list"
  ex_running :: "job list"
  ex_enrichment_queue :: "(string \<times> string) list"
  ex_enrichment_running :: "(string \<times> string) list"

definition ex_capacity :: "executor \<Rightarrow> nat" where
  "ex_capacity X = ex_max_workers X + ex_queue_size X"

definition ex_enrichment_capacity :: "executor \<Rightarrow> nat" where
  "ex_enrichment_capacity X = ex_enrichment_workers X + ex_enrichment_queue_size X"

definition new_executor :: "nat \<Rightarrow> nat \<Rightarrow> nat \<Rightarrow> nat \<Rightarrow> nat \<Rightarrow> int \<Rightarrow> executor" where
  "new_executor workers queue eworkers equeue limit ttl_hours =
     \<lparr>ex_registry = new_registry limit ttl_hours, ex_max_workers = workers, ex_queue_size = queue,
      ex_slots = workers + queue, ex_enrichment_workers = eworkers,
      ex_enrichment_queue_size = equeue, ex_enrichment_slots = eworkers + equeue,
      ex_inflight = {}, ex_enriching = {}, ex_shutdown = False, ex_queue = [], ex_running = [],
      ex_enrichment_queue = [], ex_enrichment_running = []\<rparr>"

text \<open>\<open>BoundedSemaphore.release\<close> raises when the counter would pass its initial value.\<close>

definition semaphore_release :: "nat \<Rightarrow> nat \<Rightarrow> db_error + nat" where
  "semaphore_release initial v =
     (if v \<ge> initial then Inl (ValueError ''Semaphore released too many times'') else Inr (v + 1))"

subsection \<open>Submission\<close>

definition reject_task :: "time \<Rightarrow> local_task \<Rightarrow> string \<Rightarrow> executor \<Rightarrow> local_task \<times> executor" where
  "reject_task now t err X =
     (let (t', R) = registry_reject now t err (ex_registry X) in (t', X\<lparr>ex_registry := R\<rparr>))"

definition submit_task ::
  "time \<Rightarrow> local_task \<Rightarrow> (string \<times> string) option \<Rightarrow> executor \<Rightarrow> local_task \<times> executor" where
  "submit_task now t key X =
     (if ex_shutdown X then reject_task now t ''executor is shutting down'' X
      else if ex_slots X = 0 then reject_task now t ''task queue is full'' X
      else (t, X\<lparr>ex_slots := ex_slots X - 1, ex_registry := registry_add t (ex_registry X),
                 ex_queue := ex_queue X @ [\<lparr>jb_task = lt_id t, jb_key = key\<rparr>]\<rparr>))"

definition opt_json_str :: "string option \<Rightarrow> json" where
  "opt_json_str v = (case v of None \<Rightarrow> JNull | Some s \<Rightarrow> JStr s)"

definition record_json :: "wal_record \<Rightarrow> payload" where
  "record_json r =
     [(''id'', JStr (wr_id r)), (''source'', JStr (wr_source r)), (''event_id'', opt_json_str (wr_event_id r)),
      (''message_id'', JStr (wr_message_id r)), (''space_id'', JStr (wr_space_id r)),
      (''chat_id'', opt_json_str (wr_chat_id r)), (''chat_type'', JStr (wr_chat_type r)),
      (''sender'', JObj (wr_sender r)), (''ts'', JInt (wr_ts r)), (''text'', JStr (wr_text r)),
      (''status'', JStr (wr_status r)), (''sensitivity'', JStr (wr_sensitivity r))]"

definition ingest_payload :: "wal_record \<Rightarrow> string option \<Rightarrow> bool \<Rightarrow> string \<Rightarrow> payload" where
  "ingest_payload r chat notify source =
     [(''record'', JObj (record_json r)), (''chat_id'', opt_json_str chat),
      (''notify_on_success'', JBool notify), (''source'', JStr source)]"

definition submit_ingest ::
  "string \<Rightarrow> time \<Rightarrow> wal_record \<Rightarrow> string option \<Rightarrow> bool \<Rightarrow> string \<Rightarrow> executor \<Rightarrow>
     local_task \<times> executor" where
  "submit_ingest uuid now r chat notify source X =
     (let mid = wr_message_id r;
          key = (wr_space_id r, mid);
          t = create_local_task uuid now ''ingest'' (wr_space_id r) [] (if mid = [] then None else Some mid);
          t1 = t\<lparr>lt_payload := ingest_payload r chat notify source\<rparr>
      in if mid = [] then submit_task now t1 None X
         else if key \<in> ex_inflight X then reject_task now t ''ingest already in flight'' X
         else let (t2, X1) = submit_task now t1 (Some key) (X\<lparr>ex_inflight := insert key (ex_inflight X)\<rparr>)
           in (t2, if lt_status t2 = TaskRejected then X1\<lparr>ex_inflight := ex_inflight X1 - {key}\<rparr> else X1))"

definition submit_query ::
  "string \<Rightarrow> time \<Rightarrow> string \<Rightarrow> string \<Rightarrow> string \<Rightarrow> string option \<Rightarrow> string option \<Rightarrow> string \<Rightarrow> executor \<Rightarrow>
     local_task \<times> executor" where
  "submit_query uuid now sid question chat mid user tenant X =
     submit_task now (create_local_task uuid now ''query'' sid
       [(''question'', JStr question), (''user_id'', opt_json_str user), (''tenant_id'', JStr tenant),
        (''chat_id'', JStr chat),
        (''delivery_key'', JStr (query_key sid (case mid of Some m \<Rightarrow> if m = [] then ''unknown'' else m
           | None \<Rightarrow> ''unknown''))),
        (''delivery_type'', JStr ''query'')] mid) None X"

text \<open>The callback \<open>on_success\<close> is known by a name; \<open>message_id\<close> and \<open>delivery_type\<close> may be empty.\<close>

definition submit_summary ::
  "string \<Rightarrow> time \<Rightarrow> string \<Rightarrow> string \<Rightarrow> string \<Rightarrow> string option \<Rightarrow> string option \<Rightarrow> string option \<Rightarrow>
     string option \<Rightarrow> executor \<Rightarrow> local_task \<times> executor" where
  "submit_summary uuid now sid range_key chat mid on_success key ty X =
     (let key1 = (if key = None \<and> mid \<noteq> None \<and> mid \<noteq> Some [] then Some (manual_summary_key sid (the mid)) else key)
      in submit_task now (create_local_task uuid now ''summary'' sid
       [(''range_key'', JStr range_key), (''chat_id'', JStr chat), (''on_success'', opt_json_str on_success),
        (''delivery_key'', opt_json_str key1),
        (''delivery_type'', JStr (if ty = None \<or> ty = Some [] then ''manual_summary'' else the ty))] mid) None X)"

definition submit_enrichment :: "string \<Rightarrow> string \<Rightarrow> executor \<Rightarrow> bool \<times> executor" where
  "submit_enrichment sid nid X =
     (if sid = [] \<or> nid = [] \<or> ex_shutdown X \<or> (sid, nid) \<in> ex_enriching X \<or> ex_enrichment_slots X = 0
      then (False, X)
      else (True, X\<lparr>ex_enrichment_slots := ex_enrichment_slots X - 1,
                    ex_enriching := insert (sid, nid) (ex_enriching X),
                    ex_enrichment_queue := ex_enrichment_queue X @ [(sid, nid)]\<rparr>))"

definition shutdown_executor :: "executor \<Rightarrow> executor" where
  "shutdown_executor X = X\<lparr>ex_shutdown := True\<rparr>"

subsection \<open>The threads\<close>

definition start_next :: "time \<Rightarrow> executor \<Rightarrow> db_error + executor" where
  "start_next now X =
     (case ex_queue X of
        [] \<Rightarrow> Inr X
      | j # js \<Rightarrow>
        if length (ex_running X) \<ge> ex_max_workers X then Inr X
        else (case registry_mark_running now (jb_task j) (ex_registry X) of
            Inl e \<Rightarrow> Inl e
          | Inr R \<Rightarrow> Inr (X\<lparr>ex_registry := R, ex_queue := js, ex_running := ex_running X @ [j]\<rparr>)))"

definition remove_at :: "nat \<Rightarrow> 'a list \<Rightarrow> 'a list" where
  "remove_at i xs = take i xs @ drop (Suc i) xs"

text \<open>The end of a job: its result is marked, then its key and its slot are released.\<close>

definition finish_job :: "time \<Rightarrow> nat \<Rightarrow> string option \<Rightarrow> executor \<Rightarrow> db_error + executor" where
  "finish_job now i failure X =
     (if i \<ge> length (ex_running X) then Inr X
      else let j = ex_running X ! i in
        case (case failure of
            None \<Rightarrow> registry_mark_success now (jb_task j) (ex_registry X)
          | Some err \<Rightarrow> registry_mark_failed now (jb_task j) err (ex_registry X)) of
          Inl e \<Rightarrow> Inl e
        | Inr R \<Rightarrow>
          (case semaphore_release (ex_capacity X) (ex_slots X) of
             Inl e \<Rightarrow> Inl e
           | Inr v \<Rightarrow> Inr (X\<lparr>ex_registry := R, ex_running := remove_at i (ex_running X),
               ex_inflight := (case jb_key j of None \<Rightarrow> ex_inflight X | Some k \<Rightarrow> ex_inflight X - {k}),
               ex_slots := v\<rparr>)))"

definition start_enrichment :: "executor \<Rightarrow> executor" where
  "start_enrichment X =
     (case ex_enrichment_queue X of
        [] \<Rightarrow> X
      | k # ks \<Rightarrow>
        if length (ex_enrichment_running X) \<ge> ex_enrichment_workers X then X
        else X\<lparr>ex_enrichment_queue := ks, ex_enrichment_running := ex_enrichment_running X @ [k]\<rparr>)"

definition finish_enrichment :: "nat \<Rightarrow> executor \<Rightarrow> db_error + executor" where
  "finish_enrichment i X =
     (if i \<ge> length (ex_enrichment_running X) then Inr X
      else case semaphore_release (ex_enrichment_capacity X) (ex_enrichment_slots X) of
          Inl e \<Rightarrow> Inl e
        | Inr v \<Rightarrow> Inr (X\<lparr>ex_enriching := ex_enriching X - {ex_enrichment_running X ! i},
            ex_enrichment_running := remove_at i (ex_enrichment_running X), ex_enrichment_slots := v\<rparr>))"

subsection \<open>The drainers\<close>

text \<open>
  \<open>PendingDrainer.drain_once\<close>: at most a batch per space; the first rejection ends the tick. The
  identifiers of the new tasks are drawn from a list. The executor is looked up under the name of
  the file, the submission uses the space of the record.
\<close>

fun drain_records ::
  "string \<Rightarrow> time \<Rightarrow> wal_record list \<Rightarrow> string list \<Rightarrow> executor \<Rightarrow>
     bool \<times> nat \<times> string list \<times> executor" where
  "drain_records sid now [] uuids X = (False, 0, uuids, X)"
| "drain_records sid now (r # rs) [] X = (True, 0, [], X)"
| "drain_records sid now (r # rs) (u # us) X =
     (if wr_message_id r \<noteq> [] \<and> (sid, wr_message_id r) \<in> ex_inflight X
      then drain_records sid now rs (u # us) X
      else let (t, X1) = submit_ingest u now r None False ''pending_drainer'' X in
        if lt_status t = TaskRejected then (True, 0, us, X1)
        else let (stop, n, us', X2) = drain_records sid now rs us X1 in (stop, n + 1, us', X2))"

fun drain_spaces ::
  "nat \<Rightarrow> time \<Rightarrow> wal \<Rightarrow> string list \<Rightarrow> string list \<Rightarrow> executor \<Rightarrow> nat \<times> executor" where
  "drain_spaces batch now W [] uuids X = (0, X)"
| "drain_spaces batch now W (sid # sids) uuids X =
     (let (stop, n, us, X1) =
        drain_records sid now (take batch (wal_load_pending_records sid W)) uuids X
      in if stop then (n, X1)
         else let (m, X2) = drain_spaces batch now W sids us X1 in (n + m, X2))"

definition pending_drain_once ::
  "nat \<Rightarrow> time \<Rightarrow> wal \<Rightarrow> string list \<Rightarrow> executor \<Rightarrow> nat \<times> executor" where
  "pending_drain_once batch now W uuids X = drain_spaces batch now W (wal_list_space_ids W) uuids X"

fun enrichment_drain_once :: "(string \<times> string) list \<Rightarrow> executor \<Rightarrow> nat \<times> executor" where
  "enrichment_drain_once [] X = (0, X)"
| "enrichment_drain_once ((sid, nid) # refs) X =
     (let (ok, X1) = submit_enrichment sid nid X;
          (n, X2) = enrichment_drain_once refs X1
      in (n + (if ok then 1 else 0), X2))"

end
