(* ===== verification/Executor_Invariant.thy ===== *)
theory Executor_Invariant
  imports Executor
begin

text \<open>
  The invariant of the executor as a state machine: a step is a submission, the start or the end of
  a job, or the shutdown; identifiers of new tasks are fresh (\<open>uuid4\<close>).
\<close>

subsection \<open>The registry\<close>

definition live :: "local_status \<Rightarrow> registry \<Rightarrow> string set" where
  "live st R = {k. \<exists>t. map_of (rg_tasks R) k = Some t \<and> lt_status t = st}"

definition settled_history :: "registry \<Rightarrow> (string \<times> local_task) list" where
  "settled_history R = filter (\<lambda>(k, t). lt_status t \<in> {TaskSuccess, TaskRejected}) (rg_tasks R)"

definition registry_ok :: "registry \<Rightarrow> bool" where
  "registry_ok R \<longleftrightarrow> distinct (map fst (rg_tasks R)) \<and> length (settled_history R) \<le> rg_limit R"

lemma live_cong: "rg_tasks R' = rg_tasks R \<Longrightarrow> live st R' = live st R"
  by (simp add: live_def)

lemma live_update:
  "live st (R\<lparr>rg_tasks := AList.update k t (rg_tasks R)\<rparr>) =
     (if lt_status t = st then insert k (live st R) else live st R - {k})"
  by (auto simp: live_def update_conv')

lemma live_prune:
  assumes "distinct (map fst (rg_tasks R))" "st \<in> {TaskQueued, TaskRunning}"
  shows "live st (prune_finished_tasks now R) = live st R"
proof -
  have "map_of (filter P (rg_tasks R)) k = Some t \<longleftrightarrow> map_of (rg_tasks R) k = Some t \<and> P (k, t)" for P k t
    using assms(1) by (auto simp: distinct_map_filter)
  with assms(2) show ?thesis by (auto simp: live_def prune_tasks unfinished_def)
qed

lemma keep_recent_length: "length (keep_recent R) \<le> rg_limit R"
  by (simp add: keep_recent_def)

lemma prune_ok:
  assumes "distinct (map fst (rg_tasks R))"
  shows "registry_ok (prune_finished_tasks now R)"
proof -
  let ?h = "settled_history (prune_finished_tasks now R)"
  have "set (map fst ?h) \<subseteq> set (keep_recent R)"
    by (auto simp: settled_history_def prune_tasks unfinished_def recently_failed_def)
  moreover have "distinct (map fst ?h)"
    using assms by (simp add: settled_history_def prune_tasks distinct_map_filter)
  ultimately have "length (map fst ?h) \<le> length (keep_recent R)"
    by (metis card_length card_mono distinct_card le_trans List.finite_set)
  with keep_recent_length [of R] assms show ?thesis
    by (simp add: registry_ok_def prune_tasks distinct_map_filter)
qed

lemma update_distinct_keys: "distinct (map fst al) \<Longrightarrow> distinct (map fst (AList.update k v al))"
  by (simp add: update_keys)

lemma settled_update:
  assumes "lt_status t \<notin> {TaskSuccess, TaskRejected}"
  shows "length (filter (\<lambda>(k, t). lt_status t \<in> {TaskSuccess, TaskRejected}) (AList.update k t al)) \<le>
    length (filter (\<lambda>(k, t). lt_status t \<in> {TaskSuccess, TaskRejected}) al)"
  using assms by (induction al) auto

lemma registry_ok_update:
  "registry_ok R \<Longrightarrow> lt_status t \<notin> {TaskSuccess, TaskRejected} \<Longrightarrow>
     registry_ok (R\<lparr>rg_tasks := AList.update k t (rg_tasks R)\<rparr>)"
  using settled_update [of t k "rg_tasks R"]
  by (simp add: registry_ok_def settled_history_def update_distinct_keys)

lemma registry_reject_effect:
  assumes "registry_ok R" "registry_reject now t err R = (t', R')"
  shows "registry_ok R' \<and> lt_status t' = TaskRejected \<and> live TaskQueued R' = live TaskQueued R - {lt_id t} \<and>
    live TaskRunning R' = live TaskRunning R - {lt_id t}"
proof -
  let ?R = "R\<lparr>rg_tasks := AList.update (lt_id t) t' (rg_tasks R), rg_rejected := rg_rejected R + 1\<rparr>"
  have t': "t' = rejected_task now err t" and R': "R' = prune_finished_tasks now ?R"
    using assms(2) by (auto simp: registry_reject_def put_task_def rejected_task_def Let_def)
  have d: "distinct (map fst (rg_tasks ?R))"
    using assms(1) by (simp add: registry_ok_def update_distinct_keys)
  have "live st ?R = live st R - {lt_id t}" if "st \<in> {TaskQueued, TaskRunning}" for st
    using live_update [of st "lt_id t" t' R] that t' by (auto simp: live_def rejected_task_def)
  with prune_ok [OF d] live_prune [OF d] t' show ?thesis by (simp add: R' rejected_task_def)
qed

lemma registry_finish_effect:
  assumes ok: "registry_ok R" and known: "tid \<in> live TaskRunning R"
    and new: "lt_status t' \<in> {TaskSuccess, TaskFailed}"
    and R1: "rg_tasks R1 = AList.update tid t' (rg_tasks R)"
  shows "registry_ok (prune_finished_tasks now R1) \<and>
    live TaskQueued (prune_finished_tasks now R1) = live TaskQueued R \<and>
    live TaskRunning (prune_finished_tasks now R1) = live TaskRunning R - {tid}"
proof -
  have d: "distinct (map fst (rg_tasks R1))" using ok R1 by (simp add: registry_ok_def update_distinct_keys)
  have "live st R1 = live st R - {tid}" if "st \<in> {TaskQueued, TaskRunning}" for st
    using live_update [of st tid t' R] that new live_cong [of R1 "R\<lparr>rg_tasks := AList.update tid t' (rg_tasks R)\<rparr>"]
    by (auto simp: R1)
  moreover have "tid \<notin> live TaskQueued R" using known by (auto simp: live_def)
  ultimately show ?thesis using prune_ok [OF d] live_prune [OF d] by simp
qed

subsection \<open>The invariant\<close>

definition keys_of :: "job list \<Rightarrow> (string \<times> string) list" where
  "keys_of js = List.map_filter jb_key js"

lemma keys_of_simps [simp]:
  "keys_of [] = []" "keys_of (j # js) = (case jb_key j of None \<Rightarrow> keys_of js | Some k \<Rightarrow> k # keys_of js)"
  "keys_of (xs @ ys) = keys_of xs @ keys_of ys"
  by (simp_all add: keys_of_def map_filter_simps map_filter_def split: option.split)

definition exec_inv :: "executor \<Rightarrow> bool" where
  "exec_inv X \<longleftrightarrow>
     registry_ok (ex_registry X) \<and>
     ex_slots X + length (ex_queue X) + length (ex_running X) = ex_capacity X \<and>
     length (ex_running X) \<le> ex_max_workers X \<and>
     distinct (map jb_task (ex_queue X)) \<and> distinct (map jb_task (ex_running X)) \<and>
     live TaskQueued (ex_registry X) = set (map jb_task (ex_queue X)) \<and>
     live TaskRunning (ex_registry X) = set (map jb_task (ex_running X)) \<and>
     distinct (keys_of (ex_queue X @ ex_running X)) \<and>
     ex_inflight X = set (keys_of (ex_queue X @ ex_running X)) \<and>
     ex_enrichment_slots X + length (ex_enrichment_queue X) + length (ex_enrichment_running X) =
       ex_enrichment_capacity X \<and>
     distinct (ex_enrichment_queue X @ ex_enrichment_running X) \<and>
     ex_enriching X = set (ex_enrichment_queue X @ ex_enrichment_running X)"

lemma new_executor_inv: "exec_inv (new_executor w q ew eq limit ttl)"
  by (simp add: exec_inv_def new_executor_def new_registry_def registry_ok_def settled_history_def live_def
      ex_capacity_def ex_enrichment_capacity_def)

lemma exec_inv_reject:
  assumes inv: "exec_inv X" and fresh: "map_of (rg_tasks (ex_registry X)) (lt_id t) = None"
    and run: "reject_task now t err X = (t', X')"
  shows "exec_inv X' \<and> lt_status t' = TaskRejected \<and> ex_inflight X' = ex_inflight X"
proof -
  obtain R where R: "registry_reject now t err (ex_registry X) = (t', R)" "X' = X\<lparr>ex_registry := R\<rparr>"
    using run by (auto simp: reject_task_def split: prod.splits)
  have "lt_id t \<notin> live TaskQueued (ex_registry X)" "lt_id t \<notin> live TaskRunning (ex_registry X)"
    using fresh by (auto simp: live_def)
  with registry_reject_effect [OF _ R(1)] inv R(2) show ?thesis
    by (simp add: exec_inv_def ex_capacity_def ex_enrichment_capacity_def)
qed

lemma exec_inv_submit:
  assumes inv: "exec_inv X" and fresh: "map_of (rg_tasks (ex_registry X)) (lt_id t) = None"
    and queued: "lt_status t = TaskQueued" and key: "\<And>k. key = Some k \<Longrightarrow> k \<notin> ex_inflight X"
    and run: "submit_task now t key (X\<lparr>ex_inflight := ex_inflight X \<union> set_option key\<rparr>) = (t', X')"
  shows "exec_inv (if lt_status t' = TaskRejected then X'\<lparr>ex_inflight := ex_inflight X' - set_option key\<rparr> else X')"
proof -
  let ?X = "X\<lparr>ex_inflight := ex_inflight X \<union> set_option key\<rparr>"
  have rej: "exec_inv (X1\<lparr>ex_inflight := ex_inflight X1 - set_option key\<rparr>) \<and> lt_status t1 = TaskRejected"
    if r: "reject_task now t err ?X = (t1, X1)" for err t1 X1
  proof -
    have r': "reject_task now t err X = (t1, X1\<lparr>ex_inflight := ex_inflight X\<rparr>)"
      and i: "ex_inflight X1 = ex_inflight X \<union> set_option key"
      using r by (auto simp: reject_task_def split: prod.splits)
    from key have "ex_inflight X1 - set_option key = ex_inflight X" by (auto simp: i)
    then show ?thesis using exec_inv_reject [OF inv fresh r'] by simp
  qed
  show ?thesis
  proof (cases "ex_shutdown X \<or> ex_slots X = 0")
    case True
    with run obtain err where "reject_task now t err ?X = (t', X')"
      by (auto simp: submit_task_def split: if_splits)
    from rej [OF this] show ?thesis by simp
  next
    case False
    then have X': "t' = t" "X' = ?X\<lparr>ex_slots := ex_slots X - 1, ex_registry := registry_add t (ex_registry X),
        ex_queue := ex_queue X @ [\<lparr>jb_task = lt_id t, jb_key = key\<rparr>]\<rparr>"
      using run by (auto simp: submit_task_def)
    have fresh': "lt_id t \<notin> live st (ex_registry X)" for st using fresh by (simp add: live_def)
    have "registry_ok (ex_registry X)" using inv by (simp add: exec_inv_def)
    then have "registry_ok (registry_add t (ex_registry X))"
      "live TaskQueued (registry_add t (ex_registry X)) = insert (lt_id t) (live TaskQueued (ex_registry X))"
      "live TaskRunning (registry_add t (ex_registry X)) = live TaskRunning (ex_registry X)"
      using queued fresh' [of TaskRunning]
      by (simp_all add: registry_add_def put_task_def live_update registry_ok_update)
    note reg = this
    have "lt_id t \<notin> jb_task ` set (ex_queue X)"
      using fresh' [of TaskQueued] inv by (simp add: exec_inv_def)
    moreover have "k \<notin> set (keys_of (ex_queue X)) \<and> k \<notin> set (keys_of (ex_running X))" if "key = Some k" for k
      using key [OF that] inv by (simp add: exec_inv_def)
    ultimately show ?thesis
      using inv False reg queued
      by (cases key) (simp_all add: X' exec_inv_def ex_capacity_def ex_enrichment_capacity_def)
  qed
qed

lemma exec_inv_submit_plain:
  assumes "exec_inv X" "map_of (rg_tasks (ex_registry X)) (lt_id t) = None" "lt_status t = TaskQueued"
  shows "exec_inv (snd (submit_task now t None X))"
proof -
  obtain t' X' where r: "submit_task now t None X = (t', X')" by fastforce
  have "X\<lparr>ex_inflight := ex_inflight X \<union> set_option None\<rparr> = X" by simp
  with exec_inv_submit [OF assms, of None now t' X'] r show ?thesis by (simp split: if_splits)
qed

lemma exec_inv_ingest:
  assumes inv: "exec_inv X" and fresh: "map_of (rg_tasks (ex_registry X)) uuid = None"
  shows "exec_inv (snd (submit_ingest uuid now r chat notify source X))"
proof -
  let ?key = "(wr_space_id r, wr_message_id r)"
  define t where "t = create_local_task uuid now ''ingest'' (wr_space_id r) []
    (if wr_message_id r = [] then None else Some (wr_message_id r))"
  define t1 where "t1 = t\<lparr>lt_payload := ingest_payload r chat notify source\<rparr>"
  have t: "lt_id t = uuid" "lt_id t1 = uuid" "lt_status t1 = TaskQueued"
    by (simp_all add: t_def t1_def create_local_task_def)
  obtain t2 X2 where two: "submit_task now t1 (Some ?key) (X\<lparr>ex_inflight := insert ?key (ex_inflight X)\<rparr>) = (t2, X2)"
    by fastforce
  obtain t3 X3 where three: "reject_task now t ''ingest already in flight'' X = (t3, X3)" by fastforce
  have sub: "submit_ingest uuid now r chat notify source X =
      (if wr_message_id r = [] then submit_task now t1 None X
       else if ?key \<in> ex_inflight X then (t3, X3)
       else (t2, if lt_status t2 = TaskRejected then X2\<lparr>ex_inflight := ex_inflight X2 - {?key}\<rparr> else X2))"
    by (simp only: submit_ingest_def Let_def t_def [symmetric] t1_def [symmetric] two three prod.case)
  have "exec_inv (if lt_status t2 = TaskRejected then X2\<lparr>ex_inflight := ex_inflight X2 - {?key}\<rparr> else X2)"
    if "?key \<notin> ex_inflight X"
    using exec_inv_submit [OF inv, of t1 "Some ?key" now t2 X2] two fresh t that by (simp split: if_splits)
  moreover have "exec_inv X3" using exec_inv_reject [OF inv _ three] fresh t by simp
  ultimately show ?thesis
    using exec_inv_submit_plain [OF inv, of t1 now] fresh t by (simp add: sub)
qed

lemma take_drop_nth: "i < length xs \<Longrightarrow> xs = take i xs @ xs ! i # drop (Suc i) xs"
  by (simp add: Cons_nth_drop_Suc)

lemma exec_inv_start:
  assumes inv: "exec_inv X"
  shows "\<exists>X'. start_next now X = Inr X' \<and> exec_inv X'"
proof (cases "ex_queue X = [] \<or> length (ex_running X) \<ge> ex_max_workers X")
  case True
  with inv show ?thesis by (auto simp: start_next_def split: list.split)
next
  case False
  then obtain j js where q: "ex_queue X = j # js" by (cases "ex_queue X") auto
  from inv q have "jb_task j \<in> live TaskQueued (ex_registry X)" by (simp add: exec_inv_def)
  then obtain t where t: "map_of (rg_tasks (ex_registry X)) (jb_task j) = Some t" by (auto simp: live_def)
  let ?R = "ex_registry X\<lparr>rg_tasks := AList.update (jb_task j) (started_task now t) (rg_tasks (ex_registry X))\<rparr>"
  let ?X = "X\<lparr>ex_registry := ?R, ex_queue := js, ex_running := ex_running X @ [j]\<rparr>"
  have step: "start_next now X = Inr ?X" using False q t by (simp add: start_next_def registry_mark_running_def)
  have "jb_task j \<notin> live TaskRunning (ex_registry X)"
    using \<open>jb_task j \<in> live TaskQueued (ex_registry X)\<close> by (auto simp: live_def)
  moreover have "registry_ok ?R" using inv by (intro registry_ok_update) (simp_all add: exec_inv_def started_task_def)
  ultimately have "exec_inv ?X"
    using inv False q
    by (simp add: exec_inv_def live_update started_task_def ex_capacity_def ex_enrichment_capacity_def insert_Diff_if
        split: option.splits) auto
  with step show ?thesis by blast
qed

lemma exec_inv_running_perm:
  assumes inv: "exec_inv X" and run: "ex_running X = as @ j # bs"
    and reg: "registry_ok R" "live TaskQueued R = live TaskQueued (ex_registry X)"
      "live TaskRunning R = live TaskRunning (ex_registry X) - {jb_task j}"
  shows "exec_inv (X\<lparr>ex_registry := R, ex_running := as @ bs,
    ex_inflight := (case jb_key j of None \<Rightarrow> ex_inflight X | Some k \<Rightarrow> ex_inflight X - {k}),
    ex_slots := ex_slots X + 1\<rparr>)"
proof -
  have "jb_task j \<notin> jb_task ` set as \<and> jb_task j \<notin> jb_task ` set bs"
    using inv run by (simp add: exec_inv_def)
  then have "jb_task ` set (as @ j # bs) - {jb_task j} = jb_task ` set (as @ bs)"
    by (simp add: image_Un Un_Diff)
  moreover have "(case jb_key j of None \<Rightarrow> ex_inflight X | Some k \<Rightarrow> ex_inflight X - {k}) =
      set (keys_of (ex_queue X @ as @ bs))"
    using inv run by (cases "jb_key j") (auto simp: exec_inv_def)
  moreover have "distinct (keys_of (ex_queue X @ as @ bs))"
    using inv run by (cases "jb_key j") (auto simp: exec_inv_def)
  ultimately show ?thesis
    using inv run reg by (simp add: exec_inv_def ex_capacity_def ex_enrichment_capacity_def)
qed

lemma exec_inv_finish:
  assumes inv: "exec_inv X"
  shows "\<exists>X'. finish_job now i failure X = Inr X' \<and> exec_inv X'"
proof (cases "i < length (ex_running X)")
  case False
  with inv show ?thesis by (simp add: finish_job_def)
next
  case True
  define j where "j = ex_running X ! i"
  have run: "ex_running X = take i (ex_running X) @ j # drop (Suc i) (ex_running X)"
    using take_drop_nth [OF True] by (simp add: j_def)
  have known: "jb_task j \<in> live TaskRunning (ex_registry X)" using inv True by (simp add: exec_inv_def j_def)
  then obtain t where t: "map_of (rg_tasks (ex_registry X)) (jb_task j) = Some t" by (auto simp: live_def)
  have ok: "registry_ok (ex_registry X)" using inv by (simp add: exec_inv_def)
  obtain R where R: "(case failure of None \<Rightarrow> registry_mark_success now (jb_task j) (ex_registry X)
        | Some err \<Rightarrow> registry_mark_failed now (jb_task j) err (ex_registry X)) = Inr R"
    and reg: "registry_ok R" "live TaskQueued R = live TaskQueued (ex_registry X)"
      "live TaskRunning R = live TaskRunning (ex_registry X) - {jb_task j}"
  proof (cases failure)
    case None
    with t show thesis
      using that registry_finish_effect [OF ok known, of "finished_task now TaskSuccess (lt_error t) t"
          "ex_registry X\<lparr>rg_tasks := AList.update (jb_task j) (finished_task now TaskSuccess (lt_error t) t)
             (rg_tasks (ex_registry X)), rg_success := rg_success (ex_registry X) + 1\<rparr>" now]
      by (simp add: registry_mark_success_def finished_task_def)
  next
    case (Some err)
    define R1 where "R1 = ex_registry X\<lparr>rg_tasks := AList.update (jb_task j) (finished_task now TaskFailed (Some err) t)
             (rg_tasks (ex_registry X)), rg_failed := rg_failed (ex_registry X) + 1\<rparr>"
    define R2 where "R2 = (if looks_like_timeout err
       then R1\<lparr>rg_timeout_at := Some (to_ms now), rg_timeout_error := Some err\<rparr> else R1)"
    have "rg_tasks R2 = AList.update (jb_task j) (finished_task now TaskFailed (Some err) t) (rg_tasks (ex_registry X))"
      by (simp add: R2_def R1_def)
    note eff = registry_finish_effect [OF ok known _ this, of now]
    have "registry_mark_failed now (jb_task j) err (ex_registry X) = Inr (prune_finished_tasks now R2)"
      using t by (simp add: registry_mark_failed_def R2_def R1_def Let_def)
    with Some eff show thesis using that by (simp add: finished_task_def)
  qed
  have "ex_slots X < ex_capacity X" using inv True by (simp add: exec_inv_def)
  with R True have "finish_job now i failure X = Inr (X\<lparr>ex_registry := R, ex_running := remove_at i (ex_running X),
      ex_inflight := (case jb_key j of None \<Rightarrow> ex_inflight X | Some k \<Rightarrow> ex_inflight X - {k}),
      ex_slots := ex_slots X + 1\<rparr>)"
    unfolding finish_job_def Let_def j_def [symmetric] by (simp add: semaphore_release_def)
  with exec_inv_running_perm [OF inv run reg] show ?thesis by (simp add: remove_at_def)
qed

lemma exec_inv_submit_enrichment: "exec_inv X \<Longrightarrow> exec_inv (snd (submit_enrichment sid nid X))"
  by (auto simp: submit_enrichment_def exec_inv_def ex_capacity_def ex_enrichment_capacity_def)

lemma exec_inv_start_enrichment: "exec_inv X \<Longrightarrow> exec_inv (start_enrichment X)"
  by (auto simp: start_enrichment_def exec_inv_def ex_capacity_def ex_enrichment_capacity_def split: list.split)

lemma exec_inv_finish_enrichment:
  assumes inv: "exec_inv X"
  shows "\<exists>X'. finish_enrichment i X = Inr X' \<and> exec_inv X'"
proof (cases "i < length (ex_enrichment_running X)")
  case False
  with inv show ?thesis by (simp add: finish_enrichment_def)
next
  case True
  define k where "k = ex_enrichment_running X ! i"
  define as where "as = take i (ex_enrichment_running X)"
  define bs where "bs = drop (Suc i) (ex_enrichment_running X)"
  have run: "ex_enrichment_running X = as @ k # bs"
    using take_drop_nth [OF True] by (simp add: k_def as_def bs_def)
  then have len: "length (ex_enrichment_running X) = Suc (length as + length bs)" by simp
  have "ex_enrichment_slots X < ex_enrichment_capacity X" using inv True by (simp add: exec_inv_def)
  then have "finish_enrichment i X = Inr (X\<lparr>ex_enriching := ex_enriching X - {k},
      ex_enrichment_running := as @ bs, ex_enrichment_slots := ex_enrichment_slots X + 1\<rparr>)"
    using True by (simp add: finish_enrichment_def semaphore_release_def k_def remove_at_def as_def bs_def)
  moreover have "exec_inv (X\<lparr>ex_enriching := ex_enriching X - {k},
      ex_enrichment_running := as @ bs, ex_enrichment_slots := ex_enrichment_slots X + 1\<rparr>)"
    using inv len by (auto simp: exec_inv_def run ex_capacity_def ex_enrichment_capacity_def)
  ultimately show ?thesis by blast
qed

subsection \<open>The state machine\<close>

inductive exec_step :: "executor \<Rightarrow> executor \<Rightarrow> bool" where
  ingest: "map_of (rg_tasks (ex_registry X)) uuid = None \<Longrightarrow>
    exec_step X (snd (submit_ingest uuid now r chat notify source X))"
| question: "map_of (rg_tasks (ex_registry X)) uuid = None \<Longrightarrow>
    exec_step X (snd (submit_query uuid now sid text chat mid user tenant X))"
| summary: "map_of (rg_tasks (ex_registry X)) uuid = None \<Longrightarrow>
    exec_step X (snd (submit_summary uuid now sid rkey chat mid cb key ty X))"
| start: "start_next now X = Inr X' \<Longrightarrow> exec_step X X'"
| finish: "finish_job now i failure X = Inr X' \<Longrightarrow> exec_step X X'"
| enrich: "exec_step X (snd (submit_enrichment sid nid X))"
| start_enrich: "exec_step X (start_enrichment X)"
| finish_enrich: "finish_enrichment i X = Inr X' \<Longrightarrow> exec_step X X'"
| stop: "exec_step X (shutdown_executor X)"

inductive exec_reachable :: "nat \<Rightarrow> nat \<Rightarrow> nat \<Rightarrow> nat \<Rightarrow> nat \<Rightarrow> int \<Rightarrow> executor \<Rightarrow> bool"
  for w q ew eq limit ttl where
  init: "exec_reachable w q ew eq limit ttl (new_executor w q ew eq limit ttl)"
| step: "exec_reachable w q ew eq limit ttl X \<Longrightarrow> exec_step X X' \<Longrightarrow> exec_reachable w q ew eq limit ttl X'"

lemma created_task [simp]:
  "lt_id (create_local_task uuid now ty sid p mid) = uuid"
  "lt_status (create_local_task uuid now ty sid p mid) = TaskQueued"
  by (simp_all add: create_local_task_def)

lemma step_exec_inv: "exec_step X X' \<Longrightarrow> exec_inv X \<Longrightarrow> exec_inv X'"
proof (induction rule: exec_step.induct)
  case question
  then show ?case by (simp add: submit_query_def exec_inv_submit_plain)
next
  case summary
  then show ?case by (simp add: submit_summary_def Let_def exec_inv_submit_plain)
next
  case (start now X X')
  then show ?case using exec_inv_start [of X now] by auto
next
  case (finish now i failure X X')
  then show ?case using exec_inv_finish [of X now i failure] by auto
next
  case (finish_enrich i X X')
  then show ?case using exec_inv_finish_enrichment [of X i] by auto
next
  case stop
  then show ?case by (simp add: shutdown_executor_def exec_inv_def ex_capacity_def ex_enrichment_capacity_def)
qed (simp_all add: exec_inv_ingest exec_inv_submit_enrichment exec_inv_start_enrichment)

lemma reachable_exec_inv: "exec_reachable w q ew eq limit ttl X \<Longrightarrow> exec_inv X"
  by (induction rule: exec_reachable.induct) (auto simp: new_executor_inv step_exec_inv)

end
