(* ===== verification/Executor_Guarantees.thy ===== *)
theory Executor_Guarantees
  imports Executor_Invariant
begin

text \<open>
  The properties of the bounded executor: its slots and its statistics are exact, a message is
  ingested by one job at a time, the bookkeeping never raises and the history stays bounded.
\<close>

lemma reject_frame [simp]:
  "ex_max_workers (snd (reject_task now t err X)) = ex_max_workers X"
  "ex_queue_size (snd (reject_task now t err X)) = ex_queue_size X"
  "ex_enrichment_workers (snd (reject_task now t err X)) = ex_enrichment_workers X"
  "ex_enrichment_queue_size (snd (reject_task now t err X)) = ex_enrichment_queue_size X"
  "rg_limit (ex_registry (snd (reject_task now t err X))) = rg_limit (ex_registry X)"
  by (simp_all add: reject_task_def registry_reject_def put_task_def Let_def)

definition limits_of :: "executor \<Rightarrow> nat \<times> nat \<times> nat \<times> nat \<times> nat" where
  "limits_of X = (ex_max_workers X, ex_queue_size X, ex_enrichment_workers X,
     ex_enrichment_queue_size X, rg_limit (ex_registry X))"

lemma submit_limits [simp]: "limits_of (snd (submit_task now t key X)) = limits_of X"
  by (simp add: limits_of_def submit_task_def registry_add_def put_task_def)

lemma ingest_limits [simp]: "limits_of (snd (submit_ingest uuid now r chat notify source X)) = limits_of X"
proof -
  have inflight: "limits_of (Y\<lparr>ex_inflight := S\<rparr>) = limits_of Y" for Y S by (simp add: limits_of_def)
  have reject: "limits_of (snd (reject_task now t err X)) = limits_of X" for t err by (simp add: limits_of_def)
  have "limits_of Y = limits_of X" if "submit_task now t key (X\<lparr>ex_inflight := S\<rparr>) = (t', Y)" for t key S t' Y
    using submit_limits [of now t key "X\<lparr>ex_inflight := S\<rparr>"] that inflight by simp
  then show ?thesis by (auto simp: submit_ingest_def Let_def reject inflight split: prod.split)
qed

lemma mark_limits:
  "registry_mark_running now tid R = Inr R' \<Longrightarrow> rg_limit R' = rg_limit R"
  "registry_mark_success now tid R = Inr R' \<Longrightarrow> rg_limit R' = rg_limit R"
  "registry_mark_failed now tid err R = Inr R' \<Longrightarrow> rg_limit R' = rg_limit R"
  by (auto simp: registry_mark_running_def registry_mark_success_def registry_mark_failed_def Let_def
      split: option.splits)

lemma step_limits: "exec_step X X' \<Longrightarrow> limits_of X' = limits_of X"
proof (induction rule: exec_step.induct)
  case (start now X X')
  then show ?case by (auto simp: start_next_def limits_of_def mark_limits split: list.splits if_splits sum.splits)
next
  case (finish now i failure X X')
  then show ?case
    by (auto simp: finish_job_def Let_def limits_of_def mark_limits split: if_splits sum.splits option.splits)
next
  case (finish_enrich i X X')
  then show ?case by (auto simp: finish_enrichment_def limits_of_def split: if_splits sum.splits)
next
  case (start_enrich X)
  then show ?case by (simp add: start_enrichment_def limits_of_def split: list.split)
qed (simp_all add: submit_query_def submit_summary_def Let_def submit_enrichment_def shutdown_executor_def,
     simp_all add: limits_of_def)

lemma reachable_limits: "exec_reachable w q ew eq limit ttl X \<Longrightarrow> limits_of X = (w, q, ew, eq, limit)"
proof (induction rule: exec_reachable.induct)
  case init
  show ?case by (simp add: limits_of_def new_executor_def new_registry_def)
qed (simp add: step_limits)

lemma live_count:
  assumes "distinct (map fst (rg_tasks R))"
  shows "length (filter (\<lambda>t. lt_status t = st) (map snd (rg_tasks R))) = card (live st R)"
proof -
  have "live st R = set (map fst (filter (\<lambda>(k, t). lt_status t = st) (rg_tasks R)))"
    using assms by (force simp: live_def)
  moreover have "distinct (map fst (filter (\<lambda>(k, t). lt_status t = st) (rg_tasks R)))"
    using assms by (simp add: distinct_map_filter)
  ultimately have "card (live st R) = length (filter (\<lambda>(k, t). lt_status t = st) (rg_tasks R))"
    by (metis distinct_card length_map)
  then show ?thesis by (simp add: filter_map o_def case_prod_unfold)
qed

text \<open>
  C31: the executor's accounts are exact. In every reachable state the free slots, the queued and
  the running jobs make up the capacity, at most \<open>max_workers\<close> jobs run, the same holds for the
  enrichment pool, and the statistics of the registry count exactly the jobs that wait and run: no
  slot is lost or gained on any path, rejections, failures and the shutdown included.
\<close>

theorem executor_accounts:
  assumes "exec_reachable w q ew eq limit ttl X"
  shows "ex_slots X + length (ex_queue X) + length (ex_running X) = w + q \<and>
    length (ex_running X) \<le> w \<and>
    ex_enrichment_slots X + card (ex_enriching X) = ew + eq \<and>
    st_queued (registry_stats_of now (ex_registry X)) = length (ex_queue X) \<and>
    st_running (registry_stats_of now (ex_registry X)) = length (ex_running X)"
proof -
  note inv = reachable_exec_inv [OF assms, unfolded exec_inv_def] and lim = reachable_limits [OF assms]
  from inv have "card (live TaskQueued (ex_registry X)) = length (ex_queue X)"
    "card (live TaskRunning (ex_registry X)) = length (ex_running X)"
    by (metis distinct_card length_map)+
  moreover from inv have "card (ex_enriching X) = length (ex_enrichment_queue X) + length (ex_enrichment_running X)"
    by (metis distinct_card length_append)
  ultimately show ?thesis
    using inv lim live_count [of "ex_registry X"]
    by (simp add: registry_stats_of_def Let_def registry_ok_def limits_of_def ex_capacity_def ex_enrichment_capacity_def)
qed

text \<open>
  C32: one job per message. In every reachable state the unfinished ingest jobs are for different
  messages, and a message is reported in flight exactly while such a job waits or runs, so the key
  of a finished, failed or rejected job is always given back.
\<close>

theorem one_job_per_message:
  assumes "exec_reachable w q ew eq limit ttl X"
  shows "distinct (List.map_filter jb_key (ex_queue X @ ex_running X)) \<and>
    (key \<in> ex_inflight X) = list_ex (\<lambda>j. jb_key j = Some key) (ex_queue X @ ex_running X)"
proof -
  have mem: "k \<in> set (List.map_filter jb_key js) \<longleftrightarrow> list_ex (\<lambda>j. jb_key j = Some k) js" for k js
    by (induction js) (auto simp: map_filter_simps split: option.splits)
  have "distinct (List.map_filter jb_key (ex_queue X @ ex_running X))"
    "ex_inflight X = set (List.map_filter jb_key (ex_queue X @ ex_running X))"
    using reachable_exec_inv [OF assms] by (simp_all add: exec_inv_def keys_of_def)
  then show ?thesis unfolding mem [symmetric] by blast
qed

text \<open>
  The bookkeeping of the threads never raises. In every reachable state the task of the next
  job and of every running job is still in the registry (pruning never removes an unfinished task),
  and no semaphore is released beyond its initial value.
\<close>

theorem threads_never_raise:
  assumes "exec_reachable w q ew eq limit ttl X"
  shows "\<exists>X1 X2 X3. start_next now X = Inr X1 \<and> finish_job now i failure X = Inr X2 \<and>
    finish_enrichment i X = Inr X3"
  using exec_inv_start exec_inv_finish exec_inv_finish_enrichment reachable_exec_inv [OF assms] by blast

text \<open>
  The history is bounded and loses no live task. In every reachable state the registry holds
  at most \<open>history_limit\<close> successful or rejected tasks, and every waiting or running job has its
  task there under the right status.
\<close>

theorem history_bounded:
  assumes "exec_reachable w q ew eq limit ttl X"
  shows "length (filter (\<lambda>(k, t). lt_status t \<in> {TaskSuccess, TaskRejected}) (rg_tasks (ex_registry X))) \<le> limit \<and>
    list_all (\<lambda>j. map_option lt_status (map_of (rg_tasks (ex_registry X)) (jb_task j)) = Some TaskQueued) (ex_queue X) \<and>
    list_all (\<lambda>j. map_option lt_status (map_of (rg_tasks (ex_registry X)) (jb_task j)) = Some TaskRunning) (ex_running X)"
proof -
  note inv = reachable_exec_inv [OF assms, unfolded exec_inv_def] and lim = reachable_limits [OF assms]
  have "list_all (\<lambda>j. map_option lt_status (map_of (rg_tasks R) (jb_task j)) = Some st) js"
    if "live st R = set (map jb_task js)" for R st js
  proof -
    have "jb_task j \<in> live st R" if "j \<in> set js" for j using that \<open>live st R = _\<close> by simp
    then show ?thesis by (auto simp: live_def list_all_iff)
  qed
  note found = this
  have "live TaskQueued (ex_registry X) = set (map jb_task (ex_queue X))"
    "live TaskRunning (ex_registry X) = set (map jb_task (ex_running X))"
    "length (settled_history (ex_registry X)) \<le> limit"
    using inv lim by (simp_all add: registry_ok_def limits_of_def)
  with found show ?thesis unfolding settled_history_def by blast
qed

subsection \<open>A run\<close>

definition demo_record :: wal_record where
  "demo_record = create_pending_record ''r1'' 0 ''m1'' ''p_1'' ''tea at four'' None None ''p2p'' []"

definition demo_submitted :: executor where
  "demo_submitted = snd (submit_ingest ''t1'' 0 demo_record None False ''direct'' (new_executor 1 1 1 1 2 24))"

definition demo_running :: executor where
  "demo_running = (case start_next 1000 demo_submitted of Inr X \<Rightarrow> X | Inl e \<Rightarrow> demo_submitted)"

lemma demo_reachable: "exec_reachable 1 1 1 1 2 24 demo_running"
proof -
  have "exec_step (new_executor 1 1 1 1 2 24) demo_submitted"
    unfolding demo_submitted_def by (rule exec_step.ingest) code_simp
  then have r: "exec_reachable 1 1 1 1 2 24 demo_submitted" by (rule exec_reachable.step [OF exec_reachable.init])
  obtain X where "start_next 1000 demo_submitted = Inr X"
    using exec_inv_start [OF reachable_exec_inv [OF r]] by blast
  then have "exec_step demo_submitted demo_running" by (simp add: demo_running_def exec_step.start)
  with r show ?thesis by (rule exec_reachable.step)
qed

lemma executor_accounts_witness:
  "ex_slots demo_running = 1 \<and> st_running (registry_stats_of 5 (ex_registry demo_running)) = 1"
proof -
  have "length (ex_queue demo_running) = 0 \<and> length (ex_running demo_running) = 1" by code_simp
  with executor_accounts [OF demo_reachable, of 5] show ?thesis by simp
qed

lemma one_job_per_message_witness: "(''p_1'', ''m1'') \<in> ex_inflight demo_running"
proof -
  have "list_ex (\<lambda>j. jb_key j = Some (''p_1'', ''m1'')) (ex_queue demo_running @ ex_running demo_running)" by code_simp
  with one_job_per_message [OF demo_reachable, of "(''p_1'', ''m1'')"] show ?thesis by blast
qed

lemma threads_never_raise_witness:
  "\<exists>X1 X2 X3. start_next 9 demo_running = Inr X1 \<and> finish_job 9 0 (Some ''TimeoutError: x'') demo_running = Inr X2 \<and>
    finish_enrichment 0 demo_running = Inr X3"
  by (rule threads_never_raise [OF demo_reachable])

lemma history_bounded_witness:
  "map_option lt_status (map_of (rg_tasks (ex_registry demo_running)) ''t1'') = Some TaskRunning"
proof -
  have "ex_running demo_running = [\<lparr>jb_task = ''t1'', jb_key = Some (''p_1'', ''m1'')\<rparr>]" by code_simp
  with history_bounded [OF demo_reachable] show ?thesis by simp
qed

text \<open>
  The drainer looks a message up under the name of the log file. For a space whose name is not its
  file name an in-flight message is not recognised, its submission is rejected, and the rejection
  ends the whole tick: the other spaces are not drained.
\<close>

lemma drain_stops_early:
  "let r1 = create_pending_record ''r1'' 0 ''m1'' ''a:b'' ''x'' None None ''p2p'' [];
       r2 = create_pending_record ''r2'' 0 ''m2'' ''z'' ''y'' None None ''p2p'' [];
       W = wal_append_record r2 (wal_append_record r1 []);
       X = snd (submit_ingest ''t1'' 0 r1 None False ''direct'' (new_executor 4 100 2 50 1000 24))
   in fst (pending_drain_once 20 1 W [''t2'', ''t3''] X) = 0"
  by code_simp

end
