(* ===== verification/Inbox_Repo.thy ===== *)
theory Inbox_Repo
  imports Tasks
begin

text \<open>
  \<open>repositories/postgres/inbox.py\<close>: the inbox as the note pipeline of a single process uses it
  (append, list, mark), and the search for the previous messages of a sender. A record is the
  Python dictionary; its \<open>ts\<close> is a number, like every timestamp in a payload.
\<close>

definition as_record :: "inbox_row \<Rightarrow> payload" where
  "as_record row =
     [(''id'', JStr (inbox_id row)), (''source'', JStr (inbox_source row)),
      (''event_id'', opt_json (source_event_id row)),
      (''message_id'', JStr (inbox_source_message_id row)),
      (''space_id'', JStr (inbox_space_id row)),
      (''chat_id'', opt_json (chat_id row)), (''chat_type'', opt_json (chat_type row)),
      (''sender'', JObj (sender_json row)), (''ts'', JInt (received_at row)),
      (''text'', JStr (inbox_text row)),
      (''status'', JStr (inbox_status_str (inbox_status row))),
      (''sensitivity'', JStr (sensitivity row))]"

definition inbox_status_of :: "string \<Rightarrow> inbox_status" where
  "inbox_status_of st =
     (if st = ''pending'' then InboxPending else if st = ''processed'' then InboxProcessed
      else if st = ''failed'' then InboxFailed
      else if st = ''blocked_sensitive'' then InboxBlockedSensitive
      else if st = ''skipped_command'' then InboxSkippedCommand else InboxOther st)"

text \<open>The idiom \<open>str(x or d)\<close>.\<close>

definition text_or :: "string \<Rightarrow> json \<Rightarrow> string" where
  "text_or d v = (if truthy v then py_str v else d)"

definition parse_ts :: "time \<Rightarrow> json \<Rightarrow> time" where
  "parse_ts now v = (case v of JInt t \<Rightarrow> if t = 0 then now else t | _ \<Rightarrow> now)"

text \<open>
  INSERT ... ON CONFLICT on the constraint \<open>uq_inbox_tenant_source_message\<close> DO NOTHING: the arbiter
  index is probed first, every other unique index still raises.
\<close>

definition insert_inbox_once :: "inbox_row \<Rightarrow> db \<Rightarrow> bool result" where
  "insert_inbox_once r s =
     (if \<exists>q \<in> set (inbox s). inbox_tenant_id q = inbox_tenant_id r \<and>
          inbox_source q = inbox_source r \<and> inbox_source_message_id q = inbox_source_message_id r
      then Inr (False, s)
      else case insert_inbox r s of Inl e \<Rightarrow> Inl e | Inr (_, s') \<Rightarrow> Inr (True, s'))"

definition append_message_once :: "env \<Rightarrow> time \<Rightarrow> payload \<Rightarrow> db \<Rightarrow> bool result" where
  "append_message_once E now values s =
     (let source = text_or ''feishu'' (pget values ''source'');
          sender = obj_of (pget values ''sender'');
          tenant = (if truthy (pget values ''tenant_id'') then py_str (pget values ''tenant_id'')
                    else text_or ''default'' (pget sender ''tenant_key''))
      in if map_of values ''space_id'' = None then Inl (KeyError ''space_id'')
         else case ensure_tenant_space E (py_str (pget values ''space_id'')) tenant source [] s of
           Inl e \<Rightarrow> Inl e
         | Inr (sid, s1) \<Rightarrow>
           (case required_keys [''id'', ''message_id''] values of
              Some k \<Rightarrow> Inl (KeyError k)
            | None \<Rightarrow> insert_inbox_once
                \<lparr>inbox_id = py_str (pget values ''id''), inbox_source = source,
                 inbox_source_message_id = py_str (pget values ''message_id''),
                 source_event_id = str_option (pget values ''event_id''), inbox_tenant_id = tenant,
                 inbox_space_id = sid, chat_id = str_option (pget values ''chat_id''),
                 chat_type = str_option (pget values ''chat_type''), sender_json = sender,
                 inbox_text = text_or [] (pget values ''text''),
                 received_at = parse_ts now (pget values ''ts''),
                 inbox_status = inbox_status_of (text_or ''pending'' (pget values ''status'')),
                 sensitivity = text_or ''normal'' (pget values ''sensitivity''),
                 sequence_no = next_sequence_no sid s1,
                 note_status = StagePending, memory_status = StagePending,
                 note_completed_at = None, memory_completed_at = None\<rparr> s1))"

definition append_record :: "env \<Rightarrow> time \<Rightarrow> payload \<Rightarrow> db \<Rightarrow> unit result" where
  "append_record E now values s =
     (case append_message_once E now values s of Inl e \<Rightarrow> Inl e | Inr (_, s') \<Rightarrow> Inr ((), s'))"

definition list_wal_space_ids :: "db \<Rightarrow> string list" where
  "list_wal_space_ids s = sort (remdups (map inbox_space_id (inbox s)))"

definition load_records :: "string \<Rightarrow> db \<Rightarrow> payload list" where
  "load_records sid s = map as_record (sort_key sequence_no (space_inbox sid s))"

definition load_pending_records :: "string \<Rightarrow> db \<Rightarrow> payload list" where
  "load_pending_records sid s = map as_record
     (sort_key sequence_no (filter (\<lambda>r. inbox_status r = InboxPending) (space_inbox sid s)))"

definition message_exists :: "env \<Rightarrow> string \<Rightarrow> string \<Rightarrow> db \<Rightarrow> bool result" where
  "message_exists E sid mid s =
     (case ensure_tenant_space E sid ''default'' ''feishu'' [] s of
        Inl e \<Rightarrow> Inl e
      | Inr (rsid, s1) \<Rightarrow>
          Inr (\<exists>r \<in> set (inbox s1). inbox_space_id r = rsid \<and> inbox_source_message_id r = mid, s1))"

definition mark_processed :: "string \<Rightarrow> string \<Rightarrow> db \<Rightarrow> db" where
  "mark_processed sid rid s = s\<lparr>inbox :=
     upd_where (\<lambda>r. inbox_space_id r = sid \<and> inbox_id r = rid)
       (\<lambda>r. r\<lparr>inbox_status := InboxProcessed\<rparr>) (inbox s)\<rparr>"

definition mark_sensitive_blocked :: "string \<Rightarrow> string \<Rightarrow> string \<Rightarrow> bool \<Rightarrow> db \<Rightarrow> db" where
  "mark_sensitive_blocked sid rid category preserve_pending s = s\<lparr>inbox :=
     upd_where (\<lambda>r. inbox_space_id r = sid \<and> inbox_id r = rid)
       (\<lambda>r. r\<lparr>inbox_text := redacted_text,
          inbox_status := (if preserve_pending then InboxPending else InboxBlockedSensitive),
          sensitivity := (if category = [] then ''sensitive'' else category)\<rparr>) (inbox s)\<rparr>"

subsection \<open>The previous messages of a sender\<close>

definition identity_keys :: "string list" where
  "identity_keys = [''user_id'', ''open_id'', ''union_id'', ''source_user_id'', ''id'']"

text \<open>\<open>next((str(sender.get(key) or "") for key in identity_keys if sender.get(key)), "")\<close>\<close>

definition sender_identity :: "payload \<Rightarrow> string" where
  "sender_identity sender =
     (case find (\<lambda>k. truthy (pget sender k)) identity_keys of
        None \<Rightarrow> [] | Some k \<Rightarrow> str_or_empty (pget sender k))"

definition blank :: "char \<Rightarrow> bool" where
  "blank c = (c \<in> set [CHR 0x20, CHR 0x09, CHR 0x0D, CHR 0x0A])"

definition ltrim :: "string \<Rightarrow> string" where
  "ltrim s = dropWhile blank s"

text \<open>The WHERE clause: a normal, non-empty message that is no slash command.\<close>

definition ordinary_message :: "string \<Rightarrow> string \<Rightarrow> int \<Rightarrow> inbox_row \<Rightarrow> bool" where
  "ordinary_message tenant sid seq r \<longleftrightarrow>
     inbox_tenant_id r = tenant \<and> inbox_space_id r = sid \<and> sequence_no r < seq \<and>
     sensitivity r = ''normal'' \<and> ltrim (inbox_text r) \<noteq> [] \<and>
     take 1 (ltrim (inbox_text r)) \<noteq> ''/''"

definition sender_kind :: "payload \<Rightarrow> string" where
  "sender_kind sender = py_lower
     (if truthy (pget sender ''sender_type'') then py_str (pget sender ''sender_type'')
      else text_or ''user'' (pget sender ''type''))"

definition from_same_user :: "string \<Rightarrow> inbox_row \<Rightarrow> bool" where
  "from_same_user who r \<longleftrightarrow> sender_identity (sender_json r) = who \<and>
     sender_kind (sender_json r) \<notin> {''bot'', ''system'', ''assistant''}"

definition previous_rows ::
  "string \<Rightarrow> int \<Rightarrow> payload \<Rightarrow> string \<Rightarrow> int \<Rightarrow> db \<Rightarrow> inbox_row list" where
  "previous_rows sid seq sender tenant limit s =
     (let who = sender_identity sender;
          latest = take 12 (sort_key (\<lambda>r. - sequence_no r)
            (filter (ordinary_message tenant sid seq) (inbox s)))
      in if who = [] \<or> seq \<le> 0 then []
         else take (nat (max 1 (min limit 3))) (filter (from_same_user who) latest))"

definition load_previous_user_messages ::
  "string \<Rightarrow> int \<Rightarrow> payload \<Rightarrow> string \<Rightarrow> int \<Rightarrow> db \<Rightarrow> payload list" where
  "load_previous_user_messages sid seq sender tenant limit s =
     map (\<lambda>(i, r). [(''note_id'', JStr (inbox_id r)), (''sequence_no'', JInt (sequence_no r)),
         (''text'', JStr (inbox_text r)), (''offset'', JInt (- (int i + 1)))])
       (enumerate 0 (previous_rows sid seq sender tenant limit s))"

end
