(* ===== verification/Handlers.thy ===== *)
theory Handlers
  imports Inbox_Repo Delivery
begin

text \<open>
  The task handlers of the stream workers (\<open>apps/handlers.py\<close>). A handler reads a claimed task row,
  runs transactions of its own and ends in a \<open>handler_result\<close>: an outcome for \<open>complete_task\<close>, a
  request to run again later, or an exception. Transactions that committed before an exception stay.

  Calls that leave the modelled code (language models, the chat platform, note processing) are
  the fields of \<open>services\<close>; each may change the database and may raise. \<open>app\<close> adds to the
  database what the handlers send outside: the texts given to \<open>send_text\<close> (with the delivery key
  they were sent under), the answers shown on the console page and the summaries marked as sent.
  The locks around note processing are in \<open>Coordination\<close>; the tracing spans are not modelled, and
  \<open>guarded_handler\<close> is the identity when its two feature flags are off, as they are by default;
  it is modelled in \<open>Memory_Workflow\<close>.
\<close>

record app =
  store :: delivery_db
  sent_texts :: "(string \<times> string \<times> string) list"
  page_answers :: "(payload \<times> string) list"
  summary_marks :: "(string \<times> string) list"

type_synonym 'a call = "db \<Rightarrow> (string + 'a) \<times> db"

record services =
  execute_command :: "string \<Rightarrow> string \<Rightarrow> string \<Rightarrow> string option \<Rightarrow> string call"
  answer_question :: "task_row \<Rightarrow> string \<Rightarrow> string call"
  snapshot_answer :: "task_row \<Rightarrow> string \<Rightarrow> unit call"
  generate_summary :: "task_row \<Rightarrow> string \<Rightarrow> string call"
  process_record :: "payload \<Rightarrow> payload option call"
  may_contain_memory :: "payload \<Rightarrow> bool"
  process_note_memory :: "payload \<Rightarrow> payload list \<Rightarrow> unit call"
  find_note :: "string \<Rightarrow> string \<Rightarrow> payload option"
  find_note_content :: "string \<Rightarrow> string \<Rightarrow> payload option"
  enrich_note :: "string \<Rightarrow> string \<Rightarrow> unit call"
  is_evaluation_space :: "string \<Rightarrow> bool"
  consolidate_facts :: "string \<Rightarrow> string \<Rightarrow> string \<Rightarrow> string call"
  consolidate_memories :: "string \<Rightarrow> string \<Rightarrow> unit call"
  maintain_preferences :: "string \<Rightarrow> unit call"
  embed_memory :: "task_row \<Rightarrow> unit call"
  projection_wait :: "string \<Rightarrow> string \<Rightarrow> db \<Rightarrow> int"
  refresh_projection :: "string \<Rightarrow> string \<Rightarrow> unit call"

record flags =
  fake_externals :: bool
  preference_cards :: bool
  auto_consolidation :: bool
  fact_memory :: bool

datatype handler_result =
    Outcome outcome
  | NoOutcome
  | BadOutcome string
  | Later string int
  | Raised string

datatype send_result = SendOk | SendTimeout string | SendError string

definition no_outcome_fields :: outcome where
  "no_outcome_fields = \<lparr>release_inbox_id = None, activate_task_id = None,
     note_ready_inbox_id = None, memory_ready_inbox_id = None, ingest_complete_inbox_id = None\<rparr>"

text \<open>\<open>f"{type(exc).__name__}: {exc}"\<close>\<close>

fun error_text :: "db_error \<Rightarrow> string" where
  "error_text (ValueError m) = ''ValueError: '' @ m"
| "error_text (KeyError k) = ''KeyError: '' @ [CHR 0x27] @ k @ [CHR 0x27]"
| "error_text (IntegrityError m) = ''IntegrityError: '' @ m"
| "error_text (NoResultFound m) = ''NoResultFound: '' @ m"
| "error_text (MultipleResultsFound m) = ''MultipleResultsFound: '' @ m"

definition tenant_of :: "task_row \<Rightarrow> string" where
  "tenant_of t = (if task_tenant_id t = [] then ''default'' else task_tenant_id t)"

definition core :: "app \<Rightarrow> db" where
  "core A = dv_core (store A)"

definition with_core :: "db \<Rightarrow> app \<Rightarrow> app" where
  "with_core s A = A\<lparr>store := (store A)\<lparr>dv_core := s\<rparr>\<rparr>"

definition call_service :: "'a call \<Rightarrow> app \<Rightarrow> (string + 'a) \<times> app" where
  "call_service f A = (let (r, s) = f (core A) in (r, with_core s A))"

definition non_empty :: "string \<Rightarrow> string option" where
  "non_empty x = (if x = [] then None else Some x)"

subsection \<open>Sending\<close>

definition note_summary_sent :: "task_row \<Rightarrow> payload \<Rightarrow> app \<Rightarrow> app" where
  "note_summary_sent t p A =
     (if pget p ''delivery_type'' = JStr ''auto_summary'' \<and> truthy (pget p ''sent_date'')
      then A\<lparr>summary_marks := summary_marks A @ [(task_space_id t, py_str (pget p ''sent_date''))]\<rparr>
      else A)"

definition for_console :: "payload \<Rightarrow> bool" where
  "for_console p \<longleftrightarrow> pget p ''reply_channel'' = JStr ''console'' \<or>
     take 8 (str_or_empty (pget p ''chat_id'')) = ''console:''"

definition delivery_followup :: "task_row \<Rightarrow> string \<Rightarrow> payload \<Rightarrow> payload" where
  "delivery_followup t text p =
     [(''chat_id'', JStr (py_str (pget p ''chat_id''))), (''text'', JStr text),
      (''delivery_key'', JStr (py_str (pget p ''delivery_key''))),
      (''delivery_type'', JStr (text_or ''message'' (pget p ''delivery_type''))),
      (''message_id'', opt_json (source_message_id t)), (''sent_date'', pget p ''sent_date'')]"

definition enqueue_delivery ::
  "env \<Rightarrow> time \<Rightarrow> payload \<Rightarrow> task_row \<Rightarrow> string \<Rightarrow> payload \<Rightarrow> app \<Rightarrow> db_error + app" where
  "enqueue_delivery E now ctx t text p A =
     (if ctx \<noteq> [] \<and> for_console p
      then Inr (note_summary_sent t p (A\<lparr>page_answers := page_answers A @ [(ctx, text)]\<rparr>))
      else case required_keys [''delivery_key'', ''chat_id''] p of
        Some k \<Rightarrow> Inl (KeyError k)
      | None \<Rightarrow>
        (case enqueue_task E now ctx ''delivery'' (task_space_id t)
             (''delivery:'' @ py_str (pget p ''delivery_key'')) (delivery_followup t text p)
             (tenant_of t) (source_message_id t) 0 5 Queued True (core A) of
           Inl e \<Rightarrow> Inl e
         | Inr (_, s) \<Rightarrow> Inr (with_core s A)))"

definition handle_delivery ::
  "env \<Rightarrow> flags \<Rightarrow> send_result \<Rightarrow> time \<Rightarrow> time \<Rightarrow> task_row \<Rightarrow> app \<Rightarrow> handler_result \<times> app" where
  "handle_delivery E fl sr t0 t1 t A =
     (let p = payload_json t in
      if map_of p ''delivery_key'' = None
      then (Raised (error_text (KeyError ''delivery_key'')), A)
      else let key = py_str (pget p ''delivery_key'') in
      case pg_reserve_delivery E key (text_or ''message'' (pget p ''delivery_type''))
          (task_space_id t) (str_option (pget p ''message_id'')) (tenant_of t) t0 (store A) of
        Inl e \<Rightarrow> (Raised (error_text e), A)
      | Inr (None, S) \<Rightarrow>
          (if (case pg_get_delivery S key of None \<Rightarrow> False
               | Some d \<Rightarrow> dr_status d \<in> {Sent, Unknown})
           then (NoOutcome, A\<lparr>store := S\<rparr>)
           else (Later ''delivery is already reserved'' second, A\<lparr>store := S\<rparr>))
      | Inr (Some _, S) \<Rightarrow>
          if fake_externals fl
          then (NoOutcome, note_summary_sent t p (A\<lparr>store := pg_mark_sent key t1 S\<rparr>))
          else case required_keys [''chat_id'', ''text''] p of
            Some k \<Rightarrow> (Raised (error_text (KeyError k)),
              A\<lparr>store := pg_mark_failed key (error_text (KeyError k)) t1 S\<rparr>)
          | None \<Rightarrow>
            (let A1 = A\<lparr>sent_texts := sent_texts A @
                   [(key, py_str (pget p ''chat_id''), py_str (pget p ''text''))]\<rparr>
             in case sr of
               SendTimeout name \<Rightarrow> (NoOutcome, A1\<lparr>store := pg_mark_unknown key name t1 S\<rparr>)
             | SendError err \<Rightarrow> (Raised err, A1\<lparr>store := pg_mark_failed key err t1 S\<rparr>)
             | SendOk \<Rightarrow>
                 (NoOutcome, note_summary_sent t p (A1\<lparr>store := pg_mark_sent key t1 S\<rparr>))))"

subsection \<open>Questions and summaries\<close>

definition reply_with ::
  "env \<Rightarrow> time \<Rightarrow> payload \<Rightarrow> task_row \<Rightarrow> (string + string) \<times> app \<Rightarrow> handler_result \<times> app" where
  "reply_with E now ctx t ra =
     (case fst ra of
        Inl err \<Rightarrow> (Raised err, snd ra)
      | Inr text \<Rightarrow>
        (case enqueue_delivery E now ctx t text (payload_json t) (snd ra) of
           Inl e \<Rightarrow> (Raised (error_text e), snd ra)
         | Inr A \<Rightarrow> (Outcome (no_outcome_fields\<lparr>release_inbox_id :=
               non_empty (str_or_empty (pget (payload_json t) ''inbox_id''))\<rparr>), A)))"

text \<open>With preference cards on, the answer is kept as the snapshot of the task before it is sent.\<close>

definition keep_snapshot ::
  "services \<Rightarrow> flags \<Rightarrow> task_row \<Rightarrow> (string + string) \<times> app \<Rightarrow> (string + string) \<times> app" where
  "keep_snapshot sv fl t ra =
     (case fst ra of
        Inl err \<Rightarrow> ra
      | Inr answer \<Rightarrow>
        if \<not> preference_cards fl then ra
        else (case call_service (snapshot_answer sv t answer) (snd ra) of
                (Inl err, A) \<Rightarrow> (Inl err, A)
              | (Inr _, A) \<Rightarrow> (Inr answer, A)))"

definition handle_query ::
  "env \<Rightarrow> services \<Rightarrow> flags \<Rightarrow> time \<Rightarrow> payload \<Rightarrow> task_row \<Rightarrow> app \<Rightarrow> handler_result \<times> app" where
  "handle_query E sv fl now ctx t A =
     (let p = payload_json t in reply_with E now ctx t (keep_snapshot sv fl t
        (if truthy (pget p ''console_command'')
         then call_service (execute_command sv (task_space_id t)
                (py_str (pget p ''console_command'')) (tenant_of t) (source_message_id t)) A
         else if map_of p ''question'' = None
         then (Inl (error_text (KeyError ''question'')), A)
         else if fake_externals fl
         then (Inr (''[stage4 fake answer] '' @ take 120 (py_str (pget p ''question''))), A)
         else call_service (answer_question sv t (py_str (pget p ''question''))) A)))"

definition handle_summary ::
  "env \<Rightarrow> services \<Rightarrow> flags \<Rightarrow> time \<Rightarrow> payload \<Rightarrow> task_row \<Rightarrow> app \<Rightarrow> handler_result \<times> app" where
  "handle_summary E sv fl now ctx t A =
     (let p = payload_json t in reply_with E now ctx t
        (if map_of p ''range_key'' = None
         then (Inl (error_text (KeyError ''range_key'')), A)
         else if fake_externals fl
         then (Inr (''[stage4 fake summary] range='' @ py_str (pget p ''range_key'')), A)
         else call_service (generate_summary sv t (py_str (pget p ''range_key''))) A))"

subsection \<open>Notes\<close>

definition memory_payload :: "task_row \<Rightarrow> string \<Rightarrow> string \<Rightarrow> payload" where
  "memory_payload t note_id iid =
     [(''operation'', JStr ''extract''), (''note_id'', JStr note_id),
      (''barrier_inbox_id'', JStr iid), (''parent_task_id'', JStr (task_id t)),
      (''sequence_no'', JInt (int_or 0 (pget (payload_json t) ''sequence_no'')))]"

text \<open>The body of \<open>if note is not None\<close>: the identifier of the task that holds the barrier, if any.\<close>

definition ingest_note ::
  "env \<Rightarrow> services \<Rightarrow> flags \<Rightarrow> time \<Rightarrow> payload \<Rightarrow> task_row \<Rightarrow> string \<Rightarrow> payload \<Rightarrow> app \<Rightarrow>
     (string + string option) \<times> app" where
  "ingest_note E sv fl now ctx t iid note A =
     (if map_of note ''id'' = None then (Inl (error_text (KeyError ''id'')), A)
      else
        let note_id = py_str (pget note ''id'');
            (critical, A1) =
              (if \<not> preference_cards fl \<and> \<not> may_contain_memory sv note
               then (case call_service (process_note_memory sv note []) A of
                       (Inl err, A1) \<Rightarrow> (Inl err, A1)
                     | (Inr _, A1) \<Rightarrow> (Inr None, A1))
               else (case enqueue_task E now ctx ''memory'' (task_space_id t)
                         (''memory:extract:'' @ note_id) (memory_payload t note_id iid)
                         (tenant_of t) (source_message_id t) 0 5 Queued True (core A) of
                       Inl e \<Rightarrow> (Inl (error_text e), A)
                     | Inr ((tid, _), s) \<Rightarrow> (Inr (Some tid), with_core s A)))
        in case critical of
             Inl err \<Rightarrow> (Inl err, A1)
           | Inr c \<Rightarrow>
             (case enqueue_task E now ctx ''enrichment'' (task_space_id t)
                  (''enrichment:'' @ note_id)
                  [(''operation'', JStr ''enrich''), (''note_id'', JStr note_id)]
                  (tenant_of t) (source_message_id t) 0 5 Queued True (core A1) of
                Inl e \<Rightarrow> (Inl (error_text e), A1)
              | Inr (_, s) \<Rightarrow> (Inr c, with_core s A1)))"

text \<open>The confirmation is the UTF-8 text of the literal in the source.\<close>

definition archived_text :: string where
  "archived_text = map char_of [
     229::nat, 183, 178, 230, 149, 180, 231, 144, 134, 229, 136, 176,
     233, 154, 143, 229, 191, 131, 232, 174, 176, 227, 128, 130]"

definition archived_payload :: "task_row \<Rightarrow> payload \<Rightarrow> payload" where
  "archived_payload t p =
     [(''chat_id'', pget p ''chat_id''),
      (''delivery_key'', JStr (''ingest:'' @ task_space_id t @ '':'' @
         (case source_message_id t of None \<Rightarrow> ''None'' | Some m \<Rightarrow> m) @ '':archived'')),
      (''delivery_type'', JStr ''ingest_archived'')]"

definition notify_archived ::
  "env \<Rightarrow> time \<Rightarrow> payload \<Rightarrow> task_row \<Rightarrow> app \<Rightarrow> db_error + app" where
  "notify_archived E now ctx t A =
     (let p = payload_json t in
      if truthy (pget p ''notify_on_success'') \<and> truthy (pget p ''chat_id'')
      then enqueue_delivery E now ctx t archived_text (archived_payload t p) A
      else Inr A)"

definition handle_ingest ::
  "env \<Rightarrow> services \<Rightarrow> flags \<Rightarrow> time \<Rightarrow> payload \<Rightarrow> task_row \<Rightarrow> app \<Rightarrow> handler_result \<times> app" where
  "handle_ingest E sv fl now ctx t A =
     (let iid = str_or_empty (pget (payload_json t) ''inbox_id'') in
      case load_inbox_record iid (core A) of
        None \<Rightarrow> (Raised (error_text (ValueError (''inbox record not found: '' @ iid))), A)
      | Some rec \<Rightarrow>
        (case call_service (process_record sv rec) A of
           (Inl err, A1) \<Rightarrow> (Raised err, A1)
         | (Inr note, A1) \<Rightarrow>
           (case (case note of None \<Rightarrow> (Inr None, A1)
                  | Some n \<Rightarrow> ingest_note E sv fl now ctx t iid n A1) of
              (Inl err, A2) \<Rightarrow> (Raised err, A2)
            | (Inr critical, A2) \<Rightarrow>
              (case notify_archived E now ctx t A2 of
                 Inl e \<Rightarrow> (Raised (error_text e), A2)
               | Inr A3 \<Rightarrow>
                   (if critical \<noteq> None \<and> critical \<noteq> Some []
                    then Outcome (no_outcome_fields\<lparr>note_ready_inbox_id := Some iid\<rparr>)
                    else Outcome (no_outcome_fields\<lparr>ingest_complete_inbox_id := Some iid\<rparr>),
                    A3)))))"

subsection \<open>Memories\<close>

definition unit_result :: "(string + unit) \<times> app \<Rightarrow> handler_result \<times> app" where
  "unit_result ra = (case fst ra of Inl err \<Rightarrow> Raised err | Inr _ \<Rightarrow> NoOutcome, snd ra)"

definition handle_enrichment ::
  "services \<Rightarrow> flags \<Rightarrow> task_row \<Rightarrow> app \<Rightarrow> handler_result \<times> app" where
  "handle_enrichment sv fl t A =
     (if fake_externals fl then (NoOutcome, A)
      else let note_id = str_or_empty (pget (payload_json t) ''note_id'') in
        if find_note sv (task_space_id t) note_id = None
        then (Raised (error_text (ValueError (''note not found: '' @ note_id))), A)
        else unit_result (call_service (enrich_note sv (task_space_id t) note_id) A))"

text \<open>What \<open>handle_memory\<close> adds to the note from the inbox row behind the barrier.\<close>

definition note_in_context ::
  "payload \<Rightarrow> task_row \<Rightarrow> db \<Rightarrow> payload \<Rightarrow> payload \<times> payload list" where
  "note_in_context ctx t s note =
     (let b = pget (payload_json t) ''barrier_inbox_id'' in
      case (if truthy b then load_inbox_record (str_or_empty b) s else None) of
        None \<Rightarrow> (note, [])
      | Some rec \<Rightarrow>
        (let seq = int_or 0 (pget rec ''sequence_no'');
             sender = obj_of (pget rec ''sender'')
         in (pset ''user_id'' (JStr (sender_identity sender))
              (pset ''sequence_no'' (JInt seq) (pset ''tenant_id'' (JStr (tenant_of t))
                (pset ''trace_id'' (pget ctx ''trace_id'')
                  (pset ''chat_id'' (pget rec ''chat_id'') note)))),
             load_previous_user_messages (task_space_id t) seq sender (tenant_of t) 3 s)))"

definition automatic :: "payload \<Rightarrow> bool" where
  "automatic p \<longleftrightarrow> pget p ''trigger'' \<noteq> JStr ''manual''"

definition handle_fact_consolidation ::
  "services \<Rightarrow> flags \<Rightarrow> task_row \<Rightarrow> app \<Rightarrow> handler_result \<times> app" where
  "handle_fact_consolidation sv fl t A =
     (let p = payload_json t in
      if is_evaluation_space sv (task_space_id t) \<or> \<not> fact_memory fl then (NoOutcome, A)
      else if map_of p ''memory_type'' = None
      then (Raised (error_text (KeyError ''memory_type'')), A)
      else case call_service (consolidate_facts sv (task_space_id t)
             (py_str (pget p ''memory_type''))
             (if map_of p ''trigger'' = None then ''threshold'' else py_str (pget p ''trigger''))) A of
        (Inl err, A1) \<Rightarrow> (Raised err, A1)
      | (Inr status, A1) \<Rightarrow>
          (if status = ''busy'' then Later ''fact memory consolidation busy'' (30 * second)
           else NoOutcome, A1))"

definition handle_memory ::
  "services \<Rightarrow> flags \<Rightarrow> payload \<Rightarrow> task_row \<Rightarrow> app \<Rightarrow> handler_result \<times> app" where
  "handle_memory sv fl ctx t A =
     (let p = payload_json t;
          op = text_or ''extract'' (pget p ''operation'');
          sid = task_space_id t;
          note_id = str_or_empty (pget p ''note_id'')
      in if op \<in> {''consolidate'', ''fact_consolidate'', ''preference_maintenance''} \<and>
           automatic p \<and> \<not> auto_consolidation fl then (NoOutcome, A)
         else if op = ''fact_consolidate'' then handle_fact_consolidation sv fl t A
         else if op = ''consolidate'' then
           (if map_of p ''cadence'' = None then (Raised (error_text (KeyError ''cadence'')), A)
            else unit_result (call_service
              (consolidate_memories sv (py_str (pget p ''cadence'')) sid) A))
         else if op = ''preference_maintenance'' then
           unit_result (call_service (maintain_preferences sv sid) A)
         else if op = ''memory_embedding'' then unit_result (call_service (embed_memory sv t) A)
         else case find_note_content sv sid note_id of
           None \<Rightarrow> (Raised (error_text (ValueError (''note not found: '' @ note_id))), A)
         | Some note \<Rightarrow>
           if op = ''enrich'' then handle_enrichment sv fl t A
           else
             let (note', previous) = note_in_context ctx t (core A) note
             in case call_service (process_note_memory sv note' previous) A of
                  (Inl err, A1) \<Rightarrow> (Raised err, A1)
                | (Inr _, A1) \<Rightarrow> (Outcome (no_outcome_fields\<lparr>memory_ready_inbox_id :=
                    non_empty (str_or_empty (pget p ''barrier_inbox_id''))\<rparr>), A1))"

definition handle_semantic_profile_projection ::
  "services \<Rightarrow> task_row \<Rightarrow> app \<Rightarrow> handler_result \<times> app" where
  "handle_semantic_profile_projection sv t A =
     (let facet = py_strip (str_or_empty (pget (payload_json t) ''facet''));
          sid = task_space_id t
      in if facet = []
         then (Raised (error_text (ValueError ''semantic profile projection facet is required'')), A)
         else let wait = projection_wait sv sid facet (core A) in
           if wait > 0 then (Later ''semantic profile projection debounce'' wait, A)
           else unit_result (call_service (refresh_projection sv sid facet) A))"

text \<open>The table \<open>HANDLERS\<close>.\<close>

definition handler_for ::
  "env \<Rightarrow> services \<Rightarrow> flags \<Rightarrow> send_result \<Rightarrow> time \<Rightarrow> time \<Rightarrow> payload \<Rightarrow> string \<Rightarrow>
     (task_row \<Rightarrow> app \<Rightarrow> handler_result \<times> app) option" where
  "handler_for E sv fl sr t0 t1 ctx ty =
     (if ty = ''ingest'' then Some (handle_ingest E sv fl t0 ctx)
      else if ty = ''query'' then Some (handle_query E sv fl t0 ctx)
      else if ty = ''summary'' then Some (handle_summary E sv fl t0 ctx)
      else if ty \<in> {''memory'', ''memory_embedding''} then Some (handle_memory sv fl ctx)
      else if ty = ''semantic_profile_projection'' then Some (handle_semantic_profile_projection sv)
      else if ty = ''enrichment'' then Some (handle_enrichment sv fl)
      else if ty = ''delivery'' then Some (handle_delivery E fl sr t0 t1)
      else None)"

end
