(* ===== verification/Local_Runner.thy ===== *)
theory Local_Runner
  imports Executor Handlers Local_Worker
begin

text \<open>
  The bodies of the local tasks (\<open>_run_ingest\<close>, \<open>_run_query\<close>, \<open>_run_summary\<close> and \<open>_deliver\<close> of
  \<open>runtime/executor.py\<close>) on the log, the notes and the delivery file of a local installation. The
  model that answers and summarises is a parameter; \<open>rn_sent\<close> records what was handed to
  \<open>send_text\<close>, under its delivery key, and \<open>rn_callbacks\<close> the names of the callbacks that ran.
\<close>

record 'm runner =
  rn_local :: "'m local_state"
  rn_file :: delivery_file
  rn_sent :: "(string \<times> string \<times> string) list"
  rn_callbacks :: "string list"

datatype local_send = SentOk | SentFalse | SentRaised string

definition looks_uncertain :: "string \<Rightarrow> bool" where
  "looks_uncertain err \<longleftrightarrow> (let low = py_lower err in
     contains_text ''timeout'' low \<or> contains_text ''timed out'' low \<or> contains_text ''connection'' low)"

definition false_text :: string where
  "false_text = ''send_text returned False''"

definition deliver ::
  "bool \<Rightarrow> local_send \<Rightarrow> time \<Rightarrow> time \<Rightarrow> string \<Rightarrow> string \<Rightarrow> string \<Rightarrow> string \<Rightarrow> local_task \<Rightarrow>
     string option \<Rightarrow> 'm runner \<Rightarrow> (string + unit) \<times> 'm runner" where
  "deliver has_sender sr t0 t1 chat txt key ty t on_sent S =
     (if \<not> has_sender then (Inr (), S)
      else case local_reserve_delivery key ty (lt_space t) (lt_message t) t0 (rn_file S) of
        Inl e \<Rightarrow> (Inl (error_text e), S)
      | Inr (None, items) \<Rightarrow> (Inr (), S\<lparr>rn_file := items\<rparr>)
      | Inr (Some _, items) \<Rightarrow>
        (let S1 = S\<lparr>rn_sent := rn_sent S @ [(key, chat, txt)]\<rparr> in
         case sr of
           SentRaised err \<Rightarrow>
             (Inl err, S1\<lparr>rn_file := (if looks_uncertain err then local_mark_unknown key err t1 items
                                      else local_mark_failed key err t1 items)\<rparr>)
         | SentFalse \<Rightarrow>
             (Inl (''RuntimeError: '' @ false_text), S1\<lparr>rn_file := local_mark_failed key false_text t1 items\<rparr>)
         | SentOk \<Rightarrow>
             (Inr (), S1\<lparr>rn_file := local_mark_sent key t1 items,
                rn_callbacks := rn_callbacks S @ (case on_sent of None \<Rightarrow> [] | Some cb \<Rightarrow> [cb])\<rparr>)))"

text \<open>The confirmation and the notice of a failed query, in UTF-8.\<close>

definition filed_text :: string where
  "filed_text = map char_of [
     229::nat, 183, 178, 229, 189, 146, 230, 161, 163, 229, 136, 176, 233, 154, 143, 229,
     191, 131, 232, 174, 176, 227, 128, 130]"

definition query_failed_text :: string where
  "query_failed_text = map char_of [
     232::nat, 191, 153, 230, 172, 161, 230, 159, 165, 232, 175, 162, 229, 164, 177, 232,
     180, 165, 228, 186, 134, 239, 188, 140, 229, 143, 175, 232, 131, 189, 230, 152,
     175, 230, 168, 161, 229, 158, 139, 230, 154, 130, 230, 151, 182, 230, 178, 161,
     230, 156, 137, 232, 191, 148, 229, 155, 158, 229, 134, 133, 229, 174, 185, 227,
     128, 130, 232, 175, 183, 231, 168, 141, 229, 144, 142, 229, 134, 141, 233, 151,
     174, 228, 184, 128, 230, 172, 161, 227, 128, 130]"

definition run_ingest ::
  "'m local_services \<Rightarrow> bool \<Rightarrow> local_send \<Rightarrow> time \<Rightarrow> time \<Rightarrow> wal_record \<Rightarrow> string option \<Rightarrow> bool \<Rightarrow>
     local_task \<Rightarrow> 'm runner \<Rightarrow> (string + (string \<times> string) option) \<times> 'm runner" where
  "run_ingest L has_sender sr t0 t1 r chat notify t S =
     (let (note, st) = process_record L False False r (rn_local S);
          S1 = S\<lparr>rn_local := st\<rparr>;
          mid = (if wr_message_id r \<noteq> [] then wr_message_id r
                 else case lt_message t of Some m \<Rightarrow> if m \<noteq> [] then m else lt_id t | None \<Rightarrow> lt_id t);
          (res, S2) = (case chat of
              Some c \<Rightarrow> if c \<noteq> [] \<and> notify
                then deliver has_sender sr t0 t1 c filed_text (ingest_archived_key (lt_space t) mid)
                  ''ingest_archived'' t None S1
                else (Inr (), S1)
            | None \<Rightarrow> (Inr (), S1))
      in (case res of
            Inl err \<Rightarrow> Inl err
          | Inr _ \<Rightarrow> Inr (case note of None \<Rightarrow> None
              | Some n \<Rightarrow> if nm_id n = [] then None else Some (lt_space t, nm_id n)), S2))"

type_synonym 'm model_call = "local_task \<Rightarrow> 'm local_state \<Rightarrow> (string + string) \<times> 'm local_state"

text \<open>\<open>sr'\<close> is what sending the notice of a failed query returns; its own failure is only logged.\<close>

definition run_query ::
  "'m local_services \<Rightarrow> 'm model_call \<Rightarrow> bool \<Rightarrow> local_send \<Rightarrow> local_send \<Rightarrow> time \<Rightarrow> time \<Rightarrow> local_task \<Rightarrow>
     'm runner \<Rightarrow> (string + unit) \<times> 'm runner" where
  "run_query L answer has_sender sr sr' t0 t1 t S =
     (let p = lt_payload t;
          chat = py_str (pget p ''chat_id'');
          key = py_str (pget p ''delivery_key'');
          (ans, st) = answer t (snd (process_pending L (lt_space t) (rn_local S)));
          S1 = S\<lparr>rn_local := st\<rparr>
      in case ans of
           Inl err \<Rightarrow> (Inl err, snd (deliver has_sender sr' t0 t1 chat query_failed_text (key @ '':failed'')
             ''query_failed'' t None S1))
         | Inr txt \<Rightarrow> deliver has_sender sr t0 t1 chat txt key (py_str (pget p ''delivery_type'')) t None S1)"

definition run_summary ::
  "'m model_call \<Rightarrow> bool \<Rightarrow> local_send \<Rightarrow> time \<Rightarrow> time \<Rightarrow> local_task \<Rightarrow> 'm runner \<Rightarrow>
     (string + unit) \<times> 'm runner" where
  "run_summary generate has_sender sr t0 t1 t S =
     (let p = lt_payload t;
          (ans, st) = generate t (rn_local S);
          S1 = S\<lparr>rn_local := st\<rparr>;
          mid = (case lt_message t of Some m \<Rightarrow> if m \<noteq> [] then m else lt_id t | None \<Rightarrow> lt_id t);
          key = (if truthy (pget p ''delivery_key'') then py_str (pget p ''delivery_key'')
                 else manual_summary_key (lt_space t) mid)
      in case ans of
           Inl err \<Rightarrow> (Inl err, S1)
         | Inr txt \<Rightarrow> deliver has_sender sr t0 t1 (py_str (pget p ''chat_id'')) txt key
             (text_or ''manual_summary'' (pget p ''delivery_type'')) t (str_option (pget p ''on_success'')) S1)"

end
