(* ===== verification/Stream_Worker.thy ===== *)
theory Stream_Worker
  imports Handlers
begin

text \<open>
  The consumers of the Redis streams (\<open>runtime/streams/worker.py\<close>). Redis is outside the
  repository: what a worker reads is an argument, and what it writes is recorded in the order it
  happens, as the list of acknowledged messages and the list of dead letters. A message that is
  not acknowledged stays pending in its consumer group and is delivered again.

  A handler is any function from the claimed row and the state to a result and a state. It stands
  for everything between the claim and the settlement of a task: the handler's own transactions,
  the heartbeat that renews the lease and the transactions of other processes.
\<close>

record stream_message =
  msg_stream :: string
  msg_id :: string
  msg_fields :: "(string \<times> string) list"

record worker_state =
  ws_app :: app
  acked :: "(string \<times> string) list"
  dead_letters :: "(stream_message \<times> string) list"

abbreviation task_lease_seconds :: int where
  "task_lease_seconds \<equiv> 60"

definition field :: "stream_message \<Rightarrow> string \<Rightarrow> string" where
  "field m k = (case map_of (msg_fields m) k of None \<Rightarrow> [] | Some v \<Rightarrow> v)"

definition ws_core :: "worker_state \<Rightarrow> db" where
  "ws_core w = core (ws_app w)"

definition put_core :: "db \<Rightarrow> worker_state \<Rightarrow> worker_state" where
  "put_core s w = w\<lparr>ws_app := with_core s (ws_app w)\<rparr>"

definition ack :: "string \<Rightarrow> stream_message \<Rightarrow> worker_state \<Rightarrow> worker_state" where
  "ack ty m w = w\<lparr>acked := acked w @ [(ty, msg_id m)]\<rparr>"

text \<open>\<open>error[:1000]\<close> is what the dead-letter stream keeps.\<close>

definition dead_letter :: "stream_message \<Rightarrow> string \<Rightarrow> worker_state \<Rightarrow> worker_state" where
  "dead_letter m err w = w\<lparr>dead_letters := dead_letters w @ [(m, take 1000 err)]\<rparr>"

text \<open>A skipped message is acknowledged if no run of its task can depend on it.\<close>

definition settled_elsewhere :: "task_row option \<Rightarrow> bool" where
  "settled_elsewhere t = (case t of None \<Rightarrow> True
     | Some r \<Rightarrow> task_status r \<in> {Blocked, Cancelled, Completed, DeadLetter, Retry})"

definition start_message ::
  "env \<Rightarrow> time \<Rightarrow> string \<Rightarrow> string \<Rightarrow> stream_message \<Rightarrow> worker_state \<Rightarrow>
     db_error + claim option \<times> worker_state" where
  "start_message E now worker ty m w =
     (let tid = field m ''task_id'' in
      if tid = [] then Inr (None, ack ty m (dead_letter m ''missing task_id'' w))
      else case claim_task E now tid worker task_lease_seconds (ws_core w) of
        Inl e \<Rightarrow> Inl e
      | Inr (Some c, s) \<Rightarrow> Inr (Some c, put_core s w)
      | Inr (None, s) \<Rightarrow>
          (let w1 = put_core s w in
           Inr (None, if settled_elsewhere (get_task tid s) then ack ty m w1 else w1)))"

text \<open>\<open>_default_outcome\<close>: a task that carries an inbox row closes it.\<close>

definition default_outcome :: "task_row \<Rightarrow> outcome" where
  "default_outcome t =
     (let i = pget (payload_json t) ''inbox_id'' in
      if truthy i then no_outcome_fields\<lparr>release_inbox_id := Some (py_str i)\<rparr>
      else no_outcome_fields)"

definition settle_completed ::
  "env \<Rightarrow> time \<Rightarrow> string \<Rightarrow> stream_message \<Rightarrow> claim \<Rightarrow> outcome \<Rightarrow> worker_state \<Rightarrow>
     db_error option \<times> worker_state" where
  "settle_completed E now ty m c out w =
     (let t = claim_task_row c in
      case complete_task E now (task_id t) (the (lease_token t)) (claim_version t) out (ws_core w) of
        Inl e \<Rightarrow> (Some e, w)
      | Inr (ok, s) \<Rightarrow> (None, if ok then ack ty m (put_core s w) else put_core s w))"

definition settle_deferred ::
  "time \<Rightarrow> string \<Rightarrow> stream_message \<Rightarrow> claim \<Rightarrow> string \<Rightarrow> int \<Rightarrow> worker_state \<Rightarrow> worker_state" where
  "settle_deferred now ty m c reason delay w =
     (let t = claim_task_row c;
          (ok, s) = defer_task now (task_id t) reason delay (the (lease_token t))
             (claim_version t) (ws_core w)
      in if ok then ack ty m (put_core s w) else put_core s w)"

text \<open>\<open>WORKER_RETRY_BASE_SECONDS * (2 ** max(0, failure_no - 1))\<close>\<close>

definition retry_delay :: "task_row \<Rightarrow> int" where
  "retry_delay t = 2 * second * 2 ^ nat (max 0 (failure_count t))"

definition settle_failed ::
  "env \<Rightarrow> time \<Rightarrow> string \<Rightarrow> stream_message \<Rightarrow> claim \<Rightarrow> string \<Rightarrow> worker_state \<Rightarrow>
     db_error option \<times> worker_state" where
  "settle_failed E now ty m c err w =
     (let t = claim_task_row c in
      case fail_task E now (task_id t) err (retry_delay t) (the (lease_token t)) (claim_version t)
          (ws_core w) of
        Inl e \<Rightarrow> (Some e, w)
      | Inr (st, s) \<Rightarrow>
          (let w1 = put_core s w;
               w2 = (if st = StatusIs DeadLetter then dead_letter m err w1 else w1)
           in (None, if st = Stale then w2 else ack ty m w2)))"

fun settle_message ::
  "env \<Rightarrow> time \<Rightarrow> string \<Rightarrow> stream_message \<Rightarrow> claim \<Rightarrow> handler_result \<Rightarrow> worker_state \<Rightarrow>
     db_error option \<times> worker_state" where
  "settle_message E now ty m c (Outcome out) w = settle_completed E now ty m c out w"
| "settle_message E now ty m c NoOutcome w =
     settle_completed E now ty m c (default_outcome (claim_task_row c)) w"
| "settle_message E now ty m c (BadOutcome cls) w =
     settle_failed E now ty m c (''TypeError: task handler returned unsupported outcome: '' @ cls) w"
| "settle_message E now ty m c (Later reason delay) w =
     (None, settle_deferred now ty m c reason delay w)"
| "settle_message E now ty m c (Raised err) w = settle_failed E now ty m c err w"

text \<open>
  A database error of \<open>claim_task\<close>, \<open>complete_task\<close> or \<open>fail_task\<close> leaves \<open>_handle\<close> as an exception;
  what was committed before stays.
\<close>

type_synonym message_step = "stream_message \<Rightarrow> worker_state \<Rightarrow> db_error option \<times> worker_state"

definition handle_message ::
  "env \<Rightarrow> time \<Rightarrow> time \<Rightarrow> string \<Rightarrow> string \<Rightarrow> (task_row \<Rightarrow> app \<Rightarrow> handler_result \<times> app) \<Rightarrow>
     message_step" where
  "handle_message E t0 t1 worker ty h m w =
     (case start_message E t0 worker ty m w of
        Inl e \<Rightarrow> (Some e, w)
      | Inr (None, w1) \<Rightarrow> (None, w1)
      | Inr (Some c, w1) \<Rightarrow>
          (let (r, A) = h (claim_task_row c) (ws_app w1) in
           settle_message E t1 ty m c r (w1\<lparr>ws_app := A\<rparr>)))"

text \<open>
  A batch: an exception (a database error) ends the loop, the remaining messages stay pending.
\<close>

fun handle_batch ::
  "message_step \<Rightarrow> stream_message list \<Rightarrow> worker_state \<Rightarrow> db_error option \<times> worker_state" where
  "handle_batch f [] w = (None, w)"
| "handle_batch f (m # ms) w =
     (case f m w of (Some e, w1) \<Rightarrow> (Some e, w1) | (None, w1) \<Rightarrow> handle_batch f ms w1)"

text \<open>\<open>_reclaim_if_due\<close>: at most one XAUTOCLAIM per interval.\<close>

definition reclaim_if_due ::
  "time \<Rightarrow> int \<Rightarrow> time \<Rightarrow> stream_message list \<Rightarrow> stream_message list \<times> time" where
  "reclaim_if_due now interval next_at reclaimed =
     (if now < next_at then ([], next_at) else (reclaimed, now + max 100000 interval))"

definition worker_run_once ::
  "message_step \<Rightarrow> time \<Rightarrow> int \<Rightarrow> time \<Rightarrow>
     stream_message list \<Rightarrow> stream_message list \<Rightarrow> worker_state \<Rightarrow>
     (db_error + nat) \<times> time \<times> worker_state" where
  "worker_run_once f now interval next_at fresh reclaimed w =
     (let (ms, next') = (if fresh = [] then reclaim_if_due now interval next_at reclaimed
                         else (fresh, next_at));
          (err, w') = handle_batch f ms w
      in (case err of None \<Rightarrow> Inr (length ms) | Some e \<Rightarrow> Inl e, next', w'))"

subsection \<open>The adaptive worker\<close>

record lanes =
  foreground :: "string list"
  background :: "string list"
  fg_cursor :: nat
  bg_cursor :: nat
  fg_batches :: nat

definition background_type :: "string \<Rightarrow> bool" where
  "background_type ty \<longleftrightarrow> ty \<in> {''delivery'', ''enrichment''}"

definition new_lanes :: "string list \<Rightarrow> db_error + lanes" where
  "new_lanes types =
     (if types = [] then Inl (ValueError ''adaptive worker requires at least one task handler'')
      else Inr \<lparr>foreground = filter (\<lambda>ty. \<not> background_type ty) types,
                background = filter background_type types,
                fg_cursor = 0, bg_cursor = 0, fg_batches = 0\<rparr>)"

definition rotated :: "'a list \<Rightarrow> nat \<Rightarrow> 'a list" where
  "rotated xs c = drop c xs @ take c xs"

definition lane_order :: "lanes \<Rightarrow> (string list \<times> bool) list" where
  "lane_order l =
     (let fg = (rotated (foreground l) (fg_cursor l), True);
          bg = (rotated (background l) (bg_cursor l), False)
      in if fst bg \<noteq> [] \<and> fg_batches l \<ge> 4 then [bg, fg] else [fg, bg])"

text \<open>The first lane that has messages, read in one round trip over all its streams.\<close>

fun poll_lanes ::
  "(string list \<Rightarrow> stream_message list) \<Rightarrow> (string list \<times> bool) list \<Rightarrow>
     (bool \<times> stream_message list) option" where
  "poll_lanes read [] = None"
| "poll_lanes read ((lane, is_fg) # rest) =
     (if lane = [] \<or> read lane = [] then poll_lanes read rest else Some (is_fg, read lane))"

definition advance_lane :: "bool \<Rightarrow> lanes \<Rightarrow> lanes" where
  "advance_lane is_fg l =
     (if is_fg then l\<lparr>fg_cursor := (fg_cursor l + 1) mod length (foreground l),
                      fg_batches := fg_batches l + 1\<rparr>
      else l\<lparr>bg_cursor := (bg_cursor l + 1) mod length (background l), fg_batches := 0\<rparr>)"

text \<open>
  \<open>_handle_messages\<close>: the message goes to the worker of its \<open>task_type\<close> field; a message of an
  unknown type is copied to the dead-letter stream.
\<close>

definition route_message ::
  "(string \<Rightarrow> message_step option) \<Rightarrow> message_step" where
  "route_message workers m w =
     (let ty = field m ''task_type'' in
      case workers ty of
        None \<Rightarrow> (None, dead_letter m (''unsupported task_type: '' @ ty) w)
      | Some f \<Rightarrow> f m w)"

text \<open>The reclaim sweep: the first stream, from the foreground cursor on, that yields messages.\<close>

fun reclaim_sweep ::
  "(string \<Rightarrow> stream_message list) \<Rightarrow> string list \<Rightarrow> (string \<times> stream_message list) option" where
  "reclaim_sweep reclaim [] = None"
| "reclaim_sweep reclaim (ty # tys) =
     (if reclaim ty = [] then reclaim_sweep reclaim tys else Some (ty, reclaim ty))"

definition adaptive_run_once ::
  "(string \<Rightarrow> message_step option) \<Rightarrow> string list \<Rightarrow>
     (string list \<Rightarrow> stream_message list) \<Rightarrow> (string \<Rightarrow> stream_message list) \<Rightarrow>
     lanes \<Rightarrow> worker_state \<Rightarrow> (db_error + nat) \<times> lanes \<times> worker_state" where
  "adaptive_run_once workers types read reclaim l w =
     (case poll_lanes read (lane_order l) of
        Some (is_fg, ms) \<Rightarrow>
          (case handle_batch (route_message workers) ms w of
             (Some e, w') \<Rightarrow> (Inl e, l, w')
           | (None, w') \<Rightarrow> (Inr (length ms), advance_lane is_fg l, w'))
      | None \<Rightarrow>
          (case reclaim_sweep reclaim (rotated types (fg_cursor l mod length types)) of
             None \<Rightarrow> (Inr 0, l, w)
           | Some (ty, ms) \<Rightarrow>
               (case handle_batch (case workers ty of None \<Rightarrow> \<lambda>m w. (None, w) | Some f \<Rightarrow> f) ms w of
                  (Some e, w') \<Rightarrow> (Inl e, l, w')
                | (None, w') \<Rightarrow> (Inr (length ms), l, w'))))"

end
