(* ===== verification/Worker_Guarantees.thy ===== *)
theory Worker_Guarantees
  imports Lease_Guarantees Stream_Worker
begin

text \<open>
  What a stream worker promises, whatever its handlers do: it acknowledges a message only when the
  task behind it is settled, so no queued or running task loses its message, and its lanes are
  served fairly.
\<close>

subsection \<open>Settled tasks\<close>

definition settled :: "string \<Rightarrow> db \<Rightarrow> bool" where
  "settled tid s \<longleftrightarrow> (case get_task tid s of None \<Rightarrow> True
     | Some t \<Rightarrow> task_status t \<notin> {Queued, Running})"

lemma settledI: "lease_inv s \<Longrightarrow> t \<in> set (tasks s) \<Longrightarrow> task_id t = tid \<Longrightarrow>
    task_status t \<notin> {Queued, Running} \<Longrightarrow> settled tid s"
  using tk.lookup_of_mem [OF lease_distinct] by (auto simp: settled_def get_task_def)

lemma finish_row_mem: "row \<in> set (tasks s) \<Longrightarrow> f row \<in> set (tasks (finish_task f g row s))"
  by (auto simp: finish_task_def set_upd_where)

lemma complete_settles:
  assumes l: "lease_inv s" and run: "complete_task E now tid tok v out s = Inr (True, s')"
    and out: "activate_task_id out = None"
  shows "settled tid s'"
proof -
  have fin: "completed_row now row \<in> set (tasks (finish_task (completed_row now) (completed_attempt now) row s)) \<and>
      lease_inv (finish_task (completed_row now) (completed_attempt now) row s)"
    if "row \<in> set (tasks s)" "holds_lease tid tok v row" for row
  proof
    show "lease_inv (finish_task (completed_row now) (completed_attempt now) row s)"
      by (rule owned_finish_lease_inv [OF l that])
         (use that in \<open>auto simp: completed_attempt_def holds_lease_def lease_ok_completed\<close>)
  qed (rule finish_row_mem [OF that(1)])
  have l': "lease_inv s'" using leases.complete [OF l run out] .
  have "\<exists>row. task_id row = tid \<and> completed_row now row \<in> set (tasks s')"
    using complete_task_cases [OF run out]
  proof (elim disjE exE)
    assume "(True, s') = complete_task_plain now tid tok v s"
    then show ?thesis using fin
      by (auto simp: complete_task_plain_def holds_lease_def split: option.splits dest!: find_SomeD)
  next
    fix iid a b c assume "complete_task_with_inbox_outcome E now tid tok v iid a b c s = Inr (True, s')"
    from complete_cte_woken [OF lease_distinct [OF l] this] obtain row s1 I evs where
      row: "row \<in> set (tasks s)" "holds_lease tid tok v row"
      and s1: "s1 = finish_task (completed_row now) (completed_attempt now) row s" and w: "woken E I evs s1 s'"
      by blast
    from fin [OF row] have "lease_inv s1 \<and> completed_row now row \<in> set (tasks s1) \<and> finished (completed_row now row)"
      by (simp add: s1 finished_def completed_row_def)
    from terminal.woken_free [OF this w] row show ?thesis by (auto simp: holds_lease_def)
  qed
  then show ?thesis using settledI [OF l'] by (fastforce simp: completed_row_def)
qed

lemma fail_settles:
  assumes l: "lease_inv s" and run: "fail_task E now tid err delay tok v s = Inr (res, s')"
    and res: "res \<noteq> Stale"
  shows "settled tid s'"
proof -
  obtain row where own: "owned_running_task now tid tok v s = Some row"
    using run res by (auto simp: fail_task_def split: option.splits)
  note row = owned_running_task_mem [OF own]
  let ?ex = "failure_count row + 1 \<ge> max_attempts row"
  let ?s1 = "finish_task (failed_row now err delay) (failed_attempt now err ?ex) row s"
  have m: "failed_row now err delay row \<in> set (tasks ?s1)" using row finish_row_mem by blast
  have l': "lease_inv s'" using leases.fail [OF l run] .
  have "failed_row now err delay row \<in> set (tasks s')"
  proof (cases ?ex)
    case False
    with run own m show ?thesis by (simp add: fail_task_def failed_row_def)
  next
    case True
    have "lease_inv ?s1"
      by (rule owned_finish_lease_inv [where tid = tid and tok = tok and v = v, OF l])
         (use row in \<open>auto simp: failed_attempt_def holds_lease_def lease_ok_failed\<close>)
    with m True have P: "lease_inv ?s1 \<and> failed_row now err delay row \<in> set (tasks ?s1) \<and>
        finished (failed_row now err delay row)"
      by (simp add: finished_def failed_row_def)
    note T = terminal.cancel_dependents [OF P, of now tid err]
    show ?thesis
      using run own True P T
      by (auto simp: fail_task_def Let_def failed_row_def [of now err delay row] mark_inbox_memory_completed_in_session_def
          finalize_inbox_in_session_def split: option.splits sum.splits prod.splits if_splits
          dest: terminal.stage [rotated])
  qed
  moreover have "task_status (failed_row now err delay row) \<notin> {Queued, Running}"
    by (simp add: failed_row_def Let_def)
  moreover have "task_id (failed_row now err delay row) = tid"
    using row by (simp add: failed_row_def holds_lease_def Let_def)
  ultimately show ?thesis by (intro settledI [OF l'])
qed

lemma defer_settles:
  assumes l: "lease_inv s" and run: "defer_task now tid reason delay tok v s = (True, s')"
  shows "settled tid s'"
proof -
  obtain row where own: "owned_running_task now tid tok v s = Some row"
    using run by (auto simp: defer_task_def split: option.splits)
  note row = owned_running_task_mem [OF own]
  have "lease_inv s'" using leases.defer_keeps [OF l, of now tid reason delay tok v] run by simp
  moreover have "deferred_row now reason delay row \<in> set (tasks s')"
    using run own row finish_row_mem by (auto simp: defer_task_def)
  ultimately show ?thesis using settledI row by (fastforce simp: deferred_row_def holds_lease_def)
qed


text \<open>
  What a handler may do between the claim and the settlement: run transactions of the pipeline,
  its own and those of other processes, and end in any result without \<open>activate_task_id\<close>.
\<close>

definition well_behaved :: "env \<Rightarrow> (task_row \<Rightarrow> app \<Rightarrow> handler_result \<times> app) \<Rightarrow> bool" where
  "well_behaved E h \<longleftrightarrow> (\<forall>t A. (db_step E)\<^sup>*\<^sup>* (core A) (core (snd (h t A))) \<and>
     (\<forall>out. fst (h t A) = Outcome out \<longrightarrow> activate_task_id out = None))"

lemma ws_core_simps [simp]:
  "ws_core (put_core s w) = s" "acked (put_core s w) = acked w" "ws_core (ack ty m w) = ws_core w"
  "ws_core (dead_letter m e w) = ws_core w" "acked (dead_letter m e w) = acked w"
  "acked (ack ty m w) = acked w @ [(ty, msg_id m)]" "ws_core (w\<lparr>ws_app := A\<rparr>) = core A"
  by (simp_all add: ws_core_def put_core_def core_def with_core_def ack_def dead_letter_def)

lemma default_outcome_activates: "activate_task_id (default_outcome t) = None"
  by (simp add: default_outcome_def no_outcome_fields_def Let_def)

lemma settle_completed_acks:
  assumes "lease_inv (ws_core w)" "activate_task_id out = None"
    and "settle_completed E now ty m c out w = (err, w')" "acked w' \<noteq> acked w"
  shows "settled (task_id (claim_task_row c)) (ws_core w')"
  using assms(3,4) complete_settles [OF assms(1) _ assms(2)]
  by (auto simp: settle_completed_def Let_def split: sum.splits prod.splits if_splits)

lemma settle_failed_acks:
  assumes "lease_inv (ws_core w)"
    and "settle_failed E now ty m c e w = (err, w')" "acked w' \<noteq> acked w"
  shows "settled (task_id (claim_task_row c)) (ws_core w')"
  using assms(2,3) fail_settles [OF assms(1)]
  by (auto simp: settle_failed_def Let_def split: sum.splits prod.splits if_splits)

lemma settle_acks:
  assumes "lease_inv (ws_core w)" "\<And>out. r = Outcome out \<Longrightarrow> activate_task_id out = None"
    and "settle_message E now ty m c r w = (err, w')" "acked w' \<noteq> acked w"
  shows "settled (task_id (claim_task_row c)) (ws_core w')"
proof (cases r)
  case (Later reason delay)
  with assms(3,4) defer_settles [OF assms(1)] show ?thesis
    by (auto simp: settle_deferred_def Let_def split: prod.splits if_splits)
next
  case (Outcome out)
  with assms show ?thesis by (auto intro: settle_completed_acks)
next
  case NoOutcome
  with assms settle_completed_acks [OF assms(1) default_outcome_activates] show ?thesis by auto
next
  case (BadOutcome cls)
  with assms settle_failed_acks [OF assms(1)] show ?thesis by auto
next
  case (Raised e)
  with assms settle_failed_acks [OF assms(1)] show ?thesis by auto
qed

lemma settled_elsewhere_settled: "settled_elsewhere (get_task tid s) \<Longrightarrow> settled tid s"
  by (auto simp: settled_elsewhere_def settled_def split: option.splits)

lemma claim_task_id:
  assumes "lease_inv s" "claim_task E now tid worker stale s = Inr (Some c, s')"
  shows "task_id (claim_task_row c) = tid"
  using assms(2) by (auto simp: claim_task_Inr [OF assms(1)] claimed_row_def split: option.splits dest: find_SomeD)

lemma start_message_cases:
  assumes inv: "system_inv E (ws_core w)" and run: "start_message E t0 worker ty m w = Inr (x, w1)"
  shows "(case x of
      None \<Rightarrow> acked w1 \<noteq> acked w \<longrightarrow> field m ''task_id'' = [] \<or> settled (field m ''task_id'') (ws_core w1)
    | Some c \<Rightarrow> system_inv E (ws_core w1) \<and> acked w1 = acked w \<and>
        task_id (claim_task_row c) = field m ''task_id'')"
proof (cases "field m ''task_id'' = []")
  case True
  with run show ?thesis by (auto simp: start_message_def Let_def)
next
  case False
  obtain y s where c: "claim_task E t0 (field m ''task_id'') worker task_lease_seconds (ws_core w) = Inr (y, s)"
    using run False by (auto simp: start_message_def Let_def split: sum.splits prod.splits)
  have "system_inv E s" using step_system_inv [OF db_step.claim [OF c] inv] .
  moreover have "lease_inv (ws_core w)" using inv by (simp add: system_inv_def)
  ultimately show ?thesis using run False c settled_elsewhere_settled claim_task_id
    by (auto simp: start_message_def Let_def split: option.splits if_splits)
qed

subsection \<open>Acknowledgement\<close>


text \<open>A worker over the state \<open>st2\<close> of the scenario, and a handler that fails.\<close>

definition msg1 :: stream_message where
  "msg1 = \<lparr>msg_stream = ''ingest'', msg_id = ''1-0'', msg_fields = [(''task_id'', ''task_1'')]\<rparr>"

definition app_of :: "db \<Rightarrow> app" where
  "app_of s = \<lparr>store = \<lparr>dv_core = s, deliveries = [], delivery_attempts = []\<rparr>, sent_texts = [],
     page_answers = [], summary_marks = []\<rparr>"

definition worker_of :: "db \<Rightarrow> worker_state" where
  "worker_of s = \<lparr>ws_app = app_of s, acked = [], dead_letters = []\<rparr>"

definition crash :: "task_row \<Rightarrow> app \<Rightarrow> handler_result \<times> app" where
  "crash t A = (Raised ''boom: x'', A)"

lemma ws_core_worker_of [simp]: "ws_core (worker_of s) = s"
  by (simp add: ws_core_def worker_of_def app_of_def core_def)

lemma crash_well_behaved: "well_behaved E crash"
  by (simp add: well_behaved_def crash_def)


subsection \<open>Fair lanes\<close>

text \<open>The lanes of successive polls; \<open>r\<close> tells what each read returns.\<close>

fun lane_picks :: "(string list \<Rightarrow> stream_message list) list \<Rightarrow> lanes \<Rightarrow> bool option list" where
  "lane_picks [] l = []"
| "lane_picks (r # rs) l = (case poll_lanes r (lane_order l) of
     None \<Rightarrow> None # lane_picks rs l
   | Some (is_fg, ms) \<Rightarrow> Some is_fg # lane_picks rs (advance_lane is_fg l))"

definition lane_ready :: "string list \<Rightarrow> (string list \<Rightarrow> stream_message list) \<Rightarrow> bool" where
  "lane_ready tys r \<longleftrightarrow> tys \<noteq> [] \<and> (\<forall>c < length tys. r (rotated tys c) \<noteq> [])"

definition lanes_ok :: "lanes \<Rightarrow> bool" where
  "lanes_ok l \<longleftrightarrow> (foreground l \<noteq> [] \<longrightarrow> fg_cursor l < length (foreground l)) \<and>
     (background l \<noteq> [] \<longrightarrow> bg_cursor l < length (background l))"

lemma rotated_set [simp]: "set (rotated xs c) = set xs"
  unfolding rotated_def by (metis append_take_drop_id set_append sup_commute)

lemma rotated_Nil [simp]: "rotated xs c = [] \<longleftrightarrow> xs = []"
  using rotated_set [of xs c] by (metis set_empty)

lemma advance_lanes_ok: "lanes_ok l \<Longrightarrow> lanes_ok (advance_lane b l)"
  by (auto simp: lanes_ok_def advance_lane_def)

lemma advance_lane_types [simp]:
  "foreground (advance_lane b l) = foreground l" "background (advance_lane b l) = background l"
  by (simp_all add: advance_lane_def)

lemma new_lanes_ok: "new_lanes types = Inr l \<Longrightarrow> lanes_ok l"
  by (auto simp: new_lanes_def lanes_ok_def split: if_splits)

lemma poll_ready_background:
  assumes "lanes_ok l" "lane_ready (background l) r"
  shows "(\<exists>ms. poll_lanes r (lane_order l) = Some (False, ms)) \<or>
    (\<exists>ms. poll_lanes r (lane_order l) = Some (True, ms) \<and> fg_batches l < 4)"
proof -
  have b: "background l \<noteq> []" "r (rotated (background l) (bg_cursor l)) \<noteq> []"
    using assms by (auto simp: lane_ready_def lanes_ok_def)
  show ?thesis
  proof (cases "fg_batches l < 4")
    case True
    with b show ?thesis by (auto simp: lane_order_def Let_def)
  next
    case False
    with b show ?thesis by (simp add: lane_order_def Let_def)
  qed
qed

lemma background_within:
  assumes "lanes_ok l" "\<forall>r \<in> set rs. lane_ready (background l) r" "5 - min 4 (fg_batches l) \<le> length rs"
  shows "Some False \<in> set (take (5 - min 4 (fg_batches l)) (lane_picks rs l))"
  using assms
proof (induction rs arbitrary: l)
  case Nil
  then show ?case by auto
next
  case (Cons r rs)
  have "lane_ready (background l) r" using Cons.prems by simp
  from poll_ready_background [OF Cons.prems(1) this] show ?case
  proof (elim disjE exE conjE)
    fix ms assume 1: "poll_lanes r (lane_order l) = Some (False, ms)"
    have "0 < 5 - min 4 (fg_batches l)" by simp
    with 1 show ?thesis by (cases "5 - min 4 (fg_batches l)") simp_all
  next
    fix ms assume 2: "poll_lanes r (lane_order l) = Some (True, ms)" "fg_batches l < 4"
    let ?l = "advance_lane True l"
    have n: "5 - min 4 (fg_batches l) = Suc (5 - min 4 (fg_batches ?l))"
      using 2(2) by (simp add: advance_lane_def)
    have "Some False \<in> set (take (5 - min 4 (fg_batches ?l)) (lane_picks rs ?l))"
      using Cons.prems n advance_lanes_ok by (intro Cons.IH) auto
    with 2(1) show ?thesis unfolding n by simp
  qed
qed


text \<open>
  A worker for one foreground and two background streams that always have a message.
\<close>

definition lanes0 :: lanes where
  "lanes0 = projr (new_lanes [''ingest'', ''delivery'', ''enrichment''])"

definition busy :: "string list \<Rightarrow> stream_message list" where
  "busy tys = map (\<lambda>ty. msg1\<lparr>msg_stream := ty\<rparr>) tys"


end
