(* ===== verification/Delivery_Store.thy ===== *)
theory Delivery_Store
  imports Delivery
begin

text \<open>
  Both delivery stores follow the contract of \<open>Delivery\<close>. The locale \<open>delivery_store\<close> holds what
  the contract gives the senders: a settled delivery is never reserved again, a reservation
  excludes every other until its lease ends or somebody marks it, and a key is reserved at most
  three times. \<open>pg\<close> and \<open>js\<close> are its interpretations.
\<close>

definition attempts_of :: "delivery_record option \<Rightarrow> int" where
  "attempts_of r = (case r of None \<Rightarrow> 0 | Some d \<Rightarrow> dr_attempt_count d)"

lemma attempts_of_simps [simp]: "attempts_of None = 0" "attempts_of (Some d) = dr_attempt_count d"
  by (simp_all add: attempts_of_def)

fun marks :: "string \<Rightarrow> delivery_op \<Rightarrow> bool" where
  "marks k (Mark k' _ _) = (k' = k)"
| "marks k _ = False"

definition never_marked :: "string \<Rightarrow> (time \<times> delivery_op) list \<Rightarrow> bool" where
  "never_marked k ps = list_all (\<lambda>(t, p). \<not> marks k p) ps"

definition before :: "time \<Rightarrow> (time \<times> delivery_op) list \<Rightarrow> bool" where
  "before t ps = list_all (\<lambda>(now, p). now < t) ps"

text \<open>A record that no reservation and no recovery touches at time \<open>now\<close>.\<close>

definition held :: "delivery_record \<Rightarrow> time \<Rightarrow> bool" where
  "held r now \<longleftrightarrow> dr_status r \<in> {Sent, Unknown} \<or>
     (dr_status r = Reserved \<and> \<not> is_reservation_expired r now)"

lemma reserved_record_fields [simp]:
  "dr_key (reserved_record stamp k ty sp mid now old) = k"
  "dr_status (reserved_record stamp k ty sp mid now old) = Reserved"
  "dr_attempt_count (reserved_record stamp k ty sp mid now old) = attempts_of old + 1"
  "dr_lease_expires_at (reserved_record stamp k ty sp mid now old)
     = Some (stamp (now + delivery_ttl))"
  by (auto simp: reserved_record_def attempts_of_def split: option.splits)

lemma expired_record_fields [simp]:
  "dr_key (expired_record stamp now r) = dr_key r"
  "dr_attempt_count (expired_record stamp now r) = dr_attempt_count r"
  by (auto simp: expired_record_def)

lemma ledger_step_attempts:
  assumes "ledger_step stamp now p L = (r, L')"
  shows "attempts_of (L' k) = attempts_of (L k) + int (grants k [r])"
  using assms
  by (cases p) (auto simp: ledger_reserve_def ledger_update_def ledger_recover_def Let_def
      attempts_of_def split: if_splits option.splits)

lemma ledger_step_granted:
  assumes "ledger_step stamp now p L = (Some r, L')"
  shows "attempts_of (L (dr_key r)) < delivery_max_attempts \<and>
    (case L (dr_key r) of None \<Rightarrow> True | Some d \<Rightarrow> \<not> held d now) \<and> L' (dr_key r) = Some r"
  using assms
  by (cases p) (auto simp: ledger_reserve_def Let_def reservation_refused_def held_def
      attempts_of_def delivery_max_attempts_def split: if_splits option.splits)

lemma ledger_step_held:
  assumes "ledger_step stamp now p L = (r, L')" and "L k = Some d" and "held d now"
    and "\<not> marks k p"
  shows "L' k = Some d \<and> grants k [r] = 0"
proof (cases p)
  case (Reserve k' ty sp mid)
  then show ?thesis using assms
    by (cases "k' = k") (auto simp: ledger_reserve_def Let_def reservation_refused_def held_def
        split: if_splits)
next
  case (Mark k' st err)
  with assms show ?thesis by (auto simp: ledger_update_def)
next
  case Recover
  with assms show ?thesis
    by (auto simp: ledger_recover_def expired_record_def held_def is_reservation_expired_def)
qed

lemma marks_with_space [simp]: "marks k (with_space sp p) = marks k p"
  by (cases p) auto

lemma held_settled: "dr_status d \<in> {Sent, Unknown} \<Longrightarrow> held d now"
  by (auto simp: held_def)

lemma held_reserved:
  "dr_status d = Reserved \<Longrightarrow> dr_lease_expires_at d = Some t \<Longrightarrow> held d now \<longleftrightarrow> now < t"
  by (auto simp: held_def is_reservation_expired_def)

subsection \<open>The contract and what it gives\<close>

locale delivery_store =
  fixes inv :: "'s \<Rightarrow> bool" and view :: "'s \<Rightarrow> ledger" and stamp :: "time \<Rightarrow> time"
    and step :: "time \<Rightarrow> delivery_op \<Rightarrow> 's \<Rightarrow> db_error + delivery_record option \<times> 's"
  assumes step_ledger: "inv s \<Longrightarrow> step now p s = Inr (r, s') \<Longrightarrow>
      inv s' \<and> (\<exists>sp. ledger_step stamp now (with_space sp p) (view s) = (r, view s'))"
begin

lemma run_inv: "inv s \<Longrightarrow> run_calls step ps s = (rs, s') \<Longrightarrow> inv s'"
proof (induction ps arbitrary: s rs)
  case (Cons c ps)
  then show ?case
    by (cases c) (auto dest: step_ledger split: sum.splits prod.splits)
qed simp

lemma run_attempts: "inv s \<Longrightarrow> run_calls step ps s = (rs, s') \<Longrightarrow>
    attempts_of (view s' k) = attempts_of (view s k) + int (grants k rs)"
proof (induction ps arbitrary: s rs)
  case (Cons c ps)
  obtain now p where c: "c = (now, p)" by (cases c)
  show ?case
  proof (cases "step now p s")
    case (Inl e)
    with Cons c show ?thesis by (auto split: prod.splits)
  next
    case (Inr a)
    obtain r s1 where a: "a = (r, s1)" by (cases a)
    obtain rs1 where rs: "rs = r # rs1" "run_calls step ps s1 = (rs1, s')"
      using Cons.prems c Inr a by (auto split: prod.splits)
    obtain sp where 1: "inv s1"
      and 2: "ledger_step stamp now (with_space sp p) (view s) = (r, view s1)"
      using step_ledger Cons.prems(1) Inr a by blast
    have "grants k rs = grants k [r] + grants k rs1"
      by (cases r) (auto simp: rs)
    with Cons.IH [OF 1 rs(2)] ledger_step_attempts [OF 2, of k] show ?thesis by simp
  qed
qed simp

lemma run_bounded: "inv s \<Longrightarrow> run_calls step ps s = (rs, s') \<Longrightarrow>
    attempts_of (view s k) \<le> delivery_max_attempts \<Longrightarrow>
    attempts_of (view s' k) \<le> delivery_max_attempts"
proof (induction ps arbitrary: s rs)
  case (Cons c ps)
  obtain now p where c: "c = (now, p)" by (cases c)
  show ?case
  proof (cases "step now p s")
    case (Inl e)
    with Cons c show ?thesis by (auto split: prod.splits)
  next
    case (Inr a)
    obtain r s1 where a: "a = (r, s1)" by (cases a)
    obtain rs1 where rs: "run_calls step ps s1 = (rs1, s')"
      using Cons.prems c Inr a by (auto split: prod.splits)
    obtain sp where 1: "inv s1"
      and 2: "ledger_step stamp now (with_space sp p) (view s) = (r, view s1)"
      using step_ledger Cons.prems(1) Inr a by blast
    have "attempts_of (view s1 k) \<le> delivery_max_attempts"
      using ledger_step_attempts [OF 2, of k] ledger_step_granted Cons.prems(3) 2
      by (cases r) (fastforce split: if_splits)+
    with Cons.IH [OF 1 rs] show ?thesis by simp
  qed
qed simp

text \<open>The number of reservations of a key, over any history, is at most three.\<close>

lemma run_grants: "inv s \<Longrightarrow> view s k = None \<Longrightarrow> run_calls step ps s = (rs, s') \<Longrightarrow>
    int (grants k rs) \<le> delivery_max_attempts"
  using run_attempts [of s ps rs s' k] run_bounded [of s ps rs s' k]
  by (simp add: delivery_max_attempts_def)

lemma run_held:
  assumes "inv s" and "run_calls step ps s = (rs, s')" and "view s k = Some d"
    and "\<And>now p. (now, p) \<in> set ps \<Longrightarrow> held d now" and "never_marked k ps"
  shows "view s' k = Some d \<and> grants k rs = 0"
  using assms
proof (induction ps arbitrary: s rs)
  case (Cons c ps)
  obtain now p where c: "c = (now, p)" by (cases c)
  have h: "held d now" "\<not> marks k p" and ps: "never_marked k ps"
    using Cons.prems(4,5) by (auto simp: c never_marked_def)
  have IH: "inv t \<Longrightarrow> run_calls step ps t = (ts, s') \<Longrightarrow> view t k = Some d \<Longrightarrow>
      view s' k = Some d \<and> grants k ts = 0" for t ts
    using Cons.IH Cons.prems(4) ps by auto
  show ?case
  proof (cases "step now p s")
    case (Inl e)
    with Cons.prems c IH show ?thesis by (auto split: prod.splits)
  next
    case (Inr a)
    obtain r s1 where a: "a = (r, s1)" by (cases a)
    obtain rs1 where rs: "rs = r # rs1" "run_calls step ps s1 = (rs1, s')"
      using Cons.prems c Inr a by (auto split: prod.splits)
    obtain sp where 1: "inv s1"
      and 2: "ledger_step stamp now (with_space sp p) (view s) = (r, view s1)"
      using step_ledger Cons.prems(1) Inr a by blast
    from ledger_step_held [OF 2 Cons.prems(3) h(1)] h(2)
    have "view s1 k = Some d" "grants k [r] = 0" by simp_all
    with IH [OF 1 rs(2)] show ?thesis by (cases r) (auto simp: rs split: if_splits)
  qed
qed simp

lemma settled_forever:
  assumes "inv s" and "run_calls step ps s = (rs, s')" and "view s k = Some d"
    and "dr_status d \<in> {Sent, Unknown}" and "never_marked k ps"
  shows "view s' k = Some d \<and> grants k rs = 0"
  using run_held [OF assms(1-3)] assms(4,5) by (simp add: held_settled)

lemma exclusive:
  assumes "inv s" and "step t (Reserve k ty sp mid) s = Inr (Some d, s1)"
    and "run_calls step ps s1 = (rs, s')"
    and "before (stamp (t + delivery_ttl)) ps" and "never_marked k ps"
  shows "view s' k = Some d \<and> grants k rs = 0"
proof -
  obtain sp' where 1: "inv s1"
    and 2: "ledger_reserve stamp k ty sp' mid t (view s) = (Some d, view s1)"
    using step_ledger [OF assms(1,2)] by auto
  then have d: "view s1 k = Some d" "dr_status d = Reserved"
    "dr_lease_expires_at d = Some (stamp (t + delivery_ttl))"
    by (auto simp: ledger_reserve_def Let_def fun_eq_iff split: if_splits dest: spec [of _ k])
  show ?thesis
    using run_held [OF 1 assms(3) d(1)] assms(4,5)
    by (auto simp: held_reserved [OF d(2,3)] before_def list_all_iff)
qed

end

subsection \<open>PostgreSQL follows the contract\<close>

definition pg_ok :: "delivery_db \<Rightarrow> bool" where
  "pg_ok S \<longleftrightarrow> distinct (map dl_key (deliveries S))"

lemma record_of_row_simps [simp]:
  "dr_key (record_of_row r) = dl_key r" "dr_status (record_of_row r) = dl_status r"
  "dr_lease_expires_at (record_of_row r) = dl_lease_expires_at r"
  "dr_attempt_count (record_of_row r) = dl_attempt_count r"
  "dr_created_at (record_of_row r) = dl_created_at r"
  by (simp_all add: record_of_row_def)

lemma stale_row_expired: "stale_row now r = is_reservation_expired (record_of_row r) now"
  by (simp add: stale_row_def is_reservation_expired_def)

lemma record_of_reserved_row:
  "record_of_row (reserved_row k ty tenant sp mid now old) =
     reserved_record (\<lambda>t. t) k ty sp mid now (map_option record_of_row old)"
  by (cases old) (simp_all add: reserved_row_def reserved_record_def record_of_row_def)

lemma reserved_row_key [simp]: "dl_key (reserved_row k ty tenant sp mid now old) = k"
  by (simp add: reserved_row_def)

lemma pg_view_upd:
  "(\<And>r. P r \<Longrightarrow> dl_key (f r) = dl_key r) \<Longrightarrow> deliveries S' = upd_where P f (deliveries S) \<Longrightarrow>
   pg_get_delivery S' k = map_option (\<lambda>r. record_of_row (if P r then f r else r))
     (find_delivery k (deliveries S))"
  by (simp add: pg_get_delivery_def dv.lookup_upd_where option.map_comp comp_def)

lemma find_delivery_snoc:
  "k \<notin> dl_key ` set rows \<Longrightarrow> dl_key r = k \<Longrightarrow>
     find_delivery j (rows @ [r]) = (if j = k then Some r else find_delivery j rows)"
  by (induction rows) (auto simp: find_delivery_def)

lemma pg_reserve_refines:
  assumes "pg_reserve_delivery E k ty sid mid tenant now S = Inr (r, S')" and "pg_ok S"
    and "ensure_tenant_space E sid tenant ''feishu'' [] (dv_core S) = Inr (sp, core)"
  shows "pg_ok S' \<and> dv_core S' = core \<and>
    ledger_reserve (\<lambda>t. t) k ty sp mid now (pg_get_delivery S) = (r, pg_get_delivery S')"
proof (cases "find_delivery k (deliveries S)")
  case None
  then have "k \<notin> dl_key ` set (deliveries S)" by (simp add: dv.lookup_None_iff)
  with assms None show ?thesis
    by (auto simp: pg_reserve_delivery_def ledger_reserve_def pg_get_delivery_def Let_def pg_ok_def
        find_delivery_snoc record_of_reserved_row fun_eq_iff split: if_splits)
next
  case (Some old)
  show ?thesis
  proof (cases "reservation_refused (record_of_row old) now")
    case True
    with assms Some show ?thesis
      by (auto simp: pg_reserve_delivery_def ledger_reserve_def pg_get_delivery_def Let_def pg_ok_def)
  next
    case False
    have "find_delivery j (upd_where (\<lambda>r. dl_key r = k)
        (\<lambda>_. reserved_row k ty tenant sp mid now (Some old)) (deliveries S)) =
      (if j = k then Some (reserved_row k ty tenant sp mid now (Some old))
       else find_delivery j (deliveries S))" for j
      using dv.lookup_mem [of j "deliveries S"] Some
      by (auto simp: dv.lookup_upd_where split: option.splits)
        (cases "find_delivery j (deliveries S)"; simp)
    with False assms Some show ?thesis
      by (auto simp: pg_reserve_delivery_def ledger_reserve_def pg_get_delivery_def Let_def pg_ok_def
          record_of_reserved_row fun_eq_iff map_upd_where)
  qed
qed

lemma pg_update_refines:
  assumes "pg_ok S"
  shows "pg_ok (pg_update_status k st err now S) \<and>
    pg_get_delivery (pg_update_status k st err now S)
      = ledger_update (\<lambda>t. t) k st err now (pg_get_delivery S)"
proof (cases "find_delivery k (deliveries S)")
  case None
  with assms show ?thesis
    by (auto simp: pg_update_status_def ledger_update_def pg_get_delivery_def fun_eq_iff)
next
  case (Some row)
  have *: "find_delivery j (deliveries S) = Some r \<Longrightarrow> dl_key r = j" for j r
    by (simp add: dv.lookup_mem)
  from Some assms show ?thesis
    by (auto simp: pg_update_status_def pg_ok_def map_upd_where ledger_update_def
        pg_get_delivery_def dv.lookup_upd_where fun_eq_iff record_of_row_def option.map_comp comp_def
        dest: * intro!: option.map_cong)
qed

lemma pg_recover_refines:
  assumes "pg_ok S"
  shows "pg_ok (snd (pg_recover_stale now S)) \<and>
    pg_get_delivery (snd (pg_recover_stale now S))
      = ledger_recover (\<lambda>t. t) now (pg_get_delivery S)"
  using assms
  by (auto simp: pg_recover_stale_def pg_ok_def map_upd_where ledger_recover_def
      pg_get_delivery_def dv.lookup_upd_where fun_eq_iff expired_record_def stale_row_expired
      record_of_row_def Let_def option.map_comp comp_def intro!: option.map_cong)

lemma pg_step_refines:
  assumes "pg_ok S" and "pg_step E tenant now p S = Inr (r, S')"
  shows "pg_ok S' \<and> (\<exists>sp. ledger_step (\<lambda>t. t) now (with_space sp p) (pg_get_delivery S)
    = (r, pg_get_delivery S'))"
proof (cases p)
  case (Reserve k ty sid mid)
  with assms(2) obtain sp core where
    "ensure_tenant_space E sid tenant ''feishu'' [] (dv_core S) = Inr (sp, core)"
    by (auto simp: pg_reserve_delivery_def split: sum.splits)
  with pg_reserve_refines [of E k ty sid mid tenant now S r S' sp core] assms Reserve
  show ?thesis by auto
next
  case (Mark k st err)
  with assms pg_update_refines [OF assms(1)] show ?thesis by auto
next
  case Recover
  with assms pg_recover_refines [OF assms(1)] show ?thesis by auto
qed

interpretation pg: delivery_store pg_ok pg_get_delivery "\<lambda>t. t" "pg_step E tenant"
  for E tenant
  by unfold_locales (rule pg_step_refines)

subsection \<open>The file follows the contract\<close>

lemma status_of_text_inverse [simp]: "status_of_text (status_text st) = Some st"
  by (cases st) (simp_all add: status_of_text_def)

lemma raw_opt_inverse [simp]:
  "raw_opt_str (json_opt JStr x) = Inr x" "raw_opt_int (json_opt JInt y) = Inr y"
  by (cases x; cases y; simp add: json_opt_def)+

lemma record_roundtrip: "record_from_raw (record_to_raw r) = Inr r"
  by (simp add: record_from_raw_def record_to_raw_def raw_item_def pget_def raw_status_def
      raw_count_def)

text \<open>Assigning \<open>status\<close>, \<open>updated_at\<close> and \<open>error\<close> in the raw object is the record update.\<close>

lemma raw_update:
  "pset ''error'' (json_opt JStr err) (pset ''updated_at'' (JInt t)
     (pset ''status'' (JStr (status_text st)) (record_to_raw r))) =
   record_to_raw (r\<lparr>dr_status := st, dr_updated_at := t, dr_error := err\<rparr>)"
  by (simp add: record_to_raw_def pset_def)

definition file_ok :: "delivery_file \<Rightarrow> bool" where
  "file_ok items \<longleftrightarrow> distinct (map fst items) \<and>
     (\<forall>(k, raw) \<in> set items. \<exists>r. raw = record_to_raw r \<and> dr_key r = k)"

definition file_view :: "delivery_file \<Rightarrow> ledger" where
  "file_view items k = (case local_get_delivery items k of Inl e \<Rightarrow> None | Inr r \<Rightarrow> r)"

lemma file_ok_entry: "file_ok items \<Longrightarrow> map_of items k = Some raw \<Longrightarrow>
    \<exists>r. raw = record_to_raw r \<and> dr_key r = k"
  by (auto simp: file_ok_def dest!: map_of_SomeD)

lemma file_get: "file_ok items \<Longrightarrow> local_get_delivery items k = Inr (file_view items k)"
  by (cases "map_of items k")
    (auto simp: file_view_def local_get_delivery_def record_roundtrip dest!: file_ok_entry)

lemma file_view_Some: "file_ok items \<Longrightarrow>
    map_of items k = map_option record_to_raw (file_view items k)"
  by (cases "map_of items k")
    (auto simp: file_view_def local_get_delivery_def record_roundtrip dest!: file_ok_entry)

lemma file_view_key: "file_ok items \<Longrightarrow> file_view items k = Some r \<Longrightarrow> dr_key r = k"
  using file_ok_entry [of items k] file_view_Some [of items k] record_roundtrip
  by (metis option.simps(9) sum.inject(2))

lemma file_ok_write:
  assumes "file_ok items" and "dr_key r = k"
  shows "file_ok (AList.update k (record_to_raw r) items) \<and>
    file_view (AList.update k (record_to_raw r) items) = (file_view items)(k \<mapsto> r)"
proof -
  have "set (AList.update k (record_to_raw r) items) \<subseteq> insert (k, record_to_raw r) (set items)"
    by (induction items) auto
  with assms have "file_ok (AList.update k (record_to_raw r) items)"
    by (fastforce simp: file_ok_def distinct_update)
  moreover have "file_view (AList.update k (record_to_raw r) items) = (file_view items)(k \<mapsto> r)"
    by (rule ext) (simp add: file_view_def local_get_delivery_def update_conv' record_roundtrip)
  ultimately show ?thesis ..
qed

lemma file_reserve_refines:
  assumes "file_ok items" and "local_reserve_delivery k ty sp mid now items = Inr (r, items')"
  shows "file_ok items' \<and>
    ledger_reserve to_ms k ty sp mid now (file_view items) = (r, file_view items')"
  using assms file_ok_write [OF assms(1), of "reserved_record to_ms k ty sp mid now (file_view items k)" k]
  by (auto simp: local_reserve_delivery_def file_get [OF assms(1)] ledger_reserve_def Let_def
      split: if_splits)

lemma file_update_refines:
  assumes "file_ok items"
  shows "file_ok (local_update_status k st err now items) \<and>
    file_view (local_update_status k st err now items)
      = ledger_update to_ms k st err now (file_view items)"
proof (cases "file_view items k")
  case None
  with assms file_view_Some [OF assms, of k] show ?thesis
    by (auto simp: local_update_status_def ledger_update_def fun_eq_iff)
next
  case (Some r)
  with file_ok_write [OF assms, of "r\<lparr>dr_status := st, dr_updated_at := to_ms now, dr_error := err\<rparr>" k]
    file_view_Some [OF assms, of k] file_view_key [OF assms Some]
  show ?thesis by (simp add: local_update_status_def ledger_update_def raw_update)
qed

lemma file_recover_total:
  "file_ok items \<Longrightarrow> \<exists>n items'. local_recover_stale now items = Inr (n, items') \<and>
     map fst items' = map fst items \<and> file_ok items' \<and>
     file_view items' = ledger_recover to_ms now (file_view items)"
proof (induction items)
  case Nil
  show ?case
    by (auto simp: file_ok_def file_view_def local_get_delivery_def ledger_recover_def fun_eq_iff)
next
  case (Cons x items)
  obtain k raw where x: "x = (k, raw)" by (cases x)
  have ok: "file_ok items" and k: "k \<notin> fst ` set items" using Cons.prems by (auto simp: file_ok_def x)
  obtain r where r: "raw = record_to_raw r" "dr_key r = k"
    using Cons.prems by (auto simp: file_ok_def x)
  obtain n items' where IH: "local_recover_stale now items = Inr (n, items')"
    "map fst items' = map fst items" "file_ok items'"
    "file_view items' = ledger_recover to_ms now (file_view items)"
    using Cons.IH [OF ok] by blast
  have cons: "file_view ((k, record_to_raw d) # xs) = (file_view xs)(k \<mapsto> d)" for d xs
    by (rule ext) (simp add: file_view_def local_get_delivery_def record_roundtrip)
  have k': "k \<notin> fst ` set items'" using IH(2) k by (metis list.set_map)
  let ?d = "expired_record to_ms now r"
  have "local_recover_stale now (x # items) =
      Inr (if is_reservation_expired r now then Suc n else n, (k, record_to_raw ?d) # items')"
    by (auto simp: x r(1) IH(1) record_roundtrip is_reservation_expired_def expired_record_def)
  moreover have "file_ok ((k, record_to_raw ?d) # items')"
    using IH(3) k' r(2) by (auto simp: file_ok_def intro!: exI [of _ ?d])
  moreover have "file_view ((k, record_to_raw ?d) # items')
      = ledger_recover to_ms now (file_view (x # items))"
    by (simp add: cons x r(1) IH(4) ledger_recover_def fun_eq_iff)
  ultimately show ?case using IH(2) x by auto
qed

lemma file_step_refines:
  assumes "file_ok items" and "local_step now p items = Inr (r, items')"
  shows "file_ok items' \<and> ledger_step to_ms now p (file_view items) = (r, file_view items')"
proof (cases p)
  case (Reserve k ty sp mid)
  with assms file_reserve_refines [OF assms(1)] show ?thesis by auto
next
  case (Mark k st err)
  with assms file_update_refines [OF assms(1)] show ?thesis by auto
next
  case Recover
  with assms file_recover_total [OF assms(1), of now] show ?thesis by auto
qed

lemma file_step_total: "file_ok items \<Longrightarrow> \<exists>r items'. local_step now p items = Inr (r, items')"
  by (cases p) (auto simp: local_reserve_delivery_def file_get Let_def
      dest: file_recover_total [of _ now])

interpretation js: delivery_store file_ok file_view to_ms local_step
proof
  fix items now p r items'
  assume "file_ok items" "local_step now p items = Inr (r, items')"
  then have "file_ok items' \<and> ledger_step to_ms now p (file_view items) = (r, file_view items')"
    by (rule file_step_refines)
  moreover have "with_space (case p of Reserve _ _ sp _ \<Rightarrow> sp | _ \<Rightarrow> []) p = p"
    by (cases p) simp_all
  ultimately show "file_ok items' \<and>
      (\<exists>sp. ledger_step to_ms now (with_space sp p) (file_view items) = (r, file_view items'))"
    by metis
qed

end
