(* ===== verification/Delivery_Attempts.thy ===== *)
theory Delivery_Attempts
  imports Delivery_Store
begin

text \<open>
  The attempt rows that PostgreSQL keeps beside each delivery: after any history of calls they are
  numbered 1 to the attempt count of the delivery, and the last one carries its status and error.
\<close>

definition attempts_for :: "string \<Rightarrow> delivery_attempt list \<Rightarrow> delivery_attempt list" where
  "attempts_for k rows = filter (\<lambda>a. da_key a = k) rows"

definition mirrors :: "delivery_attempt list \<Rightarrow> delivery_row option \<Rightarrow> bool" where
  "mirrors as old = (case old of None \<Rightarrow> as = []
     | Some r \<Rightarrow> as \<noteq> [] \<and> map da_no as = [1..dl_attempt_count r] \<and>
         da_status (last as) = dl_status r \<and> da_error (last as) = dl_error r)"

definition attempts_mirror :: "delivery_db \<Rightarrow> bool" where
  "attempts_mirror S \<longleftrightarrow> (\<forall>k. mirrors (attempts_for k (delivery_attempts S))
     (find_delivery k (deliveries S)))"

lemma attempts_for_finish:
  "attempts_for k (finish_attempt k' n st now err rows) =
     (if k' = k then finish_attempt k n st now err (attempts_for k rows) else attempts_for k rows)"
  by (induction rows) (auto simp: attempts_for_def finish_attempt_def)

lemma finish_all_other:
  "k \<notin> dl_key ` set rs \<Longrightarrow>
     attempts_for k (fold (\<lambda>r. finish_attempt (dl_key r) (dl_attempt_count r) st now err) rs rows)
       = attempts_for k rows"
  by (induction rs arbitrary: rows) (auto simp: attempts_for_finish)

lemma finish_all_one:
  "distinct (map dl_key rs) \<Longrightarrow> r \<in> set rs \<Longrightarrow>
     attempts_for (dl_key r)
       (fold (\<lambda>r. finish_attempt (dl_key r) (dl_attempt_count r) st now err) rs rows)
     = finish_attempt (dl_key r) (dl_attempt_count r) st now err (attempts_for (dl_key r) rows)"
proof (induction rs arbitrary: rows)
  case (Cons x rs)
  then show ?case by (cases "x = r") (auto simp: finish_all_other attempts_for_finish)
qed simp

lemma last_of_upto:
  assumes "map f as = [1..n]" and "as \<noteq> []"
  shows "f (last as) = n \<and> 1 \<le> n"
proof -
  have "[1..n] \<noteq> []" using assms by (metis map_is_Nil_conv)
  then have n: "1 \<le> n" by simp
  then have "last [1..n] = n" by (simp add: upto_rec2)
  then show ?thesis using assms n by (metis last_map)
qed

lemma mirrors_finish:
  assumes "mirrors (attempts_for k rows) (Some r)"
    and "dl_attempt_count r' = dl_attempt_count r" "dl_status r' = st" "dl_error r' = err"
  shows "mirrors (finish_attempt k (dl_attempt_count r) st now err (attempts_for k rows)) (Some r')"
proof -
  let ?as = "attempts_for k rows"
  from assms(1) have as: "?as \<noteq> []" "map da_no ?as = [1..dl_attempt_count r]"
    by (simp_all add: mirrors_def)
  have l: "da_key (last ?as) = k" "da_no (last ?as) = dl_attempt_count r"
    using last_in_set [OF as(1)] last_of_upto [OF as(2,1)] by (auto simp: attempts_for_def)
  have "map da_no (finish_attempt k (dl_attempt_count r) st now err ?as) = map da_no ?as"
    unfolding finish_attempt_def by (rule map_upd_where) simp
  moreover have "last (finish_attempt k (dl_attempt_count r) st now err ?as) =
      (last ?as)\<lparr>da_status := st, da_finished_at := Some now, da_error := err\<rparr>"
    using as(1) l by (simp add: finish_attempt_def upd_where_def last_map)
  moreover have "finish_attempt k (dl_attempt_count r) st now err ?as \<noteq> []"
    using as(1) by (simp add: finish_attempt_def upd_where_def)
  ultimately show ?thesis using as assms(2-4) by (simp add: mirrors_def)
qed

lemma mirrors_insert:
  assumes "mirrors (attempts_for k rows) old" and "da_key a = k"
    and "da_no a = dl_attempt_count r" "da_status a = dl_status r" "da_error a = dl_error r"
    and n: "dl_attempt_count r = (case old of None \<Rightarrow> 0 | Some d \<Rightarrow> dl_attempt_count d) + 1"
  shows "mirrors (attempts_for k (insert_delivery_attempt a rows)) (Some r)"
proof -
  have no: "map da_no (attempts_for k rows) = [1..dl_attempt_count r - 1]"
    using assms(1) n by (auto simp: mirrors_def split: option.splits)
  then have "da_no b \<noteq> dl_attempt_count r" if "b \<in> set (attempts_for k rows)" for b
    using that by (metis atLeastAtMost_iff image_eqI list.set_map less_irrefl set_upto zle_diff1_eq)
  then have "insert_delivery_attempt a rows = rows @ [a]"
    using assms(2,3) by (auto simp: insert_delivery_attempt_def attempts_for_def)
  moreover have "1 \<le> dl_attempt_count r"
    using assms(1) n last_of_upto [OF no] by (fastforce simp: mirrors_def split: option.splits)
  then have "[1..dl_attempt_count r] = [1..dl_attempt_count r - 1] @ [dl_attempt_count r]"
    by (rule upto_rec2)
  ultimately show ?thesis
    using assms(2-5) no by (simp add: mirrors_def attempts_for_def)
qed

lemma attempts_for_insert_other: "da_key a \<noteq> k \<Longrightarrow>
    attempts_for k (insert_delivery_attempt a rows) = attempts_for k rows"
  by (simp add: insert_delivery_attempt_def attempts_for_def)

subsection \<open>Every operation keeps the mirror\<close>

lemma mirror_reserve:
  assumes "attempts_mirror S" and "pg_ok S"
    and "pg_reserve_delivery E k ty sid mid tenant now S = Inr (r, S')"
  shows "attempts_mirror S'"
proof -
  let ?old = "find_delivery k (deliveries S)"
  let ?row = "\<lambda>sp. reserved_row k ty tenant sp mid now ?old"
  let ?att = "\<lambda>sp. \<lparr>da_key = k, da_no = dl_attempt_count (?row sp), da_status = Reserved,
                        da_started_at = now, da_finished_at = None, da_error = None\<rparr>"
  obtain sp core where sp: "ensure_tenant_space E sid tenant ''feishu'' [] (dv_core S) = Inr (sp, core)"
    using assms(3) by (auto simp: pg_reserve_delivery_def split: sum.splits)
  have "deliveries S' = deliveries S \<and> delivery_attempts S' = delivery_attempts S \<or>
      (\<forall>j. find_delivery j (deliveries S') = (if j = k then Some (?row sp)
         else find_delivery j (deliveries S))) \<and>
      delivery_attempts S' = insert_delivery_attempt (?att sp) (delivery_attempts S)"
  proof (cases ?old)
    case None
    then have "k \<notin> dl_key ` set (deliveries S)" by (simp add: dv.lookup_None_iff)
    then show ?thesis using assms(3) None sp
      by (auto simp: pg_reserve_delivery_def Let_def find_delivery_snoc)
  next
    case (Some old)
    have "find_delivery j (upd_where (\<lambda>r. dl_key r = k) (\<lambda>_. ?row sp) (deliveries S)) =
        (if j = k then Some (?row sp) else find_delivery j (deliveries S))" for j
      using dv.lookup_mem [of j "deliveries S"] Some
      by (auto simp: dv.lookup_upd_where split: option.splits)
        (cases "find_delivery j (deliveries S)"; simp)
    with assms(3) Some sp show ?thesis
      by (auto simp: pg_reserve_delivery_def Let_def split: if_splits)
  qed
  then show ?thesis
  proof (elim disjE conjE)
    assume "deliveries S' = deliveries S" "delivery_attempts S' = delivery_attempts S"
    with assms(1) show ?thesis by (simp add: attempts_mirror_def)
  next
    assume f: "\<forall>j. find_delivery j (deliveries S') = (if j = k then Some (?row sp)
         else find_delivery j (deliveries S))"
      and a: "delivery_attempts S' = insert_delivery_attempt (?att sp) (delivery_attempts S)"
    have "mirrors (attempts_for k (delivery_attempts S')) (Some (?row sp))"
      unfolding a
      by (rule mirrors_insert [where old = ?old])
        (use assms(1) in \<open>auto simp: attempts_mirror_def reserved_row_def\<close>)
    with f a assms(1) show ?thesis
      by (auto simp: attempts_mirror_def attempts_for_insert_other)
  qed
qed

lemma mirror_update:
  assumes "attempts_mirror S"
  shows "attempts_mirror (pg_update_status k st err now S)"
proof (cases "find_delivery k (deliveries S)")
  case None
  with assms show ?thesis by (simp add: pg_update_status_def)
next
  case (Some row)
  let ?f = "\<lambda>r. r\<lparr>dl_status := st, dl_updated_at := now, dl_error := err\<rparr>"
  have f: "find_delivery j (upd_where (\<lambda>r. dl_key r = k) ?f (deliveries S)) =
      (if j = k then Some (?f row) else find_delivery j (deliveries S))" for j
    using dv.lookup_mem [of j "deliveries S"] Some
    by (auto simp: dv.lookup_upd_where split: option.splits)
      (cases "find_delivery j (deliveries S)"; simp)
  have "mirrors (attempts_for k (delivery_attempts S)) (Some row)"
    using assms Some by (metis attempts_mirror_def)
  then have "mirrors (finish_attempt k (dl_attempt_count row) st now err
      (attempts_for k (delivery_attempts S))) (Some (?f row))"
    by (rule mirrors_finish) simp_all
  with assms Some f show ?thesis
    by (simp add: pg_update_status_def attempts_mirror_def attempts_for_finish)
qed

lemma mirror_recover:
  assumes "attempts_mirror S" and "pg_ok S"
  shows "attempts_mirror (snd (pg_recover_stale now S))"
  unfolding attempts_mirror_def
proof
  fix k
  let ?stale = "filter (stale_row now) (deliveries S)"
  let ?f = "\<lambda>r. r\<lparr>dl_status := DeliveryFailed, dl_updated_at := now,
                   dl_error := Some lease_expired_text\<rparr>"
  let ?as = "attempts_for k (delivery_attempts S)"
  let ?as' = "attempts_for k (delivery_attempts (snd (pg_recover_stale now S)))"
  have k: "mirrors ?as (find_delivery k (deliveries S))"
    using assms(1) by (simp add: attempts_mirror_def)
  have d: "distinct (map dl_key ?stale)"
    using assms(2) by (simp add: pg_ok_def distinct_map_filter)
  have find: "find_delivery k (deliveries (snd (pg_recover_stale now S))) =
      map_option (\<lambda>r. if stale_row now r then ?f r else r) (find_delivery k (deliveries S))"
    by (simp add: pg_recover_stale_def Let_def dv.lookup_upd_where)
  show "mirrors ?as' (find_delivery k (deliveries (snd (pg_recover_stale now S))))"
  proof (cases "\<exists>r \<in> set ?stale. dl_key r = k")
    case False
    then have "?as' = ?as"
      by (simp add: pg_recover_stale_def Let_def) (rule finish_all_other, auto)
    moreover have "find_delivery k (deliveries S) = Some r \<Longrightarrow> \<not> stale_row now r" for r
      using False dv.lookup_mem by fastforce
    ultimately show ?thesis using k find by (cases "find_delivery k (deliveries S)") auto
  next
    case True
    then obtain r where r: "r \<in> set ?stale" "dl_key r = k" by blast
    then have "find_delivery k (deliveries S) = Some r"
      using dv.lookup_of_mem assms(2) by (auto simp: pg_ok_def)
    moreover have "?as' = finish_attempt k (dl_attempt_count r) DeliveryFailed now
        (Some lease_expired_text) ?as"
      using finish_all_one [OF d r(1)] r(2) by (simp add: pg_recover_stale_def Let_def)
    moreover have "stale_row now r" using r(1) by simp
    ultimately show ?thesis using k find by (auto intro: mirrors_finish)
  qed
qed

lemma mirror_step:
  assumes "attempts_mirror S" and "pg_ok S" and "pg_step E tenant now p S = Inr (r, S')"
  shows "attempts_mirror S'"
  using assms mirror_reserve mirror_update mirror_recover by (cases p) fastforce+

lemma mirror_run: "attempts_mirror S \<Longrightarrow> pg_ok S \<Longrightarrow>
    run_calls (pg_step E tenant) ps S = (rs, S') \<Longrightarrow> attempts_mirror S' \<and> pg_ok S'"
proof (induction ps arbitrary: S rs)
  case (Cons c ps)
  then show ?case
    by (cases c) (auto split: sum.splits prod.splits dest: mirror_step pg_step_refines)
qed simp

end
