(* ===== verification/Delivery_Guarantees.thy ===== *)
theory Delivery_Guarantees
  imports Worker_Guarantees Delivery_Attempts
begin

text \<open>
  What the delivery ledger promises to the senders of messages, for both implementations, and what
  the delivery handler makes of it.
\<close>

subsection \<open>Bounds, settlement, exclusion\<close>

definition no_deliveries :: "db \<Rightarrow> delivery_db" where
  "no_deliveries s = \<lparr>dv_core = s, deliveries = [], delivery_attempts = []\<rparr>"

lemma no_deliveries_ok [simp]:
  "pg_ok (no_deliveries s)" "pg_get_delivery (no_deliveries s) k = None"
  "attempts_mirror (no_deliveries s)" "file_ok []" "file_view [] k = None"
  by (simp_all add: no_deliveries_def pg_ok_def pg_get_delivery_def find_delivery_def
      attempts_mirror_def attempts_for_def mirrors_def file_ok_def file_view_def local_get_delivery_def)

text \<open>
  Whatever the history of reservations, marks and recoveries, a delivery key is reserved at most
  three times, in PostgreSQL and in the file.
\<close>

theorem reservations_bounded:
  "grants k (fst (run_calls (pg_step E tenant) ps (no_deliveries s))) \<le> 3 \<and>
   grants k (fst (run_calls local_step ps [])) \<le> 3"
proof
  obtain rs S' where r: "run_calls (pg_step E tenant) ps (no_deliveries s) = (rs, S')" by fastforce
  with pg.run_grants [OF _ _ r, of k] show "grants k (fst (run_calls (pg_step E tenant) ps (no_deliveries s))) \<le> 3"
    by (simp add: delivery_max_attempts_def)
next
  obtain rs S' where r: "run_calls local_step ps [] = (rs, S')" by fastforce
  with js.run_grants [OF _ _ r, of k] show "grants k (fst (run_calls local_step ps [])) \<le> 3"
    by (simp add: delivery_max_attempts_def)
qed

text \<open>
  A delivery that is marked as sent, or whose fate is unknown, stays so and is never reserved
  again, at any time, unless somebody marks it again.
\<close>

theorem settled_delivery_stays:
  assumes "pg_ok S" and "pg_get_delivery S k = Some d" and "dr_status d \<in> {Sent, Unknown}"
    and "never_marked k ps"
  shows "pg_get_delivery (snd (run_calls (pg_step E tenant) ps S)) k = Some d \<and>
    grants k (fst (run_calls (pg_step E tenant) ps S)) = 0"
  using pg.settled_forever [OF assms(1) prod.collapse [symmetric] assms(2-4)] .

definition hist1 :: "(time \<times> delivery_op) list" where
  "hist1 = [(0, Reserve ''k'' ''message'' ''s'' None), (5, Mark ''k'' Sent None)]"

definition hist2 :: "(time \<times> delivery_op) list" where
  "hist2 = [(6, Reserve ''k'' ''message'' ''s'' None), (10 ^ 12, Recover),
     (10 ^ 12, Reserve ''k'' ''message'' ''s'' None)]"

definition dv1 :: delivery_db where
  "dv1 = snd (run_calls (pg_step env0 ''t'') hist1 (no_deliveries st1))"

lemma dv1_ok: "pg_ok dv1"
  unfolding dv1_def by (rule pg.run_inv [OF no_deliveries_ok(1) prod.collapse [symmetric]])

lemma settled_delivery_stays_witness:
  "\<exists>d. pg_get_delivery dv1 ''k'' = Some d \<and> dr_status d = Sent \<and>
     pg_get_delivery (snd (run_calls (pg_step env0 ''t'') hist2 dv1)) ''k'' = Some d \<and>
     grants ''k'' (fst (run_calls (pg_step env0 ''t'') hist2 dv1)) = 0"
proof -
  have "map_option dr_status (pg_get_delivery dv1 ''k'') = Some Sent" by code_simp
  then obtain d where d: "pg_get_delivery dv1 ''k'' = Some d" "dr_status d = Sent" by auto
  have "never_marked ''k'' hist2" by code_simp
  from settled_delivery_stays [OF dv1_ok d(1) _ this, where E = env0 and tenant = "''t''"] d show ?thesis by simp
qed

text \<open>
  C15: mutual exclusion. After a reservation is granted, nobody else gets one for the same key, in
  PostgreSQL or in the file, until the reservation's lease (600 seconds, in the file cut to whole
  milliseconds) is over or somebody marks the delivery; recoveries in between change nothing.
\<close>

theorem reservation_excludes:
  assumes "pg_ok S" and "pg_step E tenant t (Reserve k ty sp mid) S = Inr (Some d, S1)"
    and "before (t + delivery_ttl) ps" and "never_marked k ps"
    and "file_ok fs" and "local_step t (Reserve k ty sp mid) fs = Inr (Some d', fs1)"
    and "before (to_ms (t + delivery_ttl)) qs" and "never_marked k qs"
  shows "grants k (fst (run_calls (pg_step E tenant) ps S1)) = 0 \<and>
    grants k (fst (run_calls local_step qs fs1)) = 0"
  using pg.exclusive [OF assms(1,2) prod.collapse [symmetric] assms(3,4)]
    js.exclusive [OF assms(5,6) prod.collapse [symmetric] assms(7,8)] by simp

definition hist3 :: "(time \<times> delivery_op) list" where
  "hist3 = [(10, Recover), (599999000, Reserve ''k'' ''message'' ''s'' None)]"

lemma reservation_excludes_witness:
  "grants ''k'' (fst (run_calls (pg_step env0 ''t'') hist3
     (snd (projr (pg_step env0 ''t'' 0 (Reserve ''k'' ''message'' ''s'' None) (no_deliveries st1)))))) = 0 \<and>
   grants ''k'' (fst (run_calls local_step hist3
     (snd (projr (local_step 0 (Reserve ''k'' ''message'' ''s'' None) []))))) = 0"
proof -
  let ?p = "Reserve ''k'' ''message'' ''s'' None"
  have ok: "x = Inr (Some (the (fst (projr x))), snd (projr x))"
    if "\<not> isl x" "fst (projr x) \<noteq> None" for x :: "db_error + delivery_record option \<times> 'a"
    using that by (cases x) (auto simp: prod_eq_iff)
  have "\<not> isl (pg_step env0 ''t'' 0 ?p (no_deliveries st1)) \<and>
      fst (projr (pg_step env0 ''t'' 0 ?p (no_deliveries st1))) \<noteq> None" by code_simp
  moreover have "\<not> isl (local_step 0 ?p []) \<and> fst (projr (local_step 0 ?p [])) \<noteq> None" by code_simp
  moreover have "before (0 + delivery_ttl) hist3" "before (to_ms (0 + delivery_ttl)) hist3" "never_marked ''k'' hist3"
    by code_simp+
  ultimately show ?thesis
    by (intro reservation_excludes [where t = 0 and k = "''k''" and ty = "''message''" and sp = "''s''" and mid = None
          and S = "no_deliveries st1" and fs = "[]", OF _ ok _ _ _ ok]) simp_all
qed

subsection \<open>Both stores\<close>

text \<open>Calls whose spaces are registered and whose clock readings are whole milliseconds.\<close>

definition comparable :: "string \<Rightarrow> db \<Rightarrow> (time \<times> delivery_op) list \<Rightarrow> bool" where
  "comparable tenant s ps = list_all (\<lambda>(t, p). t mod 1000 = 0 \<and> (case p of
     Reserve k ty sp mid \<Rightarrow> (case get_space sp (spaces s) of None \<Rightarrow> False
       | Some r \<Rightarrow> space_tenant_id r = tenant)
   | _ \<Rightarrow> True)) ps"

lemma to_ms_id: "t mod 1000 = 0 \<Longrightarrow> to_ms t = t"
  by (simp add: to_ms_def) (metis add.right_neutral div_mult_mod_eq)

lemma to_ms_lease: "t mod 1000 = 0 \<Longrightarrow> to_ms (t + delivery_ttl) = t + delivery_ttl"
  by (rule to_ms_id) (simp add: delivery_ttl_def mod_add_eq [symmetric])

lemma record_ms: "t mod 1000 = 0 \<Longrightarrow>
    reserved_record to_ms k ty sp mid t old = reserved_record (\<lambda>t. t) k ty sp mid t old"
  by (cases old) (simp_all add: reserved_record_def to_ms_id to_ms_lease)

lemma expired_ms: "t mod 1000 = 0 \<Longrightarrow> expired_record to_ms t = expired_record (\<lambda>t. t) t"
  by (rule ext) (simp add: expired_record_def to_ms_id)

lemma ledger_step_ms: "t mod 1000 = 0 \<Longrightarrow> ledger_step to_ms t p L = ledger_step (\<lambda>t. t) t p L"
  by (cases p) (simp_all add: ledger_reserve_def ledger_update_def ledger_recover_def
      record_ms expired_ms to_ms_id)

lemma ensure_known: "get_space sp (spaces s) = Some r \<Longrightarrow> space_tenant_id r = tenant \<Longrightarrow>
    ensure_tenant_space E sp tenant src [] s = Inr (sp, s)"
  by (simp add: ensure_tenant_space_def)

lemma pg_step_known:
  assumes "pg_ok S" "comparable tenant (dv_core S) [(t, p)]"
  shows "\<exists>S'. pg_step E tenant t p S = Inr (fst (ledger_step (\<lambda>t. t) t p (pg_get_delivery S)), S') \<and>
    pg_ok S' \<and> dv_core S' = dv_core S \<and>
    pg_get_delivery S' = snd (ledger_step (\<lambda>t. t) t p (pg_get_delivery S))"
proof (cases p)
  case (Reserve k ty sp mid)
  then obtain r where "get_space sp (spaces (dv_core S)) = Some r" "space_tenant_id r = tenant"
    using assms(2) by (auto simp: comparable_def split: option.splits)
  then have e: "ensure_tenant_space E sp tenant ''feishu'' [] (dv_core S) = Inr (sp, dv_core S)"
    by (rule ensure_known)
  then have "\<exists>x S'. pg_reserve_delivery E k ty sp mid tenant t S = Inr (x, S')"
    by (simp add: pg_reserve_delivery_def Let_def)
  then obtain x S' where s: "pg_reserve_delivery E k ty sp mid tenant t S = Inr (x, S')" by blast
  from pg_reserve_refines [OF s assms(1) e] s Reserve show ?thesis by auto
next
  case (Mark k st err)
  with pg_update_refines [OF assms(1)] show ?thesis
    by (auto simp: pg_update_status_def split: option.splits)
next
  case Recover
  with pg_recover_refines [OF assms(1)] show ?thesis by (auto simp: pg_recover_stale_def Let_def)
qed

lemma file_step_known:
  assumes "file_ok items" "t mod 1000 = 0"
  shows "\<exists>items'. local_step t p items = Inr (fst (ledger_step (\<lambda>t. t) t p (file_view items)), items') \<and>
    file_ok items' \<and> file_view items' = snd (ledger_step (\<lambda>t. t) t p (file_view items))"
proof -
  obtain r items' where s: "local_step t p items = Inr (r, items')" using file_step_total [OF assms(1)] by blast
  from file_step_refines [OF assms(1) s] ledger_step_ms [OF assms(2), of p "file_view items"] s
  show ?thesis by auto
qed

lemma stores_simulate:
  assumes "pg_ok S" "file_ok items" "pg_get_delivery S = file_view items" "comparable tenant (dv_core S) ps"
  shows "fst (run_calls (pg_step E tenant) ps S) = fst (run_calls local_step ps items) \<and>
    pg_get_delivery (snd (run_calls (pg_step E tenant) ps S)) = file_view (snd (run_calls local_step ps items))"
  using assms
proof (induction ps arbitrary: S items)
  case (Cons c ps)
  obtain t p where c: "c = (t, p)" by (cases c)
  have 1: "comparable tenant (dv_core S) [(t, p)]" "t mod 1000 = 0" and 2: "comparable tenant (dv_core S) ps"
    using Cons.prems(4) by (simp_all add: comparable_def c)
  from pg_step_known [OF Cons.prems(1) 1(1), of E] obtain S' where
    S': "pg_step E tenant t p S = Inr (fst (ledger_step (\<lambda>t. t) t p (pg_get_delivery S)), S')"
    "pg_ok S'" "dv_core S' = dv_core S" "pg_get_delivery S' = snd (ledger_step (\<lambda>t. t) t p (pg_get_delivery S))"
    by blast
  from file_step_known [OF Cons.prems(2) 1(2), of p] obtain items' where
    i: "local_step t p items = Inr (fst (ledger_step (\<lambda>t. t) t p (file_view items)), items')" "file_ok items'"
    "file_view items' = snd (ledger_step (\<lambda>t. t) t p (file_view items))"
    by blast
  have "fst (run_calls (pg_step E tenant) ps S') = fst (run_calls local_step ps items') \<and>
      pg_get_delivery (snd (run_calls (pg_step E tenant) ps S')) = file_view (snd (run_calls local_step ps items'))"
    using S' i Cons.prems(3) 2 by (intro Cons.IH) simp_all
  then show ?case
    by (auto simp: c S'(1) i(1) Cons.prems(3) split: prod.splits)
qed simp



text \<open>
  The attempt rows in PostgreSQL mirror the deliveries after every history: for a key they are
  numbered 1 to its attempt count, and the last one carries the status and the error of the delivery.
\<close>

theorem attempts_recorded:
  "(case find_delivery k (deliveries (snd (run_calls (pg_step E tenant) ps (no_deliveries s)))) of
      None \<Rightarrow> attempts_for k (delivery_attempts (snd (run_calls (pg_step E tenant) ps (no_deliveries s)))) = []
    | Some r \<Rightarrow>
       (let as = attempts_for k (delivery_attempts (snd (run_calls (pg_step E tenant) ps (no_deliveries s)))) in
        as \<noteq> [] \<and> map da_no as = [1..dl_attempt_count r] \<and>
        da_status (last as) = dl_status r \<and> da_error (last as) = dl_error r))"
  using mirror_run [OF no_deliveries_ok(3,1) prod.collapse [symmetric], of E tenant ps s]
  by (auto simp: attempts_mirror_def mirrors_def Let_def split: option.splits dest: spec [of _ k])

text \<open>
  C18: the file never becomes unreadable. After any history of calls every call succeeds, every entry
  reads back without an exception, and a reservation reads back as the record that was returned.
\<close>

theorem file_reads_back:
  "(\<exists>r items'. local_step now p (snd (run_calls local_step ps [])) = Inr (r, items') \<and>
     (\<forall>k. \<exists>x. local_get_delivery items' k = Inr x) \<and>
     (case r of None \<Rightarrow> True | Some d \<Rightarrow> local_get_delivery items' (dr_key d) = Inr (Some d)))"
proof -
  let ?s = "snd (run_calls local_step ps [])"
  have ok: "file_ok ?s" by (rule js.run_inv [OF no_deliveries_ok(4) prod.collapse [symmetric]])
  then obtain r items' where s: "local_step now p ?s = Inr (r, items')" using file_step_total by blast
  from file_step_refines [OF ok s] have ok': "file_ok items'"
    and l: "ledger_step to_ms now p (file_view ?s) = (r, file_view items')" by auto
  have "\<forall>d. r = Some d \<longrightarrow> file_view items' (dr_key d) = Some d" using ledger_step_granted l by blast
  with file_get [OF ok'] s show ?thesis by (simp split: option.split)
qed

subsection \<open>The delivery handler\<close>

definition sends :: "string \<Rightarrow> app \<Rightarrow> nat" where
  "sends k A = length (filter (\<lambda>(k', c, x). k' = k) (sent_texts A))"

definition tries :: "string \<Rightarrow> app \<Rightarrow> int" where
  "tries k A = attempts_of (pg_get_delivery (store A) k)"

text \<open>Runs of the handler, mixed with any other call to the ledger.\<close>

datatype delivery_call = Handle time time send_result task_row | Ledger time delivery_op

fun delivery_event :: "env \<Rightarrow> flags \<Rightarrow> string \<Rightarrow> delivery_call \<Rightarrow> app \<Rightarrow> app" where
  "delivery_event E fl tenant (Handle t0 t1 sr t) A = snd (handle_delivery E fl sr t0 t1 t A)"
| "delivery_event E fl tenant (Ledger now p) A =
     (case pg_step E tenant now p (store A) of Inl e \<Rightarrow> A | Inr (r, S) \<Rightarrow> A\<lparr>store := S\<rparr>)"

definition delivery_events :: "env \<Rightarrow> flags \<Rightarrow> string \<Rightarrow> delivery_call list \<Rightarrow> app \<Rightarrow> app" where
  "delivery_events E fl tenant evs A = fold (delivery_event E fl tenant) evs A"

lemma note_summary_sent_simps [simp]:
  "store (note_summary_sent t p A) = store A" "sent_texts (note_summary_sent t p A) = sent_texts A"
  by (simp_all add: note_summary_sent_def)

lemma pg_step_counts:
  assumes "pg_ok S" "pg_step E tenant now p S = Inr (r, S')"
  shows "pg_ok S' \<and>
    attempts_of (pg_get_delivery S' k) = attempts_of (pg_get_delivery S k) + int (grants k [r]) \<and>
    (attempts_of (pg_get_delivery S k) \<le> 3 \<longrightarrow> attempts_of (pg_get_delivery S' k) \<le> 3)"
proof -
  have "run_calls (pg_step E tenant) [(now, p)] S = ([r], S')" using assms(2) by simp
  from pg.run_attempts [OF assms(1) this, of k] pg.run_bounded [OF assms(1) this, of k]
    pg.run_inv [OF assms(1) this] show ?thesis
    by (simp add: delivery_max_attempts_def)
qed

lemma pg_mark_counts:
  assumes "pg_ok S"
  shows "pg_ok (pg_update_status k' st err now S) \<and>
    attempts_of (pg_get_delivery (pg_update_status k' st err now S) k) = attempts_of (pg_get_delivery S k)"
  using pg_step_counts [OF assms, of undefined undefined now "Mark k' st err" None, simplified] by simp

lemma pg_reserve_key:
  assumes "pg_ok S" "pg_reserve_delivery E key ty sid mid tenant now S = Inr (Some d, S')"
  shows "dr_key d = key"
  using assms(2)
  by (auto simp: pg_reserve_delivery_def Let_def split: sum.splits if_splits)

lemma handle_delivery_counts:
  assumes ok: "pg_ok (store A)" and run: "handle_delivery E fl sr t0 t1 t A = (r, A')"
  shows "pg_ok (store A') \<and> int (sends k A') - int (sends k A) \<le> tries k A' - tries k A \<and>
    (tries k A \<le> 3 \<longrightarrow> tries k A' \<le> 3)"
proof (cases "map_of (payload_json t) ''delivery_key''")
  case None
  with run ok show ?thesis by (auto simp: handle_delivery_def)
next
  case (Some kv)
  let ?p = "payload_json t"
  let ?key = "py_str (pget ?p ''delivery_key'')"
  let ?ty = "text_or ''message'' (pget ?p ''delivery_type'')"
  let ?mid = "str_option (pget ?p ''message_id'')"
  show ?thesis
  proof (cases "pg_reserve_delivery E ?key ?ty (task_space_id t) ?mid (tenant_of t) t0 (store A)")
    case (Inl e)
    with run ok Some show ?thesis by (auto simp: handle_delivery_def Let_def)
  next
    case (Inr x)
    obtain res S where x: "x = (res, S)" by (cases x)
    have "pg_step E (tenant_of t) t0 (Reserve ?key ?ty (task_space_id t) ?mid) (store A) = Inr (res, S)"
      using Inr x by simp
    note step = pg_step_counts [OF ok this, of k]
    then have c: "pg_ok S"
      "attempts_of (pg_get_delivery S k) = attempts_of (pg_get_delivery (store A) k) + int (grants k [res])"
      by blast+
    have bound: "attempts_of (pg_get_delivery (store A) k) \<le> 3 \<Longrightarrow> attempts_of (pg_get_delivery S k) \<le> 3"
      using step by blast
    show ?thesis
    proof (cases res)
      case None
      then have "A' = A\<lparr>store := S\<rparr>"
        using run Some Inr x by (auto simp: handle_delivery_def Let_def split: if_split_asm)
      with None c bound show ?thesis by (simp add: sends_def tries_def)
    next
      case res: (Some d)
      have "dr_key d = ?key" using pg_reserve_key [OF ok] Inr x res by blast
      then have g: "int (grants k [res]) = (if ?key = k then 1 else 0)" using res by auto
      note marks = pg_mark_sent_def pg_mark_failed_def pg_mark_unknown_def
      show ?thesis
        using run Some Inr x res c g pg_mark_counts [OF c(1)] bound
        by (auto simp: handle_delivery_def Let_def sends_def tries_def marks
            split: option.splits send_result.splits if_splits)
    qed
  qed
qed

lemma delivery_event_counts:
  assumes ok: "pg_ok (store A)" and tries: "int (sends k A) \<le> tries k A" "tries k A \<le> 3"
  shows "pg_ok (store (delivery_event E fl tenant ev A)) \<and>
    int (sends k (delivery_event E fl tenant ev A)) \<le> tries k (delivery_event E fl tenant ev A) \<and>
    tries k (delivery_event E fl tenant ev A) \<le> 3"
proof (cases ev)
  case (Handle t0 t1 sr t)
  obtain r A' where run: "handle_delivery E fl sr t0 t1 t A = (r, A')" by fastforce
  from handle_delivery_counts [OF ok run, of k] tries run Handle show ?thesis by simp
next
  case (Ledger now p)
  show ?thesis
  proof (cases "pg_step E tenant now p (store A)")
    case (Inr x)
    obtain r S where x: "x = (r, S)" by (cases x)
    from pg_step_counts [OF ok, of E tenant now p r S k] Inr x Ledger tries show ?thesis
      by (simp add: tries_def sends_def)
  qed (use assms Ledger in simp)
qed

text \<open>
  C19: no message is handed to the chat platform more than three times. In any history of runs of
  the delivery handler (with any clock and any answers of the platform) mixed with any other use of
  the ledger, \<open>send_text\<close> is called at most three times for a delivery key.
\<close>

theorem sends_bounded:
  "sends k (delivery_events E fl tenant evs (app_of s)) \<le> 3"
proof -
  have "pg_ok (store (fold (delivery_event E fl tenant) evs A)) \<and>
      int (sends k (fold (delivery_event E fl tenant) evs A)) \<le> tries k (fold (delivery_event E fl tenant) evs A) \<and>
      tries k (fold (delivery_event E fl tenant) evs A) \<le> 3"
    if "pg_ok (store A)" "int (sends k A) \<le> tries k A" "tries k A \<le> 3" for A
    using that
  proof (induction evs arbitrary: A)
    case (Cons ev evs)
    from Cons.IH [of "delivery_event E fl tenant ev A"] delivery_event_counts [OF Cons.prems, of E fl tenant ev]
    show ?case by simp
  qed simp
  from this [of "app_of s"] show ?thesis
    by (simp add: delivery_events_def app_of_def sends_def tries_def pg_ok_def pg_get_delivery_def find_delivery_def)
qed

text \<open>
  C20: a delivery task whose tries are used up never ends. Once a key has three tries behind it and
  is neither sent nor of unknown fate, every later run of its task, at any time, changes nothing and
  asks to be run again in a second; deferring does not count as a failure, so the task is never
  dead-lettered either.
\<close>

theorem exhausted_deferred_forever:
  assumes "pg_get_delivery (store A) (py_str (pget (payload_json t) ''delivery_key'')) = Some d"
    and "dr_status d \<in> {Reserved, DeliveryFailed}" and "dr_attempt_count d \<ge> delivery_max_attempts"
    and "map_of (payload_json t) ''delivery_key'' \<noteq> None"
    and "get_space (task_space_id t) (spaces (core A)) = Some r" and "space_tenant_id r = tenant_of t"
  shows "handle_delivery E fl sr t0 t1 t A = (Later ''delivery is already reserved'' second, A) \<and>
    failure_count (deferred_row t1 reason delay t) = failure_count t"
proof -
  let ?key = "py_str (pget (payload_json t) ''delivery_key'')"
  obtain row where row: "find_delivery ?key (deliveries (store A)) = Some row" "d = record_of_row row"
    using assms(1) by (auto simp: pg_get_delivery_def)
  have "reservation_refused d t0" using assms(3) by (simp add: reservation_refused_def)
  then have "pg_reserve_delivery E ?key (text_or ''message'' (pget (payload_json t) ''delivery_type''))
      (task_space_id t) (str_option (pget (payload_json t) ''message_id'')) (tenant_of t) t0 (store A) = Inr (None, store A)"
    using ensure_known [OF assms(5,6), of E] row by (simp add: pg_reserve_delivery_def core_def)
  with assms(1,2,4) show ?thesis by (auto simp: handle_delivery_def Let_def deferred_row_def)
qed

definition real_flags :: flags where
  "real_flags = \<lparr>fake_externals = False, preference_cards = False, auto_consolidation = True,
     fact_memory = False\<rparr>"

definition task_d :: task_row where
  "task_d = new_task_row ''task_9'' 0 ''delivery'' ''t'' ''s'' None ''delivery:k''
     [(''chat_id'', JStr ''c''), (''text'', JStr ''hello''), (''delivery_key'', JStr ''k'')] 0 5 Running"

definition app_d :: app where
  "app_d = delivery_events env0 real_flags ''t''
     [Handle 0 1 (SendError ''E: x'') task_d, Handle 2 3 (SendError ''E: x'') task_d,
      Handle 4 5 (SendError ''E: x'') task_d] (app_of st1)"

lemma exhausted_deferred_forever_witness:
  "sends ''k'' app_d = 3 \<and>
   handle_delivery env0 real_flags SendOk 1000 1001 task_d app_d = (Later ''delivery is already reserved'' second, app_d)"
proof
  show "sends ''k'' app_d = 3" by code_simp
  let ?k = "py_str (pget (payload_json task_d) ''delivery_key'')"
  have "(case pg_get_delivery (store app_d) ?k of None \<Rightarrow> False
      | Some d \<Rightarrow> dr_status d = DeliveryFailed \<and> dr_attempt_count d \<ge> delivery_max_attempts)" by code_simp
  then obtain d where d: "pg_get_delivery (store app_d) ?k = Some d"
      "dr_status d \<in> {Reserved, DeliveryFailed}" "dr_attempt_count d \<ge> delivery_max_attempts"
    by (auto split: option.splits)
  have "(case get_space (task_space_id task_d) (spaces (core app_d)) of None \<Rightarrow> False
      | Some r \<Rightarrow> space_tenant_id r = tenant_of task_d)" by code_simp
  then obtain r where r: "get_space (task_space_id task_d) (spaces (core app_d)) = Some r"
    "space_tenant_id r = tenant_of task_d" by (auto split: option.splits)
  have "map_of (payload_json task_d) ''delivery_key'' \<noteq> None" by code_simp
  from exhausted_deferred_forever [OF d this r] show
    "handle_delivery env0 real_flags SendOk 1000 1001 task_d app_d = (Later ''delivery is already reserved'' second, app_d)"
    by blast
qed

text \<open>
  The marks carry no attempt number: the late failure report of a sender whose reservation expired
  reopens a delivery that another sender has meanwhile completed, and the message is sent again.
\<close>

lemma late_failure_reopens:
  "sends ''k'' (delivery_events env0 real_flags ''t''
     [Ledger 0 (Reserve ''k'' ''message'' ''s'' None),
      Handle 700000000 700000001 SendOk task_d,
      Ledger 700000002 (Mark ''k'' DeliveryFailed (Some ''late'')),
      Handle 700000003 700000004 SendOk task_d] (app_of st1)) = 2"
  by code_simp

end
