(* ===== verification/Runner_Guarantees.thy ===== *)
theory Runner_Guarantees
  imports Local_Runner Delivery_Guarantees
begin

text \<open>What a local delivery does, on every path.\<close>

definition local_fate :: "local_send \<Rightarrow> delivery_status" where
  "local_fate sr = (case sr of SentOk \<Rightarrow> Sent | SentFalse \<Rightarrow> DeliveryFailed
     | SentRaised err \<Rightarrow> if looks_uncertain err then Unknown else DeliveryFailed)"

lemma deliver_refused:
  assumes "file_ok (rn_file S)" "file_view (rn_file S) key = Some d" "reservation_refused d t0"
  shows "deliver True sr t0 t1 chat txt key ty t cb S = (Inr (), S)"
  using assms by (simp add: deliver_def local_reserve_delivery_def file_get Let_def)

lemma deliver_sends:
  assumes ok: "file_ok (rn_file S)"
    and free: "\<not> (case file_view (rn_file S) key of None \<Rightarrow> False | Some d \<Rightarrow> reservation_refused d t0)"
  shows "\<exists>d S' res. deliver True sr t0 t1 chat txt key ty t cb S = (res, S') \<and>
    rn_sent S' = rn_sent S @ [(key, chat, txt)] \<and> rn_local S' = rn_local S \<and>
    local_get_delivery (rn_file S') key = Inr (Some d) \<and> dr_status d = local_fate sr \<and>
    dr_attempt_count d = attempts_of (file_view (rn_file S) key) + 1 \<and>
    (res = Inr ()) = (sr = SentOk)"
proof -
  obtain r items where run: "local_reserve_delivery key ty (lt_space t) (lt_message t) t0 (rn_file S) = Inr (r, items)"
    using file_step_total [OF ok, of t0 "Reserve key ty (lt_space t) (lt_message t)"] by auto
  from file_reserve_refines [OF ok run] free have ok': "file_ok items"
    and r: "r = Some (reserved_record to_ms key ty (lt_space t) (lt_message t) t0 (file_view (rn_file S) key))"
    and v': "file_view items = (file_view (rn_file S))(key := r)"
    by (auto simp: ledger_reserve_def Let_def split: if_splits)
  have v: "file_view items key = r" by (simp add: v')
  have upd: "local_get_delivery (local_update_status key st err t1 items) key =
      Inr (map_option (\<lambda>d. d\<lparr>dr_status := st, dr_updated_at := to_ms t1, dr_error := err\<rparr>) r)" for st err
    using file_update_refines [OF ok', of key st err t1] file_get v by (simp add: ledger_update_def)
  show ?thesis
    using run r upd
    by (cases sr) (simp_all add: deliver_def Let_def local_fate_def local_mark_sent_def local_mark_failed_def
        local_mark_unknown_def reserved_record_fields)
qed

text \<open>
  A local delivery settles its ledger entry on every path. After any history of the delivery
  file, \<open>_deliver\<close> either is refused by the ledger and changes nothing, or hands the text to
  \<open>send_text\<close> exactly once and leaves the entry sent, failed or (when the error may have come after
  the platform took the message) of unknown fate, with one more attempt; it raises exactly when the
  text was not sent.
\<close>

theorem deliver_settles:
  assumes "rn_file S = snd (run_calls local_step ps [])"
  shows "case local_get_delivery (rn_file S) key of
      Inl e \<Rightarrow> False
    | Inr old \<Rightarrow>
        if (case old of None \<Rightarrow> False | Some d \<Rightarrow> reservation_refused d t0)
        then deliver True sr t0 t1 chat txt key ty t cb S = (Inr (), S)
        else (\<exists>d S' res. deliver True sr t0 t1 chat txt key ty t cb S = (res, S') \<and>
          rn_sent S' = rn_sent S @ [(key, chat, txt)] \<and> rn_local S' = rn_local S \<and>
          local_get_delivery (rn_file S') key = Inr (Some d) \<and> dr_status d = local_fate sr \<and>
          dr_attempt_count d = (case old of None \<Rightarrow> 0 | Some d0 \<Rightarrow> dr_attempt_count d0) + 1 \<and>
          (res = Inr ()) = (sr = SentOk))"
proof -
  have ok: "file_ok (rn_file S)"
    unfolding assms by (rule js.run_inv [OF no_deliveries_ok(4) prod.collapse [symmetric]])
  have "attempts_of old = (case old of None \<Rightarrow> 0 | Some d0 \<Rightarrow> dr_attempt_count d0)" for old
    by (cases old) simp_all
  with deliver_sends [OF ok, where key = key and ?t0.0 = t0]
    deliver_refused [OF ok, where key = key and ?t0.0 = t0]
  show ?thesis by (auto simp: file_get [OF ok] split: option.splits)
qed

definition demo_task :: local_task where
  "demo_task = create_local_task ''t1'' 0 ''query'' ''p_1'' [] (Some ''m1'')"

definition demo_runner :: "unit runner" where
  "demo_runner = \<lparr>rn_local = \<lparr>wal_of = [], notes_of = \<lparr>note_index = [], archive = []\<rparr>, world_of = ()\<rparr>,
     rn_file = [], rn_sent = [], rn_callbacks = []\<rparr>"

lemma deliver_settles_witness:
  "\<exists>S'. deliver True (SentRaised ''ReadTimeout: x'') 0 1 ''c'' ''hello'' ''query:p_1:m1'' ''query'' demo_task None demo_runner =
      (Inl ''ReadTimeout: x'', S') \<and> rn_sent S' = [(''query:p_1:m1'', ''c'', ''hello'')]"
proof -
  let ?r = "deliver True (SentRaised ''ReadTimeout: x'') 0 1 ''c'' ''hello'' ''query:p_1:m1'' ''query'' demo_task None demo_runner"
  have "rn_file demo_runner = snd (run_calls local_step [] [])" by (simp add: demo_runner_def)
  from deliver_settles [OF this, where key = "''query:p_1:m1''" and ?t0.0 = "0" and sr = "SentRaised ''ReadTimeout: x''"
      and ?t1.0 = "1" and chat = "''c''" and ?txt = "''hello''" and ty = "''query''" and t = demo_task and cb = None]
  have "rn_sent (snd ?r) = [(''query:p_1:m1'', ''c'', ''hello'')]"
    by (auto simp: demo_runner_def local_get_delivery_def)
  moreover have "fst ?r = Inl ''ReadTimeout: x''" by code_simp
  ultimately show ?thesis by (metis prod.collapse)
qed

end
