(* ===== verification/Memory_Model.thy ===== *)
theory Memory_Model
  imports Prelude Complex_Main
begin

text \<open>
  The data of the memory store (\<open>memory/models.py\<close>, the tables of \<open>memory/repository.py\<close>) and the
  two-valued task status (\<open>memory/field_contracts.py\<close>, \<open>memory/task_state.py\<close>,
  \<open>memory/policies\<close>).

  \<^item> Timestamps are text, as in the SQLite columns, and compared as text.
  \<^item> A confidence is a rational number: a Python float is one, and its order is the order of the
    numbers; only arithmetic rounds (\<open>fl\<close>).
  \<^item> A JSON column holds the decoded value. \<open>normalize_content\<close>, \<open>memory_key_for\<close> and
    \<open>task_instance_authorized\<close> (regular expressions and Unicode case folding) are fields of
    \<open>memory_env\<close>, as are the library's parsers, the clock's text and the random ids.
\<close>

definition utf8 :: "nat list \<Rightarrow> string" where
  "utf8 bs = map char_of bs"

subsection \<open>The vocabularies\<close>

definition memory_types :: "string list" where
  "memory_types = [''episodic'', ''semantic'', ''preference'', ''task'']"

definition memory_statuses :: "string list" where
  "memory_statuses = [''active'', ''superseded'', ''conflicted'', ''forgotten'', ''archived'',
     ''pending_review'', ''deleted'', ''expired'']"

definition task_statuses :: "string list" where
  "task_statuses = [''todo'', ''done'']"

definition source_relations :: "string list" where
  "source_relations = [''created_from'', ''supported_by'', ''updated_by'', ''contradicted_by'',
     ''summarized_from'']"

definition decision_relations :: "string list" where
  "decision_relations = [''new'', ''same'', ''merge'', ''update'', ''update_task'', ''supersede'',
     ''conflict'', ''orphan_completion'', ''ambiguous_match'']"

definition decision_actions :: "string list" where
  "decision_actions = [''insert'', ''add_source'', ''merge'', ''update'', ''update_task'',
     ''supersede'', ''conflict'', ''pending_review'', ''discard'']"

definition memory_relation_types :: "string list" where
  "memory_relation_types = [''supersedes'', ''superseded_by'', ''conflicts_with'', ''supports'',
     ''summarized_from'', ''derived_from'']"

definition extraction_statuses :: "string list" where
  "extraction_statuses = [''pending'', ''processing'', ''completed'', ''empty'', ''partial'', ''failed'']"

definition candidate_statuses :: "string list" where
  "candidate_statuses = [''extracted'', ''validated'', ''adjudicated'', ''applied'',
     ''pending_review'', ''discarded'', ''failed'', ''processing'']"

definition task_card_versions :: "string list" where
  "task_card_versions = [''task-card-v1'', ''task-card-v2'']"

definition preference_card_version :: string where
  "preference_card_version = ''preference-card-v1''"

subsection \<open>Candidates and decisions\<close>

record mem_candidate =
  mc_type :: string
  mc_content :: string
  mc_importance :: rat
  mc_confidence :: rat
  mc_entities :: "string list"
  mc_should_store :: bool
  mc_task_status :: "string option"
  mc_id :: string
  mc_note_id :: "string option"
  mc_space_id :: "string option"
  mc_subject :: "string option"
  mc_predicate :: "string option"
  mc_object :: "string option"
  mc_valid_from :: "string option"
  mc_valid_until :: "string option"
  mc_evidence_span :: "string option"
  mc_clause_index :: "int option"
  mc_key :: "string option"
  mc_polarity :: "string option"
  mc_scope :: payload
  mc_extractor_type :: string
  mc_extractor_version :: string
  mc_model :: "string option"
  mc_prompt_hash :: "string option"
  mc_key_version :: string

record mem_decision =
  md_id :: string
  md_candidate_id :: string
  md_relation :: string
  md_targets :: "string list"
  md_confidence :: rat
  md_reason :: string
  md_evidence :: "string list"
  md_action :: string
  md_policy_version :: string
  md_adjudicator_version :: string
  md_model :: "string option"
  md_prompt_hash :: "string option"
  md_input_hash :: "string option"
  md_snapshot :: "int option"
  md_retry_of :: "string option"

datatype memory_error =
    BadValue string
  | Integrity string
  | DatabaseLocked
  | TaskVersionConflict string
  | CardVersionConflict string

text \<open>What \<open>type(exc).__name__\<close> gives.\<close>

fun error_name :: "memory_error \<Rightarrow> string" where
  "error_name (BadValue e) = ''ValueError''"
| "error_name (Integrity e) = ''IntegrityError''"
| "error_name DatabaseLocked = ''OperationalError''"
| "error_name (TaskVersionConflict e) = ''TaskVersionConflict''"
| "error_name (CardVersionConflict e) = ''CardVersionConflict''"

text \<open>The checks of the two \<open>__post_init__\<close>.\<close>

definition candidate_ok :: "mem_candidate \<Rightarrow> bool" where
  "candidate_ok c \<longleftrightarrow> mc_type c \<in> set memory_types \<and>
     (case mc_task_status c of None \<Rightarrow> True | Some t \<Rightarrow> t \<in> set task_statuses)"

definition make_candidate :: "mem_candidate \<Rightarrow> memory_error + mem_candidate" where
  "make_candidate c =
     (if mc_type c \<notin> set memory_types then Inl (BadValue (''invalid memory_type: '' @ mc_type c))
      else case mc_task_status c of
          None \<Rightarrow> Inr c
        | Some t \<Rightarrow> if t \<notin> set task_statuses then Inl (BadValue (''invalid task_status: '' @ t)) else Inr c)"

definition make_decision :: "mem_decision \<Rightarrow> memory_error + mem_decision" where
  "make_decision d =
     (if md_relation d \<notin> set decision_relations
      then Inl (BadValue (''invalid decision relation: '' @ md_relation d))
      else if md_action d \<notin> set decision_actions
      then Inl (BadValue (''invalid decision action: '' @ md_action d))
      else if \<not> (0 \<le> md_confidence d \<and> md_confidence d \<le> 1)
      then Inl (BadValue ''decision confidence must be between 0 and 1'')
      else Inr d)"

definition decision_ok :: "mem_decision \<Rightarrow> bool" where
  "decision_ok d \<longleftrightarrow> md_relation d \<in> set decision_relations \<and> md_action d \<in> set decision_actions \<and>
     0 \<le> md_confidence d \<and> md_confidence d \<le> 1"

lemma make_candidate_ok: "make_candidate c = Inr c' \<longleftrightarrow> c' = c \<and> candidate_ok c"
  by (auto simp: make_candidate_def candidate_ok_def split: option.splits)

lemma make_decision_ok: "make_decision d = Inr d' \<longleftrightarrow> d' = d \<and> decision_ok d"
  by (auto simp: make_decision_def decision_ok_def)

subsection \<open>The rows\<close>

record memory_row =
  mem_id :: string
  mem_space :: string
  mem_type :: string
  mem_content :: string
  mem_normalized :: string
  mem_importance :: rat
  mem_confidence :: rat
  mem_status :: string
  mem_task_status :: "string option"
  mem_subject :: "string option"
  mem_predicate :: "string option"
  mem_object :: "string option"
  mem_key :: "string option"
  mem_key_version :: string
  mem_polarity :: "string option"
  mem_scope :: payload
  mem_valid_from :: "string option"
  mem_valid_until :: "string option"
  mem_last_confirmed :: "string option"
  mem_created :: string
  mem_updated :: string
  mem_last_accessed :: "string option"
  mem_access_count :: int
  mem_version :: int

record version_row =
  ver_id :: string
  ver_memory :: string
  ver_version :: int
  ver_content :: string
  ver_status :: string
  ver_task_status :: "string option"
  ver_confidence :: "rat option"
  ver_importance :: "rat option"
  ver_valid_from :: "string option"
  ver_valid_until :: "string option"
  ver_reason :: "string option"
  ver_note :: "string option"
  ver_created :: string

record source_row =
  src_memory :: string
  src_note :: string
  src_relation :: string
  src_created :: string

record relation_row =
  rel_id :: string
  rel_space :: string
  rel_source :: string
  rel_target :: string
  rel_relation :: string
  rel_decision :: "string option"
  rel_created :: string

record decision_row =
  dcs_decision :: mem_decision
  dcs_space :: string
  dcs_note :: string
  dcs_status :: string
  dcs_results :: "string list"
  dcs_error :: "string option"
  dcs_created :: string
  dcs_applied :: "string option"

record candidate_row =
  cdr_candidate :: mem_candidate
  cdr_space :: string
  cdr_note :: string
  cdr_normalized :: string
  cdr_key :: string
  cdr_status :: string
  cdr_attempts :: int
  cdr_error :: "string option"
  cdr_decision :: "string option"
  cdr_created :: string
  cdr_updated :: string
  cdr_applied :: "string option"

record extraction_row =
  ext_note :: string
  ext_space :: string
  ext_status :: string
  ext_candidates :: int
  ext_processed :: int
  ext_attempts :: int
  ext_error :: "string option"
  ext_started :: "string option"
  ext_completed :: "string option"
  ext_updated :: string

record run_row =
  run_id :: string
  run_space :: string
  run_cadence :: string
  run_period :: string
  run_status :: string
  run_started :: string
  run_completed :: "string option"
  run_error :: "string option"
  run_result :: "payload option"

record memory_db =
  memories :: "memory_row list"
  versions :: "version_row list"
  version_sources :: "(string \<times> string) list"
  sources :: "source_row list"
  relations :: "relation_row list"
  decisions :: "decision_row list"
  candidates :: "candidate_row list"
  vectors :: "string list"
  extraction_states :: "extraction_row list"
  consolidation_runs :: "run_row list"
  id_pos :: nat

definition no_memories :: memory_db where
  "no_memories = \<lparr>memories = [], versions = [], version_sources = [], sources = [], relations = [],
     decisions = [], candidates = [], vectors = [], extraction_states = [],
     consolidation_runs = [], id_pos = 0\<rparr>"

text \<open>
  \<open>hex12\<close> are the random digits of the ids in the order they are drawn; \<open>lock_failures\<close> is the
  number of attempts in a row that find the database locked when the named write starts in that state.
\<close>

record memory_env =
  normalize_content :: "string \<Rightarrow> string"
  memory_key_for :: "string \<Rightarrow> string option \<Rightarrow> string option \<Rightarrow> string option \<Rightarrow> string \<Rightarrow> string"
  task_instance_authorized :: "mem_candidate \<Rightarrow> memory_row \<Rightarrow> bool"
  json_loads :: "string \<Rightarrow> json option"
  fl :: "rat \<Rightarrow> rat"
  iso :: "time \<Rightarrow> string"
  parse_iso :: "string \<Rightarrow> time option"
  hex12 :: "nat \<Rightarrow> string"
  lock_failures :: "string \<Rightarrow> memory_db \<Rightarrow> nat"
  write_max_attempts :: nat

text \<open>\<open>a or b\<close> for optional text\<close>

definition or_text :: "string option \<Rightarrow> string \<Rightarrow> string" where
  "or_text a b = (case a of None \<Rightarrow> b | Some t \<Rightarrow> if t = [] then b else t)"

definition effective_memory_key :: "memory_env \<Rightarrow> mem_candidate \<Rightarrow> string" where
  "effective_memory_key E c =
     or_text (mc_key c) (memory_key_for E (mc_type c) (mc_subject c) (mc_predicate c) (mc_object c) (mc_content c))"

definition row_memory_key :: "memory_env \<Rightarrow> memory_row \<Rightarrow> string" where
  "row_memory_key E r =
     or_text (mem_key r) (memory_key_for E (mem_type r) (mem_subject r) (mem_predicate r) (mem_object r) (mem_content r))"

subsection \<open>Task status\<close>

text \<open>\<open>re.sub(r"\s+", " ", value).strip()\<close>, None when nothing is left\<close>

function squeeze :: "string \<Rightarrow> string" where
  "squeeze [] = []"
| "squeeze (c # cs) =
     (if is_space c then CHR '' '' # squeeze (dropWhile is_space cs) else c # squeeze cs)"
  by pat_completeness auto

termination
  by (relation "measure length") (auto simp: le_imp_less_Suc length_dropWhile_le)

definition clean_text :: "string option \<Rightarrow> string option" where
  "clean_text v = (case v of None \<Rightarrow> None
     | Some t \<Rightarrow> let s = py_strip (squeeze t) in if s = [] then None else Some s)"

definition task_status_aliases :: "(string \<times> string) list" where
  "task_status_aliases =
    [(''todo'', ''todo''), (''pending'', ''todo''), (''in_progress'', ''todo''),
     (''in progress'', ''todo''),
     (utf8 [232::nat, 191, 155, 232, 161, 140, 228, 184, 173], ''todo''),
     (utf8 [230::nat, 173, 163, 229, 156, 168], ''todo''),
     (utf8 [231::nat, 187, 167, 231, 187, 173], ''todo''), (''blocked'', ''todo''),
     (utf8 [233::nat, 152, 187, 229, 161, 158], ''todo''),
     (utf8 [229::nat, 141, 161, 228, 189, 143], ''todo''),
     (utf8 [231::nat, 173, 137, 229, 190, 133, 230, 157, 131, 233, 153, 144], ''todo''),
     (utf8 [231::nat, 173, 137, 229, 190, 133, 230, 149, 176, 230, 141, 174], ''todo''),
     (''done'', ''done''), (''completed'', ''done''), (''complete'', ''done''),
     (utf8 [229::nat, 174, 140, 230, 136, 144], ''done''),
     (utf8 [229::nat, 183, 178, 229, 174, 140, 230, 136, 144], ''done''),
     (utf8 [229::nat, 129, 154, 229, 174, 140], ''done''),
     (utf8 [230::nat, 144, 158, 229, 174, 154], ''done''), (''cancelled'', ''done''),
     (''canceled'', ''done''), (utf8 [229::nat, 143, 150, 230, 182, 136], ''done''),
     (utf8 [228::nat, 184, 141, 229, 129, 154, 228, 186, 134], ''done''),
     (utf8 [228::nat, 184, 141, 231, 148, 168, 229, 129, 154], ''done''),
     (''abandoned'', ''done''), (utf8 [230::nat, 148, 190, 229, 188, 131], ''done'')]"

text \<open>\<open>normalize_task_status\<close> without source text, the only way the repository calls it.\<close>

definition normalize_task_status :: "string option \<Rightarrow> string option" where
  "normalize_task_status v =
     (case clean_text v of None \<Rightarrow> None
      | Some t \<Rightarrow> (case map_of task_status_aliases (py_lower t) of
            Some s \<Rightarrow> Some s
          | None \<Rightarrow> map_of task_status_aliases t))"

definition mentions :: "string list \<Rightarrow> string \<Rightarrow> bool" where
  "mentions tokens t \<longleftrightarrow> list_ex (\<lambda>w. contains w t) tokens"

definition infer_task_status :: "string \<Rightarrow> string option" where
  "infer_task_status t =
    (if mentions [utf8 [229::nat, 143, 150, 230, 182, 136],
     utf8 [228::nat, 184, 141, 231, 148, 168, 229, 129, 154],
     utf8 [228::nat, 184, 141, 229, 129, 154, 228, 186, 134],
     utf8 [230::nat, 148, 190, 229, 188, 131]] t
     then Some ''done''
     else if mentions [utf8 [232::nat, 191, 153, 229, 145, 168], utf8 [230::nat, 156, 172, 229, 145, 168],
     utf8 [228::nat, 184, 139, 229, 145, 168], utf8 [230::nat, 152, 142, 229, 164, 169],
     utf8 [228::nat, 185, 139, 229, 144, 142], utf8 [232::nat, 174, 161, 229, 136, 146],
     utf8 [229::nat, 135, 134, 229, 164, 135]] t \<and>
       mentions [utf8 [229::nat, 174, 140, 230, 136, 144], utf8 [230::nat, 143, 144, 228, 186, 164],
     utf8 [228::nat, 184, 138, 231, 186, 191], utf8 [229::nat, 143, 145, 229, 184, 131]] t
     then Some ''todo''
     else if mentions [utf8 [229::nat, 141, 161, 228, 189, 143], utf8 [233::nat, 152, 187, 229, 161, 158],
     utf8 [231::nat, 173, 137, 231, 161, 174, 232, 174, 164],
     utf8 [231::nat, 173, 137, 229, 190, 133], utf8 [230::nat, 154, 130, 229, 129, 156]] t
     then Some ''todo''
     else if mentions [utf8 [230::nat, 173, 163, 229, 156, 168],
     utf8 [232::nat, 191, 155, 232, 161, 140, 228, 184, 173],
     utf8 [231::nat, 187, 167, 231, 187, 173]] t
     then Some ''todo''
     else if mentions [utf8 [233::nat, 156, 128, 232, 166, 129], utf8 [232::nat, 174, 176, 229, 190, 151],
     utf8 [229::nat, 190, 133, 229, 138, 158], utf8 [232::nat, 166, 129, 229, 129, 154],
     utf8 [229::nat, 135, 134, 229, 164, 135], utf8 [232::nat, 174, 161, 229, 136, 146]] t
     then Some ''todo''
     else if mentions [utf8 [229::nat, 174, 140, 230, 136, 144], utf8 [230::nat, 144, 158, 229, 174, 154],
     utf8 [229::nat, 183, 178, 229, 129, 154, 229, 174, 140],
     utf8 [229::nat, 129, 154, 229, 174, 140], utf8 [229::nat, 173, 166, 229, 174, 140],
     utf8 [229::nat, 183, 178, 229, 173, 166, 229, 174, 140],
     utf8 [229::nat, 188, 132, 229, 165, 189],
     utf8 [229::nat, 188, 132, 229, 165, 189, 228, 186, 134],
     utf8 [230::nat, 143, 144, 228, 186, 164], utf8 [228::nat, 184, 138, 231, 186, 191]] t
     then Some ''done''
     else if mentions [utf8 [229::nat, 183, 178, 231, 187, 143]] t \<and>
       mentions [utf8 [230::nat, 141, 162, 230, 136, 144],
     utf8 [230::nat, 155, 180, 230, 141, 162, 228, 184, 186],
     utf8 [230::nat, 148, 185, 230, 136, 144],
     utf8 [230::nat, 155, 191, 230, 141, 162, 230, 136, 144],
     utf8 [233::nat, 131, 168, 231, 189, 178], utf8 [229::nat, 143, 145, 229, 184, 131]] t
     then Some ''done''
     else if mentions [utf8 [229::nat, 135, 134, 229, 164, 135]] t \<and>
       mentions [utf8 [230::nat, 156, 128, 232, 191, 145], utf8 [231::nat, 142, 176, 229, 156, 168],
     utf8 [233::nat, 135, 141, 231, 130, 185]] t
     then Some ''todo''
     else None)"

definition legacy_status :: "string \<Rightarrow> string" where
  "legacy_status t =
     (case map_of [(''in_progress'', ''todo''), (''blocked'', ''todo''), (''cancelled'', ''done''),
        (''canceled'', ''done'')] t of None \<Rightarrow> t | Some s \<Rightarrow> s)"

definition validate_task_status :: "string option \<Rightarrow> memory_error + string option" where
  "validate_task_status v =
     (case v of None \<Rightarrow> Inr None
      | Some t \<Rightarrow> let s = legacy_status (py_lower (py_strip t)) in
          if s \<notin> set task_statuses then Inl (BadValue (''invalid task_status: '' @ t)) else Inr (Some s))"

text \<open>The table \<open>ALLOWED_TRANSITIONS\<close> has both directions between \<open>todo\<close> and \<open>done\<close>.\<close>

definition allowed_transitions :: "(string \<times> string list) list" where
  "allowed_transitions = [(''todo'', [''done'']), (''done'', [''todo''])]"

definition can_transition :: "string option \<Rightarrow> string option \<Rightarrow> bool" where
  "can_transition old new =
     (let old = map_option legacy_status old; new = map_option legacy_status new in
      if new = None \<or> old = new then True
      else if old = None then True
      else the new \<in> set (case map_of allowed_transitions (the old) of None \<Rightarrow> [] | Some ts \<Rightarrow> ts))"

definition reopen_markers :: "string list" where
  "reopen_markers =
    [utf8 [233::nat, 135, 141, 230, 150, 176], utf8 [229::nat, 134, 141, 230, 172, 161],
     utf8 [233::nat, 135, 141, 229, 129, 154], utf8 [232::nat, 191, 148, 229, 183, 165],
     utf8 [230::nat, 129, 162, 229, 164, 141],
     utf8 [229::nat, 134, 141, 229, 188, 128, 229, 167, 139],
     utf8 [229::nat, 143, 136, 229, 188, 128, 229, 167, 139]]"

text \<open>The normalised status is always one of the two.\<close>

lemma task_status_alias_values: "map_of task_status_aliases t = Some s \<Longrightarrow> s \<in> set task_statuses"
proof -
  have "\<forall>p \<in> set task_status_aliases. snd p \<in> set task_statuses"
    by (simp add: task_status_aliases_def task_statuses_def)
  then show "map_of task_status_aliases t = Some s \<Longrightarrow> s \<in> set task_statuses"
    using map_of_SomeD by fastforce
qed

lemma normalize_task_status_values: "normalize_task_status v = Some s \<Longrightarrow> s \<in> set task_statuses"
  by (auto simp: normalize_task_status_def dest: task_status_alias_values split: option.splits)

lemma normalize_two_statuses [simp]:
  "normalize_task_status None = None"
  "normalize_task_status (Some ''todo'') = Some ''todo''"
  "normalize_task_status (Some ''done'') = Some ''done''"
  by (simp_all add: normalize_task_status_def clean_text_def Let_def py_strip_def is_space_def
      task_status_aliases_def py_lower_def lower_char_def utf8_def char_of_def)

lemma infer_task_status_values: "infer_task_status t = Some s \<Longrightarrow> s \<in> set task_statuses"
  unfolding infer_task_status_def task_statuses_def by (simp split: if_splits)

lemma validate_task_status_values: "validate_task_status v = Inr (Some s) \<Longrightarrow> s \<in> set task_statuses"
  by (auto simp: validate_task_status_def Let_def split: option.splits if_splits)

subsection \<open>Merging two texts\<close>

text \<open>\<open>lstrip\<close> and \<open>rstrip\<close> with a set of characters, given by their UTF-8 bytes\<close>

function lstrip_any :: "string list \<Rightarrow> string \<Rightarrow> string" where
  "lstrip_any ts s =
     (case find (\<lambda>t. t \<noteq> [] \<and> take (length t) s = t) ts of
        None \<Rightarrow> s | Some t \<Rightarrow> lstrip_any ts (drop (length t) s))"
  by pat_completeness auto

termination
proof (relation "measure (\<lambda>(ts, s). length s)", simp)
  fix ts s and t :: string
  assume "find (\<lambda>t. t \<noteq> [] \<and> take (length t) s = t) ts = Some t"
  then have "t \<noteq> []" "take (length t) s = t" by (auto dest: find_SomeD)
  then have "0 < length t" "0 < length s" by auto
  then show "((ts, drop (length t) s), ts, s) \<in> measure (\<lambda>(ts, s). length s)" by simp
qed

declare lstrip_any.simps [simp del]

definition rstrip_any :: "string list \<Rightarrow> string \<Rightarrow> string" where
  "rstrip_any ts s = rev (lstrip_any (map rev ts) (rev s))"

definition sentence_ends :: "string list" where
  "sentence_ends = [utf8 [227::nat, 128, 130], utf8 [239::nat, 188, 155], '';'', '' '']"

definition merge_content :: "memory_env \<Rightarrow> string \<Rightarrow> string \<Rightarrow> string" where
  "merge_content E old new =
     (let old_norm = normalize_content E old; new_norm = normalize_content E new in
      if old_norm = [] then new
      else if contains old_norm new_norm then new
      else if contains new_norm old_norm then old
      else rstrip_any sentence_ends old @ utf8 [239::nat, 188, 155] @
        rstrip_any sentence_ends (lstrip_any [utf8 [231::nat, 148, 168], utf8 [230::nat, 136, 183]] new))"

end
