(* ===== verification/Memory_Store.thy ===== *)
theory Memory_Store
  imports Memory_Model "HOL-Library.Multiset"
begin

text \<open>
  The writes of the SQLite memory store (\<open>memory/repository.py\<close>): transactions and their retries,
  rows with their keys, versions, sources and relations. A row operation takes the state of the
  transaction and returns a result and the new state, or the exception that rolls it back.
\<close>

type_synonym 'a mem_op = "memory_db \<Rightarrow> memory_error + ('a \<times> memory_db)"

definition tx_then ::
  "memory_error + ('a \<times> memory_db) \<Rightarrow> ('a \<Rightarrow> memory_db \<Rightarrow> memory_error + ('b \<times> memory_db)) \<Rightarrow>
     memory_error + ('b \<times> memory_db)" where
  "tx_then r f = (case r of Inl e \<Rightarrow> Inl e | Inr (x, s) \<Rightarrow> f x s)"

lemma tx_then_simps [simp]:
  "tx_then (Inl e) f = Inl e"
  "tx_then (Inr (x, s)) f = f x s"
  by (simp_all add: tx_then_def)

lemma tx_then_Inr [simp]: "tx_then r f = Inr y \<longleftrightarrow> (\<exists>x s. r = Inr (x, s) \<and> f x s = Inr y)"
  by (auto simp: tx_then_def split: sum.splits)

text \<open>A loop of transactions over a list, collecting the results\<close>

fun for_each :: "('a \<Rightarrow> 'b mem_op) \<Rightarrow> 'a list \<Rightarrow> 'b list mem_op" where
  "for_each f [] s = Inr ([], s)"
| "for_each f (x # xs) s =
     tx_then (f x s) (\<lambda>y s1. tx_then (for_each f xs s1) (\<lambda>ys s2. Inr (y # ys, s2)))"

subsection \<open>Transactions\<close>

text \<open>
  \<open>_run_write\<close>: an attempt that finds the database locked is repeated (the pause is not modelled),
  at most \<open>n\<close> attempts in all; any other exception is passed on, the transaction rolled back.
\<close>

fun write_attempts :: "nat \<Rightarrow> nat \<Rightarrow> 'a mem_op \<Rightarrow> memory_db \<Rightarrow> (memory_error + 'a) \<times> memory_db" where
  "write_attempts 0 locked op s = (Inl (BadValue ''unreachable sqlite write retry state''), s)"
| "write_attempts (Suc n) (Suc locked) op s =
     (if n = 0 then (Inl DatabaseLocked, s) else write_attempts n locked op s)"
| "write_attempts (Suc n) 0 op s = (case op s of Inl e \<Rightarrow> (Inl e, s) | Inr (x, s1) \<Rightarrow> (Inr x, s1))"

definition run_write :: "memory_env \<Rightarrow> string \<Rightarrow> 'a mem_op \<Rightarrow> memory_db \<Rightarrow> (memory_error + 'a) \<times> memory_db" where
  "run_write E name op s =
     write_attempts (max 1 (write_max_attempts E)) (lock_failures E name s) op s"

lemma write_attempts_cases:
  "0 < n \<Longrightarrow> write_attempts n locked op s =
     (if n \<le> locked then (Inl DatabaseLocked, s)
      else case op s of Inl e \<Rightarrow> (Inl e, s) | Inr (x, s1) \<Rightarrow> (Inr x, s1))"
  by (induction n locked op s rule: write_attempts.induct) auto

lemma run_write_eq:
  "run_write E name op s =
     (if max 1 (write_max_attempts E) \<le> lock_failures E name s then (Inl DatabaseLocked, s)
      else case op s of Inl e \<Rightarrow> (Inl e, s) | Inr (x, s1) \<Rightarrow> (Inr x, s1))"
  unfolding run_write_def by (rule write_attempts_cases) simp

text \<open>A write leaves the state alone or performs the whole operation.\<close>

lemma run_write_cases:
  obtains (same) "snd (run_write E name op s) = s" "isl (fst (run_write E name op s))"
  | (committed) x s1 where "op s = Inr (x, s1)" "run_write E name op s = (Inr x, s1)"
proof (cases "max 1 (write_max_attempts E) \<le> lock_failures E name s")
  case True
  then have "run_write E name op s = (Inl DatabaseLocked, s)"
    by (simp only: run_write_eq if_True)
  then show ?thesis using same by simp
next
  case False
  then have r: "run_write E name op s =
      (case op s of Inl e \<Rightarrow> (Inl e, s) | Inr (x, s1) \<Rightarrow> (Inr x, s1))"
    by (simp only: run_write_eq if_False)
  show ?thesis
  proof (cases "op s")
    case (Inl e)
    then show ?thesis using r same by simp
  next
    case (Inr p)
    then show ?thesis using r committed by (cases p) simp
  qed
qed

lemma run_write_Inr: "run_write E name op s = (Inr x, s1) \<Longrightarrow> op s = Inr (x, s1)"
  by (rule run_write_cases [of E name op s]) auto

subsection \<open>Ids\<close>

text \<open>\<open>new_id(prefix)\<close>\<close>

definition draw_id :: "memory_env \<Rightarrow> string \<Rightarrow> memory_db \<Rightarrow> string \<times> memory_db" where
  "draw_id E prefix s = (prefix @ ''_'' @ hex12 E (id_pos s), s\<lparr>id_pos := Suc (id_pos s)\<rparr>)"

subsection \<open>Reading rows\<close>

definition memory_row_of :: "string \<Rightarrow> memory_db \<Rightarrow> memory_row option" where
  "memory_row_of mid s = find (\<lambda>r. mem_id r = mid) (memories s)"

interpretation mem: keyed_table mem_id "\<lambda>mid rows. find (\<lambda>r. mem_id r = mid) rows"
  by unfold_locales rule

text \<open>ORDER BY ... DESC over a text column, ties in table order\<close>

definition newest_first :: "('r \<Rightarrow> string) \<Rightarrow> 'r list \<Rightarrow> 'r list" where
  "newest_first f rows = rev (sort_key f (rev rows))"

lemma set_newest_first [simp]: "set (newest_first f rows) = set rows"
  by (simp add: newest_first_def)

lemma distinct_newest_first: "distinct (map g rows) \<Longrightarrow> distinct (map g (newest_first f rows))"
proof -
  assume d: "distinct (map g rows)"
  have "mset (map g (newest_first f rows)) = mset (map g rows)"
    by (simp add: newest_first_def)
  with d show ?thesis by (metis mset_eq_imp_distinct_iff)
qed

definition current_version :: "memory_row \<Rightarrow> int" where
  "current_version r = (if mem_version r = 0 then 1 else mem_version r)"

definition source_notes :: "string \<Rightarrow> memory_db \<Rightarrow> string list" where
  "source_notes mid s = map src_note (sort_key src_created (filter (\<lambda>r. src_memory r = mid) (sources s)))"

subsection \<open>Writing rows\<close>

text \<open>
  \<open>ix_preference_card_identity\<close>: no two preference cards of a space have the same key. NULL
  keys are all different.
\<close>

definition card_identity_taken :: "memory_row \<Rightarrow> memory_row list \<Rightarrow> bool" where
  "card_identity_taken r rows \<longleftrightarrow>
     mem_key_version r = preference_card_version \<and> mem_key r \<noteq> None \<and>
     list_ex (\<lambda>q. mem_id q \<noteq> mem_id r \<and> mem_key_version q = preference_card_version \<and>
       mem_space q = mem_space r \<and> mem_key q = mem_key r) rows"

definition insert_row :: "memory_row \<Rightarrow> unit mem_op" where
  "insert_row r s =
     (if memory_row_of (mem_id r) s \<noteq> None then Inl (Integrity ''memories.id'')
      else if card_identity_taken r (memories s) then Inl (Integrity ''ix_preference_card_identity'')
      else Inr ((), s\<lparr>memories := memories s @ [r]\<rparr>))"

definition update_row :: "memory_row \<Rightarrow> unit mem_op" where
  "update_row r s =
     (if card_identity_taken r (memories s) then Inl (Integrity ''ix_preference_card_identity'')
      else Inr ((), s\<lparr>memories := upd_where (\<lambda>q. mem_id q = mem_id r) (\<lambda>q. r) (memories s)\<rparr>))"

text \<open>\<open>INSERT OR IGNORE INTO memory_version_sources\<close>, note by note\<close>

definition link_version :: "string \<Rightarrow> string \<Rightarrow> memory_db \<Rightarrow> memory_db" where
  "link_version vid note s =
     (if (vid, note) \<in> set (version_sources s) then s
      else s\<lparr>version_sources := version_sources s @ [(vid, note)]\<rparr>)"

text \<open>The sources of a new version: those of its memory and the note that caused it, once each\<close>

definition version_notes :: "version_row \<Rightarrow> memory_db \<Rightarrow> string list" where
  "version_notes v s =
     (let ids = source_notes (ver_memory v) s;
          note = (case ver_note v of None \<Rightarrow> [] | Some n \<Rightarrow> n)
      in rev (remdups (rev (if note \<noteq> [] \<and> note \<notin> set ids then ids @ [note] else ids))))"

text \<open>\<open>v\<close> has every column but its id.\<close>

definition add_version :: "memory_env \<Rightarrow> version_row \<Rightarrow> unit mem_op" where
  "add_version E v s =
     (let (vid, s0) = draw_id E ''ver'' s in
      if vid \<in> set (map ver_id (versions s)) then Inl (Integrity ''memory_versions.id'')
      else let s1 = s0\<lparr>versions := versions s0 @ [v\<lparr>ver_id := vid\<rparr>]\<rparr>
      in Inr ((), fold (link_version vid) (version_notes v s1) s1))"

definition add_source_row :: "string \<Rightarrow> string \<Rightarrow> string \<Rightarrow> string \<Rightarrow> bool mem_op" where
  "add_source_row mid note rel now s =
     (if rel \<notin> set source_relations then Inl (BadValue (''invalid source relation: '' @ rel))
      else if list_ex (\<lambda>r. src_memory r = mid \<and> src_note r = note) (sources s) then Inr (False, s)
      else Inr (True, s\<lparr>sources := sources s @ [\<lparr>src_memory = mid, src_note = note,
        src_relation = rel, src_created = now\<rparr>]\<rparr>))"

definition row_of_candidate ::
  "memory_env \<Rightarrow> string \<Rightarrow> mem_candidate \<Rightarrow> string \<Rightarrow> string \<Rightarrow> string \<Rightarrow> memory_row" where
  "row_of_candidate E sid c st mid now =
     \<lparr>mem_id = mid, mem_space = sid, mem_type = mc_type c, mem_content = mc_content c,
      mem_normalized = normalize_content E (mc_content c), mem_importance = mc_importance c,
      mem_confidence = mc_confidence c, mem_status = st, mem_task_status = mc_task_status c,
      mem_subject = mc_subject c, mem_predicate = mc_predicate c, mem_object = mc_object c,
      mem_key = Some (effective_memory_key E c), mem_key_version = mc_key_version c,
      mem_polarity = mc_polarity c, mem_scope = mc_scope c, mem_valid_from = mc_valid_from c,
      mem_valid_until = mc_valid_until c, mem_last_confirmed = None, mem_created = now,
      mem_updated = now, mem_last_accessed = None, mem_access_count = 0, mem_version = 1\<rparr>"

text \<open>The version row that records_row a memory row\<close>

definition version_of_row ::
  "memory_row \<Rightarrow> string option \<Rightarrow> string option \<Rightarrow> string \<Rightarrow> version_row" where
  "version_of_row r reason note now =
     \<lparr>ver_id = [], ver_memory = mem_id r, ver_version = mem_version r, ver_content = mem_content r,
      ver_status = mem_status r, ver_task_status = mem_task_status r,
      ver_confidence = Some (mem_confidence r), ver_importance = Some (mem_importance r),
      ver_valid_from = mem_valid_from r, ver_valid_until = mem_valid_until r,
      ver_reason = reason, ver_note = note, ver_created = now\<rparr>"

definition insert_memory_row ::
  "memory_env \<Rightarrow> string \<Rightarrow> mem_candidate \<Rightarrow> string \<Rightarrow> string \<Rightarrow> string \<Rightarrow> string option \<Rightarrow> string \<Rightarrow> string mem_op" where
  "insert_memory_row E sid c note rel st given_id now s =
     (if st \<notin> set memory_statuses then Inl (BadValue (''invalid memory status: '' @ st))
      else let (mid, s0) = (case given_id of Some i \<Rightarrow> (i, s) | None \<Rightarrow> draw_id E ''mem'' s);
          r = row_of_candidate E sid c st mid now
      in tx_then (insert_row r s0) (\<lambda>_ s1.
         tx_then (add_source_row mid note rel now s1) (\<lambda>_ s2.
         tx_then (add_version E ((version_of_row r (Some ''created'') (Some note) now)
             \<lparr>ver_task_status := normalize_task_status (mc_task_status c)\<rparr>) s2) (\<lambda>_ s3.
         Inr (mid, s3)))))"

text \<open>An existing relation of the two memories is left alone; so is a colliding id (OR IGNORE).\<close>

definition add_relation_row ::
  "memory_env \<Rightarrow> string \<Rightarrow> string \<Rightarrow> string \<Rightarrow> string \<Rightarrow> string option \<Rightarrow> string \<Rightarrow> unit mem_op" where
  "add_relation_row E sid source target rel dec now s =
     (if rel \<notin> set memory_relation_types then Inl (BadValue (''invalid memory relation: '' @ rel))
      else if list_ex (\<lambda>r. rel_source r = source \<and> rel_target r = target \<and> rel_relation r = rel)
          (relations s) then Inr ((), s)
      else let (rid, s0) = draw_id E ''rel'' s in
        Inr ((), if rid \<in> set (map rel_id (relations s)) then s0
          else s0\<lparr>relations := relations s0 @ [\<lparr>rel_id = rid, rel_space = sid, rel_source = source,
            rel_target = target, rel_relation = rel, rel_decision = dec, rel_created = now\<rparr>]\<rparr>))"

definition insert_decision_row ::
  "string \<Rightarrow> string \<Rightarrow> mem_decision \<Rightarrow> string \<Rightarrow> string list \<Rightarrow> string option \<Rightarrow> string \<Rightarrow> unit mem_op" where
  "insert_decision_row sid note d st results err now s =
     (if md_action d \<notin> set decision_actions then Inl (BadValue (''invalid decision action: '' @ md_action d))
      else Inr ((), s\<lparr>decisions := filter (\<lambda>q. md_id (dcs_decision q) \<noteq> md_id d) (decisions s) @
        [\<lparr>dcs_decision = d, dcs_space = sid, dcs_note = note, dcs_status = st, dcs_results = results,
          dcs_error = err, dcs_created = now,
          dcs_applied = (if st = ''applied'' then Some now else None)\<rparr>]\<rparr>))"

subsection \<open>Changing a memory\<close>

text \<open>The optional arguments of \<open>_versioned_update_row\<close> and \<open>update_memory\<close>\<close>

record changes =
  ch_content :: "string option"
  ch_status :: "string option"
  ch_task_status :: "string option"
  ch_valid_until :: "string option"
  ch_confidence :: "rat option"
  ch_importance :: "rat option"
  ch_confirmed :: "string option"
  ch_object :: "string option"
  ch_subject :: "string option"
  ch_scope :: "payload option"
  ch_key :: "string option"
  ch_key_version :: "string option"
  ch_polarity :: "string option"

definition no_change :: changes where
  "no_change = \<lparr>ch_content = None, ch_status = None, ch_task_status = None, ch_valid_until = None,
     ch_confidence = None, ch_importance = None, ch_confirmed = None, ch_object = None,
     ch_subject = None, ch_scope = None, ch_key = None, ch_key_version = None, ch_polarity = None\<rparr>"

definition given :: "'a option \<Rightarrow> 'a \<Rightarrow> 'a" where
  "given x y = (case x of None \<Rightarrow> y | Some v \<Rightarrow> v)"

definition given_opt :: "'a option \<Rightarrow> 'a option \<Rightarrow> 'a option" where
  "given_opt x y = (if x \<noteq> None then x else y)"

lemma given_simps [simp]:
  "given None y = y" "given (Some x) y = x" "given_opt None z = z" "given_opt (Some x) z = Some x"
  by (simp_all add: given_def given_opt_def)

definition changed_row :: "memory_env \<Rightarrow> changes \<Rightarrow> string \<Rightarrow> memory_row \<Rightarrow> memory_row" where
  "changed_row E ch now r =
     r\<lparr>mem_content := given (ch_content ch) (mem_content r),
       mem_normalized := normalize_content E (given (ch_content ch) (mem_content r)),
       mem_status := given (ch_status ch) (mem_status r),
       mem_task_status := given_opt (ch_task_status ch) (mem_task_status r),
       mem_valid_until := given_opt (ch_valid_until ch) (mem_valid_until r),
       mem_subject := given_opt (ch_subject ch) (mem_subject r),
       mem_object := given_opt (ch_object ch) (mem_object r),
       mem_key := given_opt (ch_key ch) (mem_key r),
       mem_key_version := given (ch_key_version ch) (mem_key_version r),
       mem_polarity := given_opt (ch_polarity ch) (mem_polarity r),
       mem_scope := given (ch_scope ch) (mem_scope r),
       mem_confidence := given (ch_confidence ch) (mem_confidence r),
       mem_importance := given (ch_importance ch) (mem_importance r),
       mem_last_confirmed := given_opt (ch_confirmed ch) (mem_last_confirmed r),
       mem_updated := now,
       mem_version := current_version r + 1\<rparr>"

definition versioned_update_row ::
  "memory_env \<Rightarrow> memory_row \<Rightarrow> changes \<Rightarrow> string \<Rightarrow> string option \<Rightarrow> string \<Rightarrow> unit mem_op" where
  "versioned_update_row E r ch reason note now s =
     (let r1 = changed_row E ch now r in
      tx_then (update_row r1 s) (\<lambda>_ s1. add_version E (version_of_row r1 (Some reason) note now) s1))"

text \<open>
  \<open>update_memory\<close> checks the status and computes the key anew, unless the row has a key of the
  third generation or of a preference card.
\<close>

definition key_after_update :: "memory_env \<Rightarrow> memory_row \<Rightarrow> string \<Rightarrow> string option" where
  "key_after_update E r text =
     (if mem_key_version r \<in> {''memory-key-v3'', preference_card_version} \<and> mem_key r \<notin> {None, Some []}
      then mem_key r
      else Some (memory_key_for E (mem_type r) (mem_subject r) (mem_predicate r) (mem_object r) text))"

definition update_memory_body ::
  "memory_env \<Rightarrow> string \<Rightarrow> changes \<Rightarrow> string option \<Rightarrow> string option \<Rightarrow> string \<Rightarrow> bool mem_op" where
  "update_memory_body E mid ch reason note now s =
     (case memory_row_of mid s of
        None \<Rightarrow> Inr (False, s)
      | Some r \<Rightarrow>
          let st = given (ch_status ch) (mem_status r);
            r1 = (changed_row E (no_change\<lparr>ch_content := ch_content ch, ch_status := ch_status ch,
                ch_task_status := ch_task_status ch, ch_valid_until := ch_valid_until ch,
                ch_confidence := ch_confidence ch, ch_importance := ch_importance ch,
                ch_confirmed := ch_confirmed ch\<rparr>) now r)
              \<lparr>mem_key := key_after_update E r (given (ch_content ch) (mem_content r))\<rparr>
          in if st \<notin> set memory_statuses then Inl (BadValue (''invalid memory status: '' @ st))
             else tx_then (update_row r1 s) (\<lambda>_ s1.
                  tx_then (add_version E (version_of_row r1 reason note now) s1) (\<lambda>_ s2. Inr (True, s2))))"

definition update_memory ::
  "memory_env \<Rightarrow> string \<Rightarrow> changes \<Rightarrow> string option \<Rightarrow> string option \<Rightarrow> time \<Rightarrow> memory_db \<Rightarrow>
     (memory_error + memory_row option) \<times> memory_db" where
  "update_memory E mid ch reason note now s =
     (case run_write E ''update_memory'' (update_memory_body E mid ch reason note (iso E now)) s of
        (Inl e, s1) \<Rightarrow> (Inl e, s1)
      | (Inr False, s1) \<Rightarrow> (Inr None, s1)
      | (Inr True, s1) \<Rightarrow> (Inr (memory_row_of mid s1), s1))"

end
