(* ===== verification/Memory_Decisions.thy ===== *)
theory Memory_Decisions
  imports Memory_Store
begin

text \<open>
  Carrying out an adjudicated decision (\<open>apply_memory_decision\<close> of \<open>memory/repository.py\<close>) and the
  store's single-table operations. One transaction reads the clock once.
\<close>

subsection \<open>Single operations\<close>

definition add_source ::
  "memory_env \<Rightarrow> string \<Rightarrow> string \<Rightarrow> string \<Rightarrow> time \<Rightarrow> memory_db \<Rightarrow> (memory_error + bool) \<times> memory_db" where
  "add_source E mid note rel now = run_write E ''add_source'' (add_source_row mid note rel (iso E now))"

definition insert_memory ::
  "memory_env \<Rightarrow> string \<Rightarrow> mem_candidate \<Rightarrow> string \<Rightarrow> string \<Rightarrow> string \<Rightarrow> time \<Rightarrow> memory_db \<Rightarrow>
     (memory_error + memory_row option) \<times> memory_db" where
  "insert_memory E sid c note rel st now s =
     (if st \<notin> set memory_statuses then (Inl (BadValue (''invalid memory status: '' @ st)), s)
      else let (mid, s0) = draw_id E ''mem'' s in
        case run_write E ''insert_memory'' (insert_memory_row E sid c note rel st (Some mid) (iso E now)) s0 of
          (Inl e, s1) \<Rightarrow> (Inl e, s1)
        | (Inr _, s1) \<Rightarrow> (case memory_row_of mid s1 of
              None \<Rightarrow> (Inl (BadValue (''failed to read inserted memory: '' @ mid)), s1)
            | Some r \<Rightarrow> (Inr (Some r), s1)))"

definition still_valid :: "string \<Rightarrow> memory_row \<Rightarrow> bool" where
  "still_valid now r \<longleftrightarrow> (case mem_valid_until r of None \<Rightarrow> True | Some t \<Rightarrow> now < t)"

text \<open>An empty filter (\<open>None\<close> or the empty text) does not filter.\<close>

definition matches :: "string option \<Rightarrow> string \<Rightarrow> bool" where
  "matches filt x \<longleftrightarrow> filt \<in> {None, Some []} \<or> filt = Some x"

definition list_memories ::
  "memory_env \<Rightarrow> string \<Rightarrow> string option \<Rightarrow> string option \<Rightarrow> string option \<Rightarrow> bool \<Rightarrow> int \<Rightarrow> time \<Rightarrow>
     memory_db \<Rightarrow> memory_row list" where
  "list_memories E sid st ty key include_expired limit now s =
     take (nat (max 1 (min limit 100)))
       (newest_first mem_updated
         (filter (\<lambda>r. mem_space r = sid \<and> matches st (mem_status r) \<and> matches ty (mem_type r) \<and>
             (key \<in> {None, Some []} \<or> mem_key r = key) \<and>
             (st = Some ''active'' \<and> \<not> include_expired \<longrightarrow> still_valid (iso E now) r))
           (memories s)))"

definition list_adjudication_candidates ::
  "memory_env \<Rightarrow> string \<Rightarrow> string \<Rightarrow> string \<Rightarrow> int \<Rightarrow> time \<Rightarrow> memory_db \<Rightarrow> memory_row list" where
  "list_adjudication_candidates E sid ty key limit now s =
     rev (sort_key (\<lambda>r. (row_memory_key E r = key, mem_updated r))
       (rev (list_memories E sid (Some ''active'') (Some ty) None False (min limit 100) now s)))"

text \<open>\<open>ORDER BY valid_until LIMIT\<close> over the memories whose validity has ended\<close>

definition due_memories :: "memory_env \<Rightarrow> string option \<Rightarrow> int \<Rightarrow> string \<Rightarrow> memory_db \<Rightarrow> memory_row list" where
  "due_memories E sid limit now s =
     take (nat (max 1 (min limit 1000)))
       (sort_key (\<lambda>r. the (mem_valid_until r))
         (filter (\<lambda>r. mem_status r = ''active'' \<and>
             (case mem_valid_until r of None \<Rightarrow> False | Some t \<Rightarrow> t \<le> now) \<and> matches sid (mem_space r))
           (memories s)))"

definition expire_due_memories ::
  "memory_env \<Rightarrow> string option \<Rightarrow> int \<Rightarrow> time \<Rightarrow> memory_db \<Rightarrow> (memory_error + nat) \<times> memory_db" where
  "expire_due_memories E sid limit now =
     run_write E ''expire_due_memories'' (\<lambda>s.
       let rows = due_memories E sid limit (iso E now) s in
       tx_then (for_each (\<lambda>r. versioned_update_row E r (no_change\<lparr>ch_status := Some ''expired''\<rparr>)
           ''valid_until_reached'' None (iso E now)) rows s) (\<lambda>_ s1. Inr (length rows, s1)))"

text \<open>\<open>executemany\<close>: one UPDATE per id, so an id listed twice is counted twice.\<close>

definition mark_accessed ::
  "memory_env \<Rightarrow> string list \<Rightarrow> time \<Rightarrow> memory_db \<Rightarrow> (memory_error + unit) \<times> memory_db" where
  "mark_accessed E ids now s =
     (if ids = [] then (Inr (), s)
      else run_write E ''mark_accessed'' (\<lambda>s. Inr ((), s\<lparr>memories :=
        fold (\<lambda>i. upd_where (\<lambda>r. mem_id r = i)
          (\<lambda>r. r\<lparr>mem_last_accessed := Some (iso E now), mem_access_count := mem_access_count r + 1\<rparr>))
          ids (memories s)\<rparr>)) s)"

definition add_memory_relation ::
  "memory_env \<Rightarrow> string \<Rightarrow> string \<Rightarrow> string \<Rightarrow> string \<Rightarrow> string option \<Rightarrow> time \<Rightarrow> memory_db \<Rightarrow>
     (memory_error + unit) \<times> memory_db" where
  "add_memory_relation E sid source target rel dec now =
     run_write E ''add_memory_relation'' (add_relation_row E sid source target rel dec (iso E now))"

definition soft_delete_memory ::
  "memory_env \<Rightarrow> string \<Rightarrow> string \<Rightarrow> time \<Rightarrow> memory_db \<Rightarrow> (memory_error + memory_row option) \<times> memory_db" where
  "soft_delete_memory E mid reason now =
     update_memory E mid (no_change\<lparr>ch_status := Some ''deleted''\<rparr>) (Some reason) None now"

text \<open>The rows of the memory itself go; the rows of \<open>memory_version_sources\<close> and the decisions stay.\<close>

definition purge_memory ::
  "memory_env \<Rightarrow> string \<Rightarrow> memory_db \<Rightarrow> (memory_error + bool) \<times> memory_db" where
  "purge_memory E mid =
     run_write E ''purge_memory'' (\<lambda>s.
       if memory_row_of mid s = None then Inr (False, s)
       else Inr (True, s\<lparr>relations := filter (\<lambda>r. \<not> (rel_source r = mid \<or> rel_target r = mid)) (relations s),
         vectors := filter (\<lambda>v. v \<noteq> mid) (vectors s),
         sources := filter (\<lambda>r. src_memory r \<noteq> mid) (sources s),
         versions := filter (\<lambda>v. ver_memory v \<noteq> mid) (versions s),
         memories := filter (\<lambda>r. mem_id r \<noteq> mid) (memories s)\<rparr>))"

subsection \<open>The steps of a decision\<close>

record apply_result =
  ar_action :: string
  ar_relation :: string
  ar_decision :: string
  ar_candidate :: string
  ar_idempotent :: bool
  ar_memory :: "string option"
  ar_target :: "string option"
  ar_targets :: "string list"
  ar_source_added :: "bool option"
  ar_task_status :: "string option"
  ar_archived :: "string list"
  ar_original :: "string option"
  ar_audit :: "json option"
  ar_results :: "string list"

definition first_result :: "string \<Rightarrow> string \<Rightarrow> string \<Rightarrow> string \<Rightarrow> apply_result" where
  "first_result action relation did cid =
     \<lparr>ar_action = action, ar_relation = relation, ar_decision = did, ar_candidate = cid,
      ar_idempotent = False, ar_memory = None, ar_target = None, ar_targets = [],
      ar_source_added = None, ar_task_status = None, ar_archived = [], ar_original = None,
      ar_audit = None, ar_results = []\<rparr>"

definition prior_decision :: "string \<Rightarrow> memory_db \<Rightarrow> decision_row option" where
  "prior_decision cid s =
     (case newest_first dcs_created (filter (\<lambda>q. md_candidate_id (dcs_decision q) = cid \<and>
          dcs_status q \<in> {''applied'', ''pending_review''}) (decisions s)) of
        [] \<Rightarrow> None | q # _ \<Rightarrow> Some q)"

definition replay :: "string \<Rightarrow> decision_row \<Rightarrow> apply_result" where
  "replay cid q =
     (let waiting = (dcs_status q = ''pending_review'') in
      (first_result (if waiting then ''pending_review'' else ''add_source'')
         (if waiting then ''conflict'' else ''same'') (md_id (dcs_decision q)) cid)
       \<lparr>ar_idempotent := True, ar_source_added := Some False, ar_results := dcs_results q,
        ar_memory := (case dcs_results q of [] \<Rightarrow> None | m # _ \<Rightarrow> Some m)\<rparr>)"

definition target_id :: "mem_decision \<Rightarrow> string option" where
  "target_id d = (case md_targets d of [] \<Rightarrow> None | t # _ \<Rightarrow> if t = [] then None else Some t)"

definition card_conflict ::
  "string \<Rightarrow> mem_candidate \<Rightarrow> mem_decision \<Rightarrow> memory_row option \<Rightarrow> memory_db \<Rightarrow> memory_error option" where
  "card_conflict sid c d target s =
     (let created = (mc_key c \<noteq> None \<and> list_ex (\<lambda>r. mem_space r = sid \<and> mem_key r = mc_key c) (memories s)) in
      if mc_key_version c \<in> set task_card_versions then
        (case target of
           Some r \<Rightarrow> if mem_space r \<noteq> sid \<or> Some (mem_version r) \<noteq> md_snapshot d
             then Some (TaskVersionConflict ''task card version changed'') else None
         | None \<Rightarrow> if created then Some (TaskVersionConflict ''task card concurrently created'') else None)
      else if mc_key_version c = preference_card_version then
        (case target of
           Some r \<Rightarrow> if Some (mem_version r) \<noteq> md_snapshot d
             then Some (CardVersionConflict ''card version changed'') else None
         | None \<Rightarrow> if created then Some (CardVersionConflict ''card concurrently created'') else None)
      else None)"

text \<open>The decision was taken on another version of its target.\<close>

definition stale :: "mem_decision \<Rightarrow> memory_row \<Rightarrow> bool" where
  "stale d r \<longleftrightarrow> (case md_snapshot d of None \<Rightarrow> False | Some v \<Rightarrow> current_version r \<noteq> v)"

definition same_state :: "memory_env \<Rightarrow> mem_candidate \<Rightarrow> memory_row \<Rightarrow> bool" where
  "same_state E c r \<longleftrightarrow> effective_memory_key E c = given (mem_key r) [] \<and>
     (if mc_type c = ''task'' then mc_task_status c = mem_task_status r
      else mc_object c \<notin> {None, Some []} \<and> mc_object c = mem_object r)"

text \<open>The decision as it is recorded; its action is the one that is taken.\<close>

definition revise :: "memory_env \<Rightarrow> mem_candidate \<Rightarrow> mem_decision \<Rightarrow> memory_row option \<Rightarrow> mem_decision" where
  "revise E c d target =
     (case target of
        Some r \<Rightarrow>
          if \<not> stale d r then d
          else if same_state E c r
          then d\<lparr>md_relation := ''same'', md_action := ''add_source'',
            md_reason := ''concurrent_same_update_adds_source''\<rparr>
          else d\<lparr>md_relation := ''conflict'', md_action := ''pending_review'',
            md_reason := ''stale_target_snapshot_requires_readjudication''\<rparr>
      | None \<Rightarrow> d)"

text \<open>Completing a task that is already done only adds a source.\<close>

definition already_done :: "mem_candidate \<Rightarrow> string \<Rightarrow> memory_row option \<Rightarrow> bool" where
  "already_done c action target \<longleftrightarrow>
     action = ''update_task'' \<and> mc_key_version c \<notin> set task_card_versions \<and> mc_type c = ''task'' \<and>
     mc_task_status c = Some ''done'' \<and>
     (case target of None \<Rightarrow> False | Some r \<Rightarrow> normalize_task_status (mem_task_status r) = Some ''done'')"

definition audit_of :: "memory_env \<Rightarrow> string list \<Rightarrow> json option" where
  "audit_of E evidence =
     fold (\<lambda>e a. if take 6 e = ''audit:''
         then (case json_loads E (drop 6 e) of Some j \<Rightarrow> Some j | None \<Rightarrow> Some (JStr (drop 6 e)))
         else a) evidence None"

definition strengthened :: "memory_env \<Rightarrow> rat \<Rightarrow> rat \<Rightarrow> rat" where
  "strengthened E old new =
     min (fl E (99 / 100)) (max old
       (fl E (fl E (old + fl E (fl E (new - old) * (1 / 4))) + fl E (2 / 100))))"

text \<open>\<open>_archive_terminal_task_duplicates_row\<close>\<close>

definition archive_duplicates ::
  "memory_env \<Rightarrow> memory_row \<Rightarrow> mem_candidate \<Rightarrow> string \<Rightarrow> string \<Rightarrow> string \<Rightarrow> string list mem_op" where
  "archive_duplicates E target c did note now s =
     (if mc_key_version c \<in> set task_card_versions \<or> mc_type c \<noteq> ''task'' \<or> mc_task_status c \<noteq> Some ''done''
      then Inr ([], s)
      else for_each (\<lambda>r s.
          tx_then (versioned_update_row E r (no_change\<lparr>ch_status := Some ''archived''\<rparr>)
             ''duplicate_task_identity_reconciled'' (Some note) now s) (\<lambda>_ s1.
          tx_then (add_relation_row E (mem_space target) (mem_id target) (mem_id r) ''supersedes''
             (Some did) now s1) (\<lambda>_ s2.
          tx_then (add_relation_row E (mem_space target) (mem_id r) (mem_id target) ''superseded_by''
             (Some did) now s2) (\<lambda>_ s3. Inr (mem_id r, s3)))))
        (filter (task_instance_authorized E c)
          (newest_first mem_updated (filter (\<lambda>r. mem_space r = mem_space target \<and>
             mem_type r = ''task'' \<and> mem_status r = ''active'' \<and> mem_id r \<noteq> mem_id target) (memories s)))) s)"

subsection \<open>The actions\<close>

definition act_insert ::
  "memory_env \<Rightarrow> string \<Rightarrow> string \<Rightarrow> mem_candidate \<Rightarrow> string \<Rightarrow> apply_result \<Rightarrow> (string list \<times> apply_result) mem_op" where
  "act_insert E sid note c now R s =
     tx_then (insert_memory_row E sid c note ''created_from'' ''active'' None now s) (\<lambda>mid s1.
       Inr (([mid], R\<lparr>ar_memory := Some mid\<rparr>), s1))"

definition act_pending ::
  "memory_env \<Rightarrow> string \<Rightarrow> string \<Rightarrow> mem_candidate \<Rightarrow> mem_decision \<Rightarrow> string \<Rightarrow> apply_result \<Rightarrow>
     (string list \<times> apply_result) mem_op" where
  "act_pending E sid note c d now R s =
     tx_then (insert_memory_row E sid c note ''created_from'' ''pending_review'' None now s) (\<lambda>mid s1.
       Inr (([mid], R\<lparr>ar_memory := Some mid, ar_target := target_id d, ar_targets := md_targets d\<rparr>), s1))"

definition act_add_source ::
  "memory_env \<Rightarrow> string \<Rightarrow> mem_candidate \<Rightarrow> mem_decision \<Rightarrow> memory_row \<Rightarrow> string \<Rightarrow> apply_result \<Rightarrow>
     (string list \<times> apply_result) mem_op" where
  "act_add_source E note c d r now R s =
     tx_then (add_source_row (mem_id r) note ''supported_by'' now s) (\<lambda>added s1.
     tx_then (if added
        then archive_duplicates E r c (md_id d) note now (s1\<lparr>memories :=
          upd_where (\<lambda>q. mem_id q = mem_id r)
            (\<lambda>q. q\<lparr>mem_confidence := strengthened E (mem_confidence r) (mc_confidence c),
              mem_last_confirmed := Some now, mem_updated := now\<rparr>) (memories s1)\<rparr>)
        else Inr ([], s1)) (\<lambda>archived s2.
     Inr (([mem_id r], R\<lparr>ar_memory := Some (mem_id r), ar_source_added := Some added,
       ar_archived := archived\<rparr>), s2)))"

definition act_update ::
  "memory_env \<Rightarrow> string \<Rightarrow> mem_candidate \<Rightarrow> mem_decision \<Rightarrow> memory_row \<Rightarrow> string \<Rightarrow> string option \<Rightarrow> string \<Rightarrow>
     apply_result \<Rightarrow> (string list \<times> apply_result) mem_op" where
  "act_update E note c d r action merged now R s =
     tx_then (add_source_row (mem_id r) note
         (if action = ''update'' then ''updated_by'' else ''supported_by'') now s) (\<lambda>added s1.
     tx_then (versioned_update_row E r (no_change\<lparr>
         ch_content := Some (or_text merged (mc_content c)), ch_object := mc_object c,
         ch_scope := Some (mc_scope c), ch_key := Some (effective_memory_key E c),
         ch_key_version := Some (mc_key_version c), ch_polarity := mc_polarity c,
         ch_confidence := Some (min (fl E (99 / 100)) (max (mem_confidence r) (mc_confidence c))),
         ch_importance := Some (max (mem_importance r) (mc_importance c)),
         ch_confirmed := Some now\<rparr>) (md_reason d) (Some note) now s1) (\<lambda>_ s2.
     Inr (([mem_id r], R\<lparr>ar_memory := Some (mem_id r), ar_source_added := Some added\<rparr>), s2)))"

definition act_update_task ::
  "memory_env \<Rightarrow> string \<Rightarrow> mem_candidate \<Rightarrow> mem_decision \<Rightarrow> memory_row \<Rightarrow> string \<Rightarrow> apply_result \<Rightarrow>
     (string list \<times> apply_result) mem_op" where
  "act_update_task E note c d r now R s =
     tx_then (add_source_row (mem_id r) note ''updated_by'' now s) (\<lambda>added s1.
     tx_then (versioned_update_row E r (no_change\<lparr>
         ch_content := Some (mc_content c), ch_task_status := normalize_task_status (mc_task_status c),
         ch_object := mc_object c, ch_subject := mc_subject c, ch_scope := Some (mc_scope c),
         ch_key := Some (effective_memory_key E c), ch_key_version := Some (mc_key_version c),
         ch_confidence := Some (min (fl E (99 / 100)) (max (mem_confidence r) (mc_confidence c))),
         ch_confirmed := Some now\<rparr>) (md_reason d) (Some note) now s1) (\<lambda>_ s2.
     tx_then (archive_duplicates E r c (md_id d) note now s2) (\<lambda>archived s3.
     Inr (([mem_id r], R\<lparr>ar_memory := Some (mem_id r), ar_task_status := mc_task_status c,
       ar_source_added := Some added, ar_archived := archived\<rparr>), s3))))"

definition act_supersede ::
  "memory_env \<Rightarrow> string \<Rightarrow> string \<Rightarrow> mem_candidate \<Rightarrow> mem_decision \<Rightarrow> memory_row \<Rightarrow> string \<Rightarrow> apply_result \<Rightarrow>
     (string list \<times> apply_result) mem_op" where
  "act_supersede E sid note c d r now R s =
     tx_then (add_source_row (mem_id r) note ''contradicted_by'' now s) (\<lambda>_ s1.
     tx_then (versioned_update_row E r (no_change\<lparr>ch_status := Some ''superseded'',
         ch_valid_until := Some now\<rparr>) (md_reason d) (Some note) now s1) (\<lambda>_ s2.
     tx_then (insert_memory_row E sid c note ''created_from'' ''active'' None now s2) (\<lambda>mid s3.
     tx_then (add_relation_row E sid mid (mem_id r) ''supersedes'' (Some (md_id d)) now s3) (\<lambda>_ s4.
     tx_then (add_relation_row E sid (mem_id r) mid ''superseded_by'' (Some (md_id d)) now s4) (\<lambda>_ s5.
     Inr (([mid, mem_id r], R\<lparr>ar_memory := Some mid, ar_target := Some (mem_id r)\<rparr>), s5))))))"

definition act_conflict ::
  "memory_env \<Rightarrow> string \<Rightarrow> string \<Rightarrow> mem_candidate \<Rightarrow> mem_decision \<Rightarrow> memory_row \<Rightarrow> string \<Rightarrow> apply_result \<Rightarrow>
     (string list \<times> apply_result) mem_op" where
  "act_conflict E sid note c d r now R s =
     tx_then (add_source_row (mem_id r) note ''contradicted_by'' now s) (\<lambda>_ s1.
     tx_then (versioned_update_row E r (no_change\<lparr>ch_status := Some ''conflicted''\<rparr>)
         (md_reason d) (Some note) now s1) (\<lambda>_ s2.
     tx_then (insert_memory_row E sid c note ''created_from'' ''conflicted'' None now s2) (\<lambda>mid s3.
     tx_then (add_relation_row E sid mid (mem_id r) ''conflicts_with'' (Some (md_id d)) now s3) (\<lambda>_ s4.
     tx_then (add_relation_row E sid (mem_id r) mid ''conflicts_with'' (Some (md_id d)) now s4) (\<lambda>_ s5.
     Inr (([mid, mem_id r], R\<lparr>ar_memory := Some mid, ar_target := Some (mem_id r)\<rparr>), s5))))))"

definition act ::
  "memory_env \<Rightarrow> string \<Rightarrow> string \<Rightarrow> mem_candidate \<Rightarrow> mem_decision \<Rightarrow> mem_decision \<Rightarrow> string \<Rightarrow>
     memory_row option \<Rightarrow> string option \<Rightarrow> string \<Rightarrow> apply_result \<Rightarrow> (string list \<times> apply_result) mem_op" where
  "act E sid note c d dw action target merged now R s =
     (if action = ''discard'' then Inr (([], R), s)
      else if action = ''insert'' then act_insert E sid note c now R s
      else if action = ''pending_review'' then act_pending E sid note c dw now R s
      else case target of
          None \<Rightarrow> Inl (BadValue (''decision action cannot be applied: '' @ action))
        | Some r \<Rightarrow>
            if action = ''add_source'' then act_add_source E note c d r now R s
            else if action = ''merge'' \<or> action = ''update'' then act_update E note c d r action merged now R s
            else if action = ''update_task'' then act_update_task E note c d r now R s
            else if action = ''supersede'' then act_supersede E sid note c d r now R s
            else if action = ''conflict'' then act_conflict E sid note c d r now R s
            else Inl (BadValue (''decision action cannot be applied: '' @ action)))"

definition decided_action :: "mem_candidate \<Rightarrow> mem_decision \<Rightarrow> memory_row option \<Rightarrow> string" where
  "decided_action c dw target =
     (if already_done c (md_action dw) target then ''add_source'' else md_action dw)"

definition decided_result ::
  "memory_env \<Rightarrow> mem_candidate \<Rightarrow> mem_decision \<Rightarrow> mem_decision \<Rightarrow> memory_row option \<Rightarrow> apply_result" where
  "decided_result E c d dw target =
     (let ready = already_done c (md_action dw) target;
          changed = (case target of None \<Rightarrow> False | Some r \<Rightarrow> stale d r) in
      (first_result (decided_action c dw target) (if ready then ''same'' else md_relation dw)
         (md_id d) (mc_id c))
       \<lparr>ar_idempotent := ready,
        ar_original := (if ready then Some ''update_task'' else if changed then Some (md_action d) else None),
        ar_audit := audit_of E (md_evidence dw)\<rparr>)"

definition apply_body ::
  "memory_env \<Rightarrow> string \<Rightarrow> string \<Rightarrow> mem_candidate \<Rightarrow> mem_decision \<Rightarrow> string option \<Rightarrow> string \<Rightarrow> apply_result mem_op" where
  "apply_body E sid note c d merged now s =
     (case prior_decision (mc_id c) s of
        Some q \<Rightarrow> Inr (replay (mc_id c) q, s)
      | None \<Rightarrow>
          let target = (case target_id d of None \<Rightarrow> None | Some t \<Rightarrow> memory_row_of t s) in
          if target_id d \<noteq> None \<and> target = None
          then Inl (BadValue (''decision target memory not found: '' @ the (target_id d)))
          else case card_conflict sid c d target s of
            Some e \<Rightarrow> Inl e
          | None \<Rightarrow>
              let dw = revise E c d target; action = decided_action c dw target in
              tx_then (act E sid note c d dw action target merged now (decided_result E c d dw target) s)
                (\<lambda>(results, R) s1.
              tx_then (insert_decision_row sid note dw
                  (if action = ''pending_review'' then ''pending_review'' else ''applied'')
                  results None now s1) (\<lambda>_ s2. Inr (R, s2))))"

fun version_conflict :: "memory_error \<Rightarrow> bool" where
  "version_conflict (TaskVersionConflict e) = True"
| "version_conflict (CardVersionConflict e) = True"
| "version_conflict _ = False"

text \<open>A failure is recorded in a transaction of its own, whose own failure is swallowed.\<close>

definition apply_memory_decision ::
  "memory_env \<Rightarrow> string \<Rightarrow> string \<Rightarrow> mem_candidate \<Rightarrow> mem_decision \<Rightarrow> string option \<Rightarrow> time \<Rightarrow> memory_db \<Rightarrow>
     (memory_error + apply_result) \<times> memory_db" where
  "apply_memory_decision E sid note c d merged now s =
     (case run_write E ''apply_memory_decision'' (apply_body E sid note c d merged (iso E now)) s of
        (Inr R, s1) \<Rightarrow> (Inr R, s1)
      | (Inl e, s1) \<Rightarrow>
          if version_conflict e then (Inl e, s1)
          else (Inl e, snd (run_write E ''record_failure''
            (insert_decision_row sid note d ''failed'' [] (Some (error_name e)) (iso E now)) s1)))"

end
