(* ===== verification/Memory_Progress.thy ===== *)
theory Memory_Progress
  imports Memory_Store
begin

text \<open>
  The bookkeeping tables of the memory store (\<open>memory/repository.py\<close>): the candidates of a note, the
  state of its extraction and the runs of the periodic consolidation.
\<close>

subsection \<open>Candidates\<close>

definition candidate_row_of :: "string \<Rightarrow> memory_db \<Rightarrow> candidate_row option" where
  "candidate_row_of cid s = find (\<lambda>r. mc_id (cdr_candidate r) = cid) (candidates s)"

text \<open>A stored candidate is read back with its status normalised and its reasons lost.\<close>

definition candidate_from_row :: "candidate_row \<Rightarrow> mem_candidate" where
  "candidate_from_row r =
     (cdr_candidate r)\<lparr>mc_task_status := normalize_task_status (mc_task_status (cdr_candidate r)),
       mc_note_id := Some (cdr_note r), mc_space_id := Some (cdr_space r), mc_key := Some (cdr_key r)\<rparr>"

definition new_candidate_row ::
  "memory_env \<Rightarrow> mem_candidate \<Rightarrow> string \<Rightarrow> string \<Rightarrow> string option \<Rightarrow> string option \<Rightarrow> string \<Rightarrow> candidate_row" where
  "new_candidate_row E c sid st err dec now =
     \<lparr>cdr_candidate = c, cdr_space = sid, cdr_note = given (mc_note_id c) [],
      cdr_normalized = normalize_content E (mc_content c), cdr_key = effective_memory_key E c,
      cdr_status = st, cdr_attempts = 0, cdr_error = err, cdr_decision = dec,
      cdr_created = now, cdr_updated = now, cdr_applied = None\<rparr>"

definition save_memory_candidate ::
  "memory_env \<Rightarrow> mem_candidate \<Rightarrow> string \<Rightarrow> string \<Rightarrow> string option \<Rightarrow> string option \<Rightarrow> time \<Rightarrow> memory_db \<Rightarrow>
     (memory_error + mem_candidate) \<times> memory_db" where
  "save_memory_candidate E c sid st err dec now s =
     (case run_write E ''save_memory_candidate'' (\<lambda>s. Inr ((),
        s\<lparr>candidates := (if candidate_row_of (mc_id c) s = None
          then candidates s @ [new_candidate_row E c sid st err dec (iso E now)]
          else upd_where (\<lambda>r. mc_id (cdr_candidate r) = mc_id c)
            (\<lambda>r. r\<lparr>cdr_updated := iso E now, cdr_error := given_opt err (cdr_error r),
              cdr_decision := given_opt dec (cdr_decision r)\<rparr>) (candidates s))\<rparr>)) s of
        (Inl e, s1) \<Rightarrow> (Inl e, s1)
      | (Inr _, s1) \<Rightarrow> (case candidate_row_of (mc_id c) s1 of
            None \<Rightarrow> (Inl (BadValue (''failed to persist memory candidate: '' @ mc_id c)), s1)
          | Some r \<Rightarrow> (Inr (candidate_from_row r), s1)))"

definition get_memory_candidate :: "string \<Rightarrow> memory_db \<Rightarrow> mem_candidate option" where
  "get_memory_candidate cid s = map_option candidate_from_row (candidate_row_of cid s)"

definition get_memory_candidate_status :: "string \<Rightarrow> memory_db \<Rightarrow> string option" where
  "get_memory_candidate_status cid s = map_option cdr_status (candidate_row_of cid s)"

definition settled_candidate :: "string \<Rightarrow> bool" where
  "settled_candidate st \<longleftrightarrow> st \<in> {''applied'', ''pending_review'', ''discarded''}"

definition marked_candidate ::
  "string \<Rightarrow> string option \<Rightarrow> string option \<Rightarrow> string \<Rightarrow> candidate_row \<Rightarrow> candidate_row" where
  "marked_candidate st err dec now r =
     r\<lparr>cdr_status := st,
       cdr_attempts := cdr_attempts r + (if st = ''processing'' then 1 else 0),
       cdr_error := err, cdr_decision := given_opt dec (cdr_decision r), cdr_updated := now,
       cdr_applied := (if settled_candidate st then Some now else cdr_applied r)\<rparr>"

definition mark_memory_candidate ::
  "memory_env \<Rightarrow> string \<Rightarrow> string \<Rightarrow> string option \<Rightarrow> string option \<Rightarrow> time \<Rightarrow> memory_db \<Rightarrow>
     (memory_error + bool) \<times> memory_db" where
  "mark_memory_candidate E cid st err dec now s =
     (if st \<notin> set candidate_statuses
      then (Inl (BadValue (''invalid memory candidate status: '' @ st)), s)
      else run_write E ''mark_memory_candidate'' (\<lambda>s. Inr (candidate_row_of cid s \<noteq> None,
        s\<lparr>candidates := upd_where (\<lambda>r. mc_id (cdr_candidate r) = cid)
          (marked_candidate st err dec (iso E now)) (candidates s)\<rparr>)) s)"

definition list_retryable_memory_candidates :: "string \<Rightarrow> int \<Rightarrow> memory_db \<Rightarrow> mem_candidate list" where
  "list_retryable_memory_candidates sid limit s =
     map candidate_from_row (take (nat (max 1 (min limit 500)))
       (sort_key cdr_updated (filter (\<lambda>r. cdr_space r = sid \<and>
          cdr_status r \<in> {''extracted'', ''validated'', ''failed'', ''processing''}) (candidates s))))"

subsection \<open>The extraction of a note\<close>

definition extraction_row_of :: "string \<Rightarrow> memory_db \<Rightarrow> extraction_row option" where
  "extraction_row_of nid s = find (\<lambda>r. ext_note r = nid) (extraction_states s)"

text \<open>The row the upsert leaves, from the one it finds\<close>

definition extraction_after ::
  "string \<Rightarrow> string \<Rightarrow> string \<Rightarrow> int \<Rightarrow> int \<Rightarrow> string option \<Rightarrow> bool \<Rightarrow> string \<Rightarrow> extraction_row option \<Rightarrow>
     extraction_row" where
  "extraction_after nid sid st found done_count err retry now old =
     (let started = (if st = ''processing'' then Some now else None);
          delta = (if retry then 1 else 0) in
      \<lparr>ext_note = nid, ext_space = sid, ext_status = st, ext_candidates = max 0 found,
       ext_processed = max 0 done_count,
       ext_attempts = (case old of None \<Rightarrow> delta | Some r \<Rightarrow> ext_attempts r + delta),
       ext_error = err,
       ext_started = given_opt started (case old of None \<Rightarrow> None | Some r \<Rightarrow> ext_started r),
       ext_completed = (if st \<in> {''completed'', ''empty'', ''partial'', ''failed''} then Some now else None),
       ext_updated = now\<rparr>)"

definition mark_extraction_state ::
  "memory_env \<Rightarrow> string \<Rightarrow> string \<Rightarrow> string \<Rightarrow> int \<Rightarrow> int \<Rightarrow> string option \<Rightarrow> bool \<Rightarrow> time \<Rightarrow> memory_db \<Rightarrow>
     (memory_error + extraction_row) \<times> memory_db" where
  "mark_extraction_state E nid sid st found done_count err retry now s =
     (if st \<notin> set extraction_statuses
      then (Inl (BadValue (''invalid memory extraction status: '' @ st)), s)
      else case run_write E ''mark_extraction_state'' (\<lambda>s.
          let r = extraction_after nid sid st found done_count err retry (iso E now) (extraction_row_of nid s)
          in Inr ((), s\<lparr>extraction_states := (if extraction_row_of nid s = None
               then extraction_states s @ [r]
               else upd_where (\<lambda>q. ext_note q = nid) (\<lambda>_. r) (extraction_states s))\<rparr>)) s of
          (Inl e, s1) \<Rightarrow> (Inl e, s1)
        | (Inr _, s1) \<Rightarrow> (case extraction_row_of nid s1 of
              None \<Rightarrow> (Inl (BadValue (''failed to read extraction state: '' @ nid)), s1)
            | Some r \<Rightarrow> (Inr r, s1)))"

definition mark_extraction_processing ::
  "memory_env \<Rightarrow> string \<Rightarrow> string \<Rightarrow> time \<Rightarrow> memory_db \<Rightarrow> (memory_error + extraction_row) \<times> memory_db" where
  "mark_extraction_processing E nid sid = mark_extraction_state E nid sid ''processing'' 0 0 None True"

definition mark_extraction_completed ::
  "memory_env \<Rightarrow> string \<Rightarrow> string \<Rightarrow> int \<Rightarrow> int \<Rightarrow> time \<Rightarrow> memory_db \<Rightarrow> (memory_error + extraction_row) \<times> memory_db" where
  "mark_extraction_completed E nid sid found n = mark_extraction_state E nid sid ''completed'' found n None False"

definition mark_extraction_empty ::
  "memory_env \<Rightarrow> string \<Rightarrow> string \<Rightarrow> time \<Rightarrow> memory_db \<Rightarrow> (memory_error + extraction_row) \<times> memory_db" where
  "mark_extraction_empty E nid sid = mark_extraction_state E nid sid ''empty'' 0 0 None False"

definition mark_extraction_empty_attempt ::
  "memory_env \<Rightarrow> string \<Rightarrow> string \<Rightarrow> time \<Rightarrow> memory_db \<Rightarrow> (memory_error + extraction_row) \<times> memory_db" where
  "mark_extraction_empty_attempt E nid sid = mark_extraction_state E nid sid ''empty'' 0 0 None True"

definition mark_extraction_partial ::
  "memory_env \<Rightarrow> string \<Rightarrow> string \<Rightarrow> int \<Rightarrow> int \<Rightarrow> string \<Rightarrow> time \<Rightarrow> memory_db \<Rightarrow>
     (memory_error + extraction_row) \<times> memory_db" where
  "mark_extraction_partial E nid sid found n err =
     mark_extraction_state E nid sid ''partial'' found n (Some err) False"

definition mark_extraction_failed ::
  "memory_env \<Rightarrow> string \<Rightarrow> string \<Rightarrow> string \<Rightarrow> time \<Rightarrow> memory_db \<Rightarrow>
     (memory_error + extraction_row) \<times> memory_db" where
  "mark_extraction_failed E nid sid err = mark_extraction_state E nid sid ''failed'' 0 0 (Some err) False"

definition list_retryable_extraction_states :: "string \<Rightarrow> int \<Rightarrow> memory_db \<Rightarrow> extraction_row list" where
  "list_retryable_extraction_states sid limit s =
     take (nat (max 1 (min limit 500)))
       (sort_key ext_updated (filter (\<lambda>r. ext_space r = sid \<and>
          ext_status r \<in> {''pending'', ''failed'', ''partial''}) (extraction_states s)))"

subsection \<open>Consolidation runs\<close>

definition run_lease_seconds :: int where
  "run_lease_seconds = 600"

text \<open>\<open>_is_stale\<close>: a time that cannot be read is stale.\<close>

definition is_stale :: "memory_env \<Rightarrow> string \<Rightarrow> time \<Rightarrow> bool" where
  "is_stale E started now =
     (case (if started = [] then None else parse_iso E started) of
        None \<Rightarrow> True | Some t \<Rightarrow> now - t > run_lease_seconds * 1000000)"

definition period_row_of :: "string \<Rightarrow> string \<Rightarrow> string \<Rightarrow> memory_db \<Rightarrow> run_row option" where
  "period_row_of sid cadence period s =
     find (\<lambda>r. run_space r = sid \<and> run_cadence r = cadence \<and> run_period r = period) (consolidation_runs s)"

definition get_consolidation_run :: "string \<Rightarrow> memory_db \<Rightarrow> run_row option" where
  "get_consolidation_run rid s = find (\<lambda>r. run_id r = rid) (consolidation_runs s)"

definition fresh_run :: "string \<Rightarrow> string \<Rightarrow> string \<Rightarrow> string \<Rightarrow> string \<Rightarrow> run_row" where
  "fresh_run rid sid cadence period now =
     \<lparr>run_id = rid, run_space = sid, run_cadence = cadence, run_period = period,
      run_status = ''running'', run_started = now, run_completed = None, run_error = None,
      run_result = None\<rparr>"

text \<open>A run that is completed, or running inside its lease, refuses another one.\<close>

definition run_refused :: "memory_env \<Rightarrow> time \<Rightarrow> run_row \<Rightarrow> bool" where
  "run_refused E now r \<longleftrightarrow>
     run_status r = ''completed'' \<or> (run_status r = ''running'' \<and> \<not> is_stale E (run_started r) now)"

text \<open>The primary key is the id, the upsert is on the period: an id in use elsewhere raises.\<close>

definition reserve_body ::
  "memory_env \<Rightarrow> string \<Rightarrow> string \<Rightarrow> string \<Rightarrow> time \<Rightarrow> string option mem_op" where
  "reserve_body E sid cadence period now s =
     (let old = period_row_of sid cadence period s in
      if (case old of None \<Rightarrow> False | Some r \<Rightarrow> run_refused E now r) then Inr (None, s)
      else let (rid, s0) = draw_id E ''run'' s; r = fresh_run rid sid cadence period (iso E now) in
        if rid \<in> set (map run_id (consolidation_runs s)) then Inl (Integrity ''memory_consolidation_runs.id'')
        else Inr (Some rid, s0\<lparr>consolidation_runs := (if old = None then consolidation_runs s0 @ [r]
          else upd_where (\<lambda>q. run_space q = sid \<and> run_cadence q = cadence \<and> run_period q = period)
            (\<lambda>_. r) (consolidation_runs s0))\<rparr>))"

definition reserve_consolidation_run ::
  "memory_env \<Rightarrow> string \<Rightarrow> string \<Rightarrow> string \<Rightarrow> time \<Rightarrow> memory_db \<Rightarrow>
     (memory_error + run_row option) \<times> memory_db" where
  "reserve_consolidation_run E sid cadence period now s =
     (case run_write E ''reserve_consolidation_run''
         (reserve_body E sid (py_lower (py_strip cadence)) period now) s of
        (Inl e, s1) \<Rightarrow> (Inl e, s1)
      | (Inr None, s1) \<Rightarrow> (Inr None, s1)
      | (Inr (Some rid), s1) \<Rightarrow> (Inr (get_consolidation_run rid s1), s1))"

definition mark_consolidation_completed ::
  "memory_env \<Rightarrow> string \<Rightarrow> payload \<Rightarrow> time \<Rightarrow> memory_db \<Rightarrow> (memory_error + unit) \<times> memory_db" where
  "mark_consolidation_completed E rid result now =
     run_write E ''mark_consolidation_completed'' (\<lambda>s. Inr ((),
       s\<lparr>consolidation_runs := upd_where (\<lambda>r. run_id r = rid)
         (\<lambda>r. r\<lparr>run_status := ''completed'', run_completed := Some (iso E now), run_error := None,
           run_result := Some result\<rparr>) (consolidation_runs s)\<rparr>))"

definition mark_consolidation_failed ::
  "memory_env \<Rightarrow> string \<Rightarrow> string \<Rightarrow> time \<Rightarrow> memory_db \<Rightarrow> (memory_error + unit) \<times> memory_db" where
  "mark_consolidation_failed E rid err now =
     run_write E ''mark_consolidation_failed'' (\<lambda>s. Inr ((),
       s\<lparr>consolidation_runs := upd_where (\<lambda>r. run_id r = rid)
         (\<lambda>r. r\<lparr>run_status := ''failed'', run_completed := Some (iso E now), run_error := Some err\<rparr>)
         (consolidation_runs s)\<rparr>))"

end
