(* ===== verification/Memory_Review.thy ===== *)
theory Memory_Review
  imports Memory_Decisions Memory_Progress
begin

text \<open>
  What a user decides about stored memories (\<open>memory/repository.py\<close>): approving, rejecting and
  editing a memory that waits for review, correcting a memory and resolving a conflict.

  The SQL pattern \<open>result_memory_ids_json LIKE '%"id"%'\<close> is membership of the id in the list:
  the ids are \<open>mem_\<close> and twelve hexadecimal digits.
\<close>

text \<open>A transaction outside \<open>_run_write\<close> is tried once.\<close>

definition write_once :: "memory_env \<Rightarrow> string \<Rightarrow> 'a mem_op \<Rightarrow> memory_db \<Rightarrow> (memory_error + 'a) \<times> memory_db" where
  "write_once E name op s = write_attempts 1 (lock_failures E name s) op s"

lemma write_once_Inr: "write_once E name op s = (Inr x, s1) \<Longrightarrow> op s = Inr (x, s1)"
  by (auto simp: write_once_def write_attempts_cases split: sum.splits if_splits)

lemma write_once_cases:
  obtains (same) "snd (write_once E name op s) = s" "isl (fst (write_once E name op s))"
  | (committed) x s1 where "op s = Inr (x, s1)" "write_once E name op s = (Inr x, s1)"
  by (cases "lock_failures E name s"; cases "op s") (auto simp: write_once_def)

subsection \<open>Approving\<close>

definition waiting_decisions :: "string \<Rightarrow> memory_db \<Rightarrow> decision_row list" where
  "waiting_decisions mid s =
     filter (\<lambda>q. dcs_status q = ''pending_review'' \<and> mid \<in> set (dcs_results q)) (decisions s)"

text \<open>\<open>ORDER BY created_at DESC, rowid DESC LIMIT 1\<close>\<close>

definition latest_waiting :: "string \<Rightarrow> memory_db \<Rightarrow> decision_row option" where
  "latest_waiting mid s =
     (case rev (sort_key dcs_created (waiting_decisions mid s)) of [] \<Rightarrow> None | q # _ \<Rightarrow> Some q)"

definition approve_new :: "memory_env \<Rightarrow> memory_row \<Rightarrow> string \<Rightarrow> string \<Rightarrow> (string \<times> string list) mem_op" where
  "approve_new E p note now s =
     tx_then (versioned_update_row E p (no_change\<lparr>ch_status := Some ''active'', ch_confirmed := Some now\<rparr>)
         ''user_approved_pending_memory'' (Some note) now s) (\<lambda>_ s1.
     Inr ((mem_id p, [mem_id p]), s1))"

definition approve_merge ::
  "memory_env \<Rightarrow> memory_row \<Rightarrow> memory_row \<Rightarrow> string list \<Rightarrow> string \<Rightarrow> string \<Rightarrow> string \<Rightarrow>
     (string \<times> string list) mem_op" where
  "approve_merge E p t notes note did now s =
     tx_then (for_each (\<lambda>n. add_source_row (mem_id t) n ''supported_by'' now) notes s) (\<lambda>_ s1.
     tx_then (versioned_update_row E t (no_change\<lparr>
         ch_content := Some (merge_content E (mem_content t) (mem_content p)),
         ch_confidence := Some (min (fl E (99 / 100)) (max (mem_confidence t) (mem_confidence p))),
         ch_importance := Some (max (mem_importance t) (mem_importance p)),
         ch_confirmed := Some now\<rparr>) ''user_approved_merge'' (Some note) now s1) (\<lambda>_ s2.
     tx_then (versioned_update_row E p (no_change\<lparr>ch_status := Some ''archived''\<rparr>)
         ''merged_after_review'' (Some note) now s2) (\<lambda>_ s3.
     tx_then (add_relation_row E (mem_space p) (mem_id t) (mem_id p) ''derived_from'' (Some did) now s3)
         (\<lambda>_ s4. Inr ((mem_id t, [mem_id t, mem_id p]), s4)))))"

definition approve_update_task ::
  "memory_env \<Rightarrow> memory_row \<Rightarrow> memory_row \<Rightarrow> string list \<Rightarrow> string \<Rightarrow> string \<Rightarrow> (string \<times> string list) mem_op" where
  "approve_update_task E p t notes note now s =
     tx_then (for_each (\<lambda>n. add_source_row (mem_id t) n ''updated_by'' now) notes s) (\<lambda>_ s1.
     tx_then (versioned_update_row E t (no_change\<lparr>
         ch_content := Some (mem_content p), ch_task_status := mem_task_status p,
         ch_confidence := Some (min (fl E (99 / 100)) (max (mem_confidence t) (mem_confidence p))),
         ch_confirmed := Some now\<rparr>) ''user_approved_task_update'' (Some note) now s1) (\<lambda>_ s2.
     tx_then (versioned_update_row E p (no_change\<lparr>ch_status := Some ''archived''\<rparr>)
         ''task_update_applied_after_review'' (Some note) now s2) (\<lambda>_ s3.
     Inr ((mem_id t, [mem_id t, mem_id p]), s3))))"

definition approve_supersede ::
  "memory_env \<Rightarrow> memory_row \<Rightarrow> memory_row \<Rightarrow> string \<Rightarrow> string \<Rightarrow> string \<Rightarrow> (string \<times> string list) mem_op" where
  "approve_supersede E p t note did now s =
     tx_then (add_source_row (mem_id t) note ''contradicted_by'' now s) (\<lambda>_ s1.
     tx_then (versioned_update_row E t (no_change\<lparr>ch_status := Some ''superseded'',
         ch_valid_until := Some now\<rparr>) ''user_approved_supersede'' (Some note) now s1) (\<lambda>_ s2.
     tx_then (versioned_update_row E p (no_change\<lparr>ch_status := Some ''active'', ch_confirmed := Some now\<rparr>)
         ''user_approved_pending_memory'' (Some note) now s2) (\<lambda>_ s3.
     tx_then (add_relation_row E (mem_space p) (mem_id p) (mem_id t) ''supersedes'' (Some did) now s3) (\<lambda>_ s4.
     tx_then (add_relation_row E (mem_space p) (mem_id t) (mem_id p) ''superseded_by'' (Some did) now s4) (\<lambda>_ s5.
     Inr ((mem_id p, [mem_id p, mem_id t]), s5))))))"

definition approve_conflict ::
  "memory_env \<Rightarrow> memory_row \<Rightarrow> memory_row \<Rightarrow> string \<Rightarrow> string \<Rightarrow> string \<Rightarrow> (string \<times> string list) mem_op" where
  "approve_conflict E p t note did now s =
     tx_then (add_source_row (mem_id t) note ''contradicted_by'' now s) (\<lambda>_ s1.
     tx_then (versioned_update_row E t (no_change\<lparr>ch_status := Some ''conflicted''\<rparr>)
         ''user_approved_conflict'' (Some note) now s1) (\<lambda>_ s2.
     tx_then (versioned_update_row E p (no_change\<lparr>ch_status := Some ''conflicted''\<rparr>)
         ''user_approved_conflict'' (Some note) now s2) (\<lambda>_ s3.
     tx_then (add_relation_row E (mem_space p) (mem_id p) (mem_id t) ''conflicts_with'' (Some did) now s3) (\<lambda>_ s4.
     tx_then (add_relation_row E (mem_space p) (mem_id t) (mem_id p) ''conflicts_with'' (Some did) now s4) (\<lambda>_ s5.
     Inr ((mem_id p, [mem_id p, mem_id t]), s5))))))"

definition approve_act ::
  "memory_env \<Rightarrow> string \<Rightarrow> memory_row \<Rightarrow> memory_row option \<Rightarrow> string list \<Rightarrow> string \<Rightarrow> string \<Rightarrow> string \<Rightarrow>
     (string \<times> string list) mem_op" where
  "approve_act E relation p target notes note did now s =
     (if relation = ''new'' then approve_new E p note now s
      else case target of
          None \<Rightarrow> Inl (BadValue (''unsupported pending review relation: '' @ relation))
        | Some t \<Rightarrow>
            if relation = ''merge'' then approve_merge E p t notes note did now s
            else if relation = ''update_task'' then approve_update_task E p t notes note now s
            else if relation = ''supersede'' then approve_supersede E p t note did now s
            else if relation = ''conflict'' then approve_conflict E p t note did now s
            else Inl (BadValue (''unsupported pending review relation: '' @ relation)))"

definition approved_row :: "string \<Rightarrow> string list \<Rightarrow> string \<Rightarrow> decision_row \<Rightarrow> decision_row" where
  "approved_row relation results now q =
     q\<lparr>dcs_status := ''applied'', dcs_results := results, dcs_applied := Some now, dcs_error := None,
       dcs_decision := (dcs_decision q)\<lparr>
         md_action := (if relation = ''new'' then ''insert'' else relation),
         md_reason := md_reason (dcs_decision q) @ ''; user_approved''\<rparr>\<rparr>"

definition approve_body :: "memory_env \<Rightarrow> string \<Rightarrow> string \<Rightarrow> string option mem_op" where
  "approve_body E mid now s =
     (case (case memory_row_of mid s of None \<Rightarrow> None
         | Some p \<Rightarrow> if mem_status p = ''pending_review'' then Some p else None) of
        None \<Rightarrow> Inr (None, s)
      | Some p \<Rightarrow> (case latest_waiting mid s of
            None \<Rightarrow> Inr (None, s)
          | Some q \<Rightarrow>
              let d = dcs_decision q; t = target_id d;
                target = (case t of None \<Rightarrow> None | Some i \<Rightarrow> memory_row_of i s);
                notes = map src_note (filter (\<lambda>r. src_memory r = mid) (sources s));
                note = (case notes of [] \<Rightarrow> dcs_note q | n # _ \<Rightarrow> n)
              in if t \<noteq> None \<and> target = None
                 then Inl (BadValue (''pending review target memory not found: '' @ the t))
                 else tx_then (approve_act E (md_relation d) p target notes note (md_id d) now s)
                   (\<lambda>(result, results) s1. Inr (Some result,
                     s1\<lparr>decisions := upd_where (\<lambda>x. md_id (dcs_decision x) = md_id d)
                       (approved_row (md_relation d) results now) (decisions s1)\<rparr>))))"

definition approve_pending_memory ::
  "memory_env \<Rightarrow> string \<Rightarrow> time \<Rightarrow> memory_db \<Rightarrow> (memory_error + memory_row option) \<times> memory_db" where
  "approve_pending_memory E mid now s =
     (case run_write E ''approve_pending_memory'' (approve_body E mid (iso E now)) s of
        (Inl e, s1) \<Rightarrow> (Inl e, s1)
      | (Inr None, s1) \<Rightarrow> (Inr None, s1)
      | (Inr (Some i), s1) \<Rightarrow> (Inr (memory_row_of i s1), s1))"

subsection \<open>Rejecting and editing\<close>

text \<open>\<open>ORDER BY created_at DESC LIMIT 1\<close>, ties in table order\<close>

definition newest_waiting :: "string \<Rightarrow> memory_db \<Rightarrow> decision_row option" where
  "newest_waiting mid s =
     (case newest_first dcs_created (waiting_decisions mid s) of [] \<Rightarrow> None | q # _ \<Rightarrow> Some q)"

definition reject_decisions :: "string \<Rightarrow> string \<Rightarrow> string option mem_op" where
  "reject_decisions mid reason s =
     (case newest_waiting mid s of
        None \<Rightarrow> Inr (None, s)
      | Some q \<Rightarrow> Inr (Some (md_candidate_id (dcs_decision q)),
          s\<lparr>decisions := upd_where (\<lambda>x. md_candidate_id (dcs_decision x) = md_candidate_id (dcs_decision q) \<and>
              dcs_status x = ''pending_review'')
            (\<lambda>x. x\<lparr>dcs_status := ''rejected'', dcs_error := Some reason\<rparr>) (decisions s)\<rparr>))"

definition pending_row :: "string \<Rightarrow> memory_db \<Rightarrow> memory_row option" where
  "pending_row mid s =
     (case memory_row_of mid s of None \<Rightarrow> None
      | Some p \<Rightarrow> if mem_status p = ''pending_review'' then Some p else None)"

definition reject_pending_memory ::
  "memory_env \<Rightarrow> string \<Rightarrow> string \<Rightarrow> time \<Rightarrow> memory_db \<Rightarrow> (memory_error + memory_row option) \<times> memory_db" where
  "reject_pending_memory E mid reason now s =
     (case pending_row mid s of
        None \<Rightarrow> (Inr None, s)
      | Some _ \<Rightarrow> (case update_memory E mid (no_change\<lparr>ch_status := Some ''archived''\<rparr>) (Some reason) None now s of
            (Inl e, s1) \<Rightarrow> (Inl e, s1)
          | (Inr updated, s1) \<Rightarrow> (case write_once E ''reject_pending_memory'' (reject_decisions mid reason) s1 of
                (Inl e, s2) \<Rightarrow> (Inl e, s2)
              | (Inr cid, s2) \<Rightarrow>
                  if cid \<in> {None, Some []} then (Inr updated, s2)
                  else (case mark_memory_candidate E (the cid) ''discarded'' (Some reason) None now s2 of
                      (Inl e, s3) \<Rightarrow> (Inl e, s3)
                    | (Inr _, s3) \<Rightarrow> (Inr updated, s3)))))"

text \<open>
  After the new text is stored, a task whose status can be read from it turns its decision into an
  update of the target, and its candidate gets the new text.
\<close>

definition edit_decision ::
  "memory_env \<Rightarrow> string \<Rightarrow> string \<Rightarrow> memory_row \<Rightarrow> string option \<Rightarrow> string \<Rightarrow> unit mem_op" where
  "edit_decision E mid content p next now s =
     (case newest_waiting mid s of
        None \<Rightarrow> Inr ((), s)
      | Some q \<Rightarrow>
          if mem_type p \<noteq> ''task'' \<or> next = None then Inr ((), s)
          else let d = dcs_decision q;
              target = (case md_targets d of [] \<Rightarrow> None | t # _ \<Rightarrow> memory_row_of t s);
              allowed = (case target of None \<Rightarrow> False
                | Some t \<Rightarrow> next = normalize_task_status (mem_task_status t) \<or>
                    can_transition (normalize_task_status (mem_task_status t)) next);
              s1 = (if allowed then s\<lparr>decisions := upd_where (\<lambda>x. md_id (dcs_decision x) = md_id d)
                  (\<lambda>x. x\<lparr>dcs_decision := (dcs_decision x)\<lparr>md_relation := ''update_task'',
                    md_action := ''update_task'', md_reason := ''user_edited_pending_memory_revalidated'',
                    md_snapshot := Some (current_version (the target))\<rparr>\<rparr>) (decisions s)\<rparr> else s)
            in Inr ((), s1\<lparr>candidates := upd_where (\<lambda>r. mc_id (cdr_candidate r) = md_candidate_id d)
                (\<lambda>r. r\<lparr>cdr_candidate := (cdr_candidate r)\<lparr>mc_content := content, mc_task_status := next\<rparr>,
                  cdr_normalized := normalize_content E content, cdr_updated := now\<rparr>) (candidates s1)\<rparr>))"

definition edit_pending_memory ::
  "memory_env \<Rightarrow> string \<Rightarrow> string \<Rightarrow> time \<Rightarrow> memory_db \<Rightarrow> (memory_error + memory_row option) \<times> memory_db" where
  "edit_pending_memory E mid content now s =
     (case (if py_strip content = [] then None else pending_row mid s) of
        None \<Rightarrow> (Inr None, s)
      | Some p \<Rightarrow>
          let is_task = (mem_type p = ''task''); next = (if is_task then infer_task_status content else None) in
          case update_memory E mid (no_change\<lparr>ch_content := Some content, ch_status := Some ''pending_review'',
              ch_task_status := (if is_task then normalize_task_status
                (if next \<noteq> None then next else normalize_task_status (mem_task_status p)) else None)\<rparr>)
              (Some ''user_edited_pending_memory'') None now s of
            (Inl e, s1) \<Rightarrow> (Inl e, s1)
          | (Inr _, s1) \<Rightarrow> (case write_once E ''edit_pending_memory'' (edit_decision E mid content p next (iso E now)) s1 of
                (Inl e, s2) \<Rightarrow> (Inl e, s2)
              | (Inr _, s2) \<Rightarrow> approve_pending_memory E mid now s2))"

subsection \<open>Correcting and resolving\<close>

definition correct_memory ::
  "memory_env \<Rightarrow> string \<Rightarrow> string \<Rightarrow> string option \<Rightarrow> string \<Rightarrow> time \<Rightarrow> memory_db \<Rightarrow>
     (memory_error + memory_row option) \<times> memory_db" where
  "correct_memory E mid content status reason now s =
     (case memory_row_of mid s of
        None \<Rightarrow> (Inr None, s)
      | Some r \<Rightarrow> (case validate_task_status status of
            Inl e \<Rightarrow> (Inl e, s)
          | Inr given_status \<Rightarrow>
              let is_task = (mem_type r = ''task''); old = normalize_task_status (mem_task_status r);
                resolved = (if \<not> is_task then given_status
                  else if given_status \<noteq> None then given_status
                  else if infer_task_status content \<noteq> None then infer_task_status content else old)
              in if is_task \<and> resolved \<noteq> old \<and> \<not> can_transition old resolved
                 then (Inl (BadValue ''invalid task status transition''), s)
                 else if is_task \<and> old = Some ''done'' \<and> resolved = Some ''todo'' \<and>
                   \<not> mentions reopen_markers content
                 then (Inl (BadValue ''reopening a terminal task requires explicit wording''), s)
                 else update_memory E mid (no_change\<lparr>ch_content := Some content, ch_status := Some ''active'',
                   ch_task_status := (if is_task then resolved else None)\<rparr>) (Some reason) None now s))"

definition resolve_memory_conflict ::
  "memory_env \<Rightarrow> string \<Rightarrow> string \<Rightarrow> string option \<Rightarrow> time \<Rightarrow> memory_db \<Rightarrow>
     (memory_error + memory_row option) \<times> memory_db" where
  "resolve_memory_conflict E mid resolution content now s =
     (if resolution \<notin> {''keep'', ''merge'', ''archive''}
      then (Inl (BadValue ''resolution must be keep, merge, or archive''), s)
      else if resolution = ''keep''
      then update_memory E mid (no_change\<lparr>ch_status := Some ''active''\<rparr>)
        (Some ''user_resolved_conflict_keep'') None now s
      else if resolution = ''merge''
      then (if py_strip (given content []) = []
        then (Inl (BadValue ''merge resolution requires content''), s)
        else update_memory E mid (no_change\<lparr>ch_content := content, ch_status := Some ''active''\<rparr>)
          (Some ''user_resolved_conflict_merge'') None now s)
      else update_memory E mid (no_change\<lparr>ch_status := Some ''archived''\<rparr>)
        (Some ''user_resolved_conflict_archive'') None now s)"

end
