(* ===== verification/Memory_Invariant.thy ===== *)
theory Memory_Invariant
  imports Memory_Review
begin

text \<open>
  What holds in every state of the memory store: the values of its columns come from the
  vocabularies, and the versions of a memory are numbered without gaps and end in its present
  content. \<open>tables_ok\<close> relates the memory rows to the version rows.
\<close>

subsection \<open>Well-formed rows\<close>

definition task_status_ok :: "string option \<Rightarrow> bool" where
  "task_status_ok t \<longleftrightarrow> (case t of None \<Rightarrow> True | Some x \<Rightarrow> x \<in> set task_statuses)"

definition memory_row_ok :: "memory_row \<Rightarrow> bool" where
  "memory_row_ok r \<longleftrightarrow> mem_type r \<in> set memory_types \<and> mem_status r \<in> set memory_statuses \<and>
     task_status_ok (mem_task_status r) \<and> 1 \<le> mem_version r"

definition version_row_ok :: "version_row \<Rightarrow> bool" where
  "version_row_ok v \<longleftrightarrow> ver_status v \<in> set memory_statuses \<and> task_status_ok (ver_task_status v) \<and>
     1 \<le> ver_version v"

definition decision_row_ok :: "decision_row \<Rightarrow> bool" where
  "decision_row_ok q \<longleftrightarrow> decision_ok (dcs_decision q) \<and>
     dcs_status q \<in> {''applied'', ''pending_review'', ''failed'', ''rejected''}"

definition extraction_row_ok :: "extraction_row \<Rightarrow> bool" where
  "extraction_row_ok r \<longleftrightarrow> ext_status r \<in> set extraction_statuses \<and> 0 \<le> ext_candidates r \<and>
     0 \<le> ext_processed r \<and> 0 \<le> ext_attempts r"

definition run_row_ok :: "run_row \<Rightarrow> bool" where
  "run_row_ok r \<longleftrightarrow> run_status r \<in> {''running'', ''completed'', ''failed''}"

definition well_typed :: "memory_db \<Rightarrow> bool" where
  "well_typed s \<longleftrightarrow>
     list_all memory_row_ok (memories s) \<and> list_all version_row_ok (versions s) \<and>
     list_all (\<lambda>r. src_relation r \<in> set source_relations) (sources s) \<and>
     list_all (\<lambda>r. rel_relation r \<in> set memory_relation_types) (relations s) \<and>
     list_all decision_row_ok (decisions s) \<and>
     list_all (\<lambda>r. candidate_ok (cdr_candidate r)) (candidates s) \<and>
     list_all extraction_row_ok (extraction_states s) \<and>
     list_all run_row_ok (consolidation_runs s)"

subsection \<open>Versions\<close>

definition versions_of :: "string \<Rightarrow> version_row list \<Rightarrow> version_row list" where
  "versions_of mid V = filter (\<lambda>v. ver_memory v = mid) V"

definition records_row :: "version_row \<Rightarrow> memory_row \<Rightarrow> bool" where
  "records_row v r \<longleftrightarrow> ver_memory v = mem_id r \<and> ver_version v = mem_version r \<and>
     ver_content v = mem_content r \<and> ver_status v = mem_status r \<and>
     ver_task_status v = mem_task_status r \<and> ver_valid_from v = mem_valid_from r \<and>
     ver_valid_until v = mem_valid_until r"

definition history_of :: "memory_row \<Rightarrow> version_row list \<Rightarrow> bool" where
  "history_of r V \<longleftrightarrow> map ver_version (versions_of (mem_id r) V) = [1..mem_version r] \<and>
     versions_of (mem_id r) V \<noteq> [] \<and> records_row (last (versions_of (mem_id r) V)) r"

definition versions_complete :: "memory_db \<Rightarrow> bool" where
  "versions_complete s \<longleftrightarrow> distinct (map mem_id (memories s)) \<and>
     list_all (\<lambda>v. ver_memory v \<in> set (map mem_id (memories s))) (versions s) \<and>
     list_all (\<lambda>r. history_of r (versions s)) (memories s)"

definition tables_ok :: "memory_row list \<Rightarrow> version_row list \<Rightarrow> bool" where
  "tables_ok M V \<longleftrightarrow> distinct (map mem_id M) \<and>
     (\<forall>v \<in> set V. ver_memory v \<in> mem_id ` set M \<and> version_row_ok v) \<and>
     (\<forall>r \<in> set M. memory_row_ok r \<and> history_of r V)"

text \<open>The target of a waiting decision is none of the memories it created.\<close>

definition waiting_ok :: "decision_row \<Rightarrow> bool" where
  "waiting_ok q \<longleftrightarrow> (dcs_status q = ''pending_review'' \<longrightarrow>
     target_id (dcs_decision q) \<notin> Some ` set (dcs_results q))"

definition store_ok :: "memory_db \<Rightarrow> bool" where
  "store_ok s \<longleftrightarrow> tables_ok (memories s) (versions s) \<and>
     (\<forall>r \<in> set (sources s). src_relation r \<in> set source_relations) \<and>
     (\<forall>r \<in> set (relations s). rel_relation r \<in> set memory_relation_types) \<and>
     (\<forall>q \<in> set (decisions s). decision_row_ok q \<and> waiting_ok q) \<and>
     (\<forall>r \<in> set (candidates s). candidate_ok (cdr_candidate r)) \<and>
     (\<forall>r \<in> set (extraction_states s). extraction_row_ok r) \<and>
     (\<forall>r \<in> set (consolidation_runs s). run_row_ok r)"

lemma store_ok_typed: "store_ok s \<Longrightarrow> well_typed s"
  by (auto simp: store_ok_def well_typed_def tables_ok_def list_all_iff)

lemma store_ok_versions: "store_ok s \<Longrightarrow> versions_complete s"
  by (auto simp: store_ok_def versions_complete_def tables_ok_def list_all_iff)

lemma store_ok_empty: "store_ok no_memories"
  by (simp add: store_ok_def no_memories_def tables_ok_def)

lemma versions_of_append [simp]: "versions_of mid (V @ W) = versions_of mid V @ versions_of mid W"
  by (simp add: versions_of_def)

lemma versions_of_Cons [simp]:
  "versions_of mid (v # V) = (if ver_memory v = mid then [v] else []) @ versions_of mid V"
  by (simp add: versions_of_def)

lemma versions_of_Nil [simp]: "versions_of mid [] = []"
  by (simp add: versions_of_def)

lemma versions_of_none: "(\<forall>v \<in> set V. ver_memory v \<noteq> mid) \<Longrightarrow> versions_of mid V = []"
  by (simp add: versions_of_def)

lemma tables_update:
  assumes ok: "tables_ok M V" and r: "r \<in> set M" and id: "mem_id r1 = mem_id r"
    and ver: "mem_version r1 = mem_version r + 1" and row: "memory_row_ok r1"
    and v: "records_row v r1"
  shows "tables_ok (upd_where (\<lambda>q. mem_id q = mem_id r1) (\<lambda>q. r1) M) (V @ [v])"
proof -
  from r ok have vr: "1 \<le> mem_version r" "map ver_version (versions_of (mem_id r) V) = [1..mem_version r]"
    by (auto simp: tables_ok_def memory_row_ok_def history_of_def)
  have "history_of r1 (V @ [v])"
    using v vr id ver by (simp add: history_of_def records_row_def upto_rec2)
  moreover have "history_of q (V @ [v])" if "q \<in> set M" "mem_id q \<noteq> mem_id r1" for q
    using ok that v by (auto simp: tables_ok_def history_of_def records_row_def)
  moreover have "version_row_ok v"
    using v row by (simp add: version_row_ok_def records_row_def memory_row_ok_def)
  moreover have "map mem_id (upd_where (\<lambda>q. mem_id q = mem_id r1) (\<lambda>q. r1) M) = map mem_id M"
    by (rule map_upd_where) simp
  then have "mem_id ` set (upd_where (\<lambda>q. mem_id q = mem_id r1) (\<lambda>q. r1) M) = mem_id ` set M"
    by (metis set_map)
  moreover have "ver_memory v \<in> mem_id ` set M"
    using v id r by (simp add: records_row_def)
  ultimately show ?thesis
    using ok row \<open>map mem_id _ = map mem_id M\<close>
    by (auto simp: tables_ok_def ball_upd_where)
qed

lemma tables_insert:
  assumes ok: "tables_ok M V" and new: "mem_id r \<notin> mem_id ` set M" and ver: "mem_version r = 1"
    and row: "memory_row_ok r" and v: "records_row v r"
  shows "tables_ok (M @ [r]) (V @ [v])"
proof -
  from ok new have "versions_of (mem_id r) V = []"
    by (intro versions_of_none) (metis tables_ok_def)
  then have "history_of r (V @ [v])"
    using v ver by (simp add: history_of_def records_row_def)
  moreover have "history_of q (V @ [v])" if "q \<in> set M" for q
    using ok that v new by (force simp: tables_ok_def history_of_def records_row_def)
  moreover have "version_row_ok v"
    using v row by (simp add: version_row_ok_def records_row_def memory_row_ok_def)
  ultimately show ?thesis
    using ok new row v by (auto simp: tables_ok_def records_row_def)
qed

text \<open>Changes that leave what a version records\<close>

definition keeps_content :: "(memory_row \<Rightarrow> memory_row) \<Rightarrow> bool" where
  "keeps_content f \<longleftrightarrow> (\<forall>r. mem_id (f r) = mem_id r \<and> mem_type (f r) = mem_type r \<and>
     mem_content (f r) = mem_content r \<and> mem_status (f r) = mem_status r \<and>
     mem_task_status (f r) = mem_task_status r \<and> mem_valid_from (f r) = mem_valid_from r \<and>
     mem_valid_until (f r) = mem_valid_until r \<and> mem_version (f r) = mem_version r)"

lemma tables_touch:
  assumes ok: "tables_ok M V" and f: "keeps_content f"
  shows "tables_ok (upd_where P f M) V"
proof -
  have ids: "map mem_id (upd_where P f M) = map mem_id M"
    using f by (intro map_upd_where) (simp add: keeps_content_def)
  then have "mem_id ` set (upd_where P f M) = mem_id ` set M" by (metis set_map)
  with ok ids f show ?thesis
    by (auto simp: tables_ok_def ball_upd_where memory_row_ok_def history_of_def records_row_def keeps_content_def)
qed

lemma tables_purge:
  assumes "tables_ok M V"
  shows "tables_ok (filter (\<lambda>r. mem_id r \<noteq> mid) M) (filter (\<lambda>v. ver_memory v \<noteq> mid) V)"
proof -
  have "versions_of i (filter (\<lambda>v. ver_memory v \<noteq> mid) V) = versions_of i V" if "i \<noteq> mid" for i
    using that by (auto simp: versions_of_def intro: filter_cong)
  with assms show ?thesis
    by (auto simp: tables_ok_def history_of_def distinct_map_filter)
qed

lemma tables_row:
  "tables_ok M V \<Longrightarrow> r \<in> set M \<Longrightarrow> find (\<lambda>q. mem_id q = mem_id r) M = Some r"
  by (rule mem.lookup_of_mem) (simp_all add: tables_ok_def)

subsection \<open>What the row operations do\<close>

lemma fold_link: "\<exists>w. fold (link_version vid) ns s = s\<lparr>version_sources := w\<rparr>"
proof (induction ns arbitrary: s)
  case Nil
  show ?case by (rule exI [of _ "version_sources s"]) simp
next
  case (Cons n ns)
  from Cons [of "link_version vid n s"] show ?case
    by (auto simp: link_version_def split: if_splits)
qed

lemma add_version_shape:
  assumes "add_version E v s = Inr (u, s1)"
  shows "\<exists>vid. s1 = s\<lparr>versions := versions s @ [v\<lparr>ver_id := vid\<rparr>],
    version_sources := version_sources s1, id_pos := id_pos s1\<rparr>"
proof -
  from assms obtain vid n ns where
    s1: "s1 = fold (link_version vid) ns (s\<lparr>id_pos := n, versions := versions s @ [v\<lparr>ver_id := vid\<rparr>]\<rparr>)"
    by (auto simp: add_version_def draw_id_def Let_def split: if_splits)
  obtain w where "s1 = s\<lparr>id_pos := n, versions := versions s @ [v\<lparr>ver_id := vid\<rparr>], version_sources := w\<rparr>"
    using fold_link [of vid ns] unfolding s1 by blast
  then show ?thesis by (intro exI [of _ vid]) simp
qed

lemma add_source_shape:
  assumes "add_source_row mid note rel now s = Inr (b, s1)"
  shows "s1 = s\<lparr>sources := sources s1\<rparr>"
    and "(\<forall>r \<in> set (sources s). src_relation r \<in> set source_relations) \<Longrightarrow>
      (\<forall>r \<in> set (sources s1). src_relation r \<in> set source_relations)"
  using assms by (auto simp: add_source_row_def split: if_splits)

lemma add_relation_shape:
  assumes "add_relation_row E sid a b rel dec now s = Inr (u, s1)"
  shows "s1 = s\<lparr>relations := relations s1, id_pos := id_pos s1\<rparr>"
    and "(\<forall>r \<in> set (relations s). rel_relation r \<in> set memory_relation_types) \<Longrightarrow>
      (\<forall>r \<in> set (relations s1). rel_relation r \<in> set memory_relation_types)"
  using assms by (auto simp: add_relation_row_def draw_id_def Let_def split: if_splits)

lemma update_row_shape:
  "update_row r s = Inr (u, s1) \<Longrightarrow>
     s1 = s\<lparr>memories := upd_where (\<lambda>q. mem_id q = mem_id r) (\<lambda>q. r) (memories s)\<rparr>"
  by (simp add: update_row_def split: if_splits)

lemma version_of_row_records: "records_row ((version_of_row r reason note now)\<lparr>ver_id := vid\<rparr>) r"
  by (simp add: records_row_def version_of_row_def)

end
