(* ===== verification/Memory_Preservation.thy ===== *)
theory Memory_Preservation
  imports Memory_Invariant
begin

text \<open>
  Every operation of the memory store keeps \<open>store_ok\<close>: first the row operations, with what they do
  to the memory rows, then the decisions and the reviews made of them.
\<close>

named_theorems keeps \<open>operations that keep the store well-formed\<close>

subsection \<open>Row operations\<close>

lemma source_kept:
  assumes "add_source_row mid nt rel now s = Inr (b, s1)"
  shows "store_ok s \<Longrightarrow> store_ok s1" "memories s1 = memories s" "decisions s1 = decisions s"
proof -
  note sh = add_source_shape [OF assms]
  show "memories s1 = memories s" "decisions s1 = decisions s" by (subst sh(1), simp)+
  assume ok: "store_ok s"
  show "store_ok s1"
    using ok sh(2) by (subst sh(1)) (simp add: store_ok_def)
qed

lemma relation_kept:
  assumes "add_relation_row E sid a b rel dec now s = Inr (u, s1)"
  shows "store_ok s \<Longrightarrow> store_ok s1" "memories s1 = memories s" "decisions s1 = decisions s"
proof -
  note sh = add_relation_shape [OF assms]
  show "memories s1 = memories s" "decisions s1 = decisions s" by (subst sh(1), simp)+
  assume ok: "store_ok s"
  show "store_ok s1"
    using ok sh(2) by (subst sh(1)) (simp add: store_ok_def)
qed

definition changes_ok :: "changes \<Rightarrow> bool" where
  "changes_ok ch \<longleftrightarrow> (case ch_status ch of None \<Rightarrow> True | Some x \<Rightarrow> x \<in> set memory_statuses) \<and>
     task_status_ok (ch_task_status ch)"

lemma task_status_ok_given: "task_status_ok a \<Longrightarrow> task_status_ok b \<Longrightarrow> task_status_ok (given_opt a b)"
  by (cases a) (auto simp: given_opt_def)

lemma task_status_ok_normalized [simp]: "task_status_ok (normalize_task_status t)"
  by (cases "normalize_task_status t") (auto simp: task_status_ok_def dest: normalize_task_status_values)

lemma current_version_ok: "memory_row_ok r \<Longrightarrow> current_version r = mem_version r"
  by (simp add: current_version_def memory_row_ok_def)

lemma changed_row_ok:
  assumes "memory_row_ok r" "changes_ok ch"
  shows "memory_row_ok (changed_row E ch now r)"
  using assms
  by (auto simp: memory_row_ok_def changed_row_def changes_ok_def current_version_def given_def
      intro: task_status_ok_given split: option.splits)

lemma changed_row_id [simp]: "mem_id (changed_row E ch now r) = mem_id r"
  by (simp add: changed_row_def)

lemma changed_row_version: "memory_row_ok r \<Longrightarrow> mem_version (changed_row E ch now r) = mem_version r + 1"
  by (simp add: changed_row_def current_version_ok)

lemma row_of_mem: "memory_row_of mid s = Some r \<Longrightarrow> r \<in> set (memories s) \<and> mem_id r = mid"
  unfolding memory_row_of_def by (rule mem.lookup_mem)

lemma row_ok: "store_ok s \<Longrightarrow> memory_row_of mid s = Some r \<Longrightarrow> memory_row_ok r"
  using row_of_mem by (auto simp: store_ok_def tables_ok_def)

lemma row_of_self: "store_ok s \<Longrightarrow> r \<in> set (memories s) \<Longrightarrow> memory_row_of (mem_id r) s = Some r"
  using tables_row by (auto simp: store_ok_def memory_row_of_def)

lemma row_of_upd:
  assumes "memories s1 = upd_where (\<lambda>q. mem_id q = mid) (\<lambda>q. r1) (memories s)" "mem_id r1 = mid"
  shows "memory_row_of i s1 = (if i = mid \<and> memory_row_of mid s \<noteq> None then Some r1 else memory_row_of i s)"
proof -
  have "memory_row_of i s1 =
      map_option (\<lambda>r. if mem_id r = mid then r1 else r) (memory_row_of i s)"
    unfolding memory_row_of_def assms(1) by (rule mem.lookup_upd_where) (simp add: assms(2))
  then show ?thesis using row_of_mem [of i s] by (cases "memory_row_of i s") auto
qed

text \<open>The common core of \<open>_versioned_update_row\<close> and \<open>update_memory\<close>\<close>

lemma replace_kept:
  assumes ok: "store_ok s" and r: "memory_row_of (mem_id r) s = Some r"
    and id: "mem_id r1 = mem_id r" and ver: "mem_version r1 = mem_version r + 1" and row: "memory_row_ok r1"
    and run: "tx_then (update_row r1 s) (\<lambda>_ s1. add_version E (version_of_row r1 reason nt now) s1) = Inr (u, s2)"
  shows "store_ok s2"
    and "memories s2 = upd_where (\<lambda>q. mem_id q = mem_id r) (\<lambda>q. r1) (memories s)"
    and "decisions s2 = decisions s"
proof -
  from run obtain s1 where up: "update_row r1 s = Inr ((), s1)"
    and add: "add_version E (version_of_row r1 reason nt now) s1 = Inr (u, s2)" by auto
  note s1 = update_row_shape [OF up]
  from add_version_shape [OF add] obtain vid where
    s2: "s2 = s1\<lparr>versions := versions s1 @ [(version_of_row r1 reason nt now)\<lparr>ver_id := vid\<rparr>],
      version_sources := version_sources s2, id_pos := id_pos s2\<rparr>" by blast
  show m: "memories s2 = upd_where (\<lambda>q. mem_id q = mem_id r) (\<lambda>q. r1) (memories s)"
    by (subst s2) (simp add: s1 id)
  show "decisions s2 = decisions s" by (subst s2) (simp add: s1)
  have "tables_ok (upd_where (\<lambda>q. mem_id q = mem_id r1) (\<lambda>q. r1) (memories s))
      (versions s @ [(version_of_row r1 reason nt now)\<lparr>ver_id := vid\<rparr>])"
  proof (rule tables_update)
    show "tables_ok (memories s) (versions s)" using ok by (simp add: store_ok_def)
    show "r \<in> set (memories s)" using row_of_mem [OF r] by simp
  qed (fact id ver row version_of_row_records)+
  then show "store_ok s2"
    using ok by (subst s2) (simp add: store_ok_def s1)
qed

lemma update_kept:
  assumes ok: "store_ok s" and r: "memory_row_of (mem_id r) s = Some r" and ch: "changes_ok ch"
    and run: "versioned_update_row E r ch reason nt now s = Inr (u, s1)"
  shows "store_ok s1"
    and "memories s1 = upd_where (\<lambda>q. mem_id q = mem_id r) (\<lambda>q. changed_row E ch now r) (memories s)"
    and "decisions s1 = decisions s"
  using replace_kept [OF ok r, of "changed_row E ch now r" E "Some reason" nt now u s1]
    run row_ok [OF ok r] ch
  by (simp_all only: versioned_update_row_def Let_def changed_row_id changed_row_version changed_row_ok)

lemma insert_kept:
  assumes ok: "store_ok s" and c: "candidate_ok c"
    and run: "insert_memory_row E sid c nt rel st gid now s = Inr (mid, s3)"
  shows "store_ok s3"
    and "memories s3 = memories s @ [row_of_candidate E sid c st mid now]"
    and "decisions s3 = decisions s"
    and "memory_row_of mid s = None"
    and "gid = Some i \<Longrightarrow> mid = i"
proof -
  define v where "v = (version_of_row (row_of_candidate E sid c st mid now) (Some ''created'') (Some nt) now)
    \<lparr>ver_task_status := normalize_task_status (mc_task_status c)\<rparr>"
  obtain m n where d: "(case gid of Some i \<Rightarrow> (i, s) | None \<Rightarrow> draw_id E ''mem'' s) = (m, s\<lparr>id_pos := n\<rparr>)"
    and gid: "\<And>i. gid = Some i \<Longrightarrow> m = i"
  proof (cases gid)
    case None
    then show ?thesis
      by (intro that [of "''mem'' @ ''_'' @ hex12 E (id_pos s)" "Suc (id_pos s)"]) (simp_all add: draw_id_def)
  next
    case (Some i)
    then show ?thesis by (intro that [of i "id_pos s"]) simp_all
  qed
  from run d obtain s1 s2 b where st: "st \<in> set memory_statuses" and mid: "m = mid"
    and ins: "insert_row (row_of_candidate E sid c st mid now) (s\<lparr>id_pos := n\<rparr>) = Inr ((), s1)"
    and src: "add_source_row mid nt rel now s1 = Inr (b, s2)"
    and add: "add_version E v s2 = Inr ((), s3)"
    by (auto simp: insert_memory_row_def Let_def v_def split: if_splits)
  show "gid = Some i \<Longrightarrow> mid = i" using gid mid by simp
  let ?r = "row_of_candidate E sid c st mid now"
  have rid: "mem_id ?r = mid" by (simp add: row_of_candidate_def)
  have new: "memory_row_of mid s = None"
    and s1: "s1 = s\<lparr>id_pos := n, memories := memories s @ [?r]\<rparr>"
    using ins rid by (auto simp: insert_row_def memory_row_of_def split: if_splits)
  then show "memory_row_of mid s = None" by simp
  note sh = add_source_shape [OF src]
  from add_version_shape [OF add] obtain vid where
    s3: "s3 = s2\<lparr>versions := versions s2 @ [v\<lparr>ver_id := vid\<rparr>],
      version_sources := version_sources s3, id_pos := id_pos s3\<rparr>" by blast
  have s3': "s3 = s\<lparr>memories := memories s @ [?r], sources := sources s2,
      versions := versions s @ [v\<lparr>ver_id := vid\<rparr>], version_sources := version_sources s3,
      id_pos := id_pos s3\<rparr>"
    by (subst s3, subst (2) sh(1), subst (1) sh(1)) (simp add: s1)
  show "memories s3 = memories s @ [?r]" "decisions s3 = decisions s" by (subst s3', simp)+
  have "task_status_ok (mc_task_status c)" "normalize_task_status (mc_task_status c) = mc_task_status c"
    using c by (auto simp: candidate_ok_def task_status_ok_def task_statuses_def split: option.splits)
  then have "memory_row_ok ?r" "records_row (v\<lparr>ver_id := vid\<rparr>) ?r"
    using c st by (simp_all add: memory_row_ok_def row_of_candidate_def candidate_ok_def records_row_def
        v_def version_of_row_def)
  moreover have "mem_id ?r \<notin> mem_id ` set (memories s)"
    using new mem.lookup_None_iff [of mid "memories s"] by (simp add: memory_row_of_def rid)
  ultimately have "tables_ok (memories s @ [?r]) (versions s @ [v\<lparr>ver_id := vid\<rparr>])"
    using ok by (intro tables_insert) (auto simp: store_ok_def row_of_candidate_def)
  moreover have "\<forall>r \<in> set (sources s2). src_relation r \<in> set source_relations"
    using sh(2) ok by (simp add: s1 store_ok_def)
  ultimately show "store_ok s3"
    using ok by (subst s3') (simp add: store_ok_def)
qed

subsection \<open>Carrying out a decision\<close>

text \<open>A loop over rows that are read before it and each changed once\<close>

lemma for_each_kept:
  assumes "for_each f rs s = Inr (ys, s2)" and "I s" and "distinct (map key rs)"
    and "\<And>r. r \<in> set rs \<Longrightarrow> R r s"
    and "\<And>r s y s1. r \<in> set rs \<Longrightarrow> I s \<Longrightarrow> R r s \<Longrightarrow> f r s = Inr (y, s1) \<Longrightarrow>
       I s1 \<and> (\<forall>q \<in> set rs. key q \<noteq> key r \<longrightarrow> R q s \<longrightarrow> R q s1)"
  shows "I s2"
  using assms
proof (induction rs arbitrary: s ys)
  case Nil
  show ?case using Nil.prems(1,2) by simp
next
  case (Cons r rs)
  from Cons.prems(1) obtain y s1 zs where f: "f r s = Inr (y, s1)" and rest: "for_each f rs s1 = Inr (zs, s2)"
    by auto
  have st: "I s1" "\<forall>q \<in> set (r # rs). key q \<noteq> key r \<longrightarrow> R q s \<longrightarrow> R q s1"
    using Cons.prems(5) [OF _ Cons.prems(2) Cons.prems(4) f] by auto
  show ?case
  proof (rule Cons.IH [OF rest st(1)])
    show "distinct (map key rs)" using Cons.prems(3) by simp
    show "R q s1" if "q \<in> set rs" for q
      using st(2) Cons.prems(3,4) that by (auto simp: image_iff)
  next
    fix q t y t1
    assume "q \<in> set rs" "I t" "R q t" "f q t = Inr (y, t1)"
    then show "I t1 \<and> (\<forall>p \<in> set rs. key p \<noteq> key q \<longrightarrow> R p t \<longrightarrow> R p t1)"
      using Cons.prems(5) [of q t y t1] by simp
  qed
qed

text \<open>
  \<open>known i D\<close>: the state is well-formed, has a memory \<open>i\<close> and the decisions \<open>D\<close>; what the parts of
  one transaction pass on to each other.
\<close>

definition unchanged_row :: "memory_row \<Rightarrow> memory_db \<Rightarrow> bool" where
  "unchanged_row r s \<longleftrightarrow> memory_row_of (mem_id r) s = Some r"

lemma update_keeps_others:
  assumes "store_ok s" "unchanged_row r s" "changes_ok ch"
    "versioned_update_row E r ch reason nt now s = Inr (u, s1)"
    "unchanged_row q s" "mem_id q \<noteq> mem_id r"
  shows "unchanged_row q s1"
  using row_of_upd [OF update_kept(2) [OF assms(1) assms(2) [unfolded unchanged_row_def] assms(3,4)], of "mem_id q"]
    assms(5,6) by (simp add: unchanged_row_def)

lemma same_memories_unchanged: "memories s1 = memories s \<Longrightarrow> unchanged_row r s1 = unchanged_row r s"
  by (simp add: unchanged_row_def memory_row_of_def)

lemma status_change_ok: "x \<in> set memory_statuses \<Longrightarrow> changes_ok (no_change\<lparr>ch_status := Some x\<rparr>)"
  by (simp add: changes_ok_def no_change_def task_status_ok_def)

lemma archive_kept:
  assumes ok: "store_ok s" and run: "archive_duplicates E r c did nt now s = Inr (ids, s1)"
  shows "store_ok s1 \<and> decisions s1 = decisions s \<and> memory_row_of (mem_id r) s1 = memory_row_of (mem_id r) s"
proof (cases "mc_key_version c \<in> set task_card_versions \<or> mc_type c \<noteq> ''task'' \<or> mc_task_status c \<noteq> Some ''done''")
  case True
  then show ?thesis using run ok by (simp add: archive_duplicates_def)
next
  case False
  let ?rs = "filter (task_instance_authorized E c)
    (newest_first mem_updated (filter (\<lambda>q. mem_space q = mem_space r \<and> mem_type q = ''task'' \<and>
       mem_status q = ''active'' \<and> mem_id q \<noteq> mem_id r) (memories s)))"
  have arch: "changes_ok (no_change\<lparr>ch_status := Some ''archived''\<rparr>)"
    by (rule status_change_ok) (simp add: memory_statuses_def)
  show ?thesis
  proof (rule for_each_kept [where I = "\<lambda>t. store_ok t \<and> decisions t = decisions s \<and>
          memory_row_of (mem_id r) t = memory_row_of (mem_id r) s" and key = mem_id
        and R = unchanged_row and rs = ?rs])
    show "for_each (\<lambda>r' s. tx_then (versioned_update_row E r' (no_change\<lparr>ch_status := Some ''archived''\<rparr>)
             ''duplicate_task_identity_reconciled'' (Some nt) now s) (\<lambda>_ s1.
          tx_then (add_relation_row E (mem_space r) (mem_id r) (mem_id r') ''supersedes''
             (Some did) now s1) (\<lambda>_ s2.
          tx_then (add_relation_row E (mem_space r) (mem_id r') (mem_id r) ''superseded_by''
             (Some did) now s2) (\<lambda>_ s3. Inr (mem_id r', s3))))) ?rs s = Inr (ids, s1)"
      using run False by (simp add: archive_duplicates_def)
    have "distinct (map mem_id (memories s))" using ok by (simp add: store_ok_def tables_ok_def)
    then show "distinct (map mem_id ?rs)"
      by (intro distinct_map_filter distinct_newest_first)
    show "unchanged_row q s" if "q \<in> set ?rs" for q
      using that row_of_self [OF ok] by (simp add: unchanged_row_def)
  next
    fix q t y t1
    assume q: "q \<in> set ?rs" and u: "unchanged_row q t"
      and t: "store_ok t \<and> decisions t = decisions s \<and> memory_row_of (mem_id r) t = memory_row_of (mem_id r) s"
      and step: "tx_then (versioned_update_row E q (no_change\<lparr>ch_status := Some ''archived''\<rparr>)
             ''duplicate_task_identity_reconciled'' (Some nt) now t) (\<lambda>_ s1.
          tx_then (add_relation_row E (mem_space r) (mem_id r) (mem_id q) ''supersedes''
             (Some did) now s1) (\<lambda>_ s2.
          tx_then (add_relation_row E (mem_space r) (mem_id q) (mem_id r) ''superseded_by''
             (Some did) now s2) (\<lambda>_ s3. Inr (mem_id q, s3)))) = Inr (y, t1)"
    from step obtain a b c' s1 s2 where
      1: "versioned_update_row E q (no_change\<lparr>ch_status := Some ''archived''\<rparr>)
        ''duplicate_task_identity_reconciled'' (Some nt) now t = Inr (a, s1)"
      and 2: "add_relation_row E (mem_space r) (mem_id r) (mem_id q) ''supersedes'' (Some did) now s1 = Inr (b, s2)"
      and 3: "add_relation_row E (mem_space r) (mem_id q) (mem_id r) ''superseded_by'' (Some did) now s2 = Inr (c', t1)"
      by auto
    note k1 = update_kept [OF conjunct1 [OF t] u [unfolded unchanged_row_def] arch 1]
    note k2 = relation_kept [OF 2] relation_kept [OF 3]
    have "unchanged_row p t1" if "mem_id p \<noteq> mem_id q" "unchanged_row p t" for p
      using update_keeps_others [OF conjunct1 [OF t] u arch 1 that(2,1)]
      by (simp add: same_memories_unchanged [OF k2(2)] same_memories_unchanged [OF k2(5)])
    moreover have "memory_row_of (mem_id r) t1 = memory_row_of (mem_id r) s"
      using row_of_upd [OF k1(2), of "mem_id r"] q t
      by (auto simp: memory_row_of_def k2(2,5))
    ultimately show "(store_ok t1 \<and> decisions t1 = decisions s \<and>
          memory_row_of (mem_id r) t1 = memory_row_of (mem_id r) s) \<and>
        (\<forall>p \<in> set ?rs. mem_id p \<noteq> mem_id q \<longrightarrow> unchanged_row p t \<longrightarrow> unchanged_row p t1)"
      using k1 k2 t by auto
  qed (use ok in simp_all)
qed

end
