(* ===== verification/Memory_Transactions.thy ===== *)
theory Memory_Transactions
  imports Memory_Preservation
begin

text \<open>
  What the memory store knows inside a transaction. \<open>safe Q r\<close>: a transaction that commits does so in
  a state with \<open>Q\<close>; the rules \<open>..._then\<close> carry what was read through the calls of the operation that
  applies a decision.
\<close>

definition safe :: "('a \<Rightarrow> memory_db \<Rightarrow> bool) \<Rightarrow> memory_error + ('a \<times> memory_db) \<Rightarrow> bool" where
  "safe Q r \<longleftrightarrow> (case r of Inl e \<Rightarrow> True | Inr (x, s) \<Rightarrow> Q x s)"

lemma safe_simps [simp]: "safe Q (Inl e)" "safe Q (Inr (x, s)) \<longleftrightarrow> Q x s"
  by (simp_all add: safe_def)

lemma safe_then: "safe P r \<Longrightarrow> (\<And>x s. P x s \<Longrightarrow> safe Q (f x s)) \<Longrightarrow> safe Q (tx_then r f)"
  by (cases r) (auto simp: safe_def tx_then_def)

lemma safe_iff: "safe Q r \<longleftrightarrow> (\<forall>x s. r = Inr (x, s) \<longrightarrow> Q x s)"
  by (cases r) (auto simp: safe_def)

lemma safe_mono: "safe P r \<Longrightarrow> (\<And>x s. P x s \<Longrightarrow> Q x s) \<Longrightarrow> safe Q r"
  by (auto simp: safe_iff)

text \<open>What is known inside a transaction: the decisions, and rows that are still as they were read\<close>

definition inside_tx :: "memory_row set \<Rightarrow> decision_row list \<Rightarrow> memory_db \<Rightarrow> bool" where
  "inside_tx K D s \<longleftrightarrow> store_ok s \<and> decisions s = D \<and> (\<forall>r \<in> K. unchanged_row r s)"

lemma inside_txD: "inside_tx K D s \<Longrightarrow> store_ok s" "inside_tx K D s \<Longrightarrow> decisions s = D"
  by (simp_all add: inside_tx_def)

lemma inside_tx_mono: "inside_tx K D s \<Longrightarrow> K' \<subseteq> K \<Longrightarrow> inside_tx K' D s"
  by (auto simp: inside_tx_def)

lemma source_safe: "inside_tx K D s \<Longrightarrow> safe (\<lambda>_. inside_tx K D) (add_source_row mid nt rel now s)"
  by (auto simp: safe_iff inside_tx_def source_kept same_memories_unchanged [OF source_kept(2)])

lemmas source_then = safe_then [OF source_safe]

lemma relation_safe: "inside_tx K D s \<Longrightarrow> safe (\<lambda>_. inside_tx K D) (add_relation_row E sid a b rel dec now s)"
  by (auto simp: safe_iff inside_tx_def relation_kept same_memories_unchanged [OF relation_kept(2)])

lemmas relation_then = safe_then [OF relation_safe]

lemma update_then:
  assumes "inside_tx K D s" "r \<in> K" "changes_ok ch"
    "\<And>b s1. inside_tx {q \<in> K. mem_id q \<noteq> mem_id r} D s1 \<Longrightarrow> safe Q (f b s1)"
  shows "safe Q (tx_then (versioned_update_row E r ch reason nt now s) f)"
proof (rule safe_then [of "\<lambda>_. inside_tx {q \<in> K. mem_id q \<noteq> mem_id r} D"])
  have ok: "store_ok s" and r: "unchanged_row r s" using assms(1,2) by (auto simp: inside_tx_def)
  show "safe (\<lambda>_. inside_tx {q \<in> K. mem_id q \<noteq> mem_id r} D) (versioned_update_row E r ch reason nt now s)"
    unfolding safe_iff
  proof (intro allI impI)
    fix u s1
    assume run: "versioned_update_row E r ch reason nt now s = Inr (u, s1)"
    show "inside_tx {q \<in> K. mem_id q \<noteq> mem_id r} D s1"
      using update_kept [OF ok r [unfolded unchanged_row_def] assms(3) run] assms(1)
        update_keeps_others [OF ok r assms(3) run]
      by (simp add: inside_tx_def)
  qed
qed (fact assms(4))

lemma insert_then:
  assumes "inside_tx K D s" "candidate_ok c"
    "\<And>mid s1. inside_tx K D s1 \<Longrightarrow> memory_row_of mid s = None \<Longrightarrow> safe Q (f mid s1)"
  shows "safe Q (tx_then (insert_memory_row E sid c nt rel st gid now s) f)"
proof (rule safe_then [of "\<lambda>mid s1. inside_tx K D s1 \<and> memory_row_of mid s = None"])
  have ok: "store_ok s" using assms(1) by (simp add: inside_tx_def)
  show "safe (\<lambda>mid s1. inside_tx K D s1 \<and> memory_row_of mid s = None)
      (insert_memory_row E sid c nt rel st gid now s)"
    unfolding safe_iff
  proof (intro allI impI)
    fix mid s1
    assume run: "insert_memory_row E sid c nt rel st gid now s = Inr (mid, s1)"
    note k = insert_kept [OF ok assms(2) run]
    have "unchanged_row r s1" if "unchanged_row r s" for r
      using that mem.lookup_append [of "mem_id r" "memories s"] by (simp add: unchanged_row_def memory_row_of_def k(2))
    then show "inside_tx K D s1 \<and> memory_row_of mid s = None"
      using k assms(1) by (simp add: inside_tx_def)
  qed
qed (use assms(3) in blast)

lemma archive_safe: "inside_tx K D s \<Longrightarrow> safe (\<lambda>_. inside_tx {} D) (archive_duplicates E r c did nt now s)"
  by (auto simp: safe_iff inside_tx_def dest: archive_kept)

lemmas archive_then = safe_then [OF archive_safe]

subsection \<open>Decisions\<close>

lemma no_change_fields [simp]:
  "ch_status no_change = None" "ch_task_status no_change = None"
  by (simp_all add: no_change_def)

lemma task_status_ok_None [simp]: "task_status_ok None"
  by (simp add: task_status_ok_def)

lemmas changes_simps = changes_ok_def memory_statuses_def

lemma act_insert_safe:
  "inside_tx K D s \<Longrightarrow> candidate_ok c \<Longrightarrow> safe (\<lambda>_. inside_tx {} D) (act_insert E sid nt c now R s)"
  unfolding act_insert_def by (erule insert_then, assumption) (auto intro: inside_tx_mono)

lemma act_pending_safe:
  "inside_tx K D s \<Longrightarrow> candidate_ok c \<Longrightarrow>
     safe (\<lambda>(ids, _) s1. inside_tx {} D s1 \<and> (\<forall>i \<in> set ids. memory_row_of i s = None))
       (act_pending E sid nt c d now R s)"
  unfolding act_pending_def by (erule insert_then, assumption) (auto intro: inside_tx_mono)

lemma act_add_source_safe:
  assumes "inside_tx {r} D s"
  shows "safe (\<lambda>_. inside_tx {} D) (act_add_source E nt c d r now R s)"
  unfolding act_add_source_def
proof (rule source_then [OF assms])
  fix b s1
  assume s1: "inside_tx {r} D s1"
  let ?f = "\<lambda>q. q\<lparr>mem_confidence := strengthened E (mem_confidence r) (mc_confidence c),
    mem_last_confirmed := Some now, mem_updated := now\<rparr>"
  let ?s2 = "s1\<lparr>memories := upd_where (\<lambda>q. mem_id q = mem_id r) ?f (memories s1)\<rparr>"
  have "keeps_content ?f" by (simp add: keeps_content_def)
  then have s2: "inside_tx {} D ?s2"
    using s1 tables_touch by (simp add: inside_tx_def store_ok_def)
  show "safe (\<lambda>_. inside_tx {} D) (tx_then (if b then archive_duplicates E r c (md_id d) nt now ?s2
      else Inr ([], s1)) (\<lambda>archived s2. Inr (([mem_id r], R\<lparr>ar_memory := Some (mem_id r),
        ar_source_added := Some b, ar_archived := archived\<rparr>), s2)))"
  proof (cases b)
    case True
    then show ?thesis by (simp only: if_True) (rule archive_then [OF s2], simp)
  next
    case False
    then show ?thesis using s1 by (auto intro: inside_tx_mono)
  qed
qed

lemma act_update_safe:
  assumes "inside_tx {r} D s"
  shows "safe (\<lambda>_. inside_tx {} D) (act_update E nt c d r action merged now R s)"
  unfolding act_update_def
  by (rule source_then [OF assms], erule update_then) (auto simp: changes_simps intro: inside_tx_mono)

lemma act_update_task_safe:
  assumes "inside_tx {r} D s"
  shows "safe (\<lambda>_. inside_tx {} D) (act_update_task E nt c d r now R s)"
  unfolding act_update_task_def
  by (rule source_then [OF assms], erule update_then, simp, simp add: changes_simps, erule archive_then) simp

lemma act_supersede_safe:
  assumes "inside_tx {r} D s" "candidate_ok c"
  shows "safe (\<lambda>_. inside_tx {} D) (act_supersede E sid nt c d r now R s)"
  unfolding act_supersede_def
  by (rule source_then [OF assms(1)], erule update_then, simp, simp add: changes_simps,
      erule insert_then, rule assms(2), erule relation_then, erule relation_then)
    (auto intro: inside_tx_mono)

lemma act_conflict_safe:
  assumes "inside_tx {r} D s" "candidate_ok c"
  shows "safe (\<lambda>_. inside_tx {} D) (act_conflict E sid nt c d r now R s)"
  unfolding act_conflict_def
  by (rule source_then [OF assms(1)], erule update_then, simp, simp add: changes_simps,
      erule insert_then, rule assms(2), erule relation_then, erule relation_then)
    (auto intro: inside_tx_mono)

lemma act_safe:
  assumes s: "inside_tx K D s" and c: "candidate_ok c" and K: "K = set_option target"
  shows "safe (\<lambda>(ids, _) s1. inside_tx {} D s1 \<and>
       (action = ''pending_review'' \<longrightarrow> (\<forall>i \<in> set ids. memory_row_of i s = None)))
     (act E sid nt c d dw action target merged now R s)"
proof -
  have weak: "safe (\<lambda>_. inside_tx {} D) r \<Longrightarrow> action \<noteq> ''pending_review'' \<Longrightarrow>
      safe (\<lambda>(ids, _) s1. inside_tx {} D s1 \<and>
       (action = ''pending_review'' \<longrightarrow> (\<forall>i \<in> set ids. memory_row_of i s = None))) r" for r
    by (erule safe_mono) auto
  show ?thesis
  proof (cases "action = ''pending_review''")
    case True
    then show ?thesis using act_pending_safe [OF s c] by (simp add: act_def)
  next
    case False
    show ?thesis
    proof (cases target)
      case None
      show ?thesis
      proof (rule weak [OF _ False])
        have "inside_tx {} D s" using s by (auto intro: inside_tx_mono)
        then show "safe (\<lambda>_. inside_tx {} D) (act E sid nt c d dw action target merged now R s)"
          by (simp add: act_def None False act_insert_safe [OF s c])
      qed
    next
      case (Some r)
      with K s have r: "inside_tx {r} D s" by simp
      show ?thesis
      proof (rule weak [OF _ False])
        have "inside_tx {} D s" using s by (auto intro: inside_tx_mono)
        then show "safe (\<lambda>_. inside_tx {} D) (act E sid nt c d dw action target merged now R s)"
          by (simp add: act_def Some False act_insert_safe [OF s c] act_add_source_safe [OF r]
              act_update_safe [OF r] act_update_task_safe [OF r] act_supersede_safe [OF r c]
              act_conflict_safe [OF r c])
      qed
    qed
  qed
qed

lemma store_ok_decisions:
  "store_ok s \<Longrightarrow> (\<forall>q \<in> set D. decision_row_ok q \<and> waiting_ok q) \<Longrightarrow> store_ok (s\<lparr>decisions := D\<rparr>)"
  by (simp add: store_ok_def)

lemma decision_recorded:
  assumes "store_ok s" "decision_ok d" "st \<in> {''applied'', ''pending_review'', ''failed''}"
    "st = ''pending_review'' \<Longrightarrow> target_id d \<notin> Some ` set results"
    "insert_decision_row sid nt d st results err now s = Inr (u, s1)"
  shows "store_ok s1"
proof -
  define q where "q = \<lparr>dcs_decision = d, dcs_space = sid, dcs_note = nt, dcs_status = st,
    dcs_results = results, dcs_error = err, dcs_created = now,
    dcs_applied = (if st = ''applied'' then Some now else None)\<rparr>"
  have s1: "s1 = s\<lparr>decisions := decisions s1\<rparr>"
    and D: "set (decisions s1) \<subseteq> insert q (set (decisions s))"
    using assms(5) by (auto simp: insert_decision_row_def q_def split: if_splits)
  have "decision_row_ok q \<and> waiting_ok q"
    using assms(2-4) by (auto simp: q_def decision_row_ok_def waiting_ok_def)
  moreover have "\<forall>p \<in> set (decisions s). decision_row_ok p \<and> waiting_ok p"
    using assms(1) by (simp add: store_ok_def)
  ultimately have "\<forall>p \<in> set (decisions s1). decision_row_ok p \<and> waiting_ok p"
    using D by blast
  then show ?thesis
    using store_ok_decisions [OF assms(1)] by (subst s1)
qed

lemma revise_ok: "decision_ok d \<Longrightarrow> decision_ok (revise E c d target)"
  by (auto simp: revise_def decision_ok_def decision_relations_def decision_actions_def split: option.splits)

lemma revise_targets [simp]: "target_id (revise E c d target) = target_id d" "md_id (revise E c d target) = md_id d"
    "md_candidate_id (revise E c d target) = md_candidate_id d" "md_confidence (revise E c d target) = md_confidence d"
  by (auto simp: revise_def target_id_def split: option.splits)

lemma apply_body_safe:
  assumes ok: "store_ok s" and c: "candidate_ok c" and d: "decision_ok d"
  shows "safe (\<lambda>_. store_ok) (apply_body E sid nt c d merged now s)"
proof (cases "prior_decision (mc_id c) s")
  case (Some q)
  then show ?thesis using ok by (simp add: apply_body_def)
next
  case None
  define target where "target = (case target_id d of None \<Rightarrow> None | Some t \<Rightarrow> memory_row_of t s)"
  let ?dw = "revise E c d target"
  let ?action = "decided_action c ?dw target"
  have known: "inside_tx (set_option target) (decisions s) s"
    using ok row_of_mem by (auto simp: inside_tx_def unchanged_row_def target_def split: option.splits)
  have act: "safe (\<lambda>(ids, _) s1. inside_tx {} (decisions s) s1 \<and>
       (?action = ''pending_review'' \<longrightarrow> (\<forall>i \<in> set ids. memory_row_of i s = None)))
     (act E sid nt c d ?dw ?action target merged now (decided_result E c d ?dw target) s)"
    by (rule act_safe [OF known c]) simp
  have found: "safe (\<lambda>_. store_ok) (tx_then
      (act E sid nt c d ?dw ?action target merged now (decided_result E c d ?dw target) s)
      (\<lambda>(results, R) s1. tx_then (insert_decision_row sid nt ?dw
         (if ?action = ''pending_review'' then ''pending_review'' else ''applied'') results None now s1)
         (\<lambda>_ s2. Inr (R, s2))))" if t: "target_id d = None \<or> target \<noteq> None"
  proof (rule safe_then [OF act])
    fix x s1
    assume a: "(case x of (ids, R) \<Rightarrow> \<lambda>s1. inside_tx {} (decisions s) s1 \<and>
       (?action = ''pending_review'' \<longrightarrow> (\<forall>i \<in> set ids. memory_row_of i s = None))) s1"
    obtain ids R where x: "x = (ids, R)" by fastforce
    have s1: "store_ok s1" using a by (simp add: x inside_tx_def)
    have fresh: "target_id ?dw \<notin> Some ` set ids" if "?action = ''pending_review''"
      using a that t by (auto simp: x target_def)
    show "safe (\<lambda>_. store_ok) ((case x of (results, R) \<Rightarrow> \<lambda>s1. tx_then (insert_decision_row sid nt ?dw
         (if ?action = ''pending_review'' then ''pending_review'' else ''applied'') results None now s1)
         (\<lambda>_ s2. Inr (R, s2))) s1)"
      using decision_recorded [OF s1 revise_ok [OF d, of E c target], of "if ?action = ''pending_review'' then ''pending_review'' else ''applied''" ids]
        fresh by (auto simp: x safe_iff split: if_splits)
  qed
  show ?thesis
    using None found unfolding apply_body_def by (auto simp: Let_def target_def [symmetric] split: option.splits)
qed

end
