(* ===== verification/Memory_Histories.thy ===== *)
theory Memory_Histories
  imports Memory_Transactions
begin

text \<open>
  Histories of calls of the memory store: every public operation keeps \<open>store_ok\<close>, and so does a
  sequence of calls.
\<close>

subsection \<open>The public operations\<close>

lemma run_write_kept:
  assumes "store_ok s" "safe (\<lambda>_. store_ok) (op s)"
  shows "store_ok (snd (run_write E name op s))"
  by (rule run_write_cases [of E name op s]) (use assms in \<open>auto simp: safe_def\<close>)

lemma write_once_kept:
  assumes "store_ok s" "safe (\<lambda>_. store_ok) (op s)"
  shows "store_ok (snd (write_once E name op s))"
  by (rule write_once_cases [of E name op s]) (use assms in \<open>auto simp: safe_def\<close>)

lemma kept_case:
  "store_ok (snd r) \<Longrightarrow> (\<And>x s1. store_ok s1 \<Longrightarrow> store_ok (snd (f x s1))) \<Longrightarrow>
     store_ok (snd (case r of (x, s1) \<Rightarrow> f x s1))"
  by (cases r) auto

lemma apply_kept:
  assumes "store_ok s" "candidate_ok c" "decision_ok d"
  shows "store_ok (snd (apply_memory_decision E sid nt c d merged now s))"
proof -
  have "store_ok (snd (run_write E ''record_failure''
      (insert_decision_row sid nt d ''failed'' [] err (iso E now)) t))" if "store_ok t" for t err
    using that decision_recorded [OF that assms(3), of "''failed''" "[]"]
    by (intro run_write_kept) (auto simp: safe_iff)
  then show ?thesis
    unfolding apply_memory_decision_def
    by (intro kept_case run_write_kept assms apply_body_safe) (auto split: sum.splits)
qed

lemma source_public_kept: "store_ok s \<Longrightarrow> store_ok (snd (add_source E mid nt rel now s))"
  unfolding add_source_def by (rule run_write_kept) (auto simp: safe_iff dest: source_kept)

lemma relation_public_kept: "store_ok s \<Longrightarrow> store_ok (snd (add_memory_relation E sid a b rel dec now s))"
  unfolding add_memory_relation_def by (rule run_write_kept) (auto simp: safe_iff dest: relation_kept)

lemma store_ok_id_pos: "store_ok s \<Longrightarrow> store_ok (s\<lparr>id_pos := n\<rparr>)"
  by (simp add: store_ok_def)

lemma insert_public_kept:
  assumes "store_ok s" "candidate_ok c"
  shows "store_ok (snd (insert_memory E sid c nt rel st now s))"
proof -
  have "store_ok (snd (run_write E ''insert_memory'' (insert_memory_row E sid c nt rel st (Some mid) (iso E now))
      (s\<lparr>id_pos := n\<rparr>)))" for mid n
    using store_ok_id_pos [OF assms(1)]
    by (rule run_write_kept) (auto simp: safe_iff dest: insert_kept [OF store_ok_id_pos [OF assms(1)] assms(2)])
  then show ?thesis using assms(1)
    unfolding insert_memory_def draw_id_def Let_def prod.case
    by (cases "st \<in> set memory_statuses") (auto intro!: kept_case split: sum.splits option.splits)
qed

lemma update_body_safe:
  assumes ok: "store_ok s" and ts: "task_status_ok (ch_task_status ch)"
  shows "safe (\<lambda>_. store_ok) (update_memory_body E mid ch reason nt now s)"
proof (cases "memory_row_of mid s")
  case None
  then show ?thesis using ok by (simp add: update_memory_body_def)
next
  case (Some r)
  then have r: "memory_row_of (mem_id r) s = Some r" using row_of_mem by auto
  let ?ch = "no_change\<lparr>ch_content := ch_content ch, ch_status := ch_status ch,
    ch_task_status := ch_task_status ch, ch_valid_until := ch_valid_until ch,
    ch_confidence := ch_confidence ch, ch_importance := ch_importance ch, ch_confirmed := ch_confirmed ch\<rparr>"
  let ?r = "(changed_row E ?ch now r)\<lparr>mem_key := key_after_update E r (given (ch_content ch) (mem_content r))\<rparr>"
  have rowok: "memory_row_ok ?r" if "given (ch_status ch) (mem_status r) \<in> set memory_statuses"
  proof -
    have "memory_row_ok r" by (rule row_ok [OF ok Some])
    then show ?thesis
      using that ts by (auto simp: memory_row_ok_def changed_row_def current_version_def no_change_def
          intro: task_status_ok_given)
  qed
  have "safe (\<lambda>_. store_ok) (tx_then (update_row ?r s) (\<lambda>_ s1.
      tx_then (add_version E (version_of_row ?r reason nt now) s1) (\<lambda>_ s2. Inr (True, s2))))"
    if "given (ch_status ch) (mem_status r) \<in> set memory_statuses"
    using replace_kept(1) [OF ok r, of ?r] rowok [OF that] row_ok [OF ok Some]
    by (auto simp: safe_iff changed_row_version)
  then show ?thesis using Some by (simp add: update_memory_body_def Let_def)
qed

lemma update_public_kept:
  assumes "store_ok s" "task_status_ok (ch_task_status ch)"
  shows "store_ok (snd (update_memory E mid ch reason nt now s))"
  unfolding update_memory_def
  by (intro kept_case run_write_kept update_body_safe assms) (auto split: sum.splits bool.splits)

lemma expire_kept:
  assumes ok: "store_ok s"
  shows "store_ok (snd (expire_due_memories E sid limit now s))"
  unfolding expire_due_memories_def
proof (rule run_write_kept [OF ok])
  let ?rs = "due_memories E sid limit (iso E now) s"
  have ch: "changes_ok (no_change\<lparr>ch_status := Some ''expired''\<rparr>)" by (simp add: changes_simps)
  have "set ?rs \<subseteq> set (memories s)"
    by (auto simp: due_memories_def dest!: in_set_takeD)
  then have rows: "unchanged_row q s" if "q \<in> set ?rs" for q
    using that row_of_self [OF ok] by (auto simp: unchanged_row_def)
  have "distinct (map mem_id (memories s))" using ok by (simp add: store_ok_def tables_ok_def)
  then have "distinct (map mem_id ?rs)"
    unfolding due_memories_def
    by (subst take_map [symmetric], intro distinct_take) (simp add: distinct_map distinct_filter inj_on_def)
  then have "store_ok s1" if "for_each (\<lambda>r. versioned_update_row E r (no_change\<lparr>ch_status := Some ''expired''\<rparr>)
       ''valid_until_reached'' None (iso E now)) ?rs s = Inr (ys, s1)" for ys s1
  proof (rule for_each_kept [where I = store_ok and R = unchanged_row, OF that ok])
    fix q t y t1
    assume t: "store_ok t" and q: "unchanged_row q t"
      and run: "versioned_update_row E q (no_change\<lparr>ch_status := Some ''expired''\<rparr>)
        ''valid_until_reached'' None (iso E now) t = Inr (y, t1)"
    show "store_ok t1 \<and> (\<forall>p \<in> set ?rs. mem_id p \<noteq> mem_id q \<longrightarrow> unchanged_row p t \<longrightarrow> unchanged_row p t1)"
      using update_kept(1) [OF t q [unfolded unchanged_row_def] ch run]
        update_keeps_others [OF t q ch run] by blast
  qed (fact rows)
  then show "safe (\<lambda>_. store_ok) (let rows = ?rs in
       tx_then (for_each (\<lambda>r. versioned_update_row E r (no_change\<lparr>ch_status := Some ''expired''\<rparr>)
           ''valid_until_reached'' None (iso E now)) rows s) (\<lambda>_ s1. Inr (length rows, s1)))"
    by (auto simp: safe_iff Let_def)
qed

lemma access_kept: "store_ok s \<Longrightarrow> store_ok (snd (mark_accessed E ids now s))"
proof -
  let ?f = "\<lambda>r. r\<lparr>mem_last_accessed := Some (iso E now), mem_access_count := mem_access_count r + 1\<rparr>"
  have "tables_ok M V \<Longrightarrow> tables_ok (fold (\<lambda>i. upd_where (\<lambda>r. mem_id r = i) ?f) ids M) V" for M V
  proof (induction ids arbitrary: M)
    case (Cons i ids)
    have "tables_ok (upd_where (\<lambda>r. mem_id r = i) ?f M) V"
      using Cons.prems by (rule tables_touch) (simp add: keeps_content_def)
    then show ?case by (simp add: Cons.IH)
  qed simp
  then show "store_ok s \<Longrightarrow> store_ok (snd (mark_accessed E ids now s))"
    unfolding mark_accessed_def by (cases "ids = []") (simp, simp, rule run_write_kept, simp_all add: store_ok_def)
qed

lemma purge_kept: "store_ok s \<Longrightarrow> store_ok (snd (purge_memory E mid s))"
  unfolding purge_memory_def by (rule run_write_kept) (auto simp: store_ok_def intro: tables_purge)

subsection \<open>Reviews\<close>

lemma sources_then:
  assumes "inside_tx K D s" "\<And>bs s1. inside_tx K D s1 \<Longrightarrow> safe Q (f bs s1)"
  shows "safe Q (tx_then (for_each (\<lambda>n. add_source_row mid n rel now) ns s) f)"
proof -
  have "safe (\<lambda>_. inside_tx K D) (for_each (\<lambda>n. add_source_row mid n rel now) ns s)"
    using assms(1)
  proof (induction ns arbitrary: s)
    case (Cons n ns)
    show ?case
      unfolding for_each.simps
      by (rule source_then [OF Cons.prems], rule safe_then, erule Cons.IH) simp
  qed simp
  then show ?thesis by (rule safe_then) (fact assms(2))
qed

lemma waiting_mem: "latest_waiting mid s = Some q \<Longrightarrow> q \<in> set (decisions s) \<and>
    dcs_status q = ''pending_review'' \<and> mid \<in> set (dcs_results q)"
proof -
  assume "latest_waiting mid s = Some q"
  then have "q \<in> set (rev (sort_key dcs_created (waiting_decisions mid s)))"
    by (cases "rev (sort_key dcs_created (waiting_decisions mid s))") (auto simp: latest_waiting_def)
  then show ?thesis by (auto simp: waiting_decisions_def)
qed

text \<open>In each case the target is changed first, then the waiting memory.\<close>

lemma approve_merge_safe:
  assumes "inside_tx {p, t} D s" "mem_id p \<noteq> mem_id t"
  shows "safe (\<lambda>_. inside_tx {} D) (approve_merge E p t ns nt did now s)"
  unfolding approve_merge_def
  by (rule sources_then [OF assms(1)], erule update_then, simp, simp add: changes_simps,
      erule update_then, simp add: assms(2), simp add: changes_simps, erule relation_then)
    (auto intro: inside_tx_mono)

lemma approve_update_task_safe:
  assumes "inside_tx {p, t} D s" "mem_id p \<noteq> mem_id t" "task_status_ok (mem_task_status p)"
  shows "safe (\<lambda>_. inside_tx {} D) (approve_update_task E p t ns nt now s)"
  unfolding approve_update_task_def
  by (rule sources_then [OF assms(1)], erule update_then, simp, simp add: changes_simps assms(3),
      erule update_then, simp add: assms(2), simp add: changes_simps)
    (auto intro: inside_tx_mono)

lemma approve_supersede_safe:
  assumes "inside_tx {p, t} D s" "mem_id p \<noteq> mem_id t"
  shows "safe (\<lambda>_. inside_tx {} D) (approve_supersede E p t nt did now s)"
  unfolding approve_supersede_def
  by (rule source_then [OF assms(1)], erule update_then, simp, simp add: changes_simps,
      erule update_then, simp add: assms(2), simp add: changes_simps, erule relation_then, erule relation_then)
    (auto intro: inside_tx_mono)

lemma approve_conflict_safe:
  assumes "inside_tx {p, t} D s" "mem_id p \<noteq> mem_id t"
  shows "safe (\<lambda>_. inside_tx {} D) (approve_conflict E p t nt did now s)"
  unfolding approve_conflict_def
  by (rule source_then [OF assms(1)], erule update_then, simp, simp add: changes_simps,
      erule update_then, simp add: assms(2), simp add: changes_simps, erule relation_then, erule relation_then)
    (auto intro: inside_tx_mono)

lemma approve_new_safe:
  assumes "inside_tx {p} D s"
  shows "safe (\<lambda>_. inside_tx {} D) (approve_new E p nt now s)"
  unfolding approve_new_def
  by (rule update_then [OF assms]) (auto simp: changes_simps intro: inside_tx_mono)

lemma approve_act_safe:
  assumes s: "inside_tx (insert p (set_option target)) D s" and p: "memory_row_ok p"
    and ne: "\<And>t. target = Some t \<Longrightarrow> mem_id p \<noteq> mem_id t"
  shows "safe (\<lambda>_. inside_tx {} D) (approve_act E relation p target ns nt did now s)"
proof -
  have one: "inside_tx {p} D s" using s by (auto intro: inside_tx_mono)
  show ?thesis
  proof (cases target)
    case None
    then show ?thesis by (simp add: approve_act_def approve_new_safe [OF one])
  next
    case (Some t)
    with s ne have t: "inside_tx {p, t} D s" "mem_id p \<noteq> mem_id t" by simp_all
    have "task_status_ok (mem_task_status p)" using p by (simp add: memory_row_ok_def)
    then show ?thesis
      by (simp add: approve_act_def Some approve_new_safe [OF one] approve_merge_safe [OF t]
          approve_update_task_safe [OF t] approve_supersede_safe [OF t] approve_conflict_safe [OF t])
  qed
qed

lemma approve_relations:
  "approve_act E relation p target ns nt did now s = Inr x \<Longrightarrow>
     relation \<in> {''new'', ''merge'', ''update_task'', ''supersede'', ''conflict''}"
  by (auto simp: approve_act_def split: option.splits if_splits)

lemma store_ok_map_decisions:
  assumes "store_ok s" "\<And>q. q \<in> set (decisions s) \<Longrightarrow> decision_row_ok q \<Longrightarrow> waiting_ok q \<Longrightarrow> P q \<Longrightarrow>
      decision_row_ok (f q) \<and> waiting_ok (f q)"
  shows "store_ok (s\<lparr>decisions := upd_where P f (decisions s)\<rparr>)"
  using assms by (intro store_ok_decisions) (auto simp: store_ok_def ball_upd_where)

lemma approve_body_safe:
  assumes ok: "store_ok s"
  shows "safe (\<lambda>_. store_ok) (approve_body E mid now s)"
proof (cases "\<exists>p q. memory_row_of mid s = Some p \<and> mem_status p = ''pending_review'' \<and> latest_waiting mid s = Some q")
  case False
  then show ?thesis using ok by (auto simp: approve_body_def split: option.splits)
next
  case True
  then obtain p q where p: "memory_row_of mid s = Some p" "mem_status p = ''pending_review''"
    and q: "latest_waiting mid s = Some q" by blast
  let ?d = "dcs_decision q"
  define target where "target = (case target_id ?d of None \<Rightarrow> None | Some i \<Rightarrow> memory_row_of i s)"
  define ns where "ns = map src_note (filter (\<lambda>r. src_memory r = mid) (sources s))"
  define nt where "nt = (case ns of [] \<Rightarrow> dcs_note q | n # _ \<Rightarrow> n)"
  note w = waiting_mem [OF q]
  have "waiting_ok q" using ok w by (simp add: store_ok_def)
  with w have clear: "target_id ?d \<noteq> Some mid" by (auto simp: waiting_ok_def)
  have ids: "mem_id p = mid" using row_of_mem [OF p(1)] by simp
  have known: "inside_tx (insert p (set_option target)) (decisions s) s"
    using ok p row_of_mem by (auto simp: inside_tx_def unchanged_row_def target_def ids split: option.splits)
  have ne: "mem_id p \<noteq> mem_id t" if "target = Some t" for t
    using that clear row_of_mem by (auto simp: ids target_def split: option.splits)
  have act: "safe (\<lambda>_. store_ok) (tx_then (approve_act E (md_relation ?d) p target ns nt (md_id ?d) now s)
      (\<lambda>(result, results) s1. Inr (Some result, s1\<lparr>decisions := upd_where (\<lambda>x. md_id (dcs_decision x) = md_id ?d)
         (approved_row (md_relation ?d) results now) (decisions s1)\<rparr>)))"
    unfolding safe_iff
  proof (intro allI impI, clarsimp)
    fix result results s1
    assume run: "approve_act E (md_relation ?d) p target ns nt (md_id ?d) now s = Inr ((result, results), s1)"
    have s1: "store_ok s1"
      using approve_act_safe [OF known row_ok [OF ok p(1)] ne, of E "md_relation ?d" ns nt "md_id ?d" now] run
      by (simp add: inside_tx_def)
    from approve_relations [OF run] show "store_ok (s1\<lparr>decisions :=
        upd_where (\<lambda>x. md_id (dcs_decision x) = md_id ?d) (approved_row (md_relation ?d) results now) (decisions s1)\<rparr>)"
      by (intro store_ok_map_decisions [OF s1])
         (auto simp: decision_row_ok_def decision_ok_def waiting_ok_def approved_row_def decision_actions_def)
  qed
  show ?thesis
    using p q act unfolding approve_body_def
    by (auto simp: Let_def target_def [symmetric] ns_def [symmetric] nt_def [symmetric])
qed

lemma approve_public_kept: "store_ok s \<Longrightarrow> store_ok (snd (approve_pending_memory E mid now s))"
  unfolding approve_pending_memory_def
  by (intro kept_case run_write_kept approve_body_safe) (auto split: sum.splits option.splits)

lemma candidates_updated:
  assumes "store_ok s" "\<And>r. candidate_ok (cdr_candidate r) \<Longrightarrow> candidate_ok (cdr_candidate (f r))"
  shows "store_ok (s\<lparr>candidates := upd_where P f (candidates s)\<rparr>)"
  using assms by (simp add: store_ok_def ball_upd_where)

lemma mark_candidate_kept: "store_ok s \<Longrightarrow> store_ok (snd (mark_memory_candidate E cid st err dec now s))"
  unfolding mark_memory_candidate_def
  by (auto intro!: run_write_kept candidates_updated simp: marked_candidate_def)

lemma reject_decisions_safe: "store_ok s \<Longrightarrow> safe (\<lambda>_. store_ok) (reject_decisions mid reason s)"
  by (auto simp: reject_decisions_def decision_row_ok_def waiting_ok_def intro!: store_ok_map_decisions
      split: option.splits)

lemma reject_kept:
  assumes ok: "store_ok s"
  shows "store_ok (snd (reject_pending_memory E mid reason now s))"
proof (cases "pending_row mid s")
  case None
  then show ?thesis using ok by (simp add: reject_pending_memory_def)
next
  case (Some p)
  have up: "store_ok (snd (update_memory E mid (no_change\<lparr>ch_status := Some ''archived''\<rparr>) (Some reason) None now s))"
    by (rule update_public_kept [OF ok]) simp
  have "store_ok (snd (case write_once E ''reject_pending_memory'' (reject_decisions mid reason) s1 of
                (Inl e, s2) \<Rightarrow> (Inl e, s2)
              | (Inr cid, s2) \<Rightarrow>
                  if cid \<in> {None, Some []} then (Inr updated, s2)
                  else (case mark_memory_candidate E (the cid) ''discarded'' (Some reason) None now s2 of
                      (Inl e, s3) \<Rightarrow> (Inl e, s3)
                    | (Inr _, s3) \<Rightarrow> (Inr updated, s3))))" if "store_ok s1"
    for s1 :: memory_db and updated :: "memory_row option"
  proof (rule kept_case, rule write_once_kept [OF that], rule reject_decisions_safe [OF that])
    fix x s2
    assume "store_ok s2"
    then show "store_ok (snd (case x of Inl e \<Rightarrow> (Inl e, s2)
              | Inr cid \<Rightarrow>
                  if cid \<in> {None, Some []} then (Inr updated, s2)
                  else (case mark_memory_candidate E (the cid) ''discarded'' (Some reason) None now s2 of
                      (Inl e, s3) \<Rightarrow> (Inl e, s3)
                    | (Inr _, s3) \<Rightarrow> (Inr updated, s3))))"
      using mark_candidate_kept [of s2 E _ "''discarded''" "Some reason" None now]
      by (cases x) (auto intro!: kept_case split: sum.splits)
  qed
  then show ?thesis
    unfolding reject_pending_memory_def Some option.case
    by (intro kept_case up) (auto split: sum.splits)
qed

lemma edit_decision_safe:
  assumes ok: "store_ok s" and next_ok: "task_status_ok next_status"
  shows "safe (\<lambda>_. store_ok) (edit_decision E mid content p next_status now s)"
proof -
  have cands: "store_ok t \<Longrightarrow> store_ok (t\<lparr>candidates := upd_where P
      (\<lambda>r. r\<lparr>cdr_candidate := (cdr_candidate r)\<lparr>mc_content := content, mc_task_status := next_status\<rparr>,
                  cdr_normalized := normalize_content E content, cdr_updated := now\<rparr>) (candidates t)\<rparr>)" for t P
    using next_ok by (intro candidates_updated) (auto simp: candidate_ok_def task_status_ok_def)
  have decs: "store_ok (s\<lparr>decisions := upd_where P
      (\<lambda>x. x\<lparr>dcs_decision := (dcs_decision x)\<lparr>md_relation := ''update_task'',
         md_action := ''update_task'', md_reason := rs, md_snapshot := v\<rparr>\<rparr>) (decisions s)\<rparr>)" for P rs v
    by (rule store_ok_map_decisions [OF ok])
       (auto simp: decision_row_ok_def decision_ok_def waiting_ok_def target_id_def decision_actions_def
         decision_relations_def)
  show ?thesis
    using cands [OF ok] cands [OF decs] ok
    by (auto simp: edit_decision_def Let_def split: option.splits)
qed

lemma infer_ok: "task_status_ok (infer_task_status t)"
  by (cases "infer_task_status t") (auto simp: task_status_ok_def dest: infer_task_status_values)

lemma infer_ok_Some: "infer_task_status t = Some y \<Longrightarrow> task_status_ok (Some y)"
  using infer_ok [of t] by simp

lemma edit_kept:
  assumes ok: "store_ok s"
  shows "store_ok (snd (edit_pending_memory E mid content now s))"
proof (cases "if py_strip content = [] then None else pending_row mid s")
  case None
  then show ?thesis using ok by (simp add: edit_pending_memory_def)
next
  case (Some p)
  let ?next = "if mem_type p = ''task'' then infer_task_status content else None"
  have next_ok: "task_status_ok ?next" by (simp add: infer_ok)
  have "store_ok (snd (case write_once E ''edit_pending_memory'' (edit_decision E mid content p ?next (iso E now)) s1 of
                (Inl e, s2) \<Rightarrow> (Inl e, s2)
              | (Inr _, s2) \<Rightarrow> approve_pending_memory E mid now s2))" if "store_ok s1" for s1
    by (rule kept_case, rule write_once_kept [OF that], rule edit_decision_safe [OF that next_ok])
       (auto split: sum.splits intro: approve_public_kept)
  then show ?thesis
    unfolding edit_pending_memory_def Some option.case Let_def
    by (intro kept_case update_public_kept ok) (auto split: sum.splits)
qed

lemma correct_kept:
  assumes ok: "store_ok s"
  shows "store_ok (snd (correct_memory E mid content st reason now s))"
proof (cases "memory_row_of mid s")
  case None
  then show ?thesis using ok by (simp add: correct_memory_def)
next
  case (Some r)
  have g: "task_status_ok g" if "validate_task_status st = Inr g" for g
    using that validate_task_status_values by (cases g) (auto simp: task_status_ok_def)
  show ?thesis
    using ok g
    by (auto simp: correct_memory_def Some Let_def infer_ok intro!: update_public_kept
        intro: infer_ok_Some split: sum.splits)
qed

lemma resolve_kept: "store_ok s \<Longrightarrow> store_ok (snd (resolve_memory_conflict E mid resolution content now s))"
  by (auto simp: resolve_memory_conflict_def intro!: update_public_kept)

lemma soft_delete_kept: "store_ok s \<Longrightarrow> store_ok (snd (soft_delete_memory E mid reason now s))"
  by (auto simp: soft_delete_memory_def intro!: update_public_kept)

subsection \<open>Bookkeeping\<close>

lemma save_candidate_kept:
  assumes ok: "store_ok s" and c: "candidate_ok c"
  shows "store_ok (snd (save_memory_candidate E c sid st err dec now s))"
proof -
  have "store_ok (s\<lparr>candidates := (if candidate_row_of (mc_id c) s = None
          then candidates s @ [new_candidate_row E c sid st err dec (iso E now)]
          else upd_where (\<lambda>r. mc_id (cdr_candidate r) = mc_id c)
            (\<lambda>r. r\<lparr>cdr_updated := iso E now, cdr_error := given_opt err (cdr_error r),
              cdr_decision := given_opt dec (cdr_decision r)\<rparr>) (candidates s))\<rparr>)"
    using ok c by (auto simp: store_ok_def new_candidate_row_def ball_upd_where)
  then show ?thesis
    unfolding save_memory_candidate_def
    by (intro kept_case run_write_kept ok) (auto split: sum.splits option.splits)
qed

lemma extraction_kept:
  assumes ok: "store_ok s"
  shows "store_ok (snd (mark_extraction_state E nid sid st found n err retry now s))"
proof (cases "st \<in> set extraction_statuses")
  case True
  have row: "extraction_row_ok (extraction_after nid sid st found n err retry t (extraction_row_of nid s))" for t
    using True ok find_SomeD
    by (fastforce simp: extraction_row_ok_def extraction_after_def Let_def store_ok_def extraction_row_of_def
        split: option.splits)
  then have "store_ok (s\<lparr>extraction_states := (if extraction_row_of nid s = None
      then extraction_states s @ [extraction_after nid sid st found n err retry t (extraction_row_of nid s)]
      else upd_where (\<lambda>q. ext_note q = nid)
        (\<lambda>_. extraction_after nid sid st found n err retry t (extraction_row_of nid s)) (extraction_states s))\<rparr>)" for t
    using ok by (auto simp: store_ok_def ball_upd_where)
  then show ?thesis
    using True unfolding mark_extraction_state_def
    by (simp, intro kept_case run_write_kept ok) (auto simp: Let_def split: sum.splits option.splits)
qed (use ok in \<open>simp add: mark_extraction_state_def\<close>)

lemma reserve_body_safe:
  assumes ok: "store_ok s"
  shows "safe (\<lambda>_. store_ok) (reserve_body E sid cadence period now s)"
proof -
  have "run_row_ok (fresh_run rid sid cadence period t)" for rid t
    by (simp add: run_row_ok_def fresh_run_def)
  then show ?thesis
    using ok by (auto simp: reserve_body_def Let_def draw_id_def store_ok_def ball_upd_where)
qed

lemma reserve_kept: "store_ok s \<Longrightarrow> store_ok (snd (reserve_consolidation_run E sid cadence period now s))"
  unfolding reserve_consolidation_run_def
  by (intro kept_case run_write_kept reserve_body_safe) (auto split: sum.splits option.splits)

lemma run_completed_kept: "store_ok s \<Longrightarrow> store_ok (snd (mark_consolidation_completed E rid result now s))"
  unfolding mark_consolidation_completed_def
  by (rule run_write_kept) (auto simp: store_ok_def ball_upd_where run_row_ok_def)

lemma run_failed_kept: "store_ok s \<Longrightarrow> store_ok (snd (mark_consolidation_failed E rid err now s))"
  unfolding mark_consolidation_failed_def
  by (rule run_write_kept) (auto simp: store_ok_def ball_upd_where run_row_ok_def)

subsection \<open>Histories\<close>

text \<open>
  The calls the program makes. \<open>SetStatus\<close> stands for its direct calls of \<open>update_memory\<close>
  (\<open>memory/consolidator.py\<close>, \<open>lifecycle.py\<close>, \<open>preference_migration.py\<close>), which set the status and at
  most the end of the validity. Candidates and decisions are built first, which may raise.
\<close>

datatype memory_call =
    Apply string string mem_candidate mem_decision "string option"
  | InsertMemory string mem_candidate string string string
  | AddSource string string string
  | SetStatus string string "string option" string
  | SoftDelete string string
  | Purge string
  | Correct string string "string option" string
  | Approve string
  | Reject string string
  | Edit string string
  | Resolve string string "string option"
  | Expire "string option" int
  | Access "string list"
  | Relate string string string string "string option"
  | SaveCandidate mem_candidate string string "string option" "string option"
  | MarkCandidate string string "string option" "string option"
  | MarkExtraction string string string int int "string option" bool
  | Reserve string string string
  | RunCompleted string payload
  | RunFailed string string

fun memory_step :: "memory_env \<Rightarrow> time \<Rightarrow> memory_call \<Rightarrow> memory_db \<Rightarrow> memory_db" where
  "memory_step E now (Apply sid note c d merged) s =
     (case make_candidate c of Inl e \<Rightarrow> s | Inr c \<Rightarrow>
        (case make_decision d of Inl e \<Rightarrow> s | Inr d \<Rightarrow>
           snd (apply_memory_decision E sid note c d merged now s)))"
| "memory_step E now (InsertMemory sid c note rel st) s =
     (case make_candidate c of Inl e \<Rightarrow> s | Inr c \<Rightarrow> snd (insert_memory E sid c note rel st now s))"
| "memory_step E now (AddSource mid note rel) s = snd (add_source E mid note rel now s)"
| "memory_step E now (SetStatus mid st until reason) s =
     snd (update_memory E mid (no_change\<lparr>ch_status := Some st, ch_valid_until := until\<rparr>) (Some reason) None now s)"
| "memory_step E now (SoftDelete mid reason) s = snd (soft_delete_memory E mid reason now s)"
| "memory_step E now (Purge mid) s = snd (purge_memory E mid s)"
| "memory_step E now (Correct mid content st reason) s = snd (correct_memory E mid content st reason now s)"
| "memory_step E now (Approve mid) s = snd (approve_pending_memory E mid now s)"
| "memory_step E now (Reject mid reason) s = snd (reject_pending_memory E mid reason now s)"
| "memory_step E now (Edit mid content) s = snd (edit_pending_memory E mid content now s)"
| "memory_step E now (Resolve mid resolution content) s =
     snd (resolve_memory_conflict E mid resolution content now s)"
| "memory_step E now (Expire sid limit) s = snd (expire_due_memories E sid limit now s)"
| "memory_step E now (Access ids) s = snd (mark_accessed E ids now s)"
| "memory_step E now (Relate sid a b rel dec) s = snd (add_memory_relation E sid a b rel dec now s)"
| "memory_step E now (SaveCandidate c sid st err dec) s =
     (case make_candidate c of Inl e \<Rightarrow> s | Inr c \<Rightarrow> snd (save_memory_candidate E c sid st err dec now s))"
| "memory_step E now (MarkCandidate cid st err dec) s = snd (mark_memory_candidate E cid st err dec now s)"
| "memory_step E now (MarkExtraction nid sid st found n err retry) s =
     snd (mark_extraction_state E nid sid st found n err retry now s)"
| "memory_step E now (Reserve sid cadence period) s = snd (reserve_consolidation_run E sid cadence period now s)"
| "memory_step E now (RunCompleted rid result) s = snd (mark_consolidation_completed E rid result now s)"
| "memory_step E now (RunFailed rid err) s = snd (mark_consolidation_failed E rid err now s)"

fun memory_run :: "memory_env \<Rightarrow> (time \<times> memory_call) list \<Rightarrow> memory_db \<Rightarrow> memory_db" where
  "memory_run E [] s = s"
| "memory_run E ((now, call) # calls) s = memory_run E calls (memory_step E now call s)"

lemma memory_step_kept:
  assumes "store_ok s"
  shows "store_ok (memory_step E now call s)"
  using assms
  by (cases call)
     (auto simp: make_candidate_ok make_decision_ok
       intro: apply_kept insert_public_kept source_public_kept update_public_kept soft_delete_kept purge_kept
         correct_kept approve_public_kept reject_kept edit_kept resolve_kept expire_kept access_kept
         relation_public_kept save_candidate_kept mark_candidate_kept extraction_kept reserve_kept
         run_completed_kept run_failed_kept split: sum.splits)

lemma memory_run_kept: "store_ok s \<Longrightarrow> store_ok (memory_run E calls s)"
  by (induction E calls s rule: memory_run.induct) (simp_all add: memory_step_kept)

end
