(* ===== verification/Memory_Frame.thy ===== *)
theory Memory_Frame
  imports Memory_Histories
begin

text \<open>
  What no operation on memories touches: the interface of a part of the store that the columns of
  the memory tables do not enter, with the two parts the repository has.
\<close>

locale side_table =
  fixes view :: "memory_db \<Rightarrow> 'v"
  assumes view_memories [simp]: "view (s\<lparr>memories := m\<rparr>) = view s"
    and view_versions [simp]: "view (s\<lparr>versions := v\<rparr>) = view s"
    and view_version_sources [simp]: "view (s\<lparr>version_sources := w\<rparr>) = view s"
    and view_sources [simp]: "view (s\<lparr>sources := so\<rparr>) = view s"
    and view_relations [simp]: "view (s\<lparr>relations := rs\<rparr>) = view s"
    and view_decisions [simp]: "view (s\<lparr>decisions := ds\<rparr>) = view s"
    and view_candidates [simp]: "view (s\<lparr>candidates := cs\<rparr>) = view s"
    and view_vectors [simp]: "view (s\<lparr>vectors := vs\<rparr>) = view s"
    and view_id_pos [simp]: "view (s\<lparr>id_pos := n\<rparr>) = view s"
begin

lemma source_view: "view s = x \<Longrightarrow> safe (\<lambda>_ t. view t = x) (add_source_row mid nt rel now s)"
  by (auto simp: add_source_row_def safe_iff split: if_splits)

lemma relation_view: "view s = x \<Longrightarrow> safe (\<lambda>_ t. view t = x) (add_relation_row E sid a b rel dec now s)"
  by (auto simp: add_relation_row_def draw_id_def Let_def safe_iff split: if_splits)

lemma version_view: "view s = x \<Longrightarrow> safe (\<lambda>_ t. view t = x) (add_version E v s)"
  unfolding safe_iff
proof (intro allI impI)
  fix u t
  assume v: "view s = x" and "add_version E v s = Inr (u, t)"
  from add_version_shape [OF this(2)] obtain vid where
    t: "t = s\<lparr>versions := versions s @ [v\<lparr>ver_id := vid\<rparr>],
      version_sources := version_sources t, id_pos := id_pos t\<rparr>" by blast
  show "view t = x" by (subst t) (simp add: v)
qed

lemma row_view: "view s = x \<Longrightarrow> safe (\<lambda>_ t. view t = x) (update_row r s)"
  by (simp add: update_row_def)

lemma new_row_view: "view s = x \<Longrightarrow> safe (\<lambda>_ t. view t = x) (insert_row r s)"
  by (simp add: insert_row_def)

lemma update_view: "view s = x \<Longrightarrow> safe (\<lambda>_ t. view t = x) (versioned_update_row E r ch reason nt now s)"
  unfolding versioned_update_row_def Let_def
  by (rule safe_then [OF row_view], assumption, rule version_view)

lemma insert_view: "view s = x \<Longrightarrow> safe (\<lambda>_ t. view t = x) (insert_memory_row E sid c nt rel st gid now s)"
  by (auto simp: insert_memory_row_def draw_id_def Let_def split: option.splits
      intro!: safe_then [OF new_row_view] safe_then [OF source_view] safe_then [OF version_view])

lemma decision_view: "view s = x \<Longrightarrow> safe (\<lambda>_ t. view t = x) (insert_decision_row sid nt d st results err now s)"
  by (simp add: insert_decision_row_def)

lemma loop_view:
  "view s = x \<Longrightarrow> (\<And>r t. r \<in> set rs \<Longrightarrow> view t = x \<Longrightarrow> safe (\<lambda>_ t. view t = x) (f r t)) \<Longrightarrow>
     safe (\<lambda>_ t. view t = x) (for_each f rs s)"
proof (induction rs arbitrary: s)
  case (Cons r rs)
  show ?case
    unfolding for_each.simps
  proof (rule safe_then [OF Cons.prems(2)])
    fix y t
    assume t: "view t = x"
    show "safe (\<lambda>_ t. view t = x) (tx_then (for_each f rs t) (\<lambda>ys s2. Inr (y # ys, s2)))"
    proof (rule safe_then [OF Cons.IH [OF t]])
      show "safe (\<lambda>_ t. view t = x) (f r u)" if "r \<in> set rs" "view u = x" for r u
        by (rule Cons.prems(2)) (use that in simp_all)
    qed simp
  qed (simp_all add: Cons.prems(1))
qed simp

lemmas view_thens =
  safe_then [OF source_view] safe_then [OF relation_view] safe_then [OF update_view]
  safe_then [OF insert_view] safe_then [OF decision_view]

lemma archive_view: "view s = x \<Longrightarrow> safe (\<lambda>_ t. view t = x) (archive_duplicates E r c did nt now s)"
  unfolding archive_duplicates_def
  by (auto intro!: loop_view view_thens)

lemma add_action_view: "view s = x \<Longrightarrow> safe (\<lambda>_ t. view t = x) (act_add_source E nt c d r now R s)"
  unfolding act_add_source_def
  by (rule safe_then [OF source_view], assumption)
     (auto intro!: safe_then [OF archive_view])

lemma act_insert_view: "view s = x \<Longrightarrow> safe (\<lambda>_ t. view t = x) (act_insert E sid nt c now R s)"
  unfolding act_insert_def by ((rule view_thens, assumption)+, simp)

lemma act_pending_view: "view s = x \<Longrightarrow> safe (\<lambda>_ t. view t = x) (act_pending E sid nt c d now R s)"
  unfolding act_pending_def by ((rule view_thens, assumption)+, simp)

lemma act_update_view: "view s = x \<Longrightarrow> safe (\<lambda>_ t. view t = x) (act_update E nt c d r action merged now R s)"
  unfolding act_update_def by ((rule view_thens, assumption)+, simp)

lemma act_supersede_view: "view s = x \<Longrightarrow> safe (\<lambda>_ t. view t = x) (act_supersede E sid nt c d r now R s)"
  unfolding act_supersede_def by ((rule view_thens, assumption)+, simp)

lemma act_conflict_view: "view s = x \<Longrightarrow> safe (\<lambda>_ t. view t = x) (act_conflict E sid nt c d r now R s)"
  unfolding act_conflict_def by ((rule view_thens, assumption)+, simp)

lemma act_update_task_view: "view s = x \<Longrightarrow> safe (\<lambda>_ t. view t = x) (act_update_task E nt c d r now R s)"
  unfolding act_update_task_def
  by ((rule view_thens, assumption)+, rule safe_then [OF archive_view], assumption, simp)

lemma act_view: "view s = x \<Longrightarrow> safe (\<lambda>_ t. view t = x) (act E sid nt c d dw action target merged now R s)"
  by (cases target) (simp_all add: act_def act_insert_view act_pending_view add_action_view act_update_view
      act_update_task_view act_supersede_view act_conflict_view)

lemma apply_view: "view s = x \<Longrightarrow> safe (\<lambda>_ t. view t = x) (apply_body E sid nt c d merged now s)"
  unfolding apply_body_def
  by (auto simp: Let_def intro!: safe_then [OF act_view] view_thens split: option.splits)

lemma write_view:
  "view s = x \<Longrightarrow> safe (\<lambda>_ t. view t = x) (op s) \<Longrightarrow> view (snd (run_write E name op s)) = x"
  by (rule run_write_cases [of E name op s]) (auto simp: safe_def)

lemma once_view:
  "view s = x \<Longrightarrow> safe (\<lambda>_ t. view t = x) (op s) \<Longrightarrow> view (snd (write_once E name op s)) = x"
  by (rule write_once_cases [of E name op s]) (auto simp: safe_def)

lemma case_view:
  "view (snd r) = x \<Longrightarrow> (\<And>y t. view t = x \<Longrightarrow> view (snd (f y t)) = x) \<Longrightarrow>
     view (snd (case r of (y, t) \<Rightarrow> f y t)) = x"
  by (cases r) auto

lemma apply_public_view: "view s = x \<Longrightarrow> view (snd (apply_memory_decision E sid nt c d merged now s)) = x"
  unfolding apply_memory_decision_def
  by (intro case_view write_view apply_view) (auto intro!: write_view decision_view split: sum.splits)

lemma update_body_view: "view s = x \<Longrightarrow> safe (\<lambda>_ t. view t = x) (update_memory_body E mid ch reason nt now s)"
  unfolding update_memory_body_def Let_def
  by (cases "memory_row_of mid s") (auto intro!: safe_then [OF row_view] safe_then [OF version_view])

lemma update_public_view: "view s = x \<Longrightarrow> view (snd (update_memory E mid ch reason nt now s)) = x"
  unfolding update_memory_def
  by (intro case_view write_view update_body_view) (auto split: sum.splits bool.splits)

lemma insert_public_view: "view s = x \<Longrightarrow> view (snd (insert_memory E sid c nt rel st now s)) = x"
  unfolding insert_memory_def draw_id_def Let_def prod.case
  by (cases "st \<in> set memory_statuses")
     (auto intro!: case_view write_view insert_view split: sum.splits option.splits)

lemma expire_view: "view s = x \<Longrightarrow> view (snd (expire_due_memories E sid limit now s)) = x"
  unfolding expire_due_memories_def Let_def
  by (rule write_view, assumption, rule safe_then, rule loop_view, assumption, rule update_view) simp_all

lemma access_view: "view s = x \<Longrightarrow> view (snd (mark_accessed E ids now s)) = x"
  unfolding mark_accessed_def by (cases "ids = []") (simp, simp, rule write_view, simp_all)

lemma purge_view: "view s = x \<Longrightarrow> view (snd (purge_memory E mid s)) = x"
  unfolding purge_memory_def by (rule write_view) auto

lemma sources_view: "view s = x \<Longrightarrow> safe (\<lambda>_ t. view t = x) (for_each (\<lambda>n. add_source_row mid n rel now) ns s)"
  by (rule loop_view) (simp_all add: source_view)

lemmas review_thens = view_thens safe_then [OF sources_view]

lemma approve_act_view:
  "view s = x \<Longrightarrow> safe (\<lambda>_ t. view t = x) (approve_act E relation p target ns nt did now s)"
proof -
  assume v: "view s = x"
  have n: "safe (\<lambda>_ t. view t = x) (approve_new E p nt now s)"
    using v unfolding approve_new_def by - ((rule review_thens, assumption)+, simp)
  have m: "safe (\<lambda>_ t. view t = x) (approve_merge E p t ns nt did now s)" for t
    using v unfolding approve_merge_def by - ((rule review_thens, assumption)+, simp)
  have u: "safe (\<lambda>_ t. view t = x) (approve_update_task E p t ns nt now s)" for t
    using v unfolding approve_update_task_def by - ((rule review_thens, assumption)+, simp)
  have p: "safe (\<lambda>_ t. view t = x) (approve_supersede E p t nt did now s)" for t
    using v unfolding approve_supersede_def by - ((rule review_thens, assumption)+, simp)
  have c: "safe (\<lambda>_ t. view t = x) (approve_conflict E p t nt did now s)" for t
    using v unfolding approve_conflict_def by - ((rule review_thens, assumption)+, simp)
  show ?thesis by (cases target) (simp_all add: approve_act_def n m u p c)
qed

lemma approve_body_view: "view s = x \<Longrightarrow> safe (\<lambda>_ t. view t = x) (approve_body E mid now s)"
  unfolding approve_body_def Let_def
  by (auto intro!: safe_then [OF approve_act_view] split: option.splits)

lemma approve_view: "view s = x \<Longrightarrow> view (snd (approve_pending_memory E mid now s)) = x"
  unfolding approve_pending_memory_def
  by (intro case_view write_view approve_body_view) (auto split: sum.splits option.splits)

lemma mark_candidate_view: "view s = x \<Longrightarrow> view (snd (mark_memory_candidate E cid st err dec now s)) = x"
  unfolding mark_memory_candidate_def by (auto intro!: write_view)

lemma save_candidate_view: "view s = x \<Longrightarrow> view (snd (save_memory_candidate E c sid st err dec now s)) = x"
  unfolding save_memory_candidate_def
  by (intro case_view write_view) (auto split: sum.splits option.splits)

lemma reject_view: "view s = x \<Longrightarrow> view (snd (reject_pending_memory E mid reason now s)) = x"
proof -
  have body: "view t = y \<Longrightarrow> safe (\<lambda>_ t. view t = y) (reject_decisions mid reason t)" for t y
    by (auto simp: reject_decisions_def split: option.splits)
  assume "view s = x"
  then show ?thesis
    unfolding reject_pending_memory_def
    by (cases "pending_row mid s")
       (auto intro!: case_view update_public_view once_view body mark_candidate_view split: sum.splits)
qed

lemma edit_view: "view s = x \<Longrightarrow> view (snd (edit_pending_memory E mid content now s)) = x"
proof -
  have body: "view t = y \<Longrightarrow> safe (\<lambda>_ t. view t = y) (edit_decision E mid content p nx n t)" for t p nx n y
    by (auto simp: edit_decision_def Let_def split: option.splits)
  assume "view s = x"
  then show ?thesis
    unfolding edit_pending_memory_def Let_def
    by (cases "if py_strip content = [] then None else pending_row mid s")
       (auto intro!: case_view update_public_view once_view body approve_view split: sum.splits)
qed

lemma correct_view: "view s = x \<Longrightarrow> view (snd (correct_memory E mid content st reason now s)) = x"
  unfolding correct_memory_def Let_def
  by (auto intro!: update_public_view split: option.splits sum.splits)

lemma resolve_view: "view s = x \<Longrightarrow> view (snd (resolve_memory_conflict E mid resolution content now s)) = x"
  unfolding resolve_memory_conflict_def by (auto intro!: update_public_view)

lemma soft_delete_view: "view s = x \<Longrightarrow> view (snd (soft_delete_memory E mid reason now s)) = x"
  unfolding soft_delete_memory_def by (rule update_public_view)

lemma add_source_view: "view s = x \<Longrightarrow> view (snd (add_source E mid nt rel now s)) = x"
  unfolding add_source_def by (rule write_view, assumption, rule source_view)

lemma add_relation_view: "view s = x \<Longrightarrow> view (snd (add_memory_relation E sid a b rel dec now s)) = x"
  unfolding add_memory_relation_def by (rule write_view, assumption, rule relation_view)

lemmas public_views = apply_public_view update_public_view insert_public_view expire_view access_view
  purge_view approve_view mark_candidate_view save_candidate_view reject_view edit_view correct_view
  resolve_view soft_delete_view add_source_view add_relation_view

end

interpretation runs: side_table consolidation_runs
  by unfold_locales simp_all

interpretation extractions: side_table extraction_states
  by unfold_locales simp_all

end
