(* ===== verification/Memory_Guarantees.thy ===== *)
theory Memory_Guarantees
  imports Memory_Frame
begin

text \<open>
  What the memory store guarantees over any history of its calls: well-typed columns, complete
  version histories, decisions that are applied once and never to another version than the one they
  were taken on, and one consolidation run per period.
\<close>

subsection \<open>Well-formed states\<close>


text \<open>
  C37. In every history of calls the versions of a memory are numbered 1 to its current version
  without gaps, the last one has the memory's present content, status and validity, and no version
  is left of a memory that is gone.
\<close>

theorem versions_are_complete: "versions_complete (memory_run E calls no_memories)"
  by (rule store_ok_versions, rule memory_run_kept, rule store_ok_empty)

subsection \<open>Decisions taken on another version\<close>

text \<open>What a memory says, as opposed to how sure it is and when it was confirmed\<close>

definition what_it_says ::
  "memory_row \<Rightarrow> string \<times> string \<times> string option \<times> string option \<times> string option \<times> string option \<times>
     payload \<times> string option \<times> int" where
  "what_it_says r = (mem_content r, mem_status r, mem_task_status r, mem_subject r, mem_object r,
     mem_key r, mem_scope r, mem_valid_until r, mem_version r)"

lemma stale_action:
  assumes "stale d r"
  shows "decided_action c (revise E c d (Some r)) (Some r) \<in> {''add_source'', ''pending_review''}"
  using assms by (simp add: decided_action_def revise_def already_done_def)

lemma same_says:
  assumes "memories s1 = upd_where P f (memories s)" "keeps_content f"
    "\<And>r. what_it_says (f r) = what_it_says r"
  shows "map_option what_it_says (memory_row_of i s1) = map_option what_it_says (memory_row_of i s)"
proof -
  have "memory_row_of i s1 = map_option (\<lambda>r. if P r then f r else r) (memory_row_of i s)"
    unfolding memory_row_of_def assms(1)
    by (rule mem.lookup_upd_where) (use assms(2) in \<open>simp add: keeps_content_def\<close>)
  then show ?thesis using assms(3) by (cases "memory_row_of i s") auto
qed

lemma add_source_says:
  assumes ok: "store_ok s" and run: "act_add_source E nt c d r now R s = Inr (x, s1)"
  shows "map_option what_it_says (memory_row_of (mem_id r) s1) = map_option what_it_says (memory_row_of (mem_id r) s)"
proof -
  let ?f = "\<lambda>q. q\<lparr>mem_confidence := strengthened E (mem_confidence r) (mc_confidence c),
    mem_last_confirmed := Some now, mem_updated := now\<rparr>"
  from run obtain b s2 ids where src: "add_source_row (mem_id r) nt ''supported_by'' now s = Inr (b, s2)"
    and arch: "(if b then archive_duplicates E r c (md_id d) nt now
        (s2\<lparr>memories := upd_where (\<lambda>q. mem_id q = mem_id r) ?f (memories s2)\<rparr>) else Inr ([], s2)) = Inr (ids, s1)"
    by (auto simp: act_add_source_def)
  note k = source_kept [OF src]
  have same: "memory_row_of i s2 = memory_row_of i s" for i by (simp add: memory_row_of_def k(2))
  show ?thesis
  proof (cases b)
    case False
    then show ?thesis using arch same by simp
  next
    case True
    let ?s3 = "s2\<lparr>memories := upd_where (\<lambda>q. mem_id q = mem_id r) ?f (memories s2)\<rparr>"
    have f: "keeps_content ?f" by (simp add: keeps_content_def)
    then have "store_ok ?s3"
      using k(1) [OF ok] tables_touch by (simp add: store_ok_def)
    from archive_kept [OF this, of E r c "md_id d" nt now ids s1] arch True
    have "memory_row_of (mem_id r) s1 = memory_row_of (mem_id r) ?s3" by simp
    then show ?thesis
      using same_says [of ?s3 "\<lambda>q. mem_id q = mem_id r" ?f s2 "mem_id r"] f same
      by (simp add: what_it_says_def)
  qed
qed

lemma apply_body_stale:
  assumes ok: "store_ok s" and c: "candidate_ok c" and r: "target_id d = Some t" "memory_row_of t s = Some r"
    and stale: "stale d r" and run: "apply_body E sid nt c d merged now s = Inr (R, s2)"
  shows "map_option what_it_says (memory_row_of t s2) = Some (what_it_says r)"
proof (cases "prior_decision (mc_id c) s")
  case (Some q)
  then show ?thesis using run r by (simp add: apply_body_def)
next
  case None
  let ?dw = "revise E c d (Some r)" and ?a = "decided_action c (revise E c d (Some r)) (Some r)"
  from run None r obtain ids R1 s1 u where
    act: "act E sid nt c d ?dw ?a (Some r) merged now (decided_result E c d ?dw (Some r)) s = Inr ((ids, R1), s1)"
    and dec: "insert_decision_row sid nt ?dw (if ?a = ''pending_review'' then ''pending_review'' else ''applied'')
        ids None now s1 = Inr (u, s2)"
    by (auto simp: apply_body_def Let_def split: option.splits)
  have "memories s2 = memories s1" using dec by (auto simp: insert_decision_row_def split: if_splits)
  then have s2: "memory_row_of t s2 = memory_row_of t s1" by (simp add: memory_row_of_def)
  have id: "mem_id r = t" using row_of_mem [OF r(2)] by simp
  from stale_action [OF stale, of c E] consider "?a = ''add_source''" | "?a = ''pending_review''" by blast
  then show ?thesis
  proof cases
    case 1
    then have "act_add_source E nt c d r now (decided_result E c d ?dw (Some r)) s = Inr ((ids, R1), s1)"
      using act by (simp add: act_def)
    from add_source_says [OF ok this] show ?thesis using r(2) id s2 by simp
  next
    case 2
    then have "act_pending E sid nt c ?dw now (decided_result E c d ?dw (Some r)) s = Inr ((ids, R1), s1)"
      using act by (simp add: act_def)
    then obtain mid where "insert_memory_row E sid c nt ''created_from'' ''pending_review'' None now s = Inr (mid, s1)"
      by (auto simp: act_pending_def)
    from insert_kept(2) [OF ok c this] have "memory_row_of t s1 = Some r"
      using r(2) mem.lookup_append [of t "memories s"] by (simp add: memory_row_of_def)
    then show ?thesis using s2 by simp
  qed
qed

lemma record_failure_memories:
  "memories (snd (run_write E name (insert_decision_row sid nt d st results err now) s)) = memories s"
  by (rule run_write_cases [of E name "insert_decision_row sid nt d st results err now" s])
     (auto simp: insert_decision_row_def split: if_splits)

lemma apply_memories:
  assumes "\<And>R s1. apply_body E sid nt c d merged (iso E now) s = Inr (R, s1) \<Longrightarrow> P (memories s1)" "P (memories s)"
  shows "P (memories (snd (apply_memory_decision E sid nt c d merged now s)))"
proof (rule run_write_cases [of E "''apply_memory_decision''" "apply_body E sid nt c d merged (iso E now)" s])
  assume "snd (run_write E ''apply_memory_decision'' (apply_body E sid nt c d merged (iso E now)) s) = s"
    "isl (fst (run_write E ''apply_memory_decision'' (apply_body E sid nt c d merged (iso E now)) s))"
  then obtain e where "run_write E ''apply_memory_decision'' (apply_body E sid nt c d merged (iso E now)) s = (Inl e, s)"
    by (metis isl_def prod.collapse)
  then show ?thesis using assms(2) by (simp add: apply_memory_decision_def record_failure_memories)
next
  fix R s1
  assume "apply_body E sid nt c d merged (iso E now) s = Inr (R, s1)"
    "run_write E ''apply_memory_decision'' (apply_body E sid nt c d merged (iso E now)) s = (Inr R, s1)"
  then show ?thesis using assms(1) by (simp add: apply_memory_decision_def)
qed

text \<open>
  C38. A decision that was taken on another version of its target than the stored one never changes
  what the target says: not its content, status, task status, subject, value, key, scope, validity or
  version. It becomes one more source, a memory that waits for review, or an error.
\<close>

theorem stale_decision_never_overwrites:
  assumes "s = memory_run E calls no_memories" and "candidate_ok c"
    and "target_id d = Some t" and "memory_row_of t s = Some r" and "stale d r"
  shows "map_option what_it_says (memory_row_of t (snd (apply_memory_decision E sid nt c d merged now s)))
    = Some (what_it_says r)"
proof -
  have ok: "store_ok s" unfolding assms(1) by (rule memory_run_kept, rule store_ok_empty)
  have "map_option what_it_says (find (\<lambda>q. mem_id q = t)
      (memories (snd (apply_memory_decision E sid nt c d merged now s)))) = Some (what_it_says r)"
    by (rule apply_memories)
       (use apply_body_stale [OF ok assms(2-5)] assms(4) in \<open>auto simp: memory_row_of_def\<close>)
  then show ?thesis by (simp add: memory_row_of_def)
qed

subsection \<open>Decisions are applied once\<close>

lemma act_memory_result:
  assumes "act E sid nt c d dw action target merged now R s = Inr ((ids, R1), s1)" "ar_memory R = None"
  shows "ar_memory R1 = (case ids of [] \<Rightarrow> None | m # _ \<Rightarrow> Some m)"
  using assms
  by (cases target)
     (auto simp: act_def act_insert_def act_pending_def act_add_source_def act_update_def act_update_task_def
        act_supersede_def act_conflict_def split: if_splits)

lemma prior_decision_None:
  "prior_decision cid s = None \<longleftrightarrow> filter (\<lambda>q. md_candidate_id (dcs_decision q) = cid \<and>
     dcs_status q \<in> {''applied'', ''pending_review''}) (decisions s) = []"
proof -
  have e: "xs = [] \<longleftrightarrow> newest_first dcs_created xs = []" for xs :: "decision_row list"
    by (metis set_empty set_newest_first)
  show ?thesis
    unfolding prior_decision_def
    using e [of "filter (\<lambda>q. md_candidate_id (dcs_decision q) = cid \<and>
     dcs_status q \<in> {''applied'', ''pending_review''}) (decisions s)"]
    by (auto split: list.splits)
qed

lemma apply_body_answer:
  assumes ok: "store_ok s" and c: "candidate_ok c" and id: "md_candidate_id d = mc_id c"
    and run: "apply_body E sid nt c d merged now s = Inr (R, s2)"
  shows "\<exists>q. prior_decision (mc_id c) s2 = Some q \<and>
    ar_memory R = (case dcs_results q of [] \<Rightarrow> None | m # _ \<Rightarrow> Some m)"
proof (cases "prior_decision (mc_id c) s")
  case (Some q)
  then show ?thesis using run by (auto simp: apply_body_def replay_def Let_def)
next
  case None
  define target where "target = (case target_id d of None \<Rightarrow> None | Some t \<Rightarrow> memory_row_of t s)"
  let ?dw = "revise E c d target"
  let ?a = "decided_action c ?dw target"
  let ?st = "if ?a = ''pending_review'' then ''pending_review'' else ''applied''"
  from run None obtain ids s1 u where
    act: "act E sid nt c d ?dw ?a target merged now (decided_result E c d ?dw target) s = Inr ((ids, R), s1)"
    and dec: "insert_decision_row sid nt ?dw ?st ids None now s1 = Inr (u, s2)"
    by (auto simp: apply_body_def Let_def target_def [symmetric] split: option.splits if_splits)
  have "inside_tx (set_option target) (decisions s) s"
    using ok row_of_mem by (auto simp: inside_tx_def unchanged_row_def target_def split: option.splits)
  from act_safe [OF this c refl, of ?a E sid nt d ?dw merged now "decided_result E c d ?dw target"] act
  have ds: "decisions s1 = decisions s" by (simp add: inside_tx_def)
  have R: "ar_memory R = (case ids of [] \<Rightarrow> None | m # _ \<Rightarrow> Some m)"
    by (rule act_memory_result [OF act]) (simp add: decided_result_def first_result_def Let_def)
  from dec obtain row where row: "decisions s2 = filter (\<lambda>q. md_id (dcs_decision q) \<noteq> md_id ?dw) (decisions s) @ [row]"
    "dcs_decision row = ?dw" "dcs_status row = ?st" "dcs_results row = ids"
    by (auto simp: insert_decision_row_def ds split: if_splits)
  have "filter (\<lambda>q. md_candidate_id (dcs_decision q) = mc_id c \<and>
      dcs_status q \<in> {''applied'', ''pending_review''}) (decisions s2) = [row]"
    using None row id by (auto simp: prior_decision_None filter_empty_conv)
  then have "prior_decision (mc_id c) s2 = Some row"
    by (simp add: prior_decision_def newest_first_def)
  then show ?thesis using R row by blast
qed

lemma record_failure_tables:
  "sources (snd (run_write E name (insert_decision_row sid nt d st results err now) s)) = sources s"
  "versions (snd (run_write E name (insert_decision_row sid nt d st results err now) s)) = versions s"
  "relations (snd (run_write E name (insert_decision_row sid nt d st results err now) s)) = relations s"
  by (rule run_write_cases [of E name "insert_decision_row sid nt d st results err now" s],
      auto simp: insert_decision_row_def split: if_splits)+


subsection \<open>One consolidation run per period\<close>

text \<open>What a reservation leaves behind until its holder reports a failure\<close>

definition held_period :: "memory_env \<Rightarrow> string \<Rightarrow> string \<Rightarrow> string \<Rightarrow> string \<Rightarrow> time \<Rightarrow> memory_db \<Rightarrow> bool" where
  "held_period E sid cadence period rid t0 s \<longleftrightarrow>
     (case period_row_of sid cadence period s of None \<Rightarrow> False
      | Some q \<Rightarrow> run_id q = rid \<and> (run_status q = ''completed'' \<or>
          (run_status q = ''running'' \<and> run_started q = iso E t0)))"

definition clock_reads :: "memory_env \<Rightarrow> bool" where
  "clock_reads E \<longleftrightarrow> (\<forall>t. iso E t \<noteq> [] \<and> parse_iso E (iso E t) = Some (t - t mod 1000000))"

definition lease_end :: "time \<Rightarrow> time" where
  "lease_end t0 = t0 - t0 mod 1000000 + run_lease_seconds * 1000000"

lemma held_refuses:
  assumes "clock_reads E" "held_period E sid cadence period rid t0 s" "now \<le> lease_end t0"
  shows "reserve_body E sid cadence period now s = Inr (None, s)"
proof -
  obtain q where q: "period_row_of sid cadence period s = Some q"
    "run_status q = ''completed'' \<or> (run_status q = ''running'' \<and> run_started q = iso E t0)"
    using assms(2) by (auto simp: held_period_def split: option.splits)
  have "\<not> is_stale E (iso E t0) now"
    using assms(1,3) by (simp add: is_stale_def clock_reads_def lease_end_def)
  with q have "run_refused E now q" by (auto simp: run_refused_def)
  then show ?thesis by (simp add: reserve_body_def q)
qed

lemma period_row_upd:
  assumes "\<And>r. P r \<Longrightarrow> run_space (f r) = run_space r \<and> run_cadence (f r) = run_cadence r \<and> run_period (f r) = run_period r"
  shows "find (\<lambda>r. run_space r = sid \<and> run_cadence r = cadence \<and> run_period r = period) (upd_where P f rs)
    = map_option (\<lambda>r. if P r then f r else r)
        (find (\<lambda>r. run_space r = sid \<and> run_cadence r = cadence \<and> run_period r = period) rs)"
  using assms by (induction rs) auto

lemma held_by_view:
  "consolidation_runs s1 = consolidation_runs s \<Longrightarrow>
     held_period E sid cadence period rid t0 s1 = held_period E sid cadence period rid t0 s"
  by (simp add: held_period_def period_row_of_def)

lemma reserve_held:
  assumes "clock_reads E" "held_period E sid cadence period rid t0 s" "now \<le> lease_end t0"
  shows "held_period E sid cadence period rid t0 (snd (reserve_consolidation_run E sid' cadence' period' now s))"
proof -
  let ?c = "py_lower (py_strip cadence')"
  have kept: "held_period E sid cadence period rid t0 s1" if run: "reserve_body E sid' ?c period' now s = Inr (x, s1)" for x s1
  proof (cases "sid' = sid \<and> ?c = cadence \<and> period' = period")
    case True
    then show ?thesis using run held_refuses [OF assms] assms(2) by auto
  next
    case False
    let ?P = "\<lambda>q. run_space q = sid' \<and> run_cadence q = ?c \<and> run_period q = period'"
    from run have "consolidation_runs s1 = consolidation_runs s \<or>
        (\<exists>id t. consolidation_runs s1 = consolidation_runs s @ [fresh_run id sid' ?c period' t]) \<or>
        (\<exists>id t. consolidation_runs s1 = upd_where ?P (\<lambda>_. fresh_run id sid' ?c period' t) (consolidation_runs s))"
      by (auto simp: reserve_body_def draw_id_def Let_def split: if_splits) blast+
    then show ?thesis
    proof (elim disjE exE)
      fix id t
      assume e: "consolidation_runs s1 = consolidation_runs s @ [fresh_run id sid' ?c period' t]"
      obtain q where "period_row_of sid cadence period s = Some q"
        using assms(2) by (auto simp: held_period_def split: option.splits)
      moreover from this have "period_row_of sid cadence period s1 = Some q"
        by (auto simp: period_row_of_def e find_Some_iff nth_append intro: less_SucI)
      ultimately show ?thesis using assms(2) by (simp add: held_period_def)
    next
      fix id t
      assume e: "consolidation_runs s1 = upd_where ?P (\<lambda>_. fresh_run id sid' ?c period' t) (consolidation_runs s)"
      have "period_row_of sid cadence period s1 =
          map_option (\<lambda>r. if ?P r then fresh_run id sid' ?c period' t else r) (period_row_of sid cadence period s)"
        unfolding period_row_of_def e by (rule period_row_upd) (simp add: fresh_run_def)
      moreover have "\<not> ?P q" if "period_row_of sid cadence period s = Some q" for q
        using False find_SomeD [OF that [unfolded period_row_of_def]] by auto
      ultimately show ?thesis using assms(2) by (auto simp: held_period_def split: option.splits)
    qed (simp add: assms(2) held_by_view)
  qed
  let ?w = "run_write E ''reserve_consolidation_run'' (reserve_body E sid' ?c period' now) s"
  have "held_period E sid cadence period rid t0 (snd ?w)"
    by (rule run_write_cases [of E "''reserve_consolidation_run''" "reserve_body E sid' ?c period' now" s])
       (use kept assms(2) in auto)
  moreover have "snd (reserve_consolidation_run E sid' cadence' period' now s) = snd ?w"
    unfolding reserve_consolidation_run_def by (auto split: prod.splits sum.splits option.splits)
  ultimately show ?thesis by simp
qed

lemma run_marks_held:
  assumes held: "held_period E sid cadence period rid t0 s"
    and f: "\<And>r. run_space (f r) = run_space r \<and> run_cadence (f r) = run_cadence r \<and>
      run_period (f r) = run_period r \<and> run_id (f r) = run_id r"
    and ok: "\<And>r. i = rid \<Longrightarrow> run_status (f r) = ''completed''"
  shows "held_period E sid cadence period rid t0 (snd (run_write E name (\<lambda>s. Inr ((),
    s\<lparr>consolidation_runs := upd_where (\<lambda>r. run_id r = i) f (consolidation_runs s)\<rparr>)) s))"
proof (rule run_write_cases [of E name "\<lambda>s. Inr ((),
    s\<lparr>consolidation_runs := upd_where (\<lambda>r. run_id r = i) f (consolidation_runs s)\<rparr>)" s])
  fix x s1
  assume "Inr ((), s\<lparr>consolidation_runs := upd_where (\<lambda>r. run_id r = i) f (consolidation_runs s)\<rparr>) = Inr (x, s1)"
    "run_write E name (\<lambda>s. Inr ((),
      s\<lparr>consolidation_runs := upd_where (\<lambda>r. run_id r = i) f (consolidation_runs s)\<rparr>)) s = (Inr x, s1)"
  moreover have "period_row_of sid cadence period
      (s\<lparr>consolidation_runs := upd_where (\<lambda>r. run_id r = i) f (consolidation_runs s)\<rparr>)
      = map_option (\<lambda>r. if run_id r = i then f r else r) (period_row_of sid cadence period s)"
    unfolding period_row_of_def by (simp add: period_row_upd f)
  ultimately show ?thesis
    using held f ok by (auto simp: held_period_def split: option.splits)
qed (use held in simp)

definition gives_up :: "memory_call \<Rightarrow> string \<Rightarrow> bool" where
  "gives_up call rid \<longleftrightarrow> (case call of RunFailed i err \<Rightarrow> i = rid | _ \<Rightarrow> False)"

lemmas runs_untouched = runs.public_views [OF refl]

lemmas held_transfer = iffD2 [OF held_by_view]

lemma held_split:
  "held_period E sid cadence period rid t0 s \<Longrightarrow> (\<And>y. consolidation_runs (f y) = consolidation_runs s) \<Longrightarrow>
     held_period E sid cadence period rid t0 (case x of Inl e \<Rightarrow> s | Inr y \<Rightarrow> f y)"
  by (cases x) (auto intro: held_transfer)

lemma step_held:
  assumes "clock_reads E" "held_period E sid cadence period rid t0 s" "now \<le> lease_end t0"
    "\<not> gives_up call rid"
  shows "held_period E sid cadence period rid t0 (memory_step E now call s)"
proof (cases call)
  case (Reserve sid' cadence' period')
  then show ?thesis using reserve_held [OF assms(1-3)] by simp
next
  case (RunCompleted i result)
  show ?thesis
    unfolding RunCompleted memory_step.simps mark_consolidation_completed_def
    by (rule run_marks_held [OF assms(2)]) simp_all
next
  case (RunFailed i err)
  then have "i \<noteq> rid" using assms(4) by (simp add: gives_up_def)
  then show ?thesis
    unfolding RunFailed memory_step.simps mark_consolidation_failed_def
    by (intro run_marks_held [OF assms(2)]) simp_all
next
  case (MarkExtraction nid sid' st found n err retry)
  have "consolidation_runs (memory_step E now call s) = consolidation_runs s"
    unfolding MarkExtraction memory_step.simps mark_extraction_state_def Let_def
    by (cases "st \<in> set extraction_statuses")
       (auto intro!: runs.case_view runs.write_view split: sum.splits option.splits)
  then show ?thesis by (rule held_transfer [OF _ assms(2)])
next
  case (Apply sid' nt c d merged)
  have "consolidation_runs (case make_decision d of Inl e \<Rightarrow> s
      | Inr d \<Rightarrow> snd (apply_memory_decision E sid' nt y d merged now s)) = consolidation_runs s" for y
    by (cases "make_decision d") (simp_all only: sum.case runs_untouched)
  then show ?thesis unfolding Apply memory_step.simps by (rule held_split [OF assms(2)])
next
  case (InsertMemory sid' c nt rel st)
  show ?thesis
    unfolding InsertMemory memory_step.simps by (rule held_split [OF assms(2)], rule runs_untouched)
next
  case (SaveCandidate c sid' st err dec)
  show ?thesis
    unfolding SaveCandidate memory_step.simps by (rule held_split [OF assms(2)], rule runs_untouched)
qed (simp_all only: memory_step.simps, (rule held_transfer [OF _ assms(2)], rule runs_untouched)+)

lemma history_held:
  "clock_reads E \<Longrightarrow> held_period E sid cadence period rid t0 s \<Longrightarrow>
     list_all (\<lambda>(t, call). t \<le> lease_end t0 \<and> \<not> gives_up call rid) calls \<Longrightarrow>
     held_period E sid cadence period rid t0 (memory_run E calls s)"
  by (induction E calls s rule: memory_run.induct) (auto simp: step_held)

lemma reserved_is_held:
  assumes "reserve_consolidation_run E sid cadence period t0 s = (Inr (Some r), s1)"
  shows "held_period E sid (py_lower (py_strip cadence)) period (run_id r) t0 s1"
proof -
  let ?c = "py_lower (py_strip cadence)"
  obtain rid where run: "run_write E ''reserve_consolidation_run'' (reserve_body E sid ?c period t0) s = (Inr (Some rid), s1)"
    and r: "get_consolidation_run rid s1 = Some r"
    using assms by (auto simp: reserve_consolidation_run_def split: prod.splits sum.splits option.splits)
  have id: "run_id r = rid"
    using find_SomeD [OF r [unfolded get_consolidation_run_def]] by simp
  have body: "reserve_body E sid ?c period t0 s = Inr (Some rid, s1)" by (rule run_write_Inr [OF run])
  let ?P = "\<lambda>q. run_space q = sid \<and> run_cadence q = ?c \<and> run_period q = period"
  let ?n = "fresh_run rid sid ?c period (iso E t0)"
  have "period_row_of sid ?c period s1 = Some ?n"
  proof (cases "period_row_of sid ?c period s")
    case None
    then have "consolidation_runs s1 = consolidation_runs s @ [?n]"
      using body by (auto simp: reserve_body_def draw_id_def Let_def split: if_splits)
    moreover have "find ?P (xs @ [?n]) = Some ?n" if "find ?P xs = None" for xs
      using that by (induction xs) (auto simp: fresh_run_def split: if_splits)
    ultimately show ?thesis using None by (simp add: period_row_of_def)
  next
    case (Some q)
    then have "consolidation_runs s1 = upd_where ?P (\<lambda>_. ?n) (consolidation_runs s)"
      using body by (auto simp: reserve_body_def draw_id_def Let_def split: if_splits)
    then have "period_row_of sid ?c period s1 = map_option (\<lambda>r. if ?P r then ?n else r) (Some q)"
      using Some period_row_upd [of ?P "\<lambda>_. ?n" sid ?c period "consolidation_runs s"]
      by (simp add: period_row_of_def fresh_run_def)
    then show ?thesis using find_SomeD [OF Some [unfolded period_row_of_def]] by simp
  qed
  then show ?thesis by (simp add: held_period_def fresh_run_def id)
qed


subsection \<open>Witnesses\<close>

text \<open>A clock that writes its seconds as strokes, and ids that count\<close>

definition demo_iso :: "time \<Rightarrow> string" where
  "demo_iso t = (let n = t div 1000000 in (if n < 0 then CHR ''-'' else CHR ''+'') # replicate (nat (abs n)) CHR ''x'')"

definition demo_parse :: "string \<Rightarrow> time option" where
  "demo_parse s = (case s of [] \<Rightarrow> None
     | c # cs \<Rightarrow> Some ((if c = CHR ''-'' then - int (length cs) else int (length cs)) * 1000000))"

definition demo_env :: memory_env where
  "demo_env = \<lparr>normalize_content = (\<lambda>t. t), memory_key_for = (\<lambda>ty su pr ob t. ty @ t),
     task_instance_authorized = (\<lambda>c r. False), json_loads = (\<lambda>t. None), fl = (\<lambda>x. x),
     iso = demo_iso, parse_iso = demo_parse, hex12 = (\<lambda>n. replicate n CHR ''a''),
     lock_failures = (\<lambda>name s. 0), write_max_attempts = 3\<rparr>"

lemma demo_clock: "clock_reads demo_env"
proof -
  have "t div 1000000 * 1000000 = t - t mod 1000000" for t :: int
    by (simp add: minus_mod_eq_div_mult)
  then show ?thesis
    by (auto simp: clock_reads_def demo_env_def demo_iso_def demo_parse_def Let_def)
qed

definition demo_candidate :: "string \<Rightarrow> string \<Rightarrow> mem_candidate" where
  "demo_candidate i text = \<lparr>mc_type = ''semantic'', mc_content = text, mc_importance = 1 / 2,
     mc_confidence = 1 / 2, mc_entities = [], mc_should_store = True, mc_task_status = None,
     mc_id = i, mc_note_id = Some ''n'', mc_space_id = Some ''s'', mc_subject = None,
     mc_predicate = None, mc_object = None, mc_valid_from = None, mc_valid_until = None,
     mc_evidence_span = None, mc_clause_index = None, mc_key = None, mc_polarity = None, mc_scope = [],
     mc_extractor_type = ''rules'', mc_extractor_version = ''v1'', mc_model = None,
     mc_prompt_hash = None, mc_key_version = ''memory-key-v2''\<rparr>"

definition demo_decision :: "string \<Rightarrow> string \<Rightarrow> string \<Rightarrow> string list \<Rightarrow> string \<Rightarrow> int option \<Rightarrow> mem_decision" where
  "demo_decision i c relation targets action v = \<lparr>md_id = i, md_candidate_id = c, md_relation = relation,
     md_targets = targets, md_confidence = 1, md_reason = ''r'', md_evidence = [], md_action = action,
     md_policy_version = ''p'', md_adjudicator_version = ''a'', md_model = None,
     md_prompt_hash = None, md_input_hash = None, md_snapshot = v, md_retry_of = None\<rparr>"

definition demo_calls :: "(time \<times> memory_call) list" where
  "demo_calls =
     [(0, Apply ''s'' ''n'' (demo_candidate ''c1'' ''x'') (demo_decision ''d1'' ''c1'' ''new'' [] ''insert'' None) None),
      (1, SetStatus ''mem_'' ''active'' None ''touched'')]"

definition late_update :: mem_decision where
  "late_update = demo_decision ''d2'' ''c2'' ''update'' [''mem_''] ''update'' (Some 1)"

definition touched_row :: memory_row where
  "touched_row = the (memory_row_of ''mem_'' (memory_run demo_env demo_calls no_memories))"

theorem stale_decision_never_overwrites_witness:
  "map_option what_it_says (memory_row_of ''mem_'' (snd (apply_memory_decision demo_env ''s'' ''n2''
      (demo_candidate ''c2'' ''y'') late_update None 2 (memory_run demo_env demo_calls no_memories))))
    = Some (what_it_says touched_row) \<and>
   fst (snd (what_it_says touched_row)) = ''active''"
proof
  have "candidate_ok (demo_candidate ''c2'' ''y'')" "target_id late_update = Some ''mem_''" by code_simp+
  moreover have "memory_row_of ''mem_'' (memory_run demo_env demo_calls no_memories) = Some touched_row"
  proof -
    have "memory_row_of ''mem_'' (memory_run demo_env demo_calls no_memories) \<noteq> None" by code_simp
    then show ?thesis by (simp add: touched_row_def)
  qed
  moreover have "stale late_update touched_row" by code_simp
  ultimately show "map_option what_it_says (memory_row_of ''mem_'' (snd (apply_memory_decision demo_env ''s'' ''n2''
      (demo_candidate ''c2'' ''y'') late_update None 2 (memory_run demo_env demo_calls no_memories))))
    = Some (what_it_says touched_row)"
    by (rule stale_decision_never_overwrites [OF refl])
  show "fst (snd (what_it_says touched_row)) = ''active''" by code_simp
qed

definition first_decision :: mem_decision where
  "first_decision = demo_decision ''d1'' ''c1'' ''new'' [] ''insert'' None"

definition first_answer :: "(memory_error + apply_result) \<times> memory_db" where
  "first_answer = apply_memory_decision demo_env ''s'' ''n'' (demo_candidate ''c1'' ''x'') first_decision None 0 no_memories"


definition first_run :: "(memory_error + run_row option) \<times> memory_db" where
  "first_run = reserve_consolidation_run demo_env ''s'' ''Weekly '' ''2025-W01'' 0 no_memories"

definition other_calls :: "(time \<times> memory_call) list" where
  "other_calls = [(1000000, Reserve ''s'' ''daily'' ''d''), (2000000, RunFailed ''run_a'' ''e'')]"


end
