(* ===== verification/Console_Accounts.thy ===== *)
theory Console_Accounts
  imports Coordination Redis_Keys
begin

text \<open>
  Accounts and sign-in of the web console (\<open>repositories/postgres/console_auth.py\<close>,
  \<open>apps/console_auth.py\<close>). A request handler ends in a response or in an exception; what it wrote
  before the exception stays, so the new state is returned in both cases. The texts of the error
  messages are left out, each exception carries its HTTP status. The scrypt digest, SHA-256 and the
  environment variables are fields of \<open>console_env\<close>; the random values of a request (\<open>uuid4\<close>, the salt,
  the session token) are arguments of its call. A request reads the clock once.
\<close>

subsection \<open>Tables\<close>

record account_row =
  acc_id :: string
  acc_username :: string
  acc_password_hash :: string
  acc_tenant_id :: string
  acc_user_id :: string
  acc_space_id :: string
  acc_is_admin :: bool
  acc_created_at :: time

record session_row =
  ses_token_hash :: string
  ses_account_id :: string
  ses_expires_at :: time

record user_row =
  user_id :: string
  user_tenant_id :: string
  user_source :: string
  source_user_id :: string
  user_alias :: string

record member_row =
  member_tenant_id :: string
  member_space_id :: string
  member_user_id :: string
  member_role :: string

text \<open>The accounts share the database of the task pipeline: a new account gets its tenant and space.\<close>

record console_db =
  con_accounts :: "account_row list"
  con_sessions :: "session_row list"
  con_users :: "user_row list"
  con_members :: "member_row list"
  con_main :: db

record console_env =
  scrypt_hex :: "string \<Rightarrow> string \<Rightarrow> string"
  console_sha256 :: "string \<Rightarrow> string"
  redis_environment :: string
  env_console_enabled :: "string option"
  env_auth_mode :: "string option"
  env_registration :: "string option"
  env_cookie_secure :: "string option"

definition session_seconds :: int where "session_seconds = 7 * 24 * 3600"

subsection \<open>Passwords\<close>

text \<open>\<open>s.split(c)\<close>\<close>

fun split_on :: "char \<Rightarrow> string \<Rightarrow> string list" where
  "split_on c [] = [[]]"
| "split_on c (x # xs) = (if x = c then [] # split_on c xs
     else (case split_on c xs of w # ws \<Rightarrow> (x # w) # ws | [] \<Rightarrow> [[x]]))"

definition hash_password :: "console_env \<Rightarrow> string \<Rightarrow> string \<Rightarrow> string" where
  "hash_password C salt password = ''scrypt$'' @ salt @ ''$'' @ scrypt_hex C password salt"

definition verify_password :: "console_env \<Rightarrow> string \<Rightarrow> string \<Rightarrow> db_error + bool" where
  "verify_password C password encoded = (case split_on (CHR ''$'') encoded of
     [_, salt, expected] \<Rightarrow> Inr (scrypt_hex C password salt = expected)
   | _ \<Rightarrow> Inl (ValueError ''unpack''))"

definition dummy_hash :: string where
  "dummy_hash = ''scrypt$'' @ concat (replicate 16 ''00'') @ ''$'' @ concat (replicate 64 ''00'')"

definition token_hash :: "console_env \<Rightarrow> string \<Rightarrow> string" where
  "token_hash C token = console_sha256 C token"

subsection \<open>The account store\<close>

definition insert_account :: "account_row \<Rightarrow> console_db \<Rightarrow> db_error + console_db" where
  "insert_account a d =
     (if acc_id a \<in> acc_id ` set (con_accounts d) then Inl (IntegrityError ''console_accounts_pkey'')
      else if acc_username a \<in> acc_username ` set (con_accounts d) \<or>
          acc_tenant_id a \<in> acc_tenant_id ` set (con_accounts d) \<or>
          acc_user_id a \<in> acc_user_id ` set (con_accounts d) \<or>
          acc_space_id a \<in> acc_space_id ` set (con_accounts d)
        then Inl (IntegrityError ''console_accounts_key'')
      else Inr (d\<lparr>con_accounts := con_accounts d @ [a]\<rparr>))"

text \<open>
  \<open>provision_space\<close>: one tenant, user, space and membership per account. The row of the tenant keeps
  only its identifier, the space row not its type.
\<close>

definition provision_space :: "account_row \<Rightarrow> string \<Rightarrow> console_db \<Rightarrow> db_error + console_db" where
  "provision_space a alias d =
     (let m = con_main d; ten = acc_tenant_id a; usr = acc_user_id a; sid = acc_space_id a in
      if ten \<in> set (tenants m) then Inl (IntegrityError ''tenants_pkey'')
      else if usr \<in> user_id ` set (con_users d) then Inl (IntegrityError ''users_pkey'')
      else if \<exists>u \<in> set (con_users d). user_tenant_id u = ten \<and> user_source u = ''console'' \<and>
          source_user_id u = usr
        then Inl (IntegrityError ''uq_users_source_identity'')
      else if sid \<in> space_id ` set (spaces m) then Inl (IntegrityError ''spaces_pkey'')
      else if find_space_identity ten ''console'' sid m \<noteq> None
        then Inl (IntegrityError ''uq_spaces_source_identity'')
      else if \<exists>b \<in> set (con_members d). member_tenant_id b = ten \<and> member_space_id b = sid \<and>
          member_user_id b = usr
        then Inl (IntegrityError ''space_members_pkey'')
      else Inr (d\<lparr>con_main := m\<lparr>tenants := tenants m @ [ten],
            spaces := spaces m @ [\<lparr>space_id = sid, space_tenant_id = ten, space_source = ''console'',
              source_space_id = Some sid, metadata_json = [], processed_sequence_no = 0,
              note_watermark = 0, memory_watermark = 0, memory_gap_sequence_no = None\<rparr>]\<rparr>,
          con_users := con_users d @ [\<lparr>user_id = usr, user_tenant_id = ten, user_source = ''console'',
            source_user_id = usr, user_alias = alias\<rparr>],
          con_members := con_members d @ [\<lparr>member_tenant_id = ten, member_space_id = sid,
            member_user_id = usr, member_role = ''owner''\<rparr>]\<rparr>))"

definition new_account ::
  "console_env \<Rightarrow> time \<Rightarrow> string \<Rightarrow> string \<Rightarrow> string \<Rightarrow> string \<Rightarrow> bool \<Rightarrow> account_row" where
  "new_account C now ident salt username password admin = \<lparr>acc_id = ident, acc_username = username,
     acc_password_hash = hash_password C salt password, acc_tenant_id = ''account_'' @ ident,
     acc_user_id = ''user_'' @ ident, acc_space_id = ''personal_'' @ ident, acc_is_admin = admin,
     acc_created_at = now\<rparr>"

definition create_account ::
  "console_env \<Rightarrow> time \<Rightarrow> string \<Rightarrow> string \<Rightarrow> string \<Rightarrow> string \<Rightarrow> string \<Rightarrow> bool \<Rightarrow> console_db \<Rightarrow>
     db_error + account_row \<times> console_db" where
  "create_account C now ident salt username password alias admin d =
     (let a = new_account C now ident salt username password admin in
      case insert_account a d of
        Inl e \<Rightarrow> Inl e
      | Inr d1 \<Rightarrow> (case provision_space a alias d1 of Inl e \<Rightarrow> Inl e | Inr d2 \<Rightarrow> Inr (a, d2)))"

definition find_account :: "string \<Rightarrow> console_db \<Rightarrow> account_row option" where
  "find_account username d = find (\<lambda>a. acc_username a = username) (con_accounts d)"

definition create_session ::
  "console_env \<Rightarrow> time \<Rightarrow> string \<Rightarrow> string \<Rightarrow> string option \<Rightarrow> console_db \<Rightarrow> db_error + console_db" where
  "create_session C now token account_id previous d =
     (let kept = filter (\<lambda>r. \<not> ses_expires_at r \<le> now) (con_sessions d);
          kept2 = (case previous of
             Some (c # cs) \<Rightarrow> filter (\<lambda>r. ses_token_hash r \<noteq> token_hash C (c # cs)) kept
           | _ \<Rightarrow> kept)
      in if token_hash C token \<in> ses_token_hash ` set kept2
           then Inl (IntegrityError ''console_sessions_pkey'')
         else if account_id \<notin> acc_id ` set (con_accounts d)
           then Inl (IntegrityError ''console_sessions_account_id_fkey'')
         else Inr (d\<lparr>con_sessions := kept2 @ [\<lparr>ses_token_hash = token_hash C token,
           ses_account_id = account_id, ses_expires_at = now + session_seconds * 1000000\<rparr>]\<rparr>))"

definition resolve_session :: "console_env \<Rightarrow> time \<Rightarrow> string option \<Rightarrow> console_db \<Rightarrow> account_row option" where
  "resolve_session C now token d = (case token of
     Some (c # cs) \<Rightarrow> find (\<lambda>a. \<exists>r \<in> set (con_sessions d). ses_account_id r = acc_id a \<and>
       ses_token_hash r = token_hash C (c # cs) \<and> now < ses_expires_at r) (con_accounts d)
   | _ \<Rightarrow> None)"

definition revoke_session :: "console_env \<Rightarrow> string \<Rightarrow> console_db \<Rightarrow> console_db" where
  "revoke_session C token d =
     d\<lparr>con_sessions := filter (\<lambda>r. ses_token_hash r \<noteq> token_hash C token) (con_sessions d)\<rparr>"

definition change_password :: "console_env \<Rightarrow> string \<Rightarrow> string \<Rightarrow> string \<Rightarrow> console_db \<Rightarrow> console_db" where
  "change_password C salt account_id password d =
     d\<lparr>con_accounts := upd_where (\<lambda>a. acc_id a = account_id)
         (\<lambda>a. a\<lparr>acc_password_hash := hash_password C salt password\<rparr>) (con_accounts d),
       con_sessions := filter (\<lambda>r. ses_account_id r \<noteq> account_id) (con_sessions d)\<rparr>"

subsection \<open>Requests\<close>

datatype web_error = HTTPException int | RuntimeError string | DatabaseError db_error

record web_request =
  rq_method :: string
  rq_header :: "string option"
  rq_cookie :: "string option"
  rq_host :: "string option"

datatype cookie_change = SetCookie string int bool | DeleteCookie

record public_account =
  pub_username :: string
  pub_user_id :: string
  pub_space_id :: string
  pub_is_admin :: bool

record web_response =
  rs_account :: "public_account option"
  rs_cookie :: "cookie_change option"
  rs_no_store :: bool

record 's console =
  con_db :: console_db
  con_redis :: 's

definition accounts_enabled :: "console_env \<Rightarrow> web_error + bool" where
  "accounts_enabled C = (let mode = (case env_auth_mode C of None \<Rightarrow> ''accounts'' | Some m \<Rightarrow> m) in
     if mode \<notin> {''accounts'', ''token''}
     then Inl (RuntimeError ''SUIXINJI_CONSOLE_AUTH_MODE must be accounts or token'')
     else Inr (mode = ''accounts''))"

definition enabled :: "console_env \<Rightarrow> web_error option" where
  "enabled C = (if env_console_enabled C \<noteq> Some ''1'' then Some (HTTPException 404)
     else (case accounts_enabled C of
         Inl e \<Rightarrow> Some e
       | Inr b \<Rightarrow> if b then None else Some (HTTPException 404)))"

definition check_mutation :: "web_request \<Rightarrow> web_error option" where
  "check_mutation rq = (if rq_method rq \<notin> {''GET'', ''HEAD'', ''OPTIONS''} \<and>
     rq_header rq \<noteq> Some ''console'' then Some (HTTPException 403) else None)"

definition admitted :: "console_env \<Rightarrow> web_request \<Rightarrow> web_error option" where
  "admitted C rq = (case enabled C of Some e \<Rightarrow> Some e | None \<Rightarrow> check_mutation rq)"

definition authenticated ::
  "console_env \<Rightarrow> time \<Rightarrow> web_request \<Rightarrow> console_db \<Rightarrow> web_error + account_row" where
  "authenticated C now rq d = (case admitted C rq of
     Some e \<Rightarrow> Inl e
   | None \<Rightarrow> (case resolve_session C now (rq_cookie rq) d of
       None \<Rightarrow> Inl (HTTPException 401)
     | Some a \<Rightarrow> Inr a))"

definition require_admin :: "account_row option \<Rightarrow> web_error option" where
  "require_admin account = (case account of
     Some a \<Rightarrow> if \<not> acc_is_admin a then Some (HTTPException 403) else None
   | None \<Rightarrow> None)"

definition public_of :: "account_row \<Rightarrow> public_account" where
  "public_of a = \<lparr>pub_username = acc_username a, pub_user_id = acc_user_id a,
     pub_space_id = acc_space_id a, pub_is_admin = acc_is_admin a\<rparr>"

text \<open>
  \<open>limit_auth\<close>: the address first, then the name. \<open>faults\<close> tells for which of the two calls Redis
  raises; a raising call leaves the server as it was.
\<close>

definition auth_key :: "console_env \<Rightarrow> string \<Rightarrow> string \<Rightarrow> string" where
  "auth_key C kind v = rate_user_key (key_prefix (redis_environment C)) ''console-auth''
     (console_sha256 C v) kind"

fun limit_each ::
  "('s, 'z) redis_scheme \<Rightarrow> console_env \<Rightarrow> (string \<Rightarrow> bool) \<Rightarrow> time \<Rightarrow> (string \<times> string \<times> int) list \<Rightarrow>
     's \<Rightarrow> web_error option \<times> 's" where
  "limit_each R C faults now [] s = (None, s)"
| "limit_each R C faults now ((kind, v, limit) # rest) s =
     (if faults kind then (Some (HTTPException 503), s)
      else let (r, s1) = redis_allow R now (auth_key C kind v) limit 60 1 s in
        if \<not> allowed r then (Some (HTTPException 429), s1)
        else limit_each R C faults now rest s1)"

definition limit_auth ::
  "('s, 'z) redis_scheme \<Rightarrow> console_env \<Rightarrow> (string \<Rightarrow> bool) \<Rightarrow> time \<Rightarrow> web_request \<Rightarrow> string \<Rightarrow> 's \<Rightarrow>
     web_error option \<times> 's" where
  "limit_auth R C faults now rq username s =
     limit_each R C faults now
       [(''ip'', (case rq_host rq of None \<Rightarrow> ''unknown'' | Some h \<Rightarrow> h), 30), (''username'', username, 10)] s"

subsection \<open>Bodies\<close>

definition valid_username :: "string \<Rightarrow> bool" where
  "valid_username u \<longleftrightarrow> 3 \<le> length u \<and> length u \<le> 32 \<and>
     (\<forall>c \<in> set u. let n = of_char c :: nat in (97 \<le> n \<and> n \<le> 122) \<or> (65 \<le> n \<and> n \<le> 90) \<or>
       (48 \<le> n \<and> n \<le> 57) \<or> c \<in> {CHR ''_'', CHR ''-''})"

definition valid_password :: "string \<Rightarrow> bool" where
  "valid_password p \<longleftrightarrow> 12 \<le> length p \<and> length p \<le> 128"

text \<open>\<open>Registration.clean_alias\<close>: the cleaned alias, or None for a rejected one.\<close>

definition clean_alias :: "string \<Rightarrow> string option" where
  "clean_alias a = (if length a < 1 \<or> 40 < length a then None
     else let v = py_strip a in
       if v = [] \<or> (\<exists>c \<in> set v. (of_char c :: nat) < 32) then None else Some v)"

subsection \<open>Endpoints\<close>

definition start_session ::
  "console_env \<Rightarrow> time \<Rightarrow> web_request \<Rightarrow> string \<Rightarrow> account_row \<Rightarrow> console_db \<Rightarrow>
     db_error + web_response \<times> console_db" where
  "start_session C now rq token a d = (case create_session C now token (acc_id a) (rq_cookie rq) d of
     Inl e \<Rightarrow> Inl e
   | Inr d1 \<Rightarrow> Inr (\<lparr>rs_account = Some (public_of a),
       rs_cookie = Some (SetCookie token session_seconds
         (py_lower (case env_cookie_secure C of None \<Rightarrow> ''true'' | Some v \<Rightarrow> v) = ''true'')),
       rs_no_store = True\<rparr>, d1))"

text \<open>What the last step of a sign-in makes of the state.\<close>

definition finish_sign_in ::
  "db_error + web_response \<times> console_db \<Rightarrow> 's console \<Rightarrow> (web_error + web_response) \<times> 's console" where
  "finish_sign_in r s = (case r of
     Inl e \<Rightarrow> (Inl (DatabaseError e), s)
   | Inr (rsp, d) \<Rightarrow> (Inr rsp, s\<lparr>con_db := d\<rparr>))"

definition register_account ::
  "('s, 'z) redis_scheme \<Rightarrow> console_env \<Rightarrow> (string \<Rightarrow> bool) \<Rightarrow> time \<Rightarrow> web_request \<Rightarrow> string \<Rightarrow> string \<Rightarrow>
     string \<Rightarrow> string \<Rightarrow> string \<Rightarrow> string \<Rightarrow> 's console \<Rightarrow> (web_error + web_response) \<times> 's console" where
  "register_account R C faults now rq username password alias ident salt token s =
     (if \<not> valid_username username \<or> \<not> valid_password password \<or> clean_alias alias = None
      then (Inl (HTTPException 422), s)
      else case admitted C rq of
        Some e \<Rightarrow> (Inl e, s)
      | None \<Rightarrow>
        if env_registration C \<noteq> Some ''true'' then (Inl (HTTPException 403), s)
        else let name = py_lower username; (stop, r1) = limit_auth R C faults now rq name (con_redis s);
                 s1 = s\<lparr>con_redis := r1\<rparr>
          in case stop of
               Some e \<Rightarrow> (Inl e, s1)
             | None \<Rightarrow> (case create_account C now ident salt name password (the (clean_alias alias)) False (con_db s1) of
                 Inl (IntegrityError _) \<Rightarrow> (Inl (HTTPException 409), s1)
               | Inl e \<Rightarrow> (Inl (DatabaseError e), s1)
               | Inr (a, d) \<Rightarrow>
                   let s2 = s1\<lparr>con_db := d\<rparr> in finish_sign_in (start_session C now rq token a (con_db s2)) s2))"

definition login ::
  "('s, 'z) redis_scheme \<Rightarrow> console_env \<Rightarrow> (string \<Rightarrow> bool) \<Rightarrow> time \<Rightarrow> web_request \<Rightarrow> string \<Rightarrow> string \<Rightarrow>
     string \<Rightarrow> 's console \<Rightarrow> (web_error + web_response) \<times> 's console" where
  "login R C faults now rq username password token s =
     (if \<not> valid_username username \<or> \<not> valid_password password then (Inl (HTTPException 422), s)
      else case admitted C rq of
        Some e \<Rightarrow> (Inl e, s)
      | None \<Rightarrow>
        let name = py_lower username; (stop, r1) = limit_auth R C faults now rq name (con_redis s);
            s1 = s\<lparr>con_redis := r1\<rparr>
        in case stop of
             Some e \<Rightarrow> (Inl e, s1)
           | None \<Rightarrow>
             let account = find_account name (con_db s1) in
             (case verify_password C password
                 (case account of Some a \<Rightarrow> acc_password_hash a | None \<Rightarrow> dummy_hash) of
                Inl e \<Rightarrow> (Inl (DatabaseError e), s1)
              | Inr valid \<Rightarrow>
                (case account of
                   Some a \<Rightarrow> if \<not> valid then (Inl (HTTPException 401), s1)
                     else finish_sign_in (start_session C now rq token a (con_db s1)) s1
                 | None \<Rightarrow> (Inl (HTTPException 401), s1))))"

definition whoami ::
  "console_env \<Rightarrow> time \<Rightarrow> web_request \<Rightarrow> 's console \<Rightarrow> (web_error + web_response) \<times> 's console" where
  "whoami C now rq s = (case authenticated C now rq (con_db s) of
     Inl e \<Rightarrow> (Inl e, s)
   | Inr a \<Rightarrow> (Inr \<lparr>rs_account = Some (public_of a), rs_cookie = None, rs_no_store = True\<rparr>, s))"

definition logout ::
  "console_env \<Rightarrow> web_request \<Rightarrow> 's console \<Rightarrow> (web_error + web_response) \<times> 's console" where
  "logout C rq s = (case admitted C rq of
     Some e \<Rightarrow> (Inl e, s)
   | None \<Rightarrow> (Inr \<lparr>rs_account = None, rs_cookie = Some DeleteCookie, rs_no_store = False\<rparr>,
       s\<lparr>con_db := revoke_session C (case rq_cookie rq of None \<Rightarrow> [] | Some c \<Rightarrow> c) (con_db s)\<rparr>))"

definition change_own_password ::
  "('s, 'z) redis_scheme \<Rightarrow> console_env \<Rightarrow> (string \<Rightarrow> bool) \<Rightarrow> time \<Rightarrow> web_request \<Rightarrow> string \<Rightarrow> string \<Rightarrow>
     string \<Rightarrow> 's console \<Rightarrow> (web_error + web_response) \<times> 's console" where
  "change_own_password R C faults now rq old new salt s =
     (if length old < 1 \<or> 128 < length old \<or> \<not> valid_password new then (Inl (HTTPException 422), s)
      else case authenticated C now rq (con_db s) of
        Inl e \<Rightarrow> (Inl e, s)
      | Inr a \<Rightarrow>
        let (stop, r1) = limit_auth R C faults now rq (acc_username a) (con_redis s);
            s1 = s\<lparr>con_redis := r1\<rparr>
        in case stop of
             Some e \<Rightarrow> (Inl e, s1)
           | None \<Rightarrow> (case verify_password C old (acc_password_hash a) of
               Inl e \<Rightarrow> (Inl (DatabaseError e), s1)
             | Inr valid \<Rightarrow> if \<not> valid then (Inl (HTTPException 401), s1)
                 else (Inr \<lparr>rs_account = None, rs_cookie = Some DeleteCookie, rs_no_store = False\<rparr>,
                   s1\<lparr>con_db := change_password C salt (acc_id a) new (con_db s1)\<rparr>)))"

text \<open>\<open>/options\<close>: the mode and whether registration is open.\<close>

definition console_options :: "console_env \<Rightarrow> web_error + string \<times> bool" where
  "console_options C = (if env_console_enabled C \<noteq> Some ''1'' then Inl (HTTPException 404)
     else (case accounts_enabled C of
         Inl e \<Rightarrow> Inl e
       | Inr b \<Rightarrow> Inr (if b then ''accounts'' else ''token'', b \<and> env_registration C = Some ''true'')))"

subsection \<open>Histories of requests\<close>

text \<open>A call with its body and the random values it draws.\<close>

datatype console_call =
    Register (reg_name: string) (reg_password: string) (reg_alias: string) string string string
  | Login string string string
  | WhoAmI
  | Logout
  | ChangePassword string string string

fun console_step ::
  "('s, 'z) redis_scheme \<Rightarrow> console_env \<Rightarrow> (string \<Rightarrow> bool) \<Rightarrow> time \<Rightarrow> web_request \<Rightarrow> console_call \<Rightarrow>
     's console \<Rightarrow> (web_error + web_response) \<times> 's console" where
  "console_step R C faults now rq (Register u p al ident salt token) s =
     register_account R C faults now rq u p al ident salt token s"
| "console_step R C faults now rq (Login u p token) s = login R C faults now rq u p token s"
| "console_step R C faults now rq WhoAmI s = whoami C now rq s"
| "console_step R C faults now rq Logout s = logout C rq s"
| "console_step R C faults now rq (ChangePassword old new salt) s =
     change_own_password R C faults now rq old new salt s"

type_synonym console_event = "(string \<Rightarrow> bool) \<times> time \<times> web_request \<times> console_call"

fun console_run ::
  "('s, 'z) redis_scheme \<Rightarrow> console_env \<Rightarrow> console_event list \<Rightarrow> 's console \<Rightarrow>
     (web_error + web_response) list \<times> 's console" where
  "console_run R C [] s = ([], s)"
| "console_run R C ((faults, now, rq, call) # evs) s =
     (let (r, s1) = console_step R C faults now rq call s; (rs, s2) = console_run R C evs s1
      in (r # rs, s2))"

end
