(* ===== verification/Console_Sessions.thy ===== *)
theory Console_Sessions
  imports Console_Accounts
begin

text \<open>
  Who a session cookie stands for. \<open>cookie_book\<close> is the abstract view: which cookie was handed out to
  which user and until when, computed from requests and responses alone. The session table follows
  it, whatever other requests do.
\<close>

subsection \<open>The abstract view\<close>

type_synonym cookie_book = "string \<Rightarrow> (string \<times> time) option"

definition sent_cookie :: "web_request \<Rightarrow> string" where
  "sent_cookie rq = (case rq_cookie rq of None \<Rightarrow> [] | Some c \<Rightarrow> c)"

definition book_step ::
  "time \<Rightarrow> web_request \<Rightarrow> console_call \<Rightarrow> web_error + web_response \<Rightarrow> cookie_book \<Rightarrow> cookie_book" where
  "book_step now rq call outcome b = (case outcome of
     Inl e \<Rightarrow> b
   | Inr rsp \<Rightarrow> (case rs_cookie rsp of
       None \<Rightarrow> b
     | Some (SetCookie tok secs secure) \<Rightarrow>
         (b(sent_cookie rq := None))(tok \<mapsto> (pub_username (the (rs_account rsp)), now + secs * 1000000))
     | Some DeleteCookie \<Rightarrow> (case call of
         Logout \<Rightarrow> b(sent_cookie rq := None)
       | _ \<Rightarrow> (\<lambda>t. if map_option fst (b t) = map_option fst (b (sent_cookie rq)) then None else b t))))"

fun book_run :: "console_event list \<Rightarrow> (web_error + web_response) list \<Rightarrow> cookie_book \<Rightarrow> cookie_book" where
  "book_run ((faults, now, rq, call) # evs) (r # rs) b = book_run evs rs (book_step now rq call r b)"
| "book_run _ _ b = b"

definition book_user :: "time \<Rightarrow> string \<Rightarrow> cookie_book \<Rightarrow> string option" where
  "book_user now tok b = (case b tok of
     None \<Rightarrow> None
   | Some (u, e) \<Rightarrow> if now < e then Some u else None)"

text \<open>The cookies of a history: those sent and those drawn.\<close>

fun call_tokens :: "console_call \<Rightarrow> string set" where
  "call_tokens (Register u p al ident salt token) = {token}"
| "call_tokens (Login u p token) = {token}"
| "call_tokens _ = {}"

definition event_tokens :: "console_event \<Rightarrow> string set" where
  "event_tokens ev = (case ev of (faults, now, rq, call) \<Rightarrow> insert (sent_cookie rq) (call_tokens call))"

definition event_time :: "console_event \<Rightarrow> time" where
  "event_time ev = (case ev of (faults, now, rq, call) \<Rightarrow> now)"

subsection \<open>The session table\<close>

definition accounts_ok :: "console_db \<Rightarrow> bool" where
  "accounts_ok d \<longleftrightarrow> distinct (map acc_id (con_accounts d)) \<and> distinct (map acc_username (con_accounts d)) \<and>
     ses_account_id ` set (con_sessions d) \<subseteq> acc_id ` set (con_accounts d)"

definition live_sessions :: "console_env \<Rightarrow> time \<Rightarrow> string \<Rightarrow> console_db \<Rightarrow> (string \<times> time) set" where
  "live_sessions C now tok d = {(u, e). now < e \<and> (\<exists>r \<in> set (con_sessions d). \<exists>a \<in> set (con_accounts d).
     ses_account_id r = acc_id a \<and> acc_username a = u \<and> ses_token_hash r = token_hash C tok \<and>
     ses_expires_at r = e)}"

definition live_entries :: "time \<Rightarrow> string \<Rightarrow> cookie_book \<Rightarrow> (string \<times> time) set" where
  "live_entries now tok b = {(u, e). b tok = Some (u, e) \<and> now < e}"

definition follows :: "console_env \<Rightarrow> string set \<Rightarrow> time \<Rightarrow> console_db \<Rightarrow> cookie_book \<Rightarrow> bool" where
  "follows C T now d b \<longleftrightarrow> accounts_ok d \<and>
     (\<forall>tok \<in> T. tok \<noteq> [] \<longrightarrow> live_sessions C now tok d = live_entries now tok b)"

interpretation usernames: keyed_table acc_username "\<lambda>u rows. find (\<lambda>a. acc_username a = u) rows"
  by unfold_locales simp

interpretation account_ids: keyed_table acc_id "\<lambda>i rows. find (\<lambda>a. acc_id a = i) rows"
  by unfold_locales simp

lemma follows_later: "follows C T now d b \<Longrightarrow> now \<le> now' \<Longrightarrow> follows C T now' d b"
proof -
  assume f: "follows C T now d b" and t: "now \<le> now'"
  have "live_sessions C now' tok d = {(u, e). (u, e) \<in> live_sessions C now tok d \<and> now' < e}" for tok
    using t by (auto simp: live_sessions_def)
  moreover have "live_entries now' tok b = {(u, e). (u, e) \<in> live_entries now tok b \<and> now' < e}" for tok
    using t by (auto simp: live_entries_def)
  ultimately show ?thesis using f by (simp add: follows_def)
qed

lemma resolve_mem:
  assumes "resolve_session C now (Some tok) d = Some a"
  shows "tok \<noteq> [] \<and> a \<in> set (con_accounts d) \<and> (\<exists>e. (acc_username a, e) \<in> live_sessions C now tok d)"
  using assms by (auto simp: resolve_session_def live_sessions_def find_Some_iff split: list.splits)
    (metis nth_mem)+

lemma resolve_none:
  assumes "resolve_session C now (Some tok) d = None" "tok \<noteq> []"
  shows "live_sessions C now tok d = {}"
  using assms by (auto simp: resolve_session_def live_sessions_def find_None_iff split: list.splits)

lemma follows_resolve:
  assumes "follows C T now d b" "tok \<in> T" "tok \<noteq> []"
  shows "map_option acc_username (resolve_session C now (Some tok) d) = book_user now tok b"
proof -
  have l: "live_sessions C now tok d = live_entries now tok b" using assms by (simp add: follows_def)
  show ?thesis
  proof (cases "resolve_session C now (Some tok) d")
    case None
    from resolve_none [OF None assms(3)] l show ?thesis
      by (auto simp: None live_entries_def book_user_def split: option.splits)
  next
    case (Some a)
    from resolve_mem [OF Some] l show ?thesis
      by (auto simp: Some live_entries_def book_user_def)
  qed
qed

subsection \<open>What each request does to the table\<close>

lemma create_session_Inr:
  assumes "create_session C now token i previous d = Inr d'"
  shows "d' = d\<lparr>con_sessions := filter (\<lambda>r. now < ses_expires_at r \<and>
        (\<forall>p. previous = Some p \<longrightarrow> p \<noteq> [] \<longrightarrow> ses_token_hash r \<noteq> token_hash C p)) (con_sessions d) @
      [\<lparr>ses_token_hash = token_hash C token, ses_account_id = i,
        ses_expires_at = now + session_seconds * 1000000\<rparr>]\<rparr> \<and>
    i \<in> acc_id ` set (con_accounts d) \<and>
    (\<forall>r \<in> set (con_sessions d). now < ses_expires_at r \<longrightarrow> ses_token_hash r = token_hash C token \<longrightarrow>
       (\<exists>p. previous = Some p \<and> p \<noteq> [] \<and> ses_token_hash r = token_hash C p))"
  using assms
  by (cases previous)
     (auto simp: create_session_def Let_def not_le image_iff split: if_splits list.splits intro!: filter_cong)

lemma accounts_ok_create:
  assumes "accounts_ok d" "create_session C now token i previous d = Inr d'"
  shows "accounts_ok d'"
  using assms(1) create_session_Inr [OF assms(2)] by (auto simp: accounts_ok_def)

lemma session_owner:
  assumes "accounts_ok d" "a \<in> set (con_accounts d)"
  shows "(\<exists>a' \<in> set (con_accounts d). acc_id a = acc_id a' \<and> acc_username a' = u) \<longleftrightarrow> u = acc_username a"
  using assms account_ids.same_row [of "con_accounts d" a] by (auto simp: accounts_ok_def)

lemma follows_create:
  assumes f: "follows C T now d b" and inj: "inj_on (token_hash C) T"
    and T: "token \<in> T" "sent_cookie rq \<in> T" and a: "a \<in> set (con_accounts d)"
    and c: "create_session C now token (acc_id a) (rq_cookie rq) d = Inr d'"
  shows "follows C T now d' ((b(sent_cookie rq := None))(token \<mapsto> (acc_username a, now + session_seconds * 1000000)))"
proof -
  let ?e = "now + session_seconds * 1000000"
  note d' = create_session_Inr [OF c]
  have ok: "accounts_ok d" using f by (simp add: follows_def)
  have "live_sessions C now tok d' = live_entries now tok ((b(sent_cookie rq := None))(token \<mapsto> (acc_username a, ?e)))"
    if t: "tok \<in> T" "tok \<noteq> []" for tok
  proof -
    have h: "token_hash C x = token_hash C tok \<longleftrightarrow> x = tok" if "x \<in> T" for x
      using inj t(1) that by (auto dest: inj_onD)
    have old: "live_sessions C now tok d = live_entries now tok b" using f t by (simp add: follows_def)
    have sent: "(\<forall>p. rq_cookie rq = Some p \<longrightarrow> p \<noteq> [] \<longrightarrow> x \<noteq> token_hash C p) \<longleftrightarrow>
        (sent_cookie rq \<noteq> [] \<longrightarrow> x \<noteq> token_hash C (sent_cookie rq))" for x
      by (auto simp: sent_cookie_def split: option.splits)
    have new: "live_sessions C now tok d' =
        {(u, e) \<in> live_sessions C now tok d. sent_cookie rq \<noteq> [] \<longrightarrow> token_hash C tok \<noteq> token_hash C (sent_cookie rq)} \<union>
        (if token_hash C token = token_hash C tok then {(acc_username a, ?e)} else {})"
      using d' session_owner [OF ok a] unfolding sent
      by (auto simp: live_sessions_def session_seconds_def)
    have gone: "sent_cookie rq = tok" if "token = tok" "x \<in> live_sessions C now tok d" for x
    proof -
      from that obtain r where "r \<in> set (con_sessions d)" "now < ses_expires_at r"
        "ses_token_hash r = token_hash C token" by (auto simp: live_sessions_def)
      with d' obtain p where p: "rq_cookie rq = Some p" "token_hash C token = token_hash C p" by metis
      then have "p = sent_cookie rq" by (simp add: sent_cookie_def)
      with p(2) T h that(1) show ?thesis by metis
    qed
    have "?e > now" by (simp add: session_seconds_def)
    then have b: "live_entries now tok ((b(sent_cookie rq := None))(token \<mapsto> (acc_username a, ?e))) =
        (if tok = token then {(acc_username a, ?e)} else if tok = sent_cookie rq then {} else live_entries now tok b)"
      by (auto simp: live_entries_def)
    show ?thesis
    proof (cases "tok = token")
      case True
      then show ?thesis unfolding new b using gone t(2) by auto
    next
      case False
      then show ?thesis unfolding new b using h [OF T(1)] h [OF T(2)] t(2) old by auto
    qed
  qed
  with accounts_ok_create [OF ok c] show ?thesis by (simp add: follows_def)
qed

lemma follows_revoke:
  assumes f: "follows C T now d b" and inj: "inj_on (token_hash C) T" and T: "p \<in> T"
  shows "follows C T now (revoke_session C p d) (b(p := None))"
proof -
  have "live_sessions C now tok (revoke_session C p d) = live_entries now tok (b(p := None))"
    if t: "tok \<in> T" "tok \<noteq> []" for tok
  proof -
    have "token_hash C p = token_hash C tok \<longleftrightarrow> p = tok" using inj t(1) T by (auto dest: inj_onD)
    moreover have "live_sessions C now tok d = live_entries now tok b" using f t by (simp add: follows_def)
    moreover have "live_sessions C now tok (revoke_session C p d) =
        (if token_hash C p = token_hash C tok then {} else live_sessions C now tok d)"
      by (auto simp: live_sessions_def revoke_session_def)
    ultimately show ?thesis by (auto simp: live_entries_def)
  qed
  with f show ?thesis by (auto simp: follows_def accounts_ok_def revoke_session_def)
qed

lemma follows_change_password:
  assumes f: "follows C T now d b" and a: "a \<in> set (con_accounts d)"
  shows "follows C T now (change_password C salt (acc_id a) new d)
    (\<lambda>t. if map_option fst (b t) = Some (acc_username a) then None else b t)"
proof -
  let ?d = "change_password C salt (acc_id a) new d"
  have ok: "accounts_ok d" using f by (simp add: follows_def)
  have same: "acc_id x = acc_id a \<longleftrightarrow> acc_username x = acc_username a" if "x \<in> set (con_accounts d)" for x
    using ok a that account_ids.same_row [of "con_accounts d" x a] usernames.same_row [of "con_accounts d" x a]
    by (auto simp: accounts_ok_def)
  have "live_sessions C now tok ?d = {(u, e) \<in> live_sessions C now tok d. u \<noteq> acc_username a}" for tok
  proof -
    have L: "(u, e) \<in> live_sessions C now tok x \<longleftrightarrow> now < e \<and> (\<exists>r \<in> set (con_sessions x).
        (\<exists>a' \<in> set (con_accounts x). ses_account_id r = acc_id a' \<and> acc_username a' = u) \<and>
        ses_token_hash r = token_hash C tok \<and> ses_expires_at r = e)" for u e x
      by (auto simp: live_sessions_def)
    have owners: "(\<exists>a' \<in> set (con_accounts ?d). i = acc_id a' \<and> acc_username a' = u) \<longleftrightarrow>
        (\<exists>a' \<in> set (con_accounts d). i = acc_id a' \<and> acc_username a' = u)" for i u
      by (simp add: change_password_def set_upd_where if_distrib [of acc_id] if_distrib [of acc_username]
          cong: if_cong del: if_image_distrib)
    have 2: "i \<noteq> acc_id a \<and> (\<exists>a' \<in> set (con_accounts d). i = acc_id a' \<and> acc_username a' = u) \<longleftrightarrow>
        (\<exists>a' \<in> set (con_accounts d). i = acc_id a' \<and> acc_username a' = u) \<and> u \<noteq> acc_username a" for i u
      using same by auto
    have "set (con_sessions ?d) = {r \<in> set (con_sessions d). ses_account_id r \<noteq> acc_id a}"
      by (simp add: change_password_def)
    then have "(u, e) \<in> live_sessions C now tok ?d \<longleftrightarrow> (u, e) \<in> live_sessions C now tok d \<and> u \<noteq> acc_username a"
      for u e unfolding L owners using 2 by blast
    then show ?thesis by auto
  qed
  moreover have "live_entries now tok (\<lambda>t. if map_option fst (b t) = Some (acc_username a) then None else b t) =
      {(u, e) \<in> live_entries now tok b. u \<noteq> acc_username a}" for tok
    by (auto simp: live_entries_def split: if_splits)
  moreover have "map acc_id (con_accounts ?d) = map acc_id (con_accounts d)"
    "map acc_username (con_accounts ?d) = map acc_username (con_accounts d)"
    by (simp_all add: change_password_def map_upd_where)
  ultimately show ?thesis using f
    by (auto simp: follows_def accounts_ok_def change_password_def set_upd_where image_image)
qed

lemma create_account_Inr:
  assumes "create_account C now ident salt u p al adm d = Inr (a, d')"
  shows "con_accounts d' = con_accounts d @ [a] \<and> con_sessions d' = con_sessions d \<and>
    acc_id a \<notin> acc_id ` set (con_accounts d) \<and> acc_username a \<notin> acc_username ` set (con_accounts d) \<and>
    acc_username a = u"
  using assms
  by (auto simp: create_account_def insert_account_def provision_space_def Let_def new_account_def
        split: sum.splits if_splits)

lemma follows_create_account:
  assumes "follows C T now d b" "create_account C t ident salt u p al adm d = Inr (a, d')"
  shows "follows C T now d' b"
proof -
  note d' = create_account_Inr [OF assms(2)]
  have "ses_account_id r \<noteq> acc_id a" if "r \<in> set (con_sessions d)" for r
  proof -
    have "ses_account_id r \<in> acc_id ` set (con_accounts d)"
      using assms(1) that by (auto simp: follows_def accounts_ok_def)
    with d' show ?thesis by metis
  qed
  with d' have "live_sessions C now tok d' = live_sessions C now tok d" for tok
    by (auto simp: live_sessions_def)
  with assms(1) d' show ?thesis by (auto simp: follows_def accounts_ok_def)
qed

end
