(* ===== verification/Console_Guarantees.thy ===== *)
theory Console_Guarantees
  imports Console_Sessions
begin

text \<open>
  What the sign-in of the console guarantees: a cookie stands for the account it was handed out to
  until it is given up, and passwords can only be guessed at the rate of the limiter.
\<close>

subsection \<open>Histories of requests\<close>

lemma follows_sign_in:
  assumes f: "follows C T now (con_db s) b" and inj: "inj_on (token_hash C) T"
    and T: "token \<in> T" "sent_cookie rq \<in> T" and a: "a \<in> set (con_accounts (con_db s))"
  shows "follows C T now (con_db (snd (finish_sign_in (start_session C now rq token a (con_db s)) s)))
    (book_step now rq call (fst (finish_sign_in (start_session C now rq token a (con_db s)) s)) b)"
proof (cases "create_session C now token (acc_id a) (rq_cookie rq) (con_db s)")
  case (Inl e)
  with f show ?thesis by (simp add: start_session_def finish_sign_in_def book_step_def)
next
  case (Inr d)
  from follows_create [OF f inj T a Inr] show ?thesis
    by (simp add: start_session_def finish_sign_in_def book_step_def Inr public_of_def)
qed

lemma follows_refused [simp]: "book_step now rq call (Inl e) b = b"
  by (simp add: book_step_def)

lemma find_account_mem: "find_account u d = Some a \<Longrightarrow> a \<in> set (con_accounts d)"
  using usernames.lookup_mem by (auto simp: find_account_def)

lemma follows_register:
  assumes f: "follows C T now (con_db s) b" and inj: "inj_on (token_hash C) T"
    and T: "token \<in> T" "sent_cookie rq \<in> T"
    and r: "register_account R C faults now rq u p al ident salt token s = (r, s')"
  shows "follows C T now (con_db s') (book_step now rq (Register u p al ident salt token) r b)"
proof -
  have "follows C T now (con_db s'') (book_step now rq call r' b)"
    if "create_account C now ident salt n p x False (con_db s) = Inr (a, d)"
      "finish_sign_in (start_session C now rq token a d) (s\<lparr>con_redis := y, con_db := d\<rparr>) = (r', s'')"
    for n x a d y r' s'' call
    using follows_sign_in [OF _ inj T, of now "s\<lparr>con_redis := y, con_db := d\<rparr>" b a call] that create_account_Inr [OF that(1)]
      follows_create_account [OF f, of now ident salt n p x False a d] by simp
  with f r show ?thesis
    by (auto simp: register_account_def Let_def
          split: if_splits option.splits prod.splits sum.splits db_error.splits)
qed

lemma follows_login:
  assumes f: "follows C T now (con_db s) b" and inj: "inj_on (token_hash C) T"
    and T: "token \<in> T" "sent_cookie rq \<in> T"
    and r: "login R C faults now rq u p token s = (r, s')"
  shows "follows C T now (con_db s') (book_step now rq (Login u p token) r b)"
proof -
  have "follows C T now (con_db s'') (book_step now rq call r' b)"
    if "find_account n (con_db s) = Some a"
      "finish_sign_in (start_session C now rq token a (con_db s)) (s\<lparr>con_redis := x\<rparr>) = (r', s'')"
    for n a r' s'' x call
    using follows_sign_in [OF _ inj T, of now "s\<lparr>con_redis := x\<rparr>" b a call] that f find_account_mem by simp
  with f r show ?thesis
    by (auto simp: login_def Let_def split: if_splits option.splits prod.splits sum.splits)
qed

lemma follows_password:
  assumes f: "follows C T now (con_db s) b" and T: "sent_cookie rq \<in> T"
    and r: "change_own_password R C faults now rq old new salt s = (r, s')"
  shows "follows C T now (con_db s') (book_step now rq (ChangePassword old new salt) r b)"
proof -
  have "follows C T now (change_password C salt (acc_id a) new (con_db s))
      (\<lambda>t. if map_option fst (b t) = map_option fst (b (sent_cookie rq)) then None else b t)"
    if a: "authenticated C now rq (con_db s) = Inr a" for a
  proof -
    obtain tok where t: "rq_cookie rq = Some tok" "resolve_session C now (Some tok) (con_db s) = Some a"
      using a by (cases "rq_cookie rq") (auto simp: authenticated_def resolve_session_def split: option.splits)
    note m = resolve_mem [OF t(2)]
    have s: "sent_cookie rq = tok" using t(1) by (simp add: sent_cookie_def)
    with follows_resolve [OF f, of tok] m T t(2) have e: "map_option fst (b (sent_cookie rq)) = Some (acc_username a)"
      by (auto simp: book_user_def split: option.splits if_splits)
    show ?thesis unfolding e using follows_change_password [OF f] m by blast
  qed
  with f r show ?thesis
    by (auto simp: change_own_password_def Let_def book_step_def
          split: if_splits option.splits prod.splits sum.splits)
qed

lemma follows_step:
  assumes "follows C T now (con_db s) b" and "inj_on (token_hash C) T"
    and "event_tokens (faults, now, rq, call) \<subseteq> T" and "console_step R C faults now rq call s = (r, s')"
  shows "follows C T now (con_db s') (book_step now rq call r b)"
proof (cases call)
  case Logout
  have "sent_cookie rq \<in> T" using assms(3) by (simp add: event_tokens_def)
  with follows_revoke [OF assms(1,2), of "sent_cookie rq"] assms(1,4) show ?thesis
    by (auto simp: Logout logout_def book_step_def sent_cookie_def split: option.splits)
next
  case WhoAmI
  with assms(1,4) show ?thesis by (auto simp: whoami_def book_step_def split: sum.splits)
qed (use assms follows_register follows_login follows_password in \<open>auto simp: event_tokens_def\<close>)

lemma follows_run:
  assumes "follows C T t0 (con_db s) b" and "inj_on (token_hash C) T"
    and "\<Union> (event_tokens ` set evs) \<subseteq> T" and "sorted (t0 # map event_time evs)"
  shows "follows C T (last (t0 # map event_time evs)) (con_db (snd (console_run R C evs s)))
    (book_run evs (fst (console_run R C evs s)) b)"
  using assms
proof (induction evs arbitrary: s b t0)
  case (Cons ev evs)
  obtain faults now rq call where ev: "ev = (faults, now, rq, call)" by (cases ev)
  obtain r s1 where r: "console_step R C faults now rq call s = (r, s1)" by fastforce
  obtain rs s2 where rs: "console_run R C evs s1 = (rs, s2)" by fastforce
  have "follows C T now (con_db s) b"
    using Cons.prems by (auto simp: ev event_time_def intro: follows_later)
  then have "follows C T now (con_db s1) (book_step now rq call r b)"
    using Cons.prems by (intro follows_step [OF _ _ _ r]) (simp_all add: ev)
  from Cons.IH [OF this] Cons.prems show ?case
    by (simp add: ev event_time_def r rs)
qed simp

text \<open>
  C4: a session cookie stands for the account it was handed out to, until it is given up. After any
  history of requests, with any faults of Redis, the session table resolves a cookie to exactly the
  user whose sign-in response set it, if that was less than seven days ago and since then the cookie
  was not given up by a logout or a new sign-in and the user's password was not changed; every other
  cookie resolves to nobody. The view \<open>book_run\<close> is computed from requests and responses alone.
  SHA-256 must not collide on the cookies involved, and the clock must not run backwards.
\<close>

theorem cookie_stands_for_user:
  assumes "inj_on (token_hash C) (insert tok (\<Union> (event_tokens ` set evs)))" and "tok \<noteq> []"
    and "sorted (map event_time evs)" and "list_all (\<lambda>ev. event_time ev \<le> now) evs"
    and "accounts_ok (con_db s)" and "con_sessions (con_db s) = []"
  shows "map_option acc_username (resolve_session C now (Some tok) (con_db (snd (console_run R C evs s)))) =
    book_user now tok (book_run evs (fst (console_run R C evs s)) (\<lambda>_. None))"
proof -
  let ?T = "insert tok (\<Union> (event_tokens ` set evs))"
  define t0 where "t0 = (case evs of [] \<Rightarrow> now | ev # _ \<Rightarrow> event_time ev)"
  have s: "sorted (t0 # map event_time evs)" and l: "last (t0 # map event_time evs) \<le> now"
    using assms(3,4) by (auto simp: t0_def list_all_iff last_map split: list.splits)
  have "follows C ?T t0 (con_db s) (\<lambda>_. None)"
    using assms(5,6) by (simp add: follows_def live_sessions_def live_entries_def)
  from follows_run [OF this assms(1) _ s, of R] follows_later [OF _ l]
  show ?thesis using follows_resolve [OF _ _ assms(2), of C ?T now] by blast
qed

text \<open>A registration, a second sign-in, the logout of the first one.\<close>

definition demo_console :: console_env where
  "demo_console = \<lparr>scrypt_hex = (\<lambda>p salt. p @ salt), console_sha256 = (\<lambda>x. x), redis_environment = ''test'',
     env_console_enabled = Some ''1'', env_auth_mode = None, env_registration = Some ''true'',
     env_cookie_secure = None\<rparr>"

definition demo_request :: "string option \<Rightarrow> web_request" where
  "demo_request c = \<lparr>rq_method = ''POST'', rq_header = Some ''console'', rq_cookie = c, rq_host = None\<rparr>"

definition demo_visits :: "console_event list" where
  "demo_visits = [(\<lambda>_. False, 0, demo_request None, Register ''Alice'' ''correct horse'' ''Al'' ''i1'' ''ab'' ''t1''),
     (\<lambda>_. False, 10, demo_request None, Login ''alice'' ''correct horse'' ''t2''),
     (\<lambda>_. False, 20, demo_request (Some ''t1''), Logout)]"

definition demo_start :: "mem console" where
  "demo_start = \<lparr>con_db = \<lparr>con_accounts = [], con_sessions = [], con_users = [], con_members = [],
     con_main = empty_db\<rparr>, con_redis = mem_empty\<rparr>"

lemma cookie_stands_for_user_witness:
  "map_option acc_username (resolve_session demo_console 30 (Some ''t2'')
      (con_db (snd (console_run mem_redis demo_console demo_visits demo_start)))) = Some ''alice'' \<and>
   map_option acc_username (resolve_session demo_console 30 (Some ''t1'')
      (con_db (snd (console_run mem_redis demo_console demo_visits demo_start)))) = None"
proof -
  have 1: "inj_on (token_hash demo_console) T" for T
    by (simp add: token_hash_def demo_console_def inj_on_def)
  have 2: "sorted (map event_time demo_visits)" "list_all (\<lambda>ev. event_time ev \<le> 30) demo_visits"
    "accounts_ok (con_db demo_start)" "con_sessions (con_db demo_start) = []"
    by (simp_all add: demo_visits_def event_time_def demo_start_def accounts_ok_def)
  have 3: "book_user 30 ''t2'' (book_run demo_visits (fst (console_run mem_redis demo_console demo_visits demo_start)) (\<lambda>_. None))
      = Some ''alice''" by code_simp
  have 4: "book_user 30 ''t1'' (book_run demo_visits (fst (console_run mem_redis demo_console demo_visits demo_start)) (\<lambda>_. None))
      = None" by code_simp
  show ?thesis
    using cookie_stands_for_user [OF 1 _ 2, of "''t2''" mem_redis]
      cookie_stands_for_user [OF 1 _ 2, of "''t1''" mem_redis] 3 4 by simp
qed

subsection \<open>Guessing passwords\<close>

text \<open>The answers that a password was compared for: every other one was given before.\<close>

fun password_tried :: "web_error + web_response \<Rightarrow> bool" where
  "password_tried (Inr rsp) = True"
| "password_tried (Inl (HTTPException n)) = (n = 401)"
| "password_tried (Inl (DatabaseError e)) = True"
| "password_tried (Inl (RuntimeError m)) = False"

fun guess_at :: "string \<Rightarrow> console_event \<Rightarrow> web_error + web_response \<Rightarrow> bool" where
  "guess_at u (faults, now, rq, Login n p token) r = (py_lower n = u \<and> password_tried r)"
| "guess_at u _ r = False"

definition guesses :: "string \<Rightarrow> console_event list \<Rightarrow> (web_error + web_response) list \<Rightarrow> nat" where
  "guesses u evs rs = length (filter (\<lambda>(ev, r). guess_at u ev r) (zip evs rs))"

definition no_window :: "time \<Rightarrow> (int \<times> time option) option \<Rightarrow> bool" where
  "no_window t0 c = (case c of None \<Rightarrow> True | Some (v, Some e) \<Rightarrow> e \<le> t0 | Some (v, None) \<Rightarrow> False)"

text \<open>\<open>left t0 c n\<close>: \<open>n\<close> more calls are granted up to a minute after \<open>t0\<close>.\<close>

definition left :: "time \<Rightarrow> (int \<times> time option) option \<Rightarrow> nat \<Rightarrow> bool" where
  "left t0 c n \<longleftrightarrow> n = 10 \<and> no_window t0 c \<or>
     (\<exists>v e. c = Some (v, Some e) \<and> t0 + 60000000 \<le> e \<and> 1 \<le> v \<and> n = nat (10 - v))"

context redis_counters
begin

lemma incr_counter:
  assumes "r_incrby R now k n s = (v, s1)"
  shows "v = fst (live_counter now (counter s k)) + n" and "counter s1 =
    (counter s)(k \<mapsto> (fst (live_counter now (counter s k)) + n, snd (live_counter now (counter s k))))"
  using incr_value [of now k n s] incr_cell [of now k n s] assms by auto

lemma live_counter_open: "live_counter now c = (x, y) \<Longrightarrow> y = None \<or> (\<exists>e. y = Some e \<and> now < e)"
  by (auto simp: live_counter_def split: option.splits if_splits)

lemma allow_other:
  assumes "k \<noteq> k'"
  shows "counter (snd (redis_allow R now k' limit w cost s)) k = counter s k"
proof -
  obtain v s1 where i: "r_incrby R now k' (max 1 cost) s = (v, s1)" by fastforce
  obtain x y where l: "live_counter now (counter s k') = (x, y)" by fastforce
  have c: "counter s1 = (counter s)(k' \<mapsto> (x + max 1 cost, y))" using incr_counter(2) [OF i] l by simp
  then have "counter (snd (r_pexpire R now k' ttl s1)) k = counter s1 k" for ttl
    using expire_counter [of s1 k' "x + max 1 cost" y now ttl] live_counter_open [OF l] assms by simp
  then show ?thesis using assms by (simp add: redis_allow_def Let_def i c)
qed

lemma allow_left:
  assumes "left t0 (counter s k) n" "t0 \<le> now" "now < t0 + 60000000"
    and r: "redis_allow R now k 10 60 1 s = (r, s')"
  shows "\<exists>n' \<le> n. left t0 (counter s' k) n' \<and> (allowed r \<longrightarrow> n' + 1 \<le> n)"
proof -
  obtain v s1 where i: "r_incrby R now k 1 s = (v, s1)" by fastforce
  note c = incr_counter [OF i]
  consider "n = 10" "no_window t0 (counter s k)"
    | x e where "counter s k = Some (x, Some e)" "t0 + 60000000 \<le> e" "1 \<le> x" "n = nat (10 - x)"
    using assms(1) by (auto simp: left_def)
  then show ?thesis
  proof cases
    case 1
    then have "live_counter now (counter s k) = (0, None)"
      using assms(2) by (auto simp: no_window_def live_counter_def split: option.splits)
    with c have v: "v = 1" "counter s1 k = Some (1, None)" by simp_all
    have "counter s' k = Some (1, Some (now + 60000000))"
      using r i v(1) expire_counter [OF v(2), of now 60000000] by (auto simp: redis_allow_def Let_def)
    with 1 assms(2) show ?thesis by (auto simp: left_def intro!: exI [of _ 9])
  next
    case 2
    then have "live_counter now (counter s k) = (x, Some e)"
      using assms(3) by (simp add: live_counter_def)
    with c have v: "v = x + 1" "counter s1 k = Some (x + 1, Some e)" by simp_all
    with r i 2(3) have "counter s' k = Some (x + 1, Some e)" "allowed r \<longleftrightarrow> x + 1 \<le> 10"
      by (auto simp: redis_allow_def Let_def)
    with 2 show ?thesis by (auto simp: left_def intro!: exI [of _ "nat (10 - (x + 1))"])
  qed
qed

end

lemma auth_keys_differ: "auth_key C ''ip'' v \<noteq> auth_key C ''username'' u"
proof
  assume "auth_key C ''ip'' v = auth_key C ''username'' u"
  then have "key_part (console_sha256 C v) @ CHR '':'' # key_part ''ip'' =
      key_part (console_sha256 C u) @ CHR '':'' # key_part ''username''"
    by (simp add: auth_key_def rate_user_key_def)
  from part_split [OF this] have "key_part ''ip'' = key_part ''username''" by simp
  then have "''ip'' = ''username''" by (rule key_part_inj) simp_all
  then show False by simp
qed

context redis_counters
begin

lemma limit_auth_left:
  assumes l: "left t0 (counter s (auth_key C ''username'' u)) n" and t: "t0 \<le> now" "now < t0 + 60000000"
    and r: "limit_auth R C faults now rq name s = (stop, s')"
  shows "\<exists>n' \<le> n. left t0 (counter s' (auth_key C ''username'' u)) n' \<and> (stop = None \<longrightarrow> name = u \<longrightarrow> n' + 1 \<le> n)"
proof -
  let ?k = "auth_key C ''username'' u"
  let ?ip = "case rq_host rq of None \<Rightarrow> ''unknown'' | Some h \<Rightarrow> h"
  obtain a s1 where a: "redis_allow R now (auth_key C ''ip'' ?ip) 30 60 1 s = (a, s1)" by fastforce
  obtain b s2 where b: "redis_allow R now (auth_key C ''username'' name) 10 60 1 s1 = (b, s2)" by fastforce
  have 1: "counter s1 ?k = counter s ?k"
    using allow_other [of ?k "auth_key C ''ip'' ?ip" now 30 60 1 s] auth_keys_differ [of C ?ip u] a by auto
  have 2: "\<exists>n' \<le> n. left t0 (counter s2 ?k) n' \<and> (allowed b \<longrightarrow> name = u \<longrightarrow> n' + 1 \<le> n)"
  proof (cases "auth_key C ''username'' name = ?k")
    case True
    from allow_left [OF _ t, of s1 ?k n b s2] l 1 b True show ?thesis by auto
  next
    case False
    from allow_other [of ?k "auth_key C ''username'' name" now 10 60 1 s1] False l 1 b show ?thesis by auto
  qed
  have "faults ''ip'' \<and> s' = s \<and> stop \<noteq> None \<or> s' = s1 \<and> stop \<noteq> None \<or> s' = s2 \<and> (stop = None \<longrightarrow> allowed b)"
    using r by (auto simp: limit_auth_def a b split: if_splits)
  with 1 2 l show ?thesis by auto
qed

end

lemma sign_in_redis: "finish_sign_in z x = (r, y) \<Longrightarrow> con_redis y = con_redis x"
  by (auto simp: finish_sign_in_def split: sum.splits prod.splits)

lemma refused_untried: "admitted C rq = Some e \<Longrightarrow> \<not> password_tried (Inl e)"
  by (auto simp: admitted_def enabled_def check_mutation_def accounts_enabled_def Let_def
      split: option.splits if_splits)

lemma limited_untried: "limit_auth R C faults now rq name x = (Some e, y) \<Longrightarrow> \<not> password_tried (Inl e)"
  by (auto simp: limit_auth_def split: if_splits prod.splits)

lemma login_redis:
  assumes r: "login R C faults now rq n p token s = (r, s')"
  shows "con_redis s' = con_redis s \<and> \<not> password_tried r \<or>
    (\<exists>stop. limit_auth R C faults now rq (py_lower n) (con_redis s) = (stop, con_redis s') \<and>
      (password_tried r \<longrightarrow> stop = None))"
proof (cases "valid_username n \<and> valid_password p \<and> admitted C rq = None")
  case False
  with r show ?thesis by (auto simp: login_def refused_untried split: option.splits if_splits)
next
  case True
  obtain stop r1 where la: "limit_auth R C faults now rq (py_lower n) (con_redis s) = (stop, r1)" by fastforce
  show ?thesis
  proof (cases stop)
    case (Some e)
    with r True la limited_untried [of R C faults now rq "py_lower n" "con_redis s" e r1] show ?thesis
      by (auto simp: login_def)
  next
    case None
    with r True la have "con_redis s' = r1"
      by (auto simp: login_def Let_def dest: sign_in_redis split: option.splits sum.splits if_splits)
    with la None show ?thesis by simp
  qed
qed

lemma register_redis:
  assumes r: "register_account R C faults now rq u p al ident salt token s = (r, s')"
  shows "con_redis s' = con_redis s \<or>
    (\<exists>stop. limit_auth R C faults now rq (py_lower u) (con_redis s) = (stop, con_redis s'))"
proof -
  obtain stop r1 where la: "limit_auth R C faults now rq (py_lower u) (con_redis s) = (stop, r1)" by fastforce
  from r have "con_redis s' = con_redis s \<or> con_redis s' = r1"
    by (auto simp: register_account_def Let_def la dest!: sign_in_redis
        split: option.splits sum.splits if_splits db_error.splits)
  with la show ?thesis by auto
qed

lemma password_redis:
  assumes r: "change_own_password R C faults now rq old new salt s = (r, s')"
  shows "con_redis s' = con_redis s \<or>
    (\<exists>name stop. limit_auth R C faults now rq name (con_redis s) = (stop, con_redis s'))"
proof (cases "authenticated C now rq (con_db s)")
  case (Inr a)
  obtain stop r1 where la: "limit_auth R C faults now rq (acc_username a) (con_redis s) = (stop, r1)" by fastforce
  from r have "con_redis s' = con_redis s \<or> con_redis s' = r1"
    by (auto simp: change_own_password_def Let_def la Inr split: option.splits sum.splits if_splits)
  with la show ?thesis by auto
qed (use r in \<open>auto simp: change_own_password_def split: if_splits\<close>)

lemma step_redis:
  assumes "console_step R C faults now rq call s = (r, s')"
  shows "con_redis s' = con_redis s \<and> \<not> guess_at u (faults, now, rq, call) r \<or>
    (\<exists>name stop. limit_auth R C faults now rq name (con_redis s) = (stop, con_redis s') \<and>
      (guess_at u (faults, now, rq, call) r \<longrightarrow> stop = None \<and> name = u))"
proof (cases call)
  case (Login n p token)
  with assms login_redis show ?thesis by fastforce
next
  case (Register n p al ident salt token)
  with assms register_redis show ?thesis by fastforce
next
  case (ChangePassword old new salt)
  with assms password_redis show ?thesis by fastforce
qed (use assms in \<open>auto simp: whoami_def logout_def split: option.splits sum.splits\<close>)

context redis_counters
begin

lemma guesses_left:
  assumes "left t0 (counter (con_redis s) (auth_key C ''username'' u)) n"
    and "list_all (\<lambda>ev. t0 \<le> event_time ev \<and> event_time ev < t0 + 60000000) evs"
  shows "guesses u evs (fst (console_run R C evs s)) \<le> n"
  using assms
proof (induction evs arbitrary: s n)
  case (Cons ev evs)
  obtain faults now rq call where ev: "ev = (faults, now, rq, call)" by (cases ev)
  obtain r s1 where r: "console_step R C faults now rq call s = (r, s1)" by fastforce
  have t: "t0 \<le> now" "now < t0 + 60000000" using Cons.prems(2) by (simp_all add: ev event_time_def)
  have "\<exists>n' \<le> n. left t0 (counter (con_redis s1) (auth_key C ''username'' u)) n' \<and> (guess_at u ev r \<longrightarrow> n' + 1 \<le> n)"
    using step_redis [OF r, of u] unfolding ev
  proof (elim disjE exE conjE)
    fix name stop
    assume l: "limit_auth R C faults now rq name (con_redis s) = (stop, con_redis s1)"
      and g: "guess_at u (faults, now, rq, call) r \<longrightarrow> stop = None \<and> name = u"
    from limit_auth_left [OF Cons.prems(1) t l] g show "\<exists>n' \<le> n.
        left t0 (counter (con_redis s1) (auth_key C ''username'' u)) n' \<and>
        (guess_at u (faults, now, rq, call) r \<longrightarrow> n' + 1 \<le> n)" by blast
  qed (use Cons.prems(1) in auto)
  then obtain n' where n': "n' \<le> n" "left t0 (counter (con_redis s1) (auth_key C ''username'' u)) n'"
    "guess_at u ev r \<longrightarrow> n' + 1 \<le> n" by blast
  have "guesses u evs (fst (console_run R C evs s1)) \<le> n'" using Cons.IH [OF n'(2)] Cons.prems(2) by simp
  with n' show ?case by (auto simp: ev guesses_def r split: prod.splits)
qed (simp add: guesses_def)

end

text \<open>
  C34: passwords cannot be guessed faster than the limiter allows. If no window is open for a user
  name at some moment, then in the minute after it at most ten sign-in attempts under that name are
  answered with a verdict on the password, whatever requests are made by whom and from where, on any
  Redis server that follows the documentation and with any faults of it.
\<close>

theorem guesses_bounded:
  assumes "redis_counters R counter"
    and "no_window t0 (counter (con_redis s) (auth_key C ''username'' u))"
    and "list_all (\<lambda>ev. t0 \<le> event_time ev \<and> event_time ev < t0 + 60000000) evs"
  shows "guesses u evs (fst (console_run R C evs s)) \<le> 10"
  by (rule redis_counters.guesses_left [OF assms(1) _ assms(3)]) (simp add: left_def assms(2))

lemma guesses_bounded_witness:
  "guesses ''alice'' (replicate 11 (\<lambda>_. False, 5, demo_request None, Login ''alice'' ''wrong password'' ''t3''))
     (fst (console_run mem_redis demo_console
       (replicate 11 (\<lambda>_. False, 5, demo_request None, Login ''alice'' ''wrong password'' ''t3'')) demo_start)) \<le> 10 \<and>
   guesses ''alice'' (replicate 2 (\<lambda>_. False, 5, demo_request None, Login ''alice'' ''wrong password'' ''t3''))
     (fst (console_run mem_redis demo_console
       (replicate 2 (\<lambda>_. False, 5, demo_request None, Login ''alice'' ''wrong password'' ''t3'')) demo_start)) = 2"
proof -
  have 1: "no_window 0 (m_counters (con_redis demo_start) (auth_key demo_console ''username'' ''alice''))"
    by (simp add: demo_start_def mem_empty_def no_window_def)
  have 2: "guesses ''alice'' (replicate 2 (\<lambda>_. False, 5, demo_request None, Login ''alice'' ''wrong password'' ''t3''))
     (fst (console_run mem_redis demo_console
       (replicate 2 (\<lambda>_. False, 5, demo_request None, Login ''alice'' ''wrong password'' ''t3'')) demo_start)) = 2"
    by code_simp
  show ?thesis
    by (intro conjI guesses_bounded [OF mem.redis_counters_axioms 1] 2) (simp add: event_time_def list_all_iff)
qed

text \<open>A wrong password and an unknown user name get the same answer and leave the same state.\<close>

lemma login_reveals_nothing:
  assumes "find_account (py_lower u) (con_db s) = Some a" "find_account (py_lower u) (con_db s2) = None"
    and "con_redis s2 = con_redis s" and "verify_password C p (acc_password_hash a) = Inr False"
    and "verify_password C p dummy_hash = Inr False"
  shows "fst (login R C faults now rq u p token s) = fst (login R C faults now rq u p token s2) \<and>
    con_db (snd (login R C faults now rq u p token s)) = con_db s"
  using assms by (auto simp: login_def Let_def split: option.splits prod.splits if_splits)

text \<open>A password verifies against its own hash, if salt and digest are free of the separator.\<close>

lemma split_on_free: "CHR ''$'' \<notin> set xs \<Longrightarrow> split_on (CHR ''$'') xs = [xs]"
  by (induction xs) auto

lemma split_on_part: "c \<notin> set xs \<Longrightarrow> split_on c (xs @ c # ys) = xs # split_on c ys"
  by (induction xs) auto

lemma verify_own_hash:
  assumes "CHR ''$'' \<notin> set salt" "CHR ''$'' \<notin> set (scrypt_hex C p salt)"
  shows "verify_password C q (hash_password C salt p) = Inr (scrypt_hex C q salt = scrypt_hex C p salt)"
proof -
  have h: "hash_password C salt p = ''scrypt'' @ CHR ''$'' # salt @ CHR ''$'' # scrypt_hex C p salt"
    by (simp add: hash_password_def)
  show ?thesis unfolding verify_password_def h
    using split_on_part [of "CHR ''$''" salt] split_on_free [OF assms(2)] assms(1)
    by (subst split_on_part) auto
qed

end
