(* ===== verification/Ask_Plan.thy ===== *)
theory Ask_Plan
  imports Prelude
begin

text \<open>
  The plan of a question (\<open>agent/ask_models.py\<close>, \<open>agent/ask_plan_validator.py\<close>, \<open>agent/ask_planner.py\<close>):
  a language model splits a question into units, the validator repairs, filters and bounds them and
  falls back to a plan that looks the question up in the notes.

  Text is a list of Unicode code points here, because the cues are Chinese words and texts are cut
  into pairs of characters. \<open>ask_env\<close> holds what the source takes from its library: case folding, the
  iteration order of a Python set, pydantic's reading of a raw answer and the deterministic router
  (regular expressions of \<open>agent/query_agent.py\<close>), as its action and the memory type of its arguments. A violated model constraint is a \<open>ValidationError\<close>.
\<close>

subsection \<open>Text\<close>

type_synonym ptext = "int list"

text \<open>\<open>str.isspace\<close>, the same characters as \<open>\s\<close> in a pattern.\<close>

definition white :: "int \<Rightarrow> bool" where
  "white c \<longleftrightarrow> (9 \<le> c \<and> c \<le> 13) \<or> (28 \<le> c \<and> c \<le> 32) \<or> c = 133 \<or> c = 160 \<or> c = 5760 \<or>
     (8192 \<le> c \<and> c \<le> 8202) \<or> c = 8232 \<or> c = 8233 \<or> c = 8239 \<or> c = 8287 \<or> c = 12288"

text \<open>\<open>s.split()\<close> and \<open>" ".join(s.split())\<close>\<close>

fun split_ws :: "ptext \<Rightarrow> ptext \<Rightarrow> ptext list" where
  "split_ws word [] = (if word = [] then [] else [rev word])"
| "split_ws word (c # cs) = (if white c
     then (if word = [] then split_ws [] cs else rev word # split_ws [] cs)
     else split_ws (c # word) cs)"

fun join_words :: "ptext list \<Rightarrow> ptext" where
  "join_words [] = []"
| "join_words [w] = w"
| "join_words (w # ws) = w @ 32 # join_words ws"

definition norm_text :: "ptext \<Rightarrow> ptext" where
  "norm_text s = join_words (split_ws [] s)"

text \<open>\<open>needle in hay\<close>\<close>

fun occurs :: "ptext \<Rightarrow> ptext \<Rightarrow> bool" where
  "occurs needle [] = (needle = [])"
| "occurs needle (c # cs) = (take (length needle) (c # cs) = needle \<or> occurs needle cs)"

definition ascii :: "string \<Rightarrow> ptext" where
  "ascii s = map of_char s"

subsection \<open>Models\<close>

datatype ask_intent =
    TaskState | TaskInventory | PreferenceCurrent | SemanticCurrent | SemanticHistory
  | EpisodicHistory | NoteLookup | MemoryHistory

datatype ask_memory_type = AskTask | AskPreference | AskSemantic | AskEpisodic

datatype ask_facet =
    FacetIdentity | FacetLocation | FacetEducation | FacetCareer | FacetProject | FacetLearning
  | FacetCapability | FacetDevice | FacetOther

datatype ask_time = TimeCurrent | TimeRecent | TimeHistory | TimeAll

datatype ask_evidence = CurrentState | Inventory | Timeline | SourceQuote | Aggregate

datatype answer_mode = AnswerDirect | AnswerList | AnswerTimeline | AnswerCompare | AnswerCausal | AnswerSummary

datatype context_source = CurrentMessage | SessionContext

record ask_context_item =
  context_text :: ptext
  context_source :: context_source

record query_unit =
  unit_id :: ptext
  unit_question :: ptext
  source_spans :: "ptext list"
  unit_intent :: ask_intent
  unit_memory_type :: "ask_memory_type option"
  unit_facet :: "ask_facet option"
  unit_topic :: "ptext option"
  unit_time_mode :: ask_time
  unit_evidence_mode :: ask_evidence
  need_source_evidence :: bool
  depends_on :: "ptext list"
  unit_priority :: int

record ask_plan =
  original_query :: ptext
  plan_context :: "ask_context_item list"
  plan_units :: "query_unit list"
  plan_answer_mode :: answer_mode

datatype ask_error = ValidationError

text \<open>\<open>list(dict.fromkeys(xs))\<close>\<close>

definition dict_keys :: "'a list \<Rightarrow> 'a list" where
  "dict_keys xs = rev (remdups (rev xs))"

text \<open>\<open>QueryUnit.clean_list\<close>\<close>

definition clean_list :: "ptext list \<Rightarrow> ptext list" where
  "clean_list xs = dict_keys (map norm_text (filter (\<lambda>x. split_ws [] x \<noteq> []) xs))"

definition clean_unit :: "query_unit \<Rightarrow> query_unit" where
  "clean_unit u = u\<lparr>unit_id := norm_text (unit_id u), unit_question := norm_text (unit_question u),
     unit_topic := map_option norm_text (unit_topic u), source_spans := clean_list (source_spans u),
     depends_on := clean_list (depends_on u)\<rparr>"

text \<open>The fields of \<open>QueryUnit\<close> and \<open>AskPlan\<close> with their limits.\<close>

definition unit_fits :: "query_unit \<Rightarrow> bool" where
  "unit_fits u \<longleftrightarrow> 1 \<le> length (unit_id u) \<and> length (unit_id u) \<le> 32 \<and>
     1 \<le> length (unit_question u) \<and> length (unit_question u) \<le> 500 \<and>
     length (source_spans u) \<le> 8 \<and> length (depends_on u) \<le> 6 \<and>
     (case unit_topic u of None \<Rightarrow> True | Some t \<Rightarrow> length t \<le> 160) \<and>
     1 \<le> unit_priority u \<and> unit_priority u \<le> 9"

definition plan_fits :: "ask_plan \<Rightarrow> bool" where
  "plan_fits p \<longleftrightarrow> 1 \<le> length (original_query p) \<and> length (original_query p) \<le> 2000 \<and>
     length (plan_context p) \<le> 8 \<and> 1 \<le> length (plan_units p) \<and> length (plan_units p) \<le> 16"

definition make_unit :: "query_unit \<Rightarrow> ask_error + query_unit" where
  "make_unit u = (let v = clean_unit u in if unit_fits v then Inr v else Inl ValidationError)"

text \<open>Units that are models already are taken as they are.\<close>

definition make_plan :: "ask_plan \<Rightarrow> ask_error + ask_plan" where
  "make_plan p = (if plan_fits p then Inr p else Inl ValidationError)"

record 'r ask_env =
  casefold :: "ptext \<Rightarrow> ptext"
  set_order :: "ptext list \<Rightarrow> ptext list"
  parse_plan :: "'r \<Rightarrow> ask_plan option"
  route_question :: "ptext \<Rightarrow> string \<times> string"

definition compact :: "('r, 'z) ask_env_scheme \<Rightarrow> ptext \<Rightarrow> ptext" where
  "compact A s = casefold A (filter (\<lambda>c. \<not> white c) s)"

definition has_cue :: "('r, 'z) ask_env_scheme \<Rightarrow> ptext list \<Rightarrow> ptext \<Rightarrow> bool" where
  "has_cue A cues s \<longleftrightarrow> (\<exists>cue \<in> set cues. occurs (compact A cue) s)"

subsection \<open>The fallback\<close>

definition unknown_question :: ptext where
  "unknown_question = [26597, 35810, 30456, 20851, 35760, 24405]"

definition bind_ask :: "ask_error + 'a \<Rightarrow> ('a \<Rightarrow> ask_error + 'b) \<Rightarrow> ask_error + 'b" where
  "bind_ask r f = (case r of Inl e \<Rightarrow> Inl e | Inr x \<Rightarrow> f x)"

definition safe_fallback_plan :: "ptext \<Rightarrow> ask_error + ask_plan" where
  "safe_fallback_plan question =
     (let q = (if norm_text question = [] then unknown_question else norm_text question) in
      bind_ask (make_unit \<lparr>unit_id = ascii ''u1'', unit_question = q, source_spans = [q],
          unit_intent = NoteLookup, unit_memory_type = None, unit_facet = None, unit_topic = None,
          unit_time_mode = TimeAll, unit_evidence_mode = SourceQuote, need_source_evidence = True,
          depends_on = [], unit_priority = 1\<rparr>)
        (\<lambda>u. make_plan \<lparr>original_query = q, plan_context = [], plan_units = [u],
          plan_answer_mode = AnswerDirect\<rparr>))"

subsection \<open>Repairs\<close>

fun intent_memory_type :: "ask_intent \<Rightarrow> ask_memory_type option" where
  "intent_memory_type TaskState = Some AskTask"
| "intent_memory_type TaskInventory = Some AskTask"
| "intent_memory_type PreferenceCurrent = Some AskPreference"
| "intent_memory_type SemanticCurrent = Some AskSemantic"
| "intent_memory_type SemanticHistory = Some AskSemantic"
| "intent_memory_type EpisodicHistory = Some AskEpisodic"
| "intent_memory_type NoteLookup = None"
| "intent_memory_type MemoryHistory = None"

text \<open>
  The cue words, in the order of the source: for a development over time, the present, an inventory
  and its domains, the time of an event and its actions, an unclear reference, the state of a task.
\<close>

definition timeline_cues :: "ptext list" where
  "timeline_cues = [[21382, 21490], [21464, 21270], [32463, 21382], [36807, 31243], [26102, 38388,
     32447], [20174, 24320, 22987], [20174, 26368, 21021], [20043, 21069], [21518, 26469]]"

definition current_cues :: "ptext list" where
  "current_cues = [[29616, 22312], [24403, 21069], [30446, 21069], [30524, 19979]]"

definition inventory_cues :: "ptext list" where
  "inventory_cues = [[26377, 21738, 20123], [21015, 20986], [28165, 21333]]"

definition inventory_domains :: "ptext list" where
  "inventory_domains = [[20219, 21153], [39033, 30446], [24453, 21150]]"

definition event_time_cues :: "ptext list" where
  "event_time_cues = [[20309, 26102], [20160, 20040, 26102, 20505], [25130, 27490], [21738, 22825],
     [20960, 21495]]"

definition event_action_cues :: "ptext list" where
  "event_action_cues = [[25552, 20132], [23436, 25104], [21442, 21152], [19978, 32447], [21457, 24067],
     [20132, 20184], [24320, 22987]]"

definition reference_cues :: "ptext list" where
  "reference_cues = [[37027, 20010], [36825, 20010], [37027, 20214], [36825, 20214], [23427]]"

definition task_state_cues :: "ptext list" where
  "task_state_cues = [[24590, 20040, 26679], [36827, 24230], [29366, 24577], [23436, 25104], [20570,
     23436], [36824, 35201], [26159, 21542]]"

definition episode_cues :: "ptext list" where
  "episode_cues = [[32463, 21382], [21457, 29983], [26368, 36817, 35760, 24405]]"

definition as_inventory :: "query_unit \<Rightarrow> query_unit" where
  "as_inventory u = u\<lparr>unit_intent := TaskInventory, unit_memory_type := Some AskTask,
     unit_time_mode := TimeCurrent, unit_evidence_mode := Inventory\<rparr>"

definition repair_intent :: "('r, 'z) ask_env_scheme \<Rightarrow> query_unit \<Rightarrow> ptext \<Rightarrow> query_unit" where
  "repair_intent A u question =
     (let q = compact A question; uq = compact A (unit_question u);
          asks_current = (unit_time_mode u = TimeCurrent \<and> has_cue A current_cues uq);
          timeline = (has_cue A timeline_cues q \<and> \<not> asks_current)
      in if has_cue A reference_cues q \<and> has_cue A task_state_cues q then as_inventory u
         else if timeline \<and> unit_intent u = NoteLookup \<and> has_cue A episode_cues q
         then u\<lparr>unit_intent := EpisodicHistory, unit_memory_type := Some AskEpisodic,
           unit_time_mode := TimeRecent, unit_evidence_mode := Timeline, need_source_evidence := True\<rparr>
         else if timeline \<and> unit_intent u \<notin> {EpisodicHistory, NoteLookup}
         then u\<lparr>unit_intent := MemoryHistory, unit_memory_type := None, unit_time_mode := TimeHistory,
           unit_evidence_mode := Timeline, need_source_evidence := True\<rparr>
         else if has_cue A event_time_cues q \<and> has_cue A event_action_cues q \<and>
           unit_intent u \<in> {SemanticCurrent, NoteLookup}
         then u\<lparr>unit_intent := TaskState, unit_memory_type := Some AskTask,
           unit_time_mode := TimeCurrent, unit_evidence_mode := CurrentState\<rparr>
         else if (unit_evidence_mode u = Inventory \<or> has_cue A inventory_cues q \<and> has_cue A inventory_domains q) \<and>
           unit_intent u \<in> {TaskState, SemanticCurrent, SemanticHistory, NoteLookup}
         then as_inventory u
         else u)"

text \<open>The texts of the session: its string values and those of its inner dictionaries.\<close>

datatype session_value = SessionText ptext | SessionMap "session_value list" | SessionOther

definition session_texts :: "session_value list \<Rightarrow> ptext list" where
  "session_texts vs = concat (map (\<lambda>v. case v of
       SessionText t \<Rightarrow> if split_ws [] t \<noteq> [] then [t] else []
     | SessionMap items \<Rightarrow> concat (map (\<lambda>i. case i of
           SessionText t \<Rightarrow> if split_ws [] t \<noteq> [] then [t] else [] | _ \<Rightarrow> []) items)
     | SessionOther \<Rightarrow> []) vs)"

definition supported :: "('r, 'z) ask_env_scheme \<Rightarrow> ptext \<Rightarrow> ptext list \<Rightarrow> ptext \<Rightarrow> bool" where
  "supported A question texts span \<longleftrightarrow> compact A span \<noteq> [] \<and>
     (\<exists>source \<in> set (question # texts). occurs (compact A span) (compact A source))"

definition has_supported_span :: "('r, 'z) ask_env_scheme \<Rightarrow> query_unit \<Rightarrow> ptext \<Rightarrow> ptext list \<Rightarrow> bool" where
  "has_supported_span A u question texts \<longleftrightarrow> (\<exists>span \<in> set (source_spans u). supported A question texts span)"

definition generic_ngrams :: "ptext list" where
  "generic_ngrams = [[20160, 20040], [21916, 27426], [19981, 21916], [26368, 21916], [25105, 26368],
     [29616, 22312], [24403, 21069], [30446, 21069], [21738, 37324], [24590, 20040], [21738, 20010],
     [36825, 20010], [37027, 20010], [26377, 21738]]"

fun pairs_of :: "ptext \<Rightarrow> ptext list" where
  "pairs_of (a # b # cs) = [a, b] # pairs_of (b # cs)"
| "pairs_of _ = []"

definition anchor_ngrams :: "('r, 'z) ask_env_scheme \<Rightarrow> ptext \<Rightarrow> ptext list" where
  "anchor_ngrams A s = filter (\<lambda>g. g \<notin> set generic_ngrams) (pairs_of (compact A s))"

definition repair_anchor ::
  "('r, 'z) ask_env_scheme \<Rightarrow> query_unit \<Rightarrow> ptext \<Rightarrow> ptext list \<Rightarrow> query_unit" where
  "repair_anchor A u question texts = (case find (supported A question texts) (source_spans u) of
     None \<Rightarrow> u
   | Some anchor \<Rightarrow>
       if anchor \<noteq> [] \<and> anchor_ngrams A anchor \<noteq> [] \<and>
         set (anchor_ngrams A anchor) \<inter> set (anchor_ngrams A (unit_question u)) = {}
       then u\<lparr>unit_question := anchor, unit_topic := Some anchor\<rparr> else u)"

subsection \<open>Cycles\<close>

text \<open>
  The dictionary from unit identifiers to their dependencies: a repeated identifier keeps its place
  and takes the later dependencies.
\<close>

type_synonym unit_graph = "(ptext \<times> ptext list) list"

definition unit_graph :: "query_unit list \<Rightarrow> unit_graph" where
  "unit_graph units = fold (\<lambda>u. AList.update (unit_id u) (depends_on u)) units []"

definition parents :: "unit_graph \<Rightarrow> ptext \<Rightarrow> ptext list" where
  "parents g n = (case map_of g n of None \<Rightarrow> [] | Some ps \<Rightarrow> ps)"

text \<open>
  \<open>any(visit(node) for node in nodes if node in graph)\<close>, with the bodies of the calls of \<open>visit\<close> in
  place. \<open>visited\<close> is handed on from call to call; \<open>active\<close> is restored when a call returns, so it is
  an argument only.
\<close>

function any_visit ::
  "('r, 'z) ask_env_scheme \<Rightarrow> unit_graph \<Rightarrow> ptext list \<Rightarrow> ptext list \<Rightarrow> ptext list \<Rightarrow> bool \<times> ptext list" where
  "any_visit A g active visited [] = (False, visited)"
| "any_visit A g active visited (n # ns) =
     (if n \<notin> fst ` set g then any_visit A g active visited ns
      else if n \<in> set active then (True, visited)
      else if n \<in> set visited then any_visit A g active visited ns
      else case any_visit A g (n # active) (n # visited) (set_order A (parents g n)) of
          (True, v) \<Rightarrow> (True, v)
        | (False, v) \<Rightarrow> any_visit A g active v ns)"
  by pat_completeness auto

termination
proof (relation "measures [\<lambda>(A, g, active, visited, ns). card (fst ` set g - set active),
    \<lambda>(A, g, active, visited, ns). length ns]", goal_cases)
  case (4 A g active visited n ns)
  then have "fst ` set g - set (n # active) \<subset> fst ` set g - set active" by auto
  then have "card (fst ` set g - set (n # active)) < card (fst ` set g - set active)"
    by (intro psubset_card_mono) auto
  then show ?case by simp
qed auto

definition has_cycle :: "('r, 'z) ask_env_scheme \<Rightarrow> query_unit list \<Rightarrow> bool" where
  "has_cycle A units = (let g = unit_graph units in fst (any_visit A g [] [] (map fst g)))"

subsection \<open>Validation\<close>

type_synonym unit_identity = "ask_intent \<times> ptext \<times> ask_time \<times> ask_evidence"

definition identity_of :: "('r, 'z) ask_env_scheme \<Rightarrow> query_unit \<Rightarrow> unit_identity" where
  "identity_of A u = (unit_intent u, compact A (case unit_topic u of None \<Rightarrow> [] | Some t \<Rightarrow> t),
     unit_time_mode u, unit_evidence_mode u)"

definition typed_unit :: "query_unit \<Rightarrow> query_unit option" where
  "typed_unit u = (case intent_memory_type (unit_intent u) of
     None \<Rightarrow> Some u
   | Some t \<Rightarrow> if unit_memory_type u \<notin> {None, Some t} then None
       else Some (u\<lparr>unit_memory_type := Some t\<rparr>))"

definition drop_dependencies :: "ptext list \<Rightarrow> query_unit \<Rightarrow> query_unit" where
  "drop_dependencies known u =
     u\<lparr>depends_on := filter (\<lambda>i. i \<in> set known \<and> i \<noteq> unit_id u) (depends_on u)\<rparr>"

fun accept_units ::
  "('r, 'z) ask_env_scheme \<Rightarrow> ptext \<Rightarrow> ptext list \<Rightarrow> ptext list \<Rightarrow> unit_identity list \<Rightarrow> query_unit list \<Rightarrow>
     query_unit list" where
  "accept_units A question texts known seen [] = []"
| "accept_units A question texts known seen (u # us) =
     (case typed_unit (repair_intent A u question) of
        None \<Rightarrow> accept_units A question texts known seen us
      | Some v \<Rightarrow>
        if source_spans v = [] \<or> \<not> has_supported_span A v question texts
        then accept_units A question texts known seen us
        else let w = drop_dependencies known (repair_anchor A v question texts) in
          if identity_of A w \<in> set seen then accept_units A question texts known seen us
          else w # accept_units A question texts known (identity_of A w # seen) us)"

datatype 'r raw_plan = IsPlan ask_plan | RawPlan 'r

definition unit_limit :: "int \<Rightarrow> nat" where
  "unit_limit max_units = nat (max 1 (min max_units 6))"

definition validate_ask_plan ::
  "('r, 'z) ask_env_scheme \<Rightarrow> 'r raw_plan \<Rightarrow> ptext \<Rightarrow> session_value list \<Rightarrow> int \<Rightarrow> ask_error + ask_plan" where
  "validate_ask_plan A raw question session max_units =
     (case (case raw of IsPlan p \<Rightarrow> Some p | RawPlan r \<Rightarrow> parse_plan A r) of
        None \<Rightarrow> safe_fallback_plan question
      | Some plan \<Rightarrow>
        let texts = session_texts session;
            known = map unit_id (plan_units plan);
            accepted = accept_units A question texts known [] (take (unit_limit max_units) (plan_units plan));
            units = map (drop_dependencies (map unit_id accepted)) accepted
        in if units = [] \<or> has_cycle A units then safe_fallback_plan question
           else make_plan \<lparr>original_query = norm_text question, plan_context = plan_context plan,
             plan_units = units, plan_answer_mode = plan_answer_mode plan\<rparr>)"

subsection \<open>Planning\<close>

text \<open>The domains of the fallback for a question with several goals.\<close>

definition goal_domains ::
  "(ptext list \<times> ask_intent \<times> ask_memory_type \<times> ask_facet option \<times> ptext) list" where
  "goal_domains = [
     ([[20559, 22909], [39278, 39135], [21475, 21619], [39278, 26009], [21654, 21857], [39135, 29289],
     [21507], [21917]], PreferenceCurrent, AskPreference, None, [39278, 39135, 20559, 22909]),
     ([[35774, 22791], [30005, 33041], [25163, 26426], [38190, 30424], [26174, 31034, 22120], [32819,
     26426]], SemanticCurrent, AskSemantic, Some FacetDevice, [35774, 22791]),
     ([[35821, 35328], [25216, 26415, 26632], [32534, 31243], [25797, 38271], [33021, 21147]],
     SemanticCurrent, AskSemantic, Some FacetCapability, [35821, 35328, 33021, 21147])]"

fun make_units :: "query_unit list \<Rightarrow> ask_error + query_unit list" where
  "make_units [] = Inr []"
| "make_units (u # us) = bind_ask (make_unit u) (\<lambda>v. bind_ask (make_units us) (\<lambda>vs. Inr (v # vs)))"

definition fallback_multi_goal_units :: "('r, 'z) ask_env_scheme \<Rightarrow> ptext \<Rightarrow> ask_error + query_unit list" where
  "fallback_multi_goal_units A question =
     (let matched = filter (\<lambda>(markers, _). \<exists>m \<in> set markers. occurs m (compact A question)) goal_domains in
      if length matched < 2 then Inr []
      else make_units (map (\<lambda>(i, (markers, intent, mtype, facet, label)).
        \<lparr>unit_id = ascii (CHR ''u'' # show_int (int i)), unit_question = label, source_spans = [question],
          unit_intent = intent, unit_memory_type = Some mtype, unit_facet = facet, unit_topic = Some label,
          unit_time_mode = TimeCurrent, unit_evidence_mode = CurrentState, need_source_evidence = False,
          depends_on = [], unit_priority = 1\<rparr>) (zip [1..<Suc (length matched)] matched)))"

text \<open>The table \<open>intent_map\<close>\<close>

definition route_intent ::
  "string \<times> string \<Rightarrow> ask_intent \<times> ask_memory_type option \<times> ask_time \<times> ask_evidence" where
  "route_intent route = (case route of (action, mtype) \<Rightarrow>
     if action = ''memory_history'' then (MemoryHistory, None, TimeHistory, Timeline)
     else if action = ''list_tasks'' then (TaskInventory, Some AskTask, TimeCurrent, Inventory)
     else if action = ''task_status_search'' then (TaskState, Some AskTask, TimeCurrent, CurrentState)
     else if action = ''list_recent_episodes'' then (EpisodicHistory, Some AskEpisodic, TimeRecent, Timeline)
     else if action = ''memory_search'' \<and> mtype = ''task'' then (TaskState, Some AskTask, TimeCurrent, CurrentState)
     else if action = ''memory_search'' \<and> mtype = ''preference''
       then (PreferenceCurrent, Some AskPreference, TimeCurrent, CurrentState)
     else if action = ''memory_search'' \<and> mtype = ''semantic''
       then (SemanticCurrent, Some AskSemantic, TimeCurrent, CurrentState)
     else (NoteLookup, None, TimeAll, SourceQuote))"

definition deterministic_fallback_plan :: "('r, 'z) ask_env_scheme \<Rightarrow> ptext \<Rightarrow> ask_error + ask_plan" where
  "deterministic_fallback_plan A question = bind_ask (fallback_multi_goal_units A question) (\<lambda>units.
     if units \<noteq> []
     then bind_ask (make_plan \<lparr>original_query = question, plan_context = [], plan_units = units,
         plan_answer_mode = AnswerSummary\<rparr>)
       (\<lambda>p. validate_ask_plan A (IsPlan p) question [] 4)
     else let (intent, mtype, tm, em) = route_intent (route_question A question) in
       bind_ask (make_unit \<lparr>unit_id = ascii ''u1'', unit_question = question, source_spans = [question],
           unit_intent = intent, unit_memory_type = mtype, unit_facet = None, unit_topic = None,
           unit_time_mode = tm, unit_evidence_mode = em,
           need_source_evidence = (intent \<in> {MemoryHistory, NoteLookup}), depends_on = [], unit_priority = 1\<rparr>)
         (\<lambda>u. bind_ask (make_plan \<lparr>original_query = question, plan_context = [], plan_units = [u],
             plan_answer_mode = (if intent = MemoryHistory then AnswerTimeline
               else if intent = TaskInventory then AnswerList else AnswerDirect)\<rparr>)
           (\<lambda>p. validate_ask_plan A (IsPlan p) question [] 4)))"

text \<open>
  \<open>plan_ask\<close>: two attempts with the language model; \<open>answers\<close> are its replies, None for a call that
  raises. Any exception of an attempt leads to the next one.
\<close>

fun first_plan ::
  "('r, 'z) ask_env_scheme \<Rightarrow> ptext \<Rightarrow> session_value list \<Rightarrow> int \<Rightarrow> 'r option list \<Rightarrow> ask_plan option" where
  "first_plan A question session n [] = None"
| "first_plan A question session n (None # answers) = first_plan A question session n answers"
| "first_plan A question session n (Some raw # answers) =
     (case validate_ask_plan A (RawPlan raw) question session n of
        Inr p \<Rightarrow> Some p
      | Inl e \<Rightarrow> first_plan A question session n answers)"

definition plan_ask ::
  "('r, 'z) ask_env_scheme \<Rightarrow> 'r option \<times> 'r option \<Rightarrow> ptext \<Rightarrow> session_value list \<Rightarrow> int \<Rightarrow> ask_error + ask_plan" where
  "plan_ask A answers question0 session max_units =
     (let question = norm_text question0 in
      if question = [] then safe_fallback_plan question
      else case first_plan A question session (max 1 (min max_units 6)) [fst answers, snd answers] of
          Some p \<Rightarrow> Inr p
        | None \<Rightarrow> deterministic_fallback_plan A question)"

end
