(* ===== verification/Ask_Cycles.thy ===== *)
theory Ask_Cycles
  imports Ask_Plan
begin

text \<open>
  The depth-first search of the plan validator decides whether the dependencies of the units have a
  cycle, in whatever order it goes through the dependencies of a unit.
\<close>

definition dependency :: "unit_graph \<Rightarrow> (ptext \<times> ptext) set" where
  "dependency g = {(n, p). n \<in> fst ` set g \<and> p \<in> fst ` set g \<and> p \<in> set (parents g n)}"

definition set_order_ok :: "('r, 'z) ask_env_scheme \<Rightarrow> bool" where
  "set_order_ok A \<longleftrightarrow> (\<forall>xs. set (set_order A xs) = set xs)"

lemma dependency_iff:
  "n \<in> fst ` set g \<Longrightarrow> p \<in> fst ` set g \<Longrightarrow> (n, p) \<in> dependency g \<longleftrightarrow> p \<in> set (parents g n)"
  by (simp add: dependency_def)

subsection \<open>A found cycle exists\<close>

text \<open>The active nodes form a path that ends in the node whose dependencies are visited.\<close>

fun active_path :: "unit_graph \<Rightarrow> ptext list \<Rightarrow> bool" where
  "active_path g (a # b # rest) = ((b, a) \<in> dependency g \<and> active_path g (b # rest))"
| "active_path g _ = True"

lemma active_path_reaches:
  "active_path g (a # rest) \<Longrightarrow> n \<in> set (a # rest) \<Longrightarrow> (n, a) \<in> (dependency g)\<^sup>*"
  by (induction rest arbitrary: a) (auto intro: rtrancl_into_rtrancl)

lemma any_visit_sound:
  assumes "set_order_ok A" "active_path g active"
    and "\<forall>a rest. active = a # rest \<longrightarrow> a \<in> fst ` set g \<and> set ns \<subseteq> set (parents g a)"
    and "fst (any_visit A g active visited ns)"
  shows "\<exists>n. (n, n) \<in> (dependency g)\<^sup>+"
  using assms
proof (induction A g active visited ns rule: any_visit.induct)
  case (2 A g active visited n ns)
  show ?case
  proof (cases "n \<in> fst ` set g")
    case False
    with 2 show ?thesis by auto
  next
    case n: True
    show ?thesis
    proof (cases "n \<in> set active")
      case True
      then obtain a rest where a: "active = a # rest" by (cases active) auto
      with 2(6,7) n have "(a, n) \<in> dependency g" "(n, a) \<in> (dependency g)\<^sup>*"
        using True active_path_reaches [of g a rest n] by (auto simp: dependency_iff)
      then show ?thesis by (meson rtrancl_into_trancl1)
    next
      case False
      have path: "active_path g (n # active)"
        using 2(6,7) n by (cases active) (auto simp: dependency_iff)
      show ?thesis
      proof (cases "n \<in> set visited")
        case True
        with 2 n False show ?thesis by auto
      next
        case fresh: False
        obtain found v where r: "any_visit A g (n # active) (n # visited) (set_order A (parents g n)) = (found, v)"
          by fastforce
        show ?thesis
        proof (cases found)
          case True
          show ?thesis
            by (rule 2(3)) (use n False fresh r True path 2(5) in \<open>auto simp: set_order_ok_def\<close>)
        next
          case no: False
          from 2(8) n False fresh r no have rest: "fst (any_visit A g active v ns)" by simp
          show ?thesis
            by (rule 2(4) [OF _ False fresh r [symmetric]]) (use n no rest 2(5-7) in auto)
        qed
      qed
    qed
  qed
qed simp

subsection \<open>An existing cycle is found\<close>

text \<open>\<open>cycle_free\<close>: the nodes that were left without a cycle, closed under dependencies.\<close>

definition cycle_free :: "unit_graph \<Rightarrow> ptext set \<Rightarrow> bool" where
  "cycle_free g S \<longleftrightarrow> dependency g `` S \<subseteq> S \<and> (\<forall>n \<in> S. (n, n) \<notin> (dependency g)\<^sup>+)"

lemma cycle_free_reach: "cycle_free g S \<Longrightarrow> n \<in> S \<Longrightarrow> (n, m) \<in> (dependency g)\<^sup>* \<Longrightarrow> m \<in> S"
  by (rotate_tac 2, induction rule: rtrancl_induct) (auto simp: cycle_free_def)

lemma cycle_free_insert:
  assumes "cycle_free g S" "n \<notin> S" "dependency g `` {n} \<subseteq> S"
  shows "cycle_free g (insert n S)"
proof -
  have "(n, n) \<notin> (dependency g)\<^sup>+"
  proof
    assume "(n, n) \<in> (dependency g)\<^sup>+"
    then obtain m where "(n, m) \<in> dependency g" "(m, n) \<in> (dependency g)\<^sup>*" by (metis tranclD)
    with assms cycle_free_reach show False by (metis ImageI insertI1 singletonI subsetD)
  qed
  with assms show ?thesis by (auto simp: cycle_free_def)
qed

lemma any_visit_complete:
  assumes "set_order_ok A" "any_visit A g active visited ns = (False, v)"
    and "cycle_free g (set visited - set active)" "set active \<subseteq> set visited"
  shows "cycle_free g (set v - set active) \<and> set visited \<subseteq> set v \<and> set ns \<inter> fst ` set g \<subseteq> set v - set active"
  using assms
proof (induction A g active visited ns arbitrary: v rule: any_visit.induct)
  case (2 A g active visited n ns)
  show ?case
  proof (cases "n \<in> fst ` set g")
    case False
    with 2 show ?thesis by auto
  next
    case n: True
    with 2(6) have na: "n \<notin> set active" by auto
    show ?thesis
    proof (cases "n \<in> set visited")
      case True
      with 2 n na show ?thesis by auto
    next
      case fresh: False
      obtain found w where r: "any_visit A g (n # active) (n # visited) (set_order A (parents g n)) = (found, w)"
        by fastforce
      with 2(6) n na fresh have f: "\<not> found" and rest: "any_visit A g active w ns = (False, v)"
        by (auto split: prod.splits bool.splits)
      have "set (n # visited) - set (n # active) = set visited - set active" using fresh by auto
      with 2(3) [OF _ _ _ 2(5), of w] r f n na fresh 2(7,8)
      have w: "cycle_free g (set w - set (n # active))" "set (n # visited) \<subseteq> set w"
        "set (set_order A (parents g n)) \<inter> fst ` set g \<subseteq> set w - set (n # active)" by auto
      have "dependency g `` {n} \<subseteq> set w - set (n # active)"
        using w(3) 2(5) by (auto simp: set_order_ok_def dependency_def)
      from cycle_free_insert [OF w(1) _ this] have "cycle_free g (insert n (set w - set (n # active)))" by simp
      moreover have "insert n (set w - set (n # active)) = set w - set active" using w(2) na by auto
      ultimately have s: "cycle_free g (set w - set active)" by simp
      have sub: "set active \<subseteq> set w" using w(2) 2(8) by auto
      have "cycle_free g (set v - set active) \<and> set w \<subseteq> set v \<and> set ns \<inter> fst ` set g \<subseteq> set v - set active"
        by (rule 2(4)) (use n na fresh r f rest s sub 2(5) in simp_all)
      then show ?thesis using n na w(2) by auto
    qed
  qed
qed simp

subsection \<open>The dependencies of a list of units\<close>

text \<open>Of several units with one identifier the last one counts.\<close>

definition unit_dependency :: "query_unit list \<Rightarrow> (ptext \<times> ptext) set" where
  "unit_dependency units = {(n, p). p \<in> unit_id ` set units \<and> (\<exists>us u vs. units = us @ u # vs \<and>
     unit_id u = n \<and> n \<notin> unit_id ` set vs \<and> p \<in> set (depends_on u))}"

lemma unit_graph_snoc: "unit_graph (us @ [u]) = AList.update (unit_id u) (depends_on u) (unit_graph us)"
  by (simp add: unit_graph_def)

lemma unit_graph_keys: "fst ` set (unit_graph units) = unit_id ` set units"
  by (induction units rule: rev_induct) (simp_all add: unit_graph_snoc dom_update, simp add: unit_graph_def)

lemma parents_unit_graph:
  "parents (unit_graph (us @ u # vs)) n = depends_on u"
  if "unit_id u = n" "n \<notin> unit_id ` set vs"
  using that
proof (induction vs rule: rev_induct)
  case Nil
  then show ?case by (simp add: unit_graph_snoc parents_def update_conv')
next
  case (snoc v vs)
  then have "parents (unit_graph ((us @ u # vs) @ [v])) n = depends_on u"
    unfolding unit_graph_snoc by (auto simp: parents_def update_conv')
  then show ?case by simp
qed

lemma last_unit: "n \<in> unit_id ` set units \<Longrightarrow>
    \<exists>us u vs. units = us @ u # vs \<and> unit_id u = n \<and> n \<notin> unit_id ` set vs"
proof (induction units rule: rev_induct)
  case (snoc v units)
  show ?case
  proof (cases "unit_id v = n")
    case True
    then show ?thesis by (intro exI [of _ units] exI [of _ v] exI [of _ "[]"]) simp
  next
    case False
    with snoc obtain us u vs where "units = us @ u # vs" "unit_id u = n" "n \<notin> unit_id ` set vs" by auto
    with False show ?thesis by (intro exI [of _ us] exI [of _ u] exI [of _ "vs @ [v]"]) simp
  qed
qed simp

lemma dependency_unit_graph: "dependency (unit_graph units) = unit_dependency units"
proof (rule set_eqI, clarify)
  fix n p
  show "(n, p) \<in> dependency (unit_graph units) \<longleftrightarrow> (n, p) \<in> unit_dependency units"
  proof (cases "n \<in> unit_id ` set units")
    case True
    then obtain us u vs where u: "units = us @ u # vs" "unit_id u = n" "n \<notin> unit_id ` set vs"
      using last_unit by metis
    have "parents (unit_graph units) n = depends_on x"
      if "units = xs @ x # ys" "unit_id x = n" "n \<notin> unit_id ` set ys" for xs x ys
      using parents_unit_graph [OF that(2,3), of xs] that(1) by simp
    with u have "(\<exists>us u vs. units = us @ u # vs \<and> unit_id u = n \<and> n \<notin> unit_id ` set vs \<and> p \<in> set (depends_on u)) \<longleftrightarrow>
        p \<in> set (parents (unit_graph units) n)" by metis
    then show ?thesis
      unfolding dependency_def unit_dependency_def unit_graph_keys using True by simp
  next
    case False
    then show ?thesis by (auto simp: dependency_def unit_dependency_def unit_graph_keys)
  qed
qed

lemma has_cycle_iff:
  assumes "set_order_ok A"
  shows "has_cycle A units \<longleftrightarrow> \<not> acyclic (unit_dependency units)"
proof
  assume "has_cycle A units"
  then have "\<exists>n. (n, n) \<in> (dependency (unit_graph units))\<^sup>+"
    by (intro any_visit_sound [OF assms, of _ "[]" "map fst (unit_graph units)" "[]"])
      (simp_all add: has_cycle_def Let_def)
  then show "\<not> acyclic (unit_dependency units)" by (auto simp: acyclic_def dependency_unit_graph)
next
  assume c: "\<not> acyclic (unit_dependency units)"
  show "has_cycle A units"
  proof (rule ccontr)
    assume "\<not> has_cycle A units"
    then obtain v where v: "any_visit A (unit_graph units) [] [] (map fst (unit_graph units)) = (False, v)"
      by (cases "any_visit A (unit_graph units) [] [] (map fst (unit_graph units))")
        (auto simp: has_cycle_def Let_def)
    from any_visit_complete [OF assms v] have s: "cycle_free (unit_graph units) (set v)"
      "unit_id ` set units \<subseteq> set v" by (auto simp: cycle_free_def unit_graph_keys)
    from c obtain n where n: "(n, n) \<in> (dependency (unit_graph units))\<^sup>+"
      by (auto simp: acyclic_def dependency_unit_graph)
    then obtain m where "(n, m) \<in> dependency (unit_graph units)" by (metis tranclD)
    then have "n \<in> unit_id ` set units" by (simp add: dependency_def unit_graph_keys)
    with s n show False by (auto simp: cycle_free_def)
  qed
qed

end
