(* ===== verification/Ask_Guarantees.thy ===== *)
theory Ask_Guarantees
  imports Ask_Cycles
begin

text \<open>
  What a validated plan promises to the search that follows: it is bounded, each unit is grounded in
  the words of the user, the memory types fit the intents, and the dependencies can be followed.
\<close>

text \<open>
  C13: the depth-first search of the validator is exact. In whatever order Python goes through the
  dependency sets, \<open>has_cycle\<close> answers True exactly if the dependencies of the units have a cycle,
  where the last of several units with one identifier counts.
\<close>

theorem cycle_check_exact:
  assumes "set_order_ok A"
  shows "has_cycle A units \<longleftrightarrow> \<not> acyclic (unit_dependency units)"
  by (rule has_cycle_iff [OF assms])

subsection \<open>White space\<close>

definition visible :: "ptext \<Rightarrow> ptext" where
  "visible s = filter (\<lambda>c. \<not> white c) s"

lemma join_words_visible: "visible (join_words ws) = concat (map visible ws)"
  by (induction ws rule: join_words.induct) (simp_all add: visible_def white_def)

lemma split_ws_visible: "list_all (\<lambda>c. \<not> white c) word \<Longrightarrow>
    concat (map visible (split_ws word s)) = rev word @ visible s"
  by (induction word s rule: split_ws.induct) (auto simp: visible_def list_all_iff filter_id_conv)

lemma visible_norm: "visible (norm_text s) = visible s"
  by (simp add: norm_text_def join_words_visible split_ws_visible)

definition word_ok :: "ptext \<Rightarrow> bool" where
  "word_ok w \<longleftrightarrow> w \<noteq> [] \<and> list_all (\<lambda>c. \<not> white c) w"

lemma split_ws_words:
  assumes "list_all (\<lambda>c. \<not> white c) word"
  shows "list_all word_ok (split_ws word s)"
  using assms by (induction word s rule: split_ws.induct) (simp_all add: word_ok_def)

lemma split_ws_word: "list_all (\<lambda>c. \<not> white c) w \<Longrightarrow> split_ws word (w @ s) = split_ws (rev w @ word) s"
  by (induction w arbitrary: word) auto

lemma split_ws_join: "list_all word_ok ws \<Longrightarrow> split_ws [] (join_words ws) = ws"
proof (induction ws rule: join_words.induct)
  case (2 w)
  then show ?case using split_ws_word [of w "[]" "[]"] by (simp add: word_ok_def)
next
  case (3 w v vs)
  then show ?case using split_ws_word [of w "[]" "32 # join_words (v # vs)"]
    by (simp add: white_def word_ok_def)
qed simp

lemma norm_norm [simp]: "norm_text (norm_text s) = norm_text s"
  using split_ws_join [OF split_ws_words [of "[]" s]] by (simp add: norm_text_def)

lemma split_empty: "split_ws [] s = [] \<longleftrightarrow> norm_text s = []"
  using split_ws_words [of "[]" s]
  by (cases "split_ws [] s" rule: join_words.cases) (auto simp: norm_text_def word_ok_def)

lemma norm_empty: "norm_text s = [] \<longleftrightarrow> visible s = []"
proof
  assume v: "visible s = []"
  show "norm_text s = []"
  proof (rule ccontr)
    assume "norm_text s \<noteq> []"
    then obtain w ws where w: "split_ws [] s = w # ws" using split_empty [of s] by (cases "split_ws [] s") auto
    have "word_ok w" using split_ws_words [of "[]" s] w by simp
    then have "visible w = w" "w \<noteq> []" by (simp_all add: word_ok_def visible_def filter_id_conv list_all_iff)
    moreover have "visible w @ concat (map visible ws) = visible s" using split_ws_visible [of "[]" s] w by simp
    ultimately show False using v by simp
  qed
next
  assume "norm_text s = []"
  then show "visible s = []" using visible_norm [of s] by (simp add: visible_def)
qed

lemma compact_norm [simp]: "compact A (norm_text s) = compact A s"
  using visible_norm [of s] by (simp add: compact_def visible_def)

lemma occurs_refl: "occurs s s"
  by (cases s) auto

subsection \<open>Accepted units\<close>

definition casefold_ok :: "('r, 'z) ask_env_scheme \<Rightarrow> bool" where
  "casefold_ok A \<longleftrightarrow> (\<forall>s. s \<noteq> [] \<longrightarrow> casefold A s \<noteq> [])"

definition parse_ok :: "('r, 'z) ask_env_scheme \<Rightarrow> bool" where
  "parse_ok A \<longleftrightarrow> (\<forall>r p. parse_plan A r = Some p \<longrightarrow> plan_fits p)"

definition unit_sound :: "('r, 'z) ask_env_scheme \<Rightarrow> ptext \<Rightarrow> ptext list \<Rightarrow> ptext set \<Rightarrow> query_unit \<Rightarrow> bool" where
  "unit_sound A question texts ids u \<longleftrightarrow> has_supported_span A u question texts \<and>
     (intent_memory_type (unit_intent u) = None \<or> unit_memory_type u = intent_memory_type (unit_intent u)) \<and>
     set (depends_on u) \<subseteq> ids - {unit_id u}"

definition plan_sound :: "('r, 'z) ask_env_scheme \<Rightarrow> ptext \<Rightarrow> ptext list \<Rightarrow> nat \<Rightarrow> ask_plan \<Rightarrow> bool" where
  "plan_sound A question texts n p \<longleftrightarrow> original_query p = norm_text question \<and>
     1 \<le> length (plan_units p) \<and> length (plan_units p) \<le> n \<and>
     list_all (unit_sound A question texts (unit_id ` set (plan_units p))) (plan_units p) \<and>
     distinct (map (identity_of A) (plan_units p)) \<and> acyclic (unit_dependency (plan_units p))"

lemma repair_anchor_sel [simp]:
  "source_spans (repair_anchor A u q texts) = source_spans u"
  "unit_intent (repair_anchor A u q texts) = unit_intent u"
  "unit_memory_type (repair_anchor A u q texts) = unit_memory_type u"
  by (simp_all add: repair_anchor_def split: option.split)

lemma drop_dependencies_sel [simp]:
  "source_spans (drop_dependencies known u) = source_spans u"
  "unit_intent (drop_dependencies known u) = unit_intent u"
  "unit_memory_type (drop_dependencies known u) = unit_memory_type u"
  "unit_id (drop_dependencies known u) = unit_id u"
  "identity_of A (drop_dependencies known u) = identity_of A u"
  "set (depends_on (drop_dependencies known u)) = set (depends_on u) \<inter> set known - {unit_id u}"
  by (auto simp: drop_dependencies_def identity_of_def)

lemma typed_unit_Some:
  "typed_unit u = Some v \<Longrightarrow> unit_intent v = unit_intent u \<and>
     (intent_memory_type (unit_intent v) = None \<or> unit_memory_type v = intent_memory_type (unit_intent v))"
  by (auto simp: typed_unit_def split: option.splits if_splits)

lemma supported_drop [simp]:
  "has_supported_span A (drop_dependencies known u) q texts = has_supported_span A u q texts"
  "has_supported_span A (repair_anchor A u q texts) q texts = has_supported_span A u q texts"
  by (simp_all add: has_supported_span_def)

lemma accept_units_props:
  "length (accept_units A q texts known seen us) \<le> length us \<and>
   list_all (unit_sound A q texts (set known)) (accept_units A q texts known seen us) \<and>
   distinct (map (identity_of A) (accept_units A q texts known seen us)) \<and>
   identity_of A ` set (accept_units A q texts known seen us) \<inter> set seen = {}"
proof (induction A q texts known seen us rule: accept_units.induct)
  case (2 A q texts known seen u us)
  show ?case
  proof (cases "typed_unit (repair_intent A u q)")
    case None
    with 2(1) [OF None] show ?thesis by auto
  next
    case (Some v)
    let ?w = "drop_dependencies known (repair_anchor A v q texts)"
    show ?thesis
    proof (cases "source_spans v = [] \<or> \<not> has_supported_span A v q texts")
      case True
      with 2(2) [OF Some True] Some show ?thesis by auto
    next
      case False
      have w: "unit_sound A q texts (set known) ?w"
        using False typed_unit_Some [OF Some] by (auto simp: unit_sound_def)
      show ?thesis
      proof (cases "identity_of A ?w \<in> set seen")
        case True
        with 2(3) [OF Some False refl True] Some False show ?thesis by auto
      next
        case fresh: False
        with 2(4) [OF Some False refl fresh] Some False w show ?thesis by (auto simp: Let_def)
      qed
    qed
  qed
qed simp

lemma unit_sound_ids: "unit_sound A q texts known u \<Longrightarrow> ids = set xs \<Longrightarrow> unit_sound A q texts ids (drop_dependencies xs u)"
  by (auto simp: unit_sound_def)

lemma fallback_sound:
  assumes "casefold_ok A" and "norm_text question \<noteq> []" and "length (norm_text question) \<le> 500"
  shows "\<exists>p. safe_fallback_plan question = Inr p \<and> plan_sound A question texts (Suc n) p"
proof -
  let ?q = "norm_text question"
  let ?u = "\<lparr>unit_id = ascii ''u1'', unit_question = ?q, source_spans = [?q],
      unit_intent = NoteLookup, unit_memory_type = None, unit_facet = None, unit_topic = None,
      unit_time_mode = TimeAll, unit_evidence_mode = SourceQuote, need_source_evidence = True,
      depends_on = [], unit_priority = 1\<rparr>"
  have id: "norm_text (ascii ''u1'') = ascii ''u1''" by code_simp
  have "clean_unit ?u = ?u"
    using assms(2) by (simp add: clean_unit_def clean_list_def dict_keys_def split_empty id)
  moreover have "unit_fits ?u"
    using assms by (auto simp: unit_fits_def ascii_def Suc_le_eq)
  ultimately have "safe_fallback_plan question = Inr \<lparr>original_query = ?q, plan_context = [],
      plan_units = [?u], plan_answer_mode = AnswerDirect\<rparr>"
    using assms by (simp add: safe_fallback_plan_def Let_def make_unit_def bind_ask_def make_plan_def plan_fits_def
        Suc_le_eq)
  moreover have "compact A question \<noteq> []"
    using assms(1,2) norm_empty [of question] by (simp add: compact_def visible_def casefold_ok_def)
  then have "has_supported_span A ?u question texts"
    by (auto simp: has_supported_span_def supported_def occurs_refl)
  moreover have "acyclic (unit_dependency [?u])"
    by (simp add: acyclic_def unit_dependency_def append_eq_Cons_conv Cons_eq_append_conv)
  ultimately show ?thesis by (simp add: plan_sound_def unit_sound_def)
qed

lemma validate_sound:
  assumes ok: "set_order_ok A" "casefold_ok A"
    and q: "norm_text question \<noteq> []" "length (norm_text question) \<le> 500"
    and fits: "(case raw of IsPlan p \<Rightarrow> plan_fits p | RawPlan r \<Rightarrow> parse_ok A)"
  shows "\<exists>p. validate_ask_plan A raw question session n = Inr p \<and>
    plan_sound A question (session_texts session) (unit_limit n) p"
proof -
  have lim: "unit_limit n = Suc (unit_limit n - 1)" "unit_limit n \<le> 6" by (auto simp: unit_limit_def)
  have fb: "\<exists>p. safe_fallback_plan question = Inr p \<and> plan_sound A question (session_texts session) (unit_limit n) p"
    using fallback_sound [OF ok(2) q] lim(1) by metis
  show ?thesis
  proof (cases "case raw of IsPlan p \<Rightarrow> Some p | RawPlan r \<Rightarrow> parse_plan A r")
    case None
    with fb show ?thesis by (simp add: validate_ask_plan_def)
  next
    case (Some plan)
    define acc where "acc = accept_units A question (session_texts session) (map unit_id (plan_units plan)) []
      (take (unit_limit n) (plan_units plan))"
    define us where "us = map (drop_dependencies (map unit_id acc)) acc"
    have plan: "length (plan_context plan) \<le> 8"
      using fits Some by (auto simp: plan_fits_def parse_ok_def split: raw_plan.splits)
    have acc: "length acc \<le> unit_limit n" "distinct (map (identity_of A) acc)"
      "list_all (unit_sound A question (session_texts session) (set (map unit_id (plan_units plan)))) acc"
      using accept_units_props [of A question "session_texts session" "map unit_id (plan_units plan)" "[]"
          "take (unit_limit n) (plan_units plan)"] by (simp_all add: acc_def)
    have ids: "unit_id ` set us = set (map unit_id acc)" by (simp add: us_def image_image)
    show ?thesis
    proof (cases "us = [] \<or> has_cycle A us")
      case True
      with fb Some show ?thesis by (simp add: validate_ask_plan_def Let_def us_def acc_def)
    next
      case False
      let ?p = "\<lparr>original_query = norm_text question, plan_context = plan_context plan, plan_units = us,
        plan_answer_mode = plan_answer_mode plan\<rparr>"
      have "length us \<le> unit_limit n" "us \<noteq> []" using acc(1) False by (simp_all add: us_def)
      moreover have "list_all (unit_sound A question (session_texts session) (unit_id ` set us)) us"
        by (simp add: list_all_iff, simp add: us_def, use acc(3) ids in \<open>auto simp: list_all_iff us_def intro: unit_sound_ids\<close>)
      moreover have "distinct (map (identity_of A) us)" using acc(2) by (simp add: us_def o_def)
      moreover have "acyclic (unit_dependency us)" using False has_cycle_iff [OF ok(1)] by blast
      ultimately have s: "plan_sound A question (session_texts session) (unit_limit n) ?p"
        by (cases us) (simp_all add: plan_sound_def)
      have "plan_fits ?p"
        using q plan \<open>length us \<le> unit_limit n\<close> \<open>us \<noteq> []\<close> lim(2) by (simp add: plan_fits_def Suc_le_eq)
      then have "validate_ask_plan A raw question session n = Inr ?p"
        using Some False by (simp add: validate_ask_plan_def Let_def us_def acc_def make_plan_def)
      with s show ?thesis by blast
    qed
  qed
qed

subsection \<open>Planning\<close>

lemma plan_sound_mono: "plan_sound A q texts n p \<Longrightarrow> n \<le> m \<Longrightarrow> set texts \<subseteq> set texts' \<Longrightarrow> plan_sound A q texts' m p"
  by (auto simp: plan_sound_def unit_sound_def has_supported_span_def supported_def list_all_iff; blast)

lemma clean_list_length: "length (clean_list xs) \<le> length xs"
proof -
  have "length (clean_list xs) \<le> length (filter (\<lambda>x. split_ws [] x \<noteq> []) xs)"
    using length_remdups_leq [of "rev (map norm_text (filter (\<lambda>x. split_ws [] x \<noteq> []) xs))"]
    by (simp add: clean_list_def dict_keys_def)
  then show ?thesis by (rule le_trans) simp
qed

lemma make_units_all: "\<forall>u \<in> set us. \<exists>v. make_unit u = Inr v \<Longrightarrow> \<exists>vs. make_units us = Inr vs \<and> length vs = length us"
  by (induction us) (auto simp: bind_ask_def)

definition goal_unit :: "ptext \<Rightarrow> nat \<times> ptext list \<times> ask_intent \<times> ask_memory_type \<times> ask_facet option \<times> ptext \<Rightarrow> query_unit" where
  "goal_unit question = (\<lambda>(i, (markers, intent, mtype, facet, label)).
        \<lparr>unit_id = ascii (CHR ''u'' # show_int (int i)), unit_question = label, source_spans = [question],
          unit_intent = intent, unit_memory_type = Some mtype, unit_facet = facet, unit_topic = Some label,
          unit_time_mode = TimeCurrent, unit_evidence_mode = CurrentState, need_source_evidence = False,
          depends_on = [], unit_priority = 1\<rparr>)"

lemma goal_ids: "i \<in> {1, 2, 3} \<Longrightarrow> norm_text (ascii (CHR ''u'' # show_int (int i))) \<noteq> [] \<and>
    length (norm_text (ascii (CHR ''u'' # show_int (int i)))) \<le> 32"
proof -
  have "list_all (\<lambda>i. norm_text (ascii (CHR ''u'' # show_int (int i))) \<noteq> [] \<and>
    length (norm_text (ascii (CHR ''u'' # show_int (int i)))) \<le> 32) [1, 2, 3]" by code_simp
  then show "i \<in> {1, 2, 3} \<Longrightarrow> ?thesis" by auto
qed

lemma goal_labels: "d \<in> set goal_domains \<Longrightarrow> (case d of (markers, intent, mtype, facet, label) \<Rightarrow>
    norm_text label \<noteq> [] \<and> length (norm_text label) \<le> 160)"
proof -
  have "list_all (\<lambda>(markers, intent, mtype, facet, label). norm_text label \<noteq> [] \<and> length (norm_text label) \<le> 160)
    goal_domains" by code_simp
  then show "d \<in> set goal_domains \<Longrightarrow> ?thesis" by (auto simp: list_all_iff)
qed

lemma goal_unit_made:
  assumes "i \<in> {1, 2, 3}" "d \<in> set goal_domains"
  shows "\<exists>v. make_unit (goal_unit question (i, d)) = Inr v"
proof -
  have c: "length (clean_list [question]) \<le> 8" using clean_list_length [of "[question]"] by simp
  have e: "clean_list [] = []" by (simp add: clean_list_def dict_keys_def)
  obtain markers intent mtype facet label where d: "d = (markers, intent, mtype, facet, label)" by (cases d) auto
  from goal_ids [OF assms(1)] goal_labels [OF assms(2)] c
  have "unit_fits (clean_unit (goal_unit question (i, d)))"
    by (simp add: d goal_unit_def clean_unit_def unit_fits_def e Suc_le_eq)
  then show ?thesis by (simp add: make_unit_def Let_def)
qed

lemma multi_goal_units: "\<exists>us. fallback_multi_goal_units A question = Inr us \<and> length us \<le> 3"
proof (cases "length (filter (\<lambda>(markers, _). \<exists>m \<in> set markers. occurs m (compact A question)) goal_domains) < 2")
  case True
  then show ?thesis by (simp add: fallback_multi_goal_units_def Let_def)
next
  case False
  let ?m = "filter (\<lambda>(markers, _). \<exists>m \<in> set markers. occurs m (compact A question)) goal_domains"
  have l: "length ?m \<le> 3" by (rule le_trans [OF length_filter_le]) (simp add: goal_domains_def)
  have "\<exists>v. make_unit u = Inr v" if u: "u \<in> set (map (goal_unit question) (zip [1..<Suc (length ?m)] ?m))" for u
  proof -
    from u obtain i d where i: "u = goal_unit question (i, d)" "(i, d) \<in> set (zip [1..<Suc (length ?m)] ?m)" by auto
    then have "i \<in> set [1..<Suc (length ?m)]" "d \<in> set ?m" by (auto dest: set_zip_leftD set_zip_rightD)
    then have "i \<in> {1, 2, 3}" "d \<in> set goal_domains" using l by auto
    then show ?thesis using goal_unit_made i(1) by blast
  qed
  then obtain vs where vs: "make_units (map (goal_unit question) (zip [1..<Suc (length ?m)] ?m)) = Inr vs"
      "length vs = length (map (goal_unit question) (zip [1..<Suc (length ?m)] ?m))"
    using make_units_all [of "map (goal_unit question) (zip [1..<Suc (length ?m)] ?m)"] by blast
  then have "length vs \<le> 3" using l by simp
  with vs(1) False show ?thesis by (simp add: fallback_multi_goal_units_def Let_def goal_unit_def)
qed

lemma question_unit_made:
  assumes "q \<noteq> []" "norm_text q = q" "length q \<le> 500" "priority = 1"
  shows "\<exists>v. make_unit \<lparr>unit_id = ascii ''u1'', unit_question = q, source_spans = [q], unit_intent = intent,
    unit_memory_type = mtype, unit_facet = None, unit_topic = None, unit_time_mode = tm, unit_evidence_mode = em,
    need_source_evidence = need, depends_on = [], unit_priority = priority\<rparr> = Inr v"
proof -
  have id: "norm_text (ascii ''u1'') = ascii ''u1''" "ascii ''u1'' = [117, 49]" by code_simp+
  have "clean_list [q] = [q]" "clean_list [] = []" using assms by (simp_all add: clean_list_def dict_keys_def split_empty)
  then show ?thesis using assms
    by (simp add: make_unit_def clean_unit_def unit_fits_def id(1) Suc_le_eq, simp add: id(2))
qed

lemma deterministic_sound:
  assumes ok: "set_order_ok A" "casefold_ok A"
    and q: "q \<noteq> []" "norm_text q = q" "length q \<le> 500"
  shows "\<exists>p. deterministic_fallback_plan A q = Inr p \<and> plan_sound A q [] 4 p"
proof -
  have v: "\<exists>p. validate_ask_plan A (IsPlan pl) q [] 4 = Inr p \<and> plan_sound A q [] 4 p" if "plan_fits pl" for pl
    using validate_sound [OF ok, of q "IsPlan pl" "[]" 4] q that by (simp add: session_texts_def unit_limit_def)
  obtain us where us: "fallback_multi_goal_units A q = Inr us" "length us \<le> 3" using multi_goal_units by blast
  show ?thesis
  proof (cases "us = []")
    case False
    let ?pl = "\<lparr>original_query = q, plan_context = [], plan_units = us, plan_answer_mode = AnswerSummary\<rparr>"
    have "plan_fits ?pl" using us q False by (simp add: plan_fits_def Suc_le_eq)
    with v [OF this] us False show ?thesis by (simp add: deterministic_fallback_plan_def bind_ask_def make_plan_def)
  next
    case True
    obtain intent mtype tm em where r: "route_intent (route_question A q) = (intent, mtype, tm, em)"
      by (cases "route_intent (route_question A q)") auto
    obtain u where u: "make_unit \<lparr>unit_id = ascii ''u1'', unit_question = q, source_spans = [q], unit_intent = intent,
        unit_memory_type = mtype, unit_facet = None, unit_topic = None, unit_time_mode = tm, unit_evidence_mode = em,
        need_source_evidence = (intent \<in> {MemoryHistory, NoteLookup}), depends_on = [], unit_priority = 1\<rparr> = Inr u"
      using question_unit_made [OF q refl] by blast
    let ?pl = "\<lparr>original_query = q, plan_context = [], plan_units = [u], plan_answer_mode =
      (if intent = MemoryHistory then AnswerTimeline else if intent = TaskInventory then AnswerList else AnswerDirect)\<rparr>"
    have "plan_fits ?pl" using q by (simp add: plan_fits_def Suc_le_eq)
    with v [OF this] us(1) True r u show ?thesis
      by (simp add: deterministic_fallback_plan_def bind_ask_def make_plan_def)
  qed
qed

lemma first_plan_sound:
  assumes "set_order_ok A" "casefold_ok A" "parse_ok A" "norm_text q \<noteq> []" "length (norm_text q) \<le> 500"
  shows "first_plan A q session n answers = Some p \<Longrightarrow> plan_sound A q (session_texts session) (unit_limit n) p"
proof (induction answers)
  case (Cons raw answers)
  show ?case
  proof (cases raw)
    case None
    with Cons show ?thesis by simp
  next
    case (Some r)
    from validate_sound [OF assms(1,2,4,5), of "RawPlan r" session n] assms(3) obtain p' where
      "validate_ask_plan A (RawPlan r) q session n = Inr p'"
      "plan_sound A q (session_texts session) (unit_limit n) p'" by auto
    with Cons.prems Some show ?thesis by simp
  qed
qed simp

lemma plan_sound_norm: "plan_sound A (norm_text q) texts n p = plan_sound A q texts n p"
  by (simp add: plan_sound_def unit_sound_def [abs_def] has_supported_span_def supported_def)


text \<open>
  The fallback does not hold what its name promises for longer questions: the note lookup it makes
  breaks the limit of its own model, and so does the deterministic plan.
\<close>

lemma long_question_raises:
  assumes "500 < length (norm_text question)" and "fallback_multi_goal_units A (norm_text question) = Inr []"
  shows "safe_fallback_plan question = Inl ValidationError \<and>
    plan_ask A (None, None) question session n = Inl ValidationError"
proof -
  have "norm_text question \<noteq> []" using assms(1) by auto
  with assms show ?thesis
    by (auto simp: safe_fallback_plan_def plan_ask_def deterministic_fallback_plan_def Let_def bind_ask_def
        make_unit_def clean_unit_def unit_fits_def split: prod.splits)
qed

subsection \<open>A plan\<close>

definition demo_ask :: "ask_plan ask_env" where
  "demo_ask = \<lparr>casefold = (\<lambda>s. s), set_order = (\<lambda>xs. xs),
     parse_plan = (\<lambda>p. if plan_fits p then Some p else None), route_question = (\<lambda>_. ([], []))\<rparr>"

definition demo_unit :: "string \<Rightarrow> string \<Rightarrow> string list \<Rightarrow> query_unit" where
  "demo_unit i span deps = \<lparr>unit_id = ascii i, unit_question = ascii span, source_spans = [ascii span],
     unit_intent = SemanticCurrent, unit_memory_type = None, unit_facet = None, unit_topic = Some (ascii span),
     unit_time_mode = TimeCurrent, unit_evidence_mode = CurrentState, need_source_evidence = False,
     depends_on = map ascii deps, unit_priority = 1\<rparr>"

definition demo_answer :: "string list \<Rightarrow> ask_plan" where
  "demo_answer deps = \<lparr>original_query = ascii ''x'', plan_context = [],
     plan_units = [demo_unit ''a'' ''my job'' deps, demo_unit ''b'' ''my town'' [''a'', ''c'']],
     plan_answer_mode = AnswerList\<rparr>"

lemma demo_ask_ok: "set_order_ok demo_ask" "casefold_ok demo_ask" "parse_ok demo_ask"
  by (simp_all add: set_order_ok_def casefold_ok_def parse_ok_def demo_ask_def)

lemma cycle_check_exact_witness:
  "\<not> acyclic (unit_dependency [demo_unit ''a'' ''x'' [''b''], demo_unit ''b'' ''y'' [''a'']]) \<and>
   acyclic (unit_dependency [demo_unit ''a'' ''x'' [], demo_unit ''b'' ''y'' [''a'']])"
proof -
  have "has_cycle demo_ask [demo_unit ''a'' ''x'' [''b''], demo_unit ''b'' ''y'' [''a'']]"
    "\<not> has_cycle demo_ask [demo_unit ''a'' ''x'' [], demo_unit ''b'' ''y'' [''a'']]" by code_simp+
  then show ?thesis using cycle_check_exact [OF demo_ask_ok(1)] by blast
qed


end
