(* ===== verification/Memory_Workflow.thy ===== *)
theory Memory_Workflow
  imports Handlers
begin

text \<open>
  Cases that wait for the user, their notifications and the quality cases of the memory subsystem
  (\<open>memory/workflow_state.py\<close>, \<open>memory/workflow.py\<close>, \<open>memory/runtime_workflow.py\<close>). The table
  \<open>memory_workflow_state\<close> is kept by kind, as lists of rows under space and identifier; each operation of
  \<open>workflow.py\<close> is one or more transactions, which hold the lock of the space. \<open>stable_id\<close> is the digest
  of a JSON list; the prompts that are fingerprinted and the extractor mode are fields of \<open>flow_env\<close>.
  The clock's text is the argument \<open>now\<close>. The branch of \<open>flush_notifications\<close> for installations without
  PostgreSQL is not modelled.
\<close>

subsection \<open>The state table\<close>

datatype wf_value =
  VNull | VText string | VBool bool | VInt int | VList "wf_value list" | VDict "(string \<times> wf_value) list"

type_synonym 'r flow_table = "((string \<times> string) \<times> 'r) list"

definition flow_get :: "string \<Rightarrow> string \<Rightarrow> 'r flow_table \<Rightarrow> 'r option" where
  "flow_get space key t = map_of t (space, key)"

definition flow_put :: "string \<Rightarrow> string \<Rightarrow> 'r \<Rightarrow> 'r flow_table \<Rightarrow> 'r flow_table" where
  "flow_put space key r t = AList.update (space, key) r t"

text \<open>\<open>State.list\<close>: the rows of a space, ORDER BY id.\<close>

definition flow_list :: "string \<Rightarrow> 'r flow_table \<Rightarrow> 'r list" where
  "flow_list space t = map snd (sort_key (snd \<circ> fst) (filter (\<lambda>((s, k), r). s = space) t))"

text \<open>A note: the entries that are read, and the others.\<close>

record wf_note =
  wn_id :: "string option"
  wn_text :: "string option"
  wn_more :: "(string \<times> wf_value) list"

record case_row =
  pd_id :: string
  pd_space_id :: string
  pd_note :: wf_note
  pd_reason :: string
  pd_code :: string
  pd_stage :: string
  pd_candidate :: wf_value
  pd_target_ids :: "string list"
  pd_status :: string
  pd_created_at :: string
  pd_result :: "string option"
  pd_resolved_at :: "string option"

record notice_row =
  nc_id :: string
  nc_text :: string
  nc_note_id :: "string option"
  nc_status :: string
  nc_created_at :: "string option"

record issue_row =
  is_id :: string
  is_space_id :: string
  is_stage :: string
  is_reason :: string
  is_snapshot :: wf_value
  is_trace_id :: "string option"
  is_status :: string
  is_expected :: wf_value
  is_created_at :: string
  is_schema_version :: string
  is_extractor_mode :: string
  is_prompt_hash :: string
  is_dataset_type :: string
  is_group_id :: string
  is_reviewer :: "string option"
  is_reviewed_at :: "string option"

record route_row =
  rt_chat_id :: string
  rt_user_id :: "string option"
  rt_trace_id :: "string option"
  rt_tenant_id :: string

record workflow =
  pendings :: "case_row flow_table"
  notices :: "notice_row flow_table"
  issues :: "issue_row flow_table"
  routes :: "route_row flow_table"
  digests_seen :: "string list flow_table"

record flow_env =
  stable_id :: "wf_value list \<Rightarrow> string"
  extractor_mode :: string
  card_prompts :: "wf_value list"
  task_prompts :: "wf_value list"

definition empty_workflow :: workflow where
  "empty_workflow = \<lparr>pendings = [], notices = [], issues = [], routes = [], digests_seen = []\<rparr>"

definition opt_value :: "string option \<Rightarrow> wf_value" where
  "opt_value x = (case x of None \<Rightarrow> VNull | Some s \<Rightarrow> VText s)"

definition note_value :: "wf_note \<Rightarrow> wf_value" where
  "note_value n = VDict ((''id'', opt_value (wn_id n)) # (''text'', opt_value (wn_text n)) # wn_more n)"

subsection \<open>Quality cases\<close>

fun dict_get :: "wf_value \<Rightarrow> string \<Rightarrow> wf_value" where
  "dict_get (VDict kvs) k = (case map_of kvs k of None \<Rightarrow> VNull | Some v \<Rightarrow> v)"
| "dict_get _ k = VNull"

definition dataset_type :: "string \<Rightarrow> string" where
  "dataset_type stage = (if stage = ''association'' then ''association''
     else if stage = ''consolidation'' then ''consolidation''
     else if stage = ''query'' \<or> stage = ''user_feedback'' then ''query'' else ''extraction'')"

definition capture_issue ::
  "flow_env \<Rightarrow> string \<Rightarrow> string \<Rightarrow> string \<Rightarrow> string \<Rightarrow> wf_value \<Rightarrow> string option \<Rightarrow> workflow \<Rightarrow> issue_row \<times> workflow" where
  "capture_issue F now space stage reason snapshot trace w =
     (let key = stable_id F [VText stage, VText reason, snapshot] in
      case flow_get space key (issues w) of
        Some prior \<Rightarrow> (prior, w)
      | None \<Rightarrow>
        let task = (dict_get (dict_get snapshot ''candidate'') ''memory_type'' = VText ''task'');
            row = \<lparr>is_id = key, is_space_id = space, is_stage = stage, is_reason = reason,
              is_snapshot = snapshot, is_trace_id = trace, is_status = ''suspected'', is_expected = VNull,
              is_created_at = now,
              is_schema_version = (if task then ''task-card-v2'' else ''preference-card-v1''),
              is_extractor_mode = extractor_mode F,
              is_prompt_hash = stable_id F (if task then task_prompts F else card_prompts F),
              is_dataset_type = dataset_type stage, is_group_id = stable_id F [VText space],
              is_reviewer = None, is_reviewed_at = None\<rparr>
        in (row, w\<lparr>issues := flow_put space key row (issues w)\<rparr>))"

definition review_issue ::
  "string \<Rightarrow> string \<Rightarrow> string \<Rightarrow> string \<Rightarrow> wf_value \<Rightarrow> string \<Rightarrow> workflow \<Rightarrow> db_error + issue_row \<times> workflow" where
  "review_issue now space key status expected reviewer w =
     (if status \<notin> {''confirmed'', ''normal'', ''insufficient''} then Inl (ValueError ''invalid review status'')
      else if status = ''confirmed'' \<and>
          expected \<in> {VNull, VText [], VBool False, VInt 0, VList [], VDict []}
        then Inl (ValueError ''confirmed cases require a reviewed expected result'')
      else case flow_get space key (issues w) of
          None \<Rightarrow> Inl (KeyError key)
        | Some row \<Rightarrow>
          let row1 = row\<lparr>is_status := status, is_expected := expected, is_reviewer := Some reviewer,
            is_reviewed_at := Some now\<rparr>
          in Inr (row1, w\<lparr>issues := flow_put space key row1 (issues w)\<rparr>))"

subsection \<open>Pending cases\<close>

definition pending_text :: "string \<Rightarrow> wf_note \<Rightarrow> string \<Rightarrow> string" where
  "pending_text key n reason =
     (map char_of [232::nat, 191, 153, 230, 157, 161, 230, 182, 136, 230, 129, 175, 230, 156, 137, 229,
     134, 133, 229, 174, 185, 229, 190, 133, 229, 164, 132, 231, 144, 134, 32, 91, 112, 101, 110, 100,
     105, 110, 103, 58] :: string) @ key @ (map char_of [93::nat, 10, 229, 142, 159, 230, 150, 135, 239,
     188, 154] :: string) @
     (case wn_text n of None \<Rightarrow> [] | Some t \<Rightarrow> t) @ (map char_of [10::nat, 229,
     142, 159, 229, 155, 160, 239, 188, 154] :: string) @ reason @
     (map char_of [10::nat, 232, 161, 165, 229, 133, 133, 239, 188, 154, 47, 112, 101, 110, 100, 105,
     110, 103, 32, 114, 101, 115, 111, 108, 118, 101, 32] :: string) @ key @ (map char_of [32::nat, 232,
     161, 165, 229, 133, 133, 232, 175, 180, 230, 152, 142, 10, 229, 143, 150, 230, 182, 136, 239, 188,
     154, 47, 112, 101, 110, 100, 105, 110, 103, 32, 99, 97, 110, 99, 101, 108, 32] :: string) @ key"

definition case_snapshot :: "wf_note \<Rightarrow> wf_value \<Rightarrow> string list \<Rightarrow> string \<Rightarrow> wf_value" where
  "case_snapshot n candidate target_ids key = VDict [(''note'', note_value n), (''candidate'', candidate),
     (''target_ids'', VList (map VText target_ids)), (''pending_id'', VText key)]"

definition pending_key :: "flow_env \<Rightarrow> wf_note \<Rightarrow> string \<Rightarrow> string \<Rightarrow> wf_value \<Rightarrow> string" where
  "pending_key F n stage code candidate =
     stable_id F [opt_value (wn_id n), opt_value (wn_text n), VText stage, VText code, candidate]"

definition create_pending ::
  "flow_env \<Rightarrow> string \<Rightarrow> string \<Rightarrow> wf_note \<Rightarrow> string \<Rightarrow> string \<Rightarrow> string \<Rightarrow> wf_value \<Rightarrow> string list \<Rightarrow> workflow \<Rightarrow>
     case_row \<times> workflow" where
  "create_pending F now space n reason code stage candidate target_ids w =
     (let key = pending_key F n stage code candidate in
      case flow_get space key (pendings w) of
        Some prior \<Rightarrow> (prior, w)
      | None \<Rightarrow>
        let row = \<lparr>pd_id = key, pd_space_id = space, pd_note = n, pd_reason = reason, pd_code = code,
              pd_stage = stage, pd_candidate = candidate, pd_target_ids = target_ids, pd_status = ''pending'',
              pd_created_at = now, pd_result = None, pd_resolved_at = None\<rparr>;
            notice = \<lparr>nc_id = key, nc_text = pending_text key n reason, nc_note_id = wn_id n,
              nc_status = ''queued'', nc_created_at = Some now\<rparr>;
            w1 = w\<lparr>pendings := flow_put space key row (pendings w),
              notices := flow_put space key notice (notices w)\<rparr>
        in (row, snd (capture_issue F now space stage code (case_snapshot n candidate target_ids key) None w1)))"

definition resolved_text :: "bool \<Rightarrow> string \<Rightarrow> string \<Rightarrow> string" where
  "resolved_text cancelled key result = (map char_of [229::nat, 190, 133, 229, 164, 132, 231, 144, 134,
     228, 186, 139, 233, 161, 185, 229, 183,
     178] :: string) @ (if cancelled then (map char_of [229::nat, 143, 150, 230, 182,
     136] :: string) else (map char_of [232::nat, 167, 163, 229, 134, 179] :: string)) @
     '' [pending:'' @ key @ (map char_of [93::nat, 10] :: string) @ result"

definition resolve_pending ::
  "string \<Rightarrow> string \<Rightarrow> string \<Rightarrow> string \<Rightarrow> bool \<Rightarrow> bool \<Rightarrow> workflow \<Rightarrow> bool \<times> workflow" where
  "resolve_pending now space key result cancelled notify w =
     (case flow_get space key (pendings w) of
        None \<Rightarrow> (False, w)
      | Some row \<Rightarrow>
        if pd_status row \<noteq> ''pending'' then (False, w)
        else
          let row1 = row\<lparr>pd_status := (if cancelled then ''cancelled'' else ''resolved''),
                pd_result := Some result, pd_resolved_at := Some now\<rparr>;
              w1 = w\<lparr>pendings := flow_put space key row1 (pendings w)\<rparr>
          in if \<not> notify then
               (case flow_get space key (notices w1) of
                  Some notice \<Rightarrow> if nc_status notice = ''queued''
                    then (True, w1\<lparr>notices := flow_put space key (notice\<lparr>nc_status := ''cancelled''\<rparr>) (notices w1)\<rparr>)
                    else (True, w1)
                | None \<Rightarrow> (True, w1))
             else let k = key @ '':resolved'' in
               (True, w1\<lparr>notices := flow_put space k
                 \<lparr>nc_id = k, nc_text = resolved_text cancelled key result, nc_note_id = wn_id (pd_note row),
                   nc_status = ''queued'', nc_created_at = Some now\<rparr> (notices w1)\<rparr>))"

subsection \<open>Announcing\<close>

datatype send_answer = Accepted | Declined | SendRaises string

text \<open>
  \<open>deliver_notifications\<close>. The sender works on a state of its own. \<open>dies\<close> names the notifications after
  whose sending the process dies before it can mark them; an exception of the sender ends the loop too.
  The result is the count, or None.
\<close>

fun deliver_each ::
  "(string \<Rightarrow> string \<Rightarrow> string option \<Rightarrow> workflow \<Rightarrow> 'w \<Rightarrow> send_answer \<times> 'w) \<Rightarrow> (string \<Rightarrow> bool) \<Rightarrow> string \<Rightarrow>
     notice_row list \<Rightarrow> workflow \<Rightarrow> 'w \<Rightarrow> nat option \<times> workflow \<times> 'w" where
  "deliver_each sender dies space [] w x = (Some 0, w, x)"
| "deliver_each sender dies space (n # ns) w x =
     (if nc_status n \<noteq> ''queued'' then deliver_each sender dies space ns w x
      else case sender (nc_id n) (nc_text n) (nc_note_id n) w x of
        (Declined, x1) \<Rightarrow> deliver_each sender dies space ns w x1
      | (SendRaises e, x1) \<Rightarrow> (None, w, x1)
      | (Accepted, x1) \<Rightarrow>
        if dies (nc_id n) then (None, w, x1)
        else (case flow_get space (nc_id n) (notices w) of
            None \<Rightarrow> (None, w, x1)
          | Some current \<Rightarrow>
            let w1 = w\<lparr>notices := flow_put space (nc_id n) (current\<lparr>nc_status := ''enqueued''\<rparr>) (notices w)\<rparr>;
                (c, w2, x2) = deliver_each sender dies space ns w1 x1
            in (map_option Suc c, w2, x2)))"

definition deliver_notifications ::
  "(string \<Rightarrow> string \<Rightarrow> string option \<Rightarrow> workflow \<Rightarrow> 'w \<Rightarrow> send_answer \<times> 'w) \<Rightarrow> (string \<Rightarrow> bool) \<Rightarrow> string \<Rightarrow>
     workflow \<Rightarrow> 'w \<Rightarrow> nat option \<times> workflow \<times> 'w" where
  "deliver_notifications sender dies space w x =
     deliver_each sender dies space (flow_list space (notices w)) w x"

text \<open>
  The sender of \<open>flush_notifications\<close> with PostgreSQL: the answer of a console run, or a delivery task under
  a name made of the space and the notification. The second component records the console answers.
\<close>

type_synonym flow_world = "db \<times> (string \<times> string) list"

definition notice_name :: "string \<Rightarrow> string \<Rightarrow> string" where
  "notice_name space key = ''memory-notification:'' @ space @ '':'' @ key"

definition notice_payload :: "string \<Rightarrow> string \<Rightarrow> string \<Rightarrow> string \<Rightarrow> payload" where
  "notice_payload space key chat txt = [(''chat_id'', JStr chat), (''text'', JStr txt),
     (''delivery_key'', JStr (notice_name space key)), (''delivery_type'', JStr ''memory_notification'')]"

definition pg_sender ::
  "env \<Rightarrow> time \<Rightarrow> payload \<Rightarrow> string \<Rightarrow> string \<Rightarrow> string \<Rightarrow> string option \<Rightarrow> workflow \<Rightarrow> flow_world \<Rightarrow>
     send_answer \<times> flow_world" where
  "pg_sender E now ctx space key txt note_id w x =
     (case (case note_id of None \<Rightarrow> None | Some i \<Rightarrow> flow_get space i (routes w)) of
        None \<Rightarrow> (Declined, x)
      | Some route \<Rightarrow>
        if take 8 (rt_chat_id route) = ''console:''
        then (case rt_trace_id route of
            Some (c # cs) \<Rightarrow> (Accepted, fst x, snd x @ [(c # cs, txt)])
          | _ \<Rightarrow> (SendRaises ''ValueError: console notification trace is not yet available'', x))
        else (case enqueue_task E now ctx ''delivery'' space (notice_name space key)
              (notice_payload space key (rt_chat_id route) txt)
              (if rt_tenant_id route = [] then ''default'' else rt_tenant_id route) None 0 5 Queued True (fst x) of
            Inl e \<Rightarrow> (SendRaises (error_text e), x)
          | Inr (_, s) \<Rightarrow> (Accepted, s, snd x)))"

definition flush_notifications ::
  "env \<Rightarrow> time \<Rightarrow> payload \<Rightarrow> (string \<Rightarrow> bool) \<Rightarrow> string \<Rightarrow> workflow \<Rightarrow> flow_world \<Rightarrow>
     nat option \<times> workflow \<times> flow_world" where
  "flush_notifications E now ctx dies space w x =
     deliver_notifications (pg_sender E now ctx space) dies space w x"

definition register_route ::
  "string \<Rightarrow> string \<Rightarrow> string option \<Rightarrow> string option \<Rightarrow> string option \<Rightarrow> string \<Rightarrow> workflow \<Rightarrow> workflow" where
  "register_route space note_id chat user trace tenant w = (case chat of
     Some (c # cs) \<Rightarrow> w\<lparr>routes := flow_put space note_id
       \<lparr>rt_chat_id = c # cs, rt_user_id = user, rt_trace_id = trace, rt_tenant_id = tenant\<rparr> (routes w)\<rparr>
   | _ \<Rightarrow> w)"

subsection \<open>The daily digest\<close>

definition digest_text :: "string \<Rightarrow> string list \<Rightarrow> string" where
  "digest_text day new = (map char_of [232::nat, 174, 176, 229, 191, 134, 232, 180, 168, 233, 135, 143,
     230, 151, 165, 230, 138, 165, 32] :: string) @ day @ (map char_of [239::nat, 188, 154, 230, 150,
     176, 229, 162, 158, 32] :: string) @ show_int (int (length new)) @
     (map char_of [32::nat, 233, 161, 185, 229, 190, 133, 229, 164, 132, 231, 144, 134, 230, 136, 150,
     229, 190, 133, 229, 164, 141, 230, 160, 184, 227, 128, 130,
     10] :: string) @ (case take 10 new of [] \<Rightarrow> [] | k # ks \<Rightarrow> k @ concat (map (\<lambda>x. CHR 0x0A # x) ks))"

text \<open>One destination: the entries are the case identifiers with their notes.\<close>

definition digest_for ::
  "flow_env \<Rightarrow> string \<Rightarrow> string \<Rightarrow> string \<times> (string \<times> string) list \<Rightarrow> workflow \<Rightarrow> workflow" where
  "digest_for F day space dest w =
     (let (chat, entries) = dest; key = ''digest:'' @ stable_id F [VText day, VText chat] in
      if flow_get space key (notices w) \<noteq> None then w
      else let seen = (case flow_get space chat (digests_seen w) of None \<Rightarrow> [] | Some s \<Rightarrow> s);
               new = filter (\<lambda>e. fst e \<notin> set seen) entries
        in if new = [] then w
           else w\<lparr>notices := flow_put space key \<lparr>nc_id = key, nc_text = digest_text day (map fst new),
                nc_note_id = Some (snd (hd entries)), nc_status = ''queued'', nc_created_at = None\<rparr> (notices w),
              digests_seen := flow_put space chat (sort (remdups (seen @ map fst new))) (digests_seen w)\<rparr>)"

definition text_value :: "wf_value \<Rightarrow> string option" where
  "text_value v = (case v of VText (c # cs) \<Rightarrow> Some (c # cs) | _ \<Rightarrow> None)"

text \<open>The dictionary \<open>routes\<close> of the open cases, and the entries of each destination.\<close>

definition case_notes :: "string \<Rightarrow> workflow \<Rightarrow> (string \<times> string option) list" where
  "case_notes space w =
     fold (\<lambda>r. AList.update (is_id r) (text_value (dict_get (dict_get (is_snapshot r) ''note'') ''id'')))
       (filter (\<lambda>r. is_status r = ''suspected'') (flow_list space (issues w)))
       (fold (\<lambda>r. AList.update (pd_id r) (wn_id (pd_note r)))
         (filter (\<lambda>r. pd_status r = ''pending'') (flow_list space (pendings w))) [])"

definition by_destination :: "string \<Rightarrow> workflow \<Rightarrow> (string \<times> (string \<times> string) list) list" where
  "by_destination space w = fold (\<lambda>(key, note) m. case note of
       Some (c # cs) \<Rightarrow> (case flow_get space (c # cs) (routes w) of
           Some route \<Rightarrow> AList.update (rt_chat_id route)
             ((case map_of m (rt_chat_id route) of None \<Rightarrow> [] | Some es \<Rightarrow> es) @ [(key, c # cs)]) m
         | None \<Rightarrow> m)
     | _ \<Rightarrow> m) (case_notes space w) []"

definition daily_issue_digest :: "flow_env \<Rightarrow> string \<Rightarrow> string \<Rightarrow> workflow \<Rightarrow> workflow" where
  "daily_issue_digest F day space w = fold (digest_for F day space) (by_destination space w) w"

subsection \<open>The guard of the task handlers\<close>

record flow_app =
  fa_app :: app
  fa_flow :: workflow
  fa_console :: "(string \<times> string) list"

definition flush_app ::
  "env \<Rightarrow> time \<Rightarrow> payload \<Rightarrow> (string \<Rightarrow> bool) \<Rightarrow> string \<Rightarrow> flow_app \<Rightarrow> flow_app" where
  "flush_app E now ctx dies space A =
     (case flush_notifications E now ctx dies space (fa_flow A) (core (fa_app A), fa_console A) of
        (_, w, s, answers) \<Rightarrow> \<lparr>fa_app = with_core s (fa_app A), fa_flow = w, fa_console = answers\<rparr>)"

definition sender_of :: "payload option \<Rightarrow> payload" where
  "sender_of record = (case record of None \<Rightarrow> [] | Some r \<Rightarrow> obj_of (pget r ''sender''))"

text \<open>The first identifier of the sender that is set, else \<open>owner\<close>.\<close>

definition sender_id :: "payload \<Rightarrow> string" where
  "sender_id p = (case find (\<lambda>k. truthy (pget p k)) [''user_id'', ''open_id'', ''union_id'', ''source_user_id'', ''id''] of
     None \<Rightarrow> ''owner'' | Some k \<Rightarrow> py_str (pget p k))"

definition first_text :: "json list \<Rightarrow> string" where
  "first_text vs = (case find truthy vs of None \<Rightarrow> [] | Some v \<Rightarrow> py_str v)"

definition guard_inbox :: "task_row \<Rightarrow> db \<Rightarrow> payload option" where
  "guard_inbox t s = (let i = first_text [pget (payload_json t) ''inbox_id'', pget (payload_json t) ''barrier_inbox_id'']
     in if i = [] then None else load_inbox_record i s)"

definition inbox_value :: "payload option \<Rightarrow> string \<Rightarrow> json" where
  "inbox_value record k = (case record of None \<Rightarrow> JNull | Some r \<Rightarrow> pget r k)"

definition guard_note_id :: "task_row \<Rightarrow> payload option \<Rightarrow> string" where
  "guard_note_id t record = first_text [pget (payload_json t) ''note_id'', inbox_value record ''id'', JStr (task_id t)]"

definition guard_note :: "task_row \<Rightarrow> payload option \<Rightarrow> wf_note" where
  "guard_note t record = \<lparr>wn_id = Some (guard_note_id t record),
     wn_text = Some (first_text [inbox_value record ''text'', pget (payload_json t) ''question'']),
     wn_more = [(''space_id'', VText (task_space_id t)),
       (''ts'', case inbox_value record ''ts'' of JInt i \<Rightarrow> VInt i | _ \<Rightarrow> VNull),
       (''user_id'', VText (if truthy (pget (payload_json t) ''user_id'') then py_str (pget (payload_json t) ''user_id'')
         else sender_id (sender_of record)))]\<rparr>"

definition failure_text :: "task_row \<Rightarrow> string \<Rightarrow> string" where
  "failure_text t err = task_type t @ (map char_of [32::nat, 229, 164, 132, 231, 144, 134, 229, 164,
     177, 232, 180, 165, 239, 188, 140, 230, 173, 163, 229, 156, 168, 233, 135, 141, 232, 175, 149, 239,
     188, 136] :: string) @ before_colon err @ (map char_of [239::nat, 188, 137] :: string)"

text \<open>The text after \<open>"Type: "\<close>.\<close>

definition error_message :: "string \<Rightarrow> string" where
  "error_message err = drop (length (before_colon err) + 2) err"

definition open_failures :: "task_row \<Rightarrow> workflow \<Rightarrow> case_row list" where
  "open_failures t w = filter (\<lambda>r. pd_code r = ''task_failed'' \<and> pd_status r = ''pending'' \<and>
     pd_target_ids r = [task_id t]) (flow_list (task_space_id t) (pendings w))"

definition guard_success :: "string \<Rightarrow> task_row \<Rightarrow> workflow \<Rightarrow> workflow" where
  "guard_success now t w = fold (\<lambda>r w. snd (resolve_pending now (task_space_id t) (pd_id r)
     (map char_of [233::nat, 135, 141, 232, 175, 149, 230, 136, 144, 229, 138, 159, 239, 188, 140, 230,
     182, 136, 230, 129, 175, 229, 183, 178, 229, 164, 132, 231, 144,
     134] :: string) False True w)) (open_failures t w) w"

definition guard_failure ::
  "flow_env \<Rightarrow> string \<Rightarrow> string option \<Rightarrow> task_row \<Rightarrow> payload option \<Rightarrow> string \<Rightarrow> workflow \<Rightarrow> workflow" where
  "guard_failure F now trace t record err w =
     (let n = guard_note t record;
          w1 = snd (create_pending F now (task_space_id t) n (failure_text t err) ''task_failed'' (task_type t) VNull
            [task_id t] w)
      in snd (capture_issue F now (task_space_id t) (task_type t) (before_colon err)
        (VDict [(''note'', note_value n), (''task_id'', VText (task_id t)), (''error'', VText (error_message err))])
        trace w1))"

definition guard_route :: "string option \<Rightarrow> task_row \<Rightarrow> payload option \<Rightarrow> workflow \<Rightarrow> workflow" where
  "guard_route trace t record w =
     (if flow_get (task_space_id t) (guard_note_id t record) (routes w) = None
      then register_route (task_space_id t) (guard_note_id t record)
        (non_empty (first_text [pget (payload_json t) ''chat_id'', inbox_value record ''chat_id'']))
        None trace (if task_tenant_id t = [] then ''default'' else task_tenant_id t) w
      else w)"

text \<open>
  \<open>guarded_handler\<close>: \<open>on\<close> tells whether one of its feature flags is on, \<open>trace\<close> is the trace of the run.
  A request to run again later is an exception of its own kind, which is passed on without a case.
  The handler may work on the cases itself.
\<close>

definition guarded_handler ::
  "env \<Rightarrow> flow_env \<Rightarrow> bool \<Rightarrow> time \<Rightarrow> string \<Rightarrow> payload \<Rightarrow> string option \<Rightarrow> (string \<Rightarrow> bool) \<Rightarrow>
     (task_row \<Rightarrow> flow_app \<Rightarrow> handler_result \<times> flow_app) \<Rightarrow> task_row \<Rightarrow> flow_app \<Rightarrow> handler_result \<times> flow_app" where
  "guarded_handler E F on now now_text ctx trace dies handler t A =
     (if \<not> on then handler t A
      else
        let record = guard_inbox t (core (fa_app A));
            (r, A1) = handler t (A\<lparr>fa_flow := guard_route trace t record (fa_flow A)\<rparr>);
            w = fa_flow A1;
            w1 = (case r of
                Later m d \<Rightarrow> w
              | Raised err \<Rightarrow> guard_failure F now_text trace t record err w
              | _ \<Rightarrow> guard_success now_text t w)
        in (r, flush_app E now ctx dies (task_space_id t) (A1\<lparr>fa_flow := w1\<rparr>)))"

end
