(* ===== verification/Workflow_Notices.thy ===== *)
theory Workflow_Notices
  imports Memory_Workflow Dispatch_Lemmas
begin

text \<open>
  The invariant of the notifications: every row is kept under its identifier, names of delivery tasks
  belong to one notification each, and what is marked as announced was announced, with its own text.
\<close>

subsection \<open>Rows under keys\<close>

lemma flow_get_put: "flow_get sp k (flow_put sp' k' r t) = (if (sp, k) = (sp', k') then Some r else flow_get sp k t)"
  by (auto simp: flow_get_def flow_put_def update_conv')

lemma flow_put_distinct: "distinct (map fst t) \<Longrightarrow> distinct (map fst (flow_put sp k r t))"
  by (simp add: flow_put_def distinct_update)

lemma flow_list_mem:
  assumes "distinct (map fst t)" "r \<in> set (flow_list sp t)"
  shows "\<exists>k. flow_get sp k t = Some r"
  using assms by (force simp: flow_list_def flow_get_def)

lemma flow_list_get: "flow_get sp k t = Some r \<Longrightarrow> r \<in> set (flow_list sp t)"
  by (force simp: flow_list_def flow_get_def dest: map_of_SomeD)

subsection \<open>Names of notifications\<close>

definition digest_like :: "string \<Rightarrow> bool" where
  "digest_like k \<longleftrightarrow> length k = 32 \<and> CHR '':'' \<notin> set k"

text \<open>The hexadecimal digest has 32 characters; a space is not called after the digests.\<close>

definition stable_ok :: "flow_env \<Rightarrow> bool" where
  "stable_ok F \<longleftrightarrow> (\<forall>vs. digest_like (stable_id F vs))"

definition plain_space :: "string \<Rightarrow> bool" where
  "plain_space sp \<longleftrightarrow> (\<forall>p. sp \<noteq> p @ '':digest'')"

datatype notice_shape = OfCase string | OfResolution string | OfDigest string

fun shape_key :: "notice_shape \<Rightarrow> string" where
  "shape_key (OfCase i) = i"
| "shape_key (OfResolution i) = i @ '':resolved''"
| "shape_key (OfDigest i) = ''digest:'' @ i"

fun shape_digest :: "notice_shape \<Rightarrow> string" where
  "shape_digest (OfCase i) = i"
| "shape_digest (OfResolution i) = i"
| "shape_digest (OfDigest i) = i"

lemma colon_split:
  "xs @ CHR '':'' # ds = ys @ CHR '':'' # es \<Longrightarrow> CHR '':'' \<notin> set ds \<Longrightarrow> CHR '':'' \<notin> set es \<Longrightarrow> xs = ys \<and> ds = es"
  by (rule last_colon_split)

lemma notice_name_inj:
  assumes n: "notice_name sp (shape_key a) = notice_name sp' (shape_key b)"
    and d: "digest_like (shape_digest a)" "digest_like (shape_digest b)"
    and p: "plain_space sp" "plain_space sp'"
  shows "sp = sp' \<and> a = b"
proof -
  have e: "sp @ CHR '':'' # shape_key a = sp' @ CHR '':'' # shape_key b" using n by (simp add: notice_name_def)
  have len: "i \<noteq> ''resolved''" if "digest_like i" for i using that by (auto simp: digest_like_def)
  have nc: "CHR '':'' \<notin> set i" if "digest_like i" for i using that by (simp add: digest_like_def)
  have r: "CHR '':'' \<notin> set ''resolved''" "CHR '':'' \<notin> set ''digest''" by simp_all
  have plain: "s \<noteq> q @ CHR '':'' # ''digest''" if "plain_space s" for s q
    using that by (simp add: plain_space_def)
  show ?thesis
  proof (cases a; cases b)
    fix i j assume "a = OfCase i" "b = OfCase j"
    with e d nc colon_split [of sp i sp' j] show ?thesis by simp
  next
    fix i j assume ab: "a = OfCase i" "b = OfResolution j"
    with e have "sp @ CHR '':'' # i = (sp' @ CHR '':'' # j) @ CHR '':'' # ''resolved''" by simp
    from colon_split [OF this] ab d nc r len show ?thesis by auto
  next
    fix i j assume ab: "a = OfCase i" "b = OfDigest j"
    with e have "sp @ CHR '':'' # i = (sp' @ CHR '':'' # ''digest'') @ CHR '':'' # j" by simp
    from colon_split [OF this] ab d nc plain [OF p(1)] show ?thesis by auto
  next
    fix i j assume ab: "a = OfResolution i" "b = OfCase j"
    with e have "(sp @ CHR '':'' # i) @ CHR '':'' # ''resolved'' = sp' @ CHR '':'' # j" by simp
    from colon_split [OF this] ab d nc r len show ?thesis by auto
  next
    fix i j assume ab: "a = OfResolution i" "b = OfResolution j"
    with e have "(sp @ CHR '':'' # i) @ CHR '':'' # ''resolved'' = (sp' @ CHR '':'' # j) @ CHR '':'' # ''resolved''" by simp
    from colon_split [OF this] r have "sp @ CHR '':'' # i = sp' @ CHR '':'' # j" by simp
    from colon_split [OF this] ab d nc show ?thesis by simp
  next
    fix i j assume ab: "a = OfResolution i" "b = OfDigest j"
    with e have "(sp @ CHR '':'' # i) @ CHR '':'' # ''resolved'' = (sp' @ CHR '':'' # ''digest'') @ CHR '':'' # j" by simp
    from colon_split [OF this] ab d nc r len show ?thesis by auto
  next
    fix i j assume ab: "a = OfDigest i" "b = OfCase j"
    with e have "(sp @ CHR '':'' # ''digest'') @ CHR '':'' # i = sp' @ CHR '':'' # j" by simp
    from colon_split [OF this] ab d nc plain [OF p(2)] show ?thesis by auto
  next
    fix i j assume ab: "a = OfDigest i" "b = OfResolution j"
    with e have "(sp @ CHR '':'' # ''digest'') @ CHR '':'' # i = (sp' @ CHR '':'' # j) @ CHR '':'' # ''resolved''" by simp
    from colon_split [OF this] ab d nc r len show ?thesis by auto
  next
    fix i j assume ab: "a = OfDigest i" "b = OfDigest j"
    with e have "(sp @ CHR '':'' # ''digest'') @ CHR '':'' # i = (sp' @ CHR '':'' # ''digest'') @ CHR '':'' # j" by simp
    from colon_split [OF this] ab d nc have "sp @ CHR '':'' # ''digest'' = sp' @ CHR '':'' # ''digest''" "i = j" by simp_all
    with ab show ?thesis by simp
  qed
qed

subsection \<open>The invariant\<close>

text \<open>What a notification of a given shape says about the cases.\<close>

fun shape_ok :: "string \<Rightarrow> workflow \<Rightarrow> notice_shape \<Rightarrow> bool" where
  "shape_ok sp w (OfCase i) = (digest_like i \<and> flow_get sp i (pendings w) \<noteq> None)"
| "shape_ok sp w (OfResolution i) = (digest_like i \<and>
     (\<exists>r. flow_get sp i (pendings w) = Some r \<and> pd_status r \<noteq> ''pending''))"
| "shape_ok sp w (OfDigest i) = digest_like i"

definition case_rows_ok :: "workflow \<Rightarrow> bool" where
  "case_rows_ok w \<longleftrightarrow> distinct (map fst (notices w)) \<and> distinct (map fst (pendings w)) \<and>
     (\<forall>sp k r. flow_get sp k (pendings w) = Some r \<longrightarrow> pd_id r = k \<and> digest_like k) \<and>
     (\<forall>sp k n. flow_get sp k (notices w) = Some n \<longrightarrow> nc_id n = k \<and> plain_space sp \<and>
        (\<exists>a. k = shape_key a \<and> shape_ok sp w a))"

definition is_notice_name :: "string \<Rightarrow> bool" where
  "is_notice_name k \<longleftrightarrow> take 20 k = ''memory-notification:''"

definition announces :: "string \<Rightarrow> notice_row \<Rightarrow> task_row \<Rightarrow> bool" where
  "announces sp n t \<longleftrightarrow> idempotency_key t = notice_name sp (nc_id n) \<and>
     map_of (payload_json t) ''text'' = Some (JStr (nc_text n))"

definition told :: "string \<Rightarrow> notice_row \<Rightarrow> flow_world \<Rightarrow> bool" where
  "told sp n x \<longleftrightarrow> nc_text n \<in> snd ` set (snd x) \<or> (\<exists>t \<in> set (tasks (fst x)). announces sp n t)"

definition tasks_ok :: "workflow \<Rightarrow> db \<Rightarrow> bool" where
  "tasks_ok w s \<longleftrightarrow> distinct (map idempotency_key (tasks s)) \<and>
     (\<forall>t \<in> set (tasks s). is_notice_name (idempotency_key t) \<longrightarrow>
        (\<exists>sp k n. flow_get sp k (notices w) = Some n \<and> announces sp n t))"

definition notices_ok :: "workflow \<times> flow_world \<Rightarrow> bool" where
  "notices_ok st \<longleftrightarrow> (case st of (w, x) \<Rightarrow> case_rows_ok w \<and> tasks_ok w (fst x) \<and>
     (\<forall>sp k n. flow_get sp k (notices w) = Some n \<longrightarrow> nc_status n = ''enqueued'' \<longrightarrow> told sp n x))"

lemma notices_okD:
  "notices_ok (w, x) \<Longrightarrow> case_rows_ok w \<and> tasks_ok w (fst x) \<and>
     (\<forall>sp k n. flow_get sp k (notices w) = Some n \<longrightarrow> nc_status n = ''enqueued'' \<longrightarrow> told sp n x)"
  by (simp add: notices_ok_def)

subsection \<open>The cases\<close>

lemma flow_get_Nil [simp]: "flow_get sp k [] = None"
  by (simp add: flow_get_def)

lemma capture_issue_sel [simp]:
  "pendings (snd (capture_issue F now sp st re sn tr w)) = pendings w"
  "notices (snd (capture_issue F now sp st re sn tr w)) = notices w"
  "routes (snd (capture_issue F now sp st re sn tr w)) = routes w"
  by (simp_all add: capture_issue_def Let_def split: option.split)

text \<open>A change of the cases and notifications that keeps the texts of the notifications.\<close>

definition texts_kept :: "workflow \<Rightarrow> workflow \<Rightarrow> bool" where
  "texts_kept w w' \<longleftrightarrow> (\<forall>sp k n. flow_get sp k (notices w) = Some n \<longrightarrow>
     (\<exists>n'. flow_get sp k (notices w') = Some n' \<and> nc_id n' = nc_id n \<and> nc_text n' = nc_text n))"

lemma announces_cong:
  "announces sp n t \<Longrightarrow> nc_id n' = nc_id n \<Longrightarrow> nc_text n' = nc_text n \<Longrightarrow> announces sp n' t"
  by (simp add: announces_def)

lemma tasks_ok_texts: "tasks_ok w s \<Longrightarrow> texts_kept w w' \<Longrightarrow> tasks_ok w' s"
  unfolding tasks_ok_def texts_kept_def by (metis announces_cong)

text \<open>Only what was marked before is marked afterwards.\<close>

definition marks_kept :: "workflow \<Rightarrow> workflow \<Rightarrow> bool" where
  "marks_kept w w' \<longleftrightarrow> (\<forall>sp k n'. flow_get sp k (notices w') = Some n' \<longrightarrow> nc_status n' = ''enqueued'' \<longrightarrow>
     (\<exists>n. flow_get sp k (notices w) = Some n \<and> nc_status n = ''enqueued'' \<and> nc_id n = nc_id n' \<and> nc_text n = nc_text n'))"

lemma told_cong: "told sp n x \<Longrightarrow> nc_id n' = nc_id n \<Longrightarrow> nc_text n' = nc_text n \<Longrightarrow> told sp n' x"
  unfolding told_def using announces_cong by metis

lemma notices_ok_flow:
  assumes "notices_ok (w, x)" "case_rows_ok w'" "texts_kept w w'" "marks_kept w w'"
  shows "notices_ok (w', x)"
proof -
  note o = notices_okD [OF assms(1)]
  have "told sp n' x" if "flow_get sp k (notices w') = Some n'" "nc_status n' = ''enqueued''" for sp k n'
  proof -
    from assms(4) that obtain n where "flow_get sp k (notices w) = Some n" "nc_status n = ''enqueued''"
      "nc_id n = nc_id n'" "nc_text n = nc_text n'" unfolding marks_kept_def by blast
    with o show ?thesis using told_cong by metis
  qed
  with o assms(2,3) tasks_ok_texts show ?thesis by (auto simp: notices_ok_def)
qed

lemma flow_same_notices:
  "notices w' = notices w \<Longrightarrow> texts_kept w w' \<and> marks_kept w w'"
  by (simp add: texts_kept_def marks_kept_def)

lemma shape_ok_mono:
  assumes "shape_ok sp w a"
    and "\<And>k r. flow_get sp k (pendings w) = Some r \<Longrightarrow>
      \<exists>r'. flow_get sp k (pendings w') = Some r' \<and> (pd_status r \<noteq> ''pending'' \<longrightarrow> pd_status r' \<noteq> ''pending'')"
  shows "shape_ok sp w' a"
proof (cases a)
  case (OfCase i)
  with assms(1) obtain r where "flow_get sp i (pendings w) = Some r" by auto
  from assms(2) [OF this] assms(1) OfCase show ?thesis by auto
next
  case (OfResolution i)
  with assms(1) obtain r where "flow_get sp i (pendings w) = Some r" "pd_status r \<noteq> ''pending''" by auto
  with assms(2) [OF this(1)] assms(1) OfResolution show ?thesis by auto
next
  case (OfDigest i)
  with assms(1) show ?thesis by simp
qed

text \<open>A new notification under a key that is free.\<close>

lemma case_rows_add:
  assumes ok: "case_rows_ok w" and free: "flow_get sp k (notices w) = None" and sp: "plain_space sp"
    and p: "distinct (map fst (pendings w'))"
      "\<And>s i r. flow_get s i (pendings w') = Some r \<Longrightarrow> pd_id r = i \<and> digest_like i"
      "\<And>s i r. flow_get s i (pendings w) = Some r \<Longrightarrow> \<exists>r'. flow_get s i (pendings w') = Some r' \<and>
        (pd_status r \<noteq> ''pending'' \<longrightarrow> pd_status r' \<noteq> ''pending'')"
    and n: "notices w' = flow_put sp k n (notices w)" "nc_id n = k" "nc_status n = ''queued''"
      "k = shape_key a" "shape_ok sp w' a"
  shows "case_rows_ok w' \<and> texts_kept w w' \<and> marks_kept w w'"
proof -
  have "\<exists>a. k' = shape_key a \<and> shape_ok s w' a"
    if g: "flow_get s k' (notices w) = Some m" for s k' m
  proof -
    from ok g have "\<exists>a. k' = shape_key a \<and> shape_ok s w a" unfolding case_rows_ok_def by blast
    then obtain a where "k' = shape_key a" "shape_ok s w a" by blast
    with shape_ok_mono [of s w a w'] p(3) show ?thesis by blast
  qed
  with ok n sp p(1,2) free have "case_rows_ok w'"
    unfolding case_rows_ok_def by (auto simp: flow_get_put flow_put_distinct)
  with n free show ?thesis by (auto simp: texts_kept_def marks_kept_def flow_get_put)
qed

lemma case_rows_cong:
  assumes "notices w1 = notices w2" "pendings w1 = pendings w2"
  shows "case_rows_ok w1 = case_rows_ok w2" "texts_kept w w1 = texts_kept w w2" "marks_kept w w1 = marks_kept w w2"
proof -
  have "shape_ok s w1 = shape_ok s w2" for s
  proof
    fix a show "shape_ok s w1 a = shape_ok s w2 a" using assms by (cases a) simp_all
  qed
  then show "case_rows_ok w1 = case_rows_ok w2" unfolding case_rows_ok_def assms by simp
qed (simp_all add: texts_kept_def marks_kept_def assms)

lemma create_pending_kept:
  assumes ok: "case_rows_ok w" and F: "stable_ok F" and sp: "plain_space sp"
  shows "case_rows_ok (snd (create_pending F now sp n reason code stage cand ids w)) \<and>
    texts_kept w (snd (create_pending F now sp n reason code stage cand ids w)) \<and>
    marks_kept w (snd (create_pending F now sp n reason code stage cand ids w))"
proof (cases "flow_get sp (pending_key F n stage code cand) (pendings w)")
  case (Some prior)
  with ok show ?thesis by (simp add: create_pending_def Let_def flow_same_notices)
next
  case None
  let ?k = "pending_key F n stage code cand"
  have d: "digest_like ?k" using F by (simp add: stable_ok_def pending_key_def)
  have free: "flow_get sp ?k (notices w) = None"
  proof (rule ccontr)
    assume "flow_get sp ?k (notices w) \<noteq> None"
    then obtain m where "flow_get sp ?k (notices w) = Some m" by blast
    with ok have "\<exists>a. ?k = shape_key a \<and> shape_ok sp w a" unfolding case_rows_ok_def by blast
    then obtain a where a: "?k = shape_key a" "shape_ok sp w a" by blast
    with d None show False by (cases a) (auto simp: digest_like_def)
  qed
  let ?row = "\<lparr>pd_id = ?k, pd_space_id = sp, pd_note = n, pd_reason = reason, pd_code = code,
    pd_stage = stage, pd_candidate = cand, pd_target_ids = ids, pd_status = ''pending'',
    pd_created_at = now, pd_result = None, pd_resolved_at = None\<rparr>"
  let ?nc = "\<lparr>nc_id = ?k, nc_text = pending_text ?k n reason, nc_note_id = wn_id n,
    nc_status = ''queued'', nc_created_at = Some now\<rparr>"
  let ?w = "w\<lparr>pendings := flow_put sp ?k ?row (pendings w), notices := flow_put sp ?k ?nc (notices w)\<rparr>"
  have "case_rows_ok ?w \<and> texts_kept w ?w \<and> marks_kept w ?w"
  proof (rule case_rows_add [OF ok free sp, where n = ?nc])
    show "distinct (map fst (pendings ?w))" using ok by (simp add: case_rows_ok_def flow_put_distinct)
    show "pd_id r = i \<and> digest_like i" if "flow_get s i (pendings ?w) = Some r" for s i r
      using that ok d by (auto simp: flow_get_put case_rows_ok_def split: if_splits)
    show "\<exists>r'. flow_get s i (pendings ?w) = Some r' \<and> (pd_status r \<noteq> ''pending'' \<longrightarrow> pd_status r' \<noteq> ''pending'')"
      if "flow_get s i (pendings w) = Some r" for s i r using that None by (auto simp: flow_get_put)
    show "shape_ok sp ?w (OfCase ?k)" using d by (simp add: flow_get_put)
  qed simp_all
  moreover have e: "notices (snd (create_pending F now sp n reason code stage cand ids w)) = notices ?w"
    "pendings (snd (create_pending F now sp n reason code stage cand ids w)) = pendings ?w"
    using None by (simp_all add: create_pending_def Let_def)
  ultimately show ?thesis unfolding case_rows_cong [OF e] by simp
qed

lemma shape_digest_ok: "shape_ok sp w a \<Longrightarrow> digest_like (shape_digest a)"
  by (cases a) auto

lemma shape_unique:
  assumes "case_rows_ok w" "flow_get sp (shape_key b) (notices w) = Some n" "digest_like (shape_digest b)"
  shows "shape_ok sp w b"
proof -
  from assms(1,2) have "\<exists>a. shape_key b = shape_key a \<and> shape_ok sp w a" and p: "plain_space sp"
    unfolding case_rows_ok_def by blast+
  then obtain a where a: "shape_key b = shape_key a" "shape_ok sp w a" by blast
  with notice_name_inj [of sp b sp a] shape_digest_ok assms(3) p show ?thesis by auto
qed

text \<open>Changes of the status of cases and notifications.\<close>

lemma case_rows_restatus:
  assumes ok: "case_rows_ok w" and d: "distinct (map fst (notices w'))" "distinct (map fst (pendings w'))"
    and p: "\<And>s i r. flow_get s i (pendings w') = Some r \<Longrightarrow> pd_id r = i \<and> digest_like i"
      "\<And>s i r. flow_get s i (pendings w) = Some r \<Longrightarrow> \<exists>r'. flow_get s i (pendings w') = Some r' \<and>
        (pd_status r \<noteq> ''pending'' \<longrightarrow> pd_status r' \<noteq> ''pending'')"
    and n: "\<And>s k m'. flow_get s k (notices w') = Some m' \<Longrightarrow>
      \<exists>m. flow_get s k (notices w) = Some m \<and> nc_id m' = nc_id m"
  shows "case_rows_ok w'"
  unfolding case_rows_ok_def
proof (intro conjI allI impI d)
  fix sp k r assume "flow_get sp k (pendings w') = Some r"
  from p(1) [OF this] show "pd_id r = k" "digest_like k" by auto
next
  fix sp k m' assume "flow_get sp k (notices w') = Some m'"
  from n [OF this] obtain m where m: "flow_get sp k (notices w) = Some m" "nc_id m' = nc_id m" by blast
  with ok have "nc_id m = k \<and> plain_space sp \<and> (\<exists>a. k = shape_key a \<and> shape_ok sp w a)"
    unfolding case_rows_ok_def by blast
  with m(2) shape_ok_mono [of sp w _ w'] p(2)
  show "nc_id m' = k" "plain_space sp" "\<exists>a. k = shape_key a \<and> shape_ok sp w' a" by auto
qed

lemma resolve_pending_kept:
  assumes ok: "case_rows_ok w" and sp: "plain_space sp"
  shows "case_rows_ok (snd (resolve_pending now sp k res canc notify w)) \<and>
    texts_kept w (snd (resolve_pending now sp k res canc notify w)) \<and>
    marks_kept w (snd (resolve_pending now sp k res canc notify w))"
proof (cases "\<exists>row. flow_get sp k (pendings w) = Some row \<and> pd_status row = ''pending''")
  case False
  then have "snd (resolve_pending now sp k res canc notify w) = w"
    by (auto simp: resolve_pending_def split: option.splits)
  with ok show ?thesis by (simp add: flow_same_notices)
next
  case True
  then obtain row where row: "flow_get sp k (pendings w) = Some row" "pd_status row = ''pending''" by blast
  let ?row = "row\<lparr>pd_status := (if canc then ''cancelled'' else ''resolved''), pd_result := Some res,
    pd_resolved_at := Some now\<rparr>"
  let ?p = "flow_put sp k ?row (pendings w)"
  have id: "pd_id row = k" "digest_like k" using ok row(1) by (auto simp: case_rows_ok_def)
  have d: "distinct (map fst ?p)" using ok by (simp add: case_rows_ok_def flow_put_distinct)
  have p1: "pd_id r = i \<and> digest_like i" if "flow_get s i ?p = Some r" for s i r
    using that ok id by (auto simp: flow_get_put case_rows_ok_def split: if_splits)
  have p2: "\<exists>r'. flow_get s i ?p = Some r' \<and> (pd_status r \<noteq> ''pending'' \<longrightarrow> pd_status r' \<noteq> ''pending'')"
    if "flow_get s i (pendings w) = Some r" for s i r
    using that row by (auto simp: flow_get_put)
  show ?thesis
  proof (cases notify)
    case True
    let ?k = "shape_key (OfResolution k)"
    let ?nc = "\<lparr>nc_id = ?k, nc_text = resolved_text canc k res, nc_note_id = wn_id (pd_note row),
      nc_status = ''queued'', nc_created_at = Some now\<rparr>"
    let ?w = "w\<lparr>pendings := ?p, notices := flow_put sp ?k ?nc (notices w)\<rparr>"
    have free: "flow_get sp ?k (notices w) = None"
      using shape_unique [OF ok, of sp "OfResolution k"] row id(2)
      by (cases "flow_get sp ?k (notices w)") auto
    have "case_rows_ok ?w \<and> texts_kept w ?w \<and> marks_kept w ?w"
    proof (rule case_rows_add [OF ok free sp, where n = ?nc])
      show "distinct (map fst (pendings ?w))" using d by simp
      show "pd_id r = i \<and> digest_like i" if "flow_get s i (pendings ?w) = Some r" for s i r
        using p1 that by simp
      show "\<exists>r'. flow_get s i (pendings ?w) = Some r' \<and> (pd_status r \<noteq> ''pending'' \<longrightarrow> pd_status r' \<noteq> ''pending'')"
        if "flow_get s i (pendings w) = Some r" for s i r using p2 [OF that] by simp
      show "shape_ok sp ?w (OfResolution k)" using id by (simp add: flow_get_put)
    qed simp_all
    moreover have "snd (resolve_pending now sp k res canc notify w) = ?w"
      using row True by (simp add: resolve_pending_def Let_def)
    ultimately show ?thesis by simp
  next
    case False
    let ?w = "snd (resolve_pending now sp k res canc notify w)"
    have w: "pendings ?w = ?p" "notices ?w = notices w \<or> (\<exists>m. flow_get sp k (notices w) = Some m \<and>
        notices ?w = flow_put sp k (m\<lparr>nc_status := ''cancelled''\<rparr>) (notices w) \<and> nc_status m = ''queued'')"
      using row False by (auto simp: resolve_pending_def Let_def split: option.split)
    have "case_rows_ok ?w"
    proof (rule case_rows_restatus [OF ok])
      show "distinct (map fst (notices ?w))" using w(2) ok by (auto simp: case_rows_ok_def flow_put_distinct)
      show "\<exists>m. flow_get s k' (notices w) = Some m \<and> nc_id m' = nc_id m" if "flow_get s k' (notices ?w) = Some m'" for s k' m'
        using that w(2) by (auto simp: flow_get_put split: if_splits)
    qed (use d p1 p2 w(1) in auto)
    moreover have "texts_kept w ?w" "marks_kept w ?w"
      using w(2) by (auto simp: texts_kept_def marks_kept_def flow_get_put split: if_splits)
    ultimately show ?thesis by simp
  qed
qed

lemma digest_for_kept:
  assumes ok: "case_rows_ok w" and F: "stable_ok F" and sp: "plain_space sp"
  shows "case_rows_ok (digest_for F day sp d w) \<and> texts_kept w (digest_for F day sp d w) \<and>
    marks_kept w (digest_for F day sp d w)"
proof (cases "digest_for F day sp d w = w")
  case True
  with ok show ?thesis by (simp add: flow_same_notices)
next
  case False
  obtain chat entries where d: "d = (chat, entries)" by (cases d)
  let ?i = "stable_id F [VText day, VText chat]"
  let ?k = "shape_key (OfDigest ?i)"
  from False obtain nc where w: "flow_get sp ?k (notices w) = None"
    "notices (digest_for F day sp d w) = flow_put sp ?k nc (notices w)" "nc_id nc = ?k" "nc_status nc = ''queued''"
    "pendings (digest_for F day sp d w) = pendings w"
    by (auto simp: digest_for_def d Let_def split: if_splits)
  show ?thesis
    by (rule case_rows_add [OF ok w(1) sp _ _ _ w(2-4), where a = "OfDigest ?i"])
      (use ok F w in \<open>auto simp: case_rows_ok_def stable_ok_def\<close>)
qed

lemma kept_trans:
  "texts_kept w1 w2 \<Longrightarrow> texts_kept w2 w3 \<Longrightarrow> texts_kept w1 w3"
  "marks_kept w1 w2 \<Longrightarrow> marks_kept w2 w3 \<Longrightarrow> marks_kept w1 w3"
  unfolding texts_kept_def marks_kept_def by metis+

lemma digest_kept:
  assumes "case_rows_ok w" "stable_ok F" "plain_space sp"
  shows "case_rows_ok (daily_issue_digest F day sp w) \<and> texts_kept w (daily_issue_digest F day sp w) \<and>
    marks_kept w (daily_issue_digest F day sp w)"
proof -
  have "case_rows_ok (fold (digest_for F day sp) ds w) \<and> texts_kept w (fold (digest_for F day sp) ds w) \<and>
      marks_kept w (fold (digest_for F day sp) ds w)" for ds
    using assms(1)
  proof (induction ds arbitrary: w)
    case (Cons d ds)
    note k = digest_for_kept [OF Cons.prems assms(2,3), of day d]
    from Cons.IH [of "digest_for F day sp d w"] k kept_trans show ?case by auto
  qed (simp add: flow_same_notices)
  then show ?thesis by (simp add: daily_issue_digest_def)
qed

subsection \<open>Announcing\<close>

lemma enqueue_named:
  assumes "enqueue_task E now ctx ty sid idem p tn msg prio maxa Queued True s = Inr (r, s')"
    and "map_of p ''text'' = Some v"
  shows "tasks s' = tasks s \<and> idem \<in> idempotency_key ` set (tasks s) \<or>
    (\<exists>t. tasks s' = tasks s @ [t] \<and> idempotency_key t = idem \<and> idem \<notin> idempotency_key ` set (tasks s) \<and>
      map_of (payload_json t) ''text'' = Some v)"
proof -
  obtain tid created where r: "r = (tid, created)" by (cases r)
  from assms(1) obtain sid' s1 where ext: "ensure_tenant_space E sid tn ''feishu'' [] s = Inr (sid', s1)"
    and enq: "enqueue_task_in_session E now ctx ty tn sid' msg idem p prio maxa Queued (Queued = Queued) s1 =
      Inr ((tid, created), s')"
    by (auto simp: enqueue_task_def r split: sum.splits prod.splits)
  have s1: "tasks s1 = tasks s" using ensure_tenant_space_ext [OF ext] by (auto simp: spaces_ext_def)
  from enqueue_in_session_Inr [OF enq] assms(2) s1 show ?thesis
    by (cases created) (auto simp: task_added_def new_task_row_def)
qed

lemma name_is_notice: "is_notice_name (notice_name sp k)"
  by (simp add: is_notice_name_def notice_name_def)

lemma named_once:
  assumes "case_rows_ok w" "flow_get sp k (notices w) = Some n" "flow_get sp' k' (notices w) = Some n'"
    and "notice_name sp k = notice_name sp' k'"
  shows "n = n'"
proof -
  from assms(1-3) have p: "plain_space sp" "plain_space sp'"
    and "\<exists>a. k = shape_key a \<and> shape_ok sp w a" "\<exists>b. k' = shape_key b \<and> shape_ok sp' w b"
    unfolding case_rows_ok_def by blast+
  then obtain a b where "k = shape_key a" "shape_ok sp w a" "k' = shape_key b" "shape_ok sp' w b" by blast
  with notice_name_inj [of sp a sp' b] assms p shape_digest_ok show ?thesis by auto
qed

lemma pg_sender_effect:
  assumes s: "pg_sender E now ctx sp k txt note w x = (a, x1)"
  shows "x1 = x \<and> a \<noteq> Accepted \<or> (\<exists>c. x1 = (fst x, snd x @ [(c, txt)])) \<or>
    (\<exists>chat tn r s'. enqueue_task E now ctx ''delivery'' sp (notice_name sp k) (notice_payload sp k chat txt)
       tn None 0 5 Queued True (fst x) = Inr (r, s') \<and> x1 = (s', snd x))"
proof (cases "case note of None \<Rightarrow> None | Some i \<Rightarrow> flow_get sp i (routes w)")
  case None
  with s show ?thesis by (simp add: pg_sender_def)
next
  case (Some route)
  show ?thesis
  proof (cases "take 8 (rt_chat_id route) = ''console:''")
    case True
    with s Some show ?thesis by (auto simp: pg_sender_def split: option.splits list.splits)
  next
    case False
    let ?r = "enqueue_task E now ctx ''delivery'' sp (notice_name sp k) (notice_payload sp k (rt_chat_id route) txt)
      (if rt_tenant_id route = [] then ''default'' else rt_tenant_id route) None 0 5 Queued True (fst x)"
    show ?thesis
    proof (cases ?r)
      case (Inl e)
      with s Some False show ?thesis by (auto simp: pg_sender_def)
    next
      case (Inr y)
      then obtain r s' where r: "?r = Inr (r, s')" by (cases y) auto
      then have "x1 = (s', snd x)" using s Some False by (simp add: pg_sender_def)
      with r show ?thesis by blast
    qed
  qed
qed

lemma sender_ok:
  assumes ok: "notices_ok (w, x)" and n: "flow_get sp k (notices w) = Some n"
    and s: "pg_sender E now ctx sp k (nc_text n) note w x = (a, x1)"
  shows "notices_ok (w, x1) \<and> (a = Accepted \<longrightarrow> told sp n x1)"
proof -
  note o = notices_okD [OF ok]
  have id: "nc_id n = k" using o n unfolding case_rows_ok_def by blast
  from pg_sender_effect [OF s] consider "x1 = x" "a \<noteq> Accepted"
    | c where "x1 = (fst x, snd x @ [(c, nc_text n)])"
    | chat tn r s' where "enqueue_task E now ctx ''delivery'' sp (notice_name sp k) (notice_payload sp k chat (nc_text n))
        tn None 0 5 Queued True (fst x) = Inr (r, s')" "x1 = (s', snd x)"
    by blast
  then show ?thesis
  proof cases
    case 1
    with ok show ?thesis by simp
  next
    case 2
    have "told sp n x1" by (auto simp: told_def 2 image_iff)
    moreover have "told s m x1" if "told s m x" for s m using that 2 by (auto simp: told_def)
    ultimately show ?thesis using o 2 by (auto simp: notices_ok_def)
  next
    case 3
    have "map_of (notice_payload sp k chat (nc_text n)) ''text'' = Some (JStr (nc_text n))"
      by (simp add: notice_payload_def)
    from enqueue_named [OF 3(1) this] show ?thesis
    proof (elim disjE exE conjE)
      assume t: "tasks s' = tasks (fst x)" "notice_name sp k \<in> idempotency_key ` set (tasks (fst x))"
      then obtain t where t2: "t \<in> set (tasks (fst x))" "idempotency_key t = notice_name sp k" by auto
      with o name_is_notice obtain sp' k' n' where n': "flow_get sp' k' (notices w) = Some n'" "announces sp' n' t"
        unfolding tasks_ok_def by metis
      have "nc_id n' = k'" using o n' unfolding case_rows_ok_def by blast
      with n' t2 have "notice_name sp k = notice_name sp' k'" by (simp add: announces_def)
      with named_once [of w sp k n sp' k' n'] o n n' have "n = n'" by blast
      moreover have "announces sp n t" using \<open>n = n'\<close> n' t2 id by (simp add: announces_def)
      ultimately have "told sp n x1" using t t2 3 by (auto simp: told_def)
      moreover have "told s m x1" if "told s m x" for s m using that 3 t by (auto simp: told_def)
      ultimately show ?thesis using o 3 t by (auto simp: notices_ok_def tasks_ok_def)
    next
      fix t assume t: "tasks s' = tasks (fst x) @ [t]" "idempotency_key t = notice_name sp k"
        "notice_name sp k \<notin> idempotency_key ` set (tasks (fst x))"
        "map_of (payload_json t) ''text'' = Some (JStr (nc_text n))"
      then have a: "announces sp n t" using id by (simp add: announces_def)
      then have "told sp n x1" using t 3 by (auto simp: told_def)
      moreover have "told s m x1" if "told s m x" for s m using that 3 t by (auto simp: told_def)
      moreover have "tasks_ok w s'" using o t a n by (auto simp: tasks_ok_def)
      ultimately show ?thesis using o 3 by (auto simp: notices_ok_def)
    qed
  qed
qed

lemma mark_ok:
  assumes ok: "notices_ok (w, x)" and n: "flow_get sp k (notices w) = Some n" and t: "told sp n x"
  shows "notices_ok (w\<lparr>notices := flow_put sp k (n\<lparr>nc_status := ''enqueued''\<rparr>) (notices w)\<rparr>, x)"
proof -
  let ?w = "w\<lparr>notices := flow_put sp k (n\<lparr>nc_status := ''enqueued''\<rparr>) (notices w)\<rparr>"
  note o = notices_okD [OF ok]
  have "case_rows_ok ?w"
  proof (rule case_rows_restatus)
    show "case_rows_ok w" using o by simp
    show "distinct (map fst (notices ?w))" "distinct (map fst (pendings ?w))"
      using o by (auto simp: case_rows_ok_def flow_put_distinct)
    show "pd_id r = i \<and> digest_like i" if "flow_get s i (pendings ?w) = Some r" for s i r
      using o that by (auto simp: case_rows_ok_def)
    show "\<exists>m. flow_get s k' (notices w) = Some m \<and> nc_id m' = nc_id m" if "flow_get s k' (notices ?w) = Some m'" for s k' m'
      using that n by (auto simp: flow_get_put split: if_splits)
  qed auto
  moreover have "texts_kept w ?w" using n by (auto simp: texts_kept_def flow_get_put)
  moreover have "told s m x" if "flow_get s k' (notices ?w) = Some m" "nc_status m = ''enqueued''" for s k' m
    using that o t told_cong [OF t] by (auto simp: flow_get_put split: if_splits)
  ultimately show ?thesis using o tasks_ok_texts by (auto simp: notices_ok_def)
qed

lemma deliver_each_ok:
  assumes "notices_ok (w, x)"
    and "\<forall>n \<in> set ns. \<exists>n'. flow_get sp (nc_id n) (notices w) = Some n' \<and> nc_text n' = nc_text n"
    and "deliver_each (pg_sender E now ctx sp) dies sp ns w x = (c, w', x')"
  shows "notices_ok (w', x') \<and> pendings w' = pendings w"
  using assms
proof (induction ns arbitrary: w x c w' x')
  case (Cons n ns)
  show ?case
  proof (cases "nc_status n = ''queued''")
    case False
    show ?thesis by (rule Cons.IH [OF Cons.prems(1)]) (use Cons.prems(2,3) False in auto)
  next
    case True
    obtain a x1 where s: "pg_sender E now ctx sp (nc_id n) (nc_text n) (nc_note_id n) w x = (a, x1)"
      by (cases "pg_sender E now ctx sp (nc_id n) (nc_text n) (nc_note_id n) w x")
    from Cons.prems(2) obtain m where m: "flow_get sp (nc_id n) (notices w) = Some m" "nc_text m = nc_text n" by auto
    from sender_ok [OF Cons.prems(1) m(1)] s m(2) have ok: "notices_ok (w, x1)" "a = Accepted \<longrightarrow> told sp m x1"
      by auto
    show ?thesis
    proof (cases a)
      case Declined
      from Cons.IH [OF ok(1)] Cons.prems True s Declined show ?thesis by auto
    next
      case (SendRaises e)
      with Cons.prems True s ok show ?thesis by simp
    next
      case Accepted
      show ?thesis
      proof (cases "dies (nc_id n)")
        case dies: True
        with Cons.prems True s Accepted ok show ?thesis by simp
      next
        case alive: False
        let ?w = "w\<lparr>notices := flow_put sp (nc_id n) (m\<lparr>nc_status := ''enqueued''\<rparr>) (notices w)\<rparr>"
        obtain c2 w2 x2 where r: "deliver_each (pg_sender E now ctx sp) dies sp ns ?w x1 = (c2, w2, x2)"
          by (cases "deliver_each (pg_sender E now ctx sp) dies sp ns ?w x1") auto
        have "notices_ok (?w, x1)" using mark_ok [OF ok(1) m(1)] ok(2) Accepted by simp
        moreover have "\<forall>i \<in> set ns. \<exists>i'. flow_get sp (nc_id i) (notices ?w) = Some i' \<and> nc_text i' = nc_text i"
          using Cons.prems(2) m by (auto simp: flow_get_put)
        ultimately have "notices_ok (w2, x2) \<and> pendings w2 = pendings ?w" using Cons.IH r by blast
        with Cons.prems(3) True s Accepted alive m(1) r show ?thesis by simp
      qed
    qed
  qed
qed simp

lemma flush_ok:
  assumes "notices_ok (w, x)" and "flush_notifications E now ctx dies sp w x = (c, w', x')"
  shows "notices_ok (w', x') \<and> pendings w' = pendings w"
proof (rule deliver_each_ok [OF assms(1)])
  note o = notices_okD [OF assms(1)]
  show "deliver_each (pg_sender E now ctx sp) dies sp (flow_list sp (notices w)) w x = (c, w', x')"
    using assms(2) by (simp add: flush_notifications_def deliver_notifications_def)
  show "\<forall>n \<in> set (flow_list sp (notices w)). \<exists>n'. flow_get sp (nc_id n) (notices w) = Some n' \<and> nc_text n' = nc_text n"
  proof
    fix n assume n: "n \<in> set (flow_list sp (notices w))"
    have d: "distinct (map fst (notices w))" using o by (simp add: case_rows_ok_def)
    from flow_list_mem [OF d n] obtain k where k: "flow_get sp k (notices w) = Some n" by (elim exE)
    from o have "case_rows_ok w" by simp
    with k have "nc_id n = k" unfolding case_rows_ok_def by blast
    with k show "\<exists>n'. flow_get sp (nc_id n) (notices w) = Some n' \<and> nc_text n' = nc_text n" by auto
  qed
qed

end
