(* ===== verification/Workflow_Guarantees.thy ===== *)
theory Workflow_Guarantees
  imports Workflow_Notices
begin

text \<open>
  What the user learns of the cases: every notification marked as announced was announced under its own
  name, once, and a failing task of a user leaves a case that its success closes.
\<close>

subsection \<open>Histories\<close>

text \<open>
  What other processes do to the tasks: rows may come and change, but the notification tasks, their keys
  and their payloads stay, and keys are unique.
\<close>

definition tasks_elsewhere :: "db \<Rightarrow> db \<Rightarrow> bool" where
  "tasks_elsewhere s s' \<longleftrightarrow> distinct (map idempotency_key (tasks s')) \<and>
     (\<forall>t \<in> set (tasks s). \<exists>t' \<in> set (tasks s'). idempotency_key t' = idempotency_key t \<and> payload_json t' = payload_json t) \<and>
     (\<forall>t' \<in> set (tasks s'). is_notice_name (idempotency_key t') \<longrightarrow>
        (\<exists>t \<in> set (tasks s). idempotency_key t' = idempotency_key t \<and> payload_json t' = payload_json t))"

inductive flow_step :: "env \<Rightarrow> flow_env \<Rightarrow> workflow \<times> flow_world \<Rightarrow> workflow \<times> flow_world \<Rightarrow> bool" for E F where
  create: "plain_space sp \<Longrightarrow>
    flow_step E F (w, x) (snd (create_pending F now sp n reason code stage cand ids w), x)"
| resolve: "plain_space sp \<Longrightarrow> flow_step E F (w, x) (snd (resolve_pending now sp k res canc notify w), x)"
| digest: "plain_space sp \<Longrightarrow> flow_step E F (w, x) (daily_issue_digest F day sp w, x)"
| capture: "flow_step E F (w, x) (snd (capture_issue F now sp stage reason snapshot trace w), x)"
| review: "review_issue now sp k status expected reviewer w = Inr (row, w') \<Longrightarrow> flow_step E F (w, x) (w', x)"
| route: "flow_step E F (w, x) (register_route sp note chat user trace tenant w, x)"
| flush: "flush_notifications E now ctx dies sp w x = (c, w', x') \<Longrightarrow> flow_step E F (w, x) (w', x')"
| elsewhere: "tasks_elsewhere s s' \<Longrightarrow> flow_step E F (w, s, answers) (w, s', answers)"

lemma elsewhere_ok:
  assumes "notices_ok (w, s, answers)" "tasks_elsewhere s s'"
  shows "notices_ok (w, s', answers)"
proof -
  note o = notices_okD [OF assms(1)]
  have a: "announces sp n t'" if "announces sp n t" "idempotency_key t' = idempotency_key t" "payload_json t' = payload_json t"
    for sp n t t' using that by (simp add: announces_def)
  have "tasks_ok w s'" using o assms(2) a unfolding tasks_ok_def tasks_elsewhere_def fst_conv by metis
  moreover have "told sp n (s', answers)" if "told sp n (s, answers)" for sp n
  proof -
    from that consider "nc_text n \<in> snd ` set answers" | t where "t \<in> set (tasks s)" "announces sp n t"
      by (auto simp: told_def)
    then show ?thesis
    proof cases
      case 2
      with assms(2) obtain t' where "t' \<in> set (tasks s')" "idempotency_key t' = idempotency_key t"
        "payload_json t' = payload_json t" unfolding tasks_elsewhere_def by blast
      with a [OF 2(2)] show ?thesis by (auto simp: told_def)
    qed (simp add: told_def)
  qed
  ultimately show ?thesis using o by (auto simp: notices_ok_def)
qed

lemma review_sel: "review_issue now sp k st ex re w = Inr (row, w') \<Longrightarrow> notices w' = notices w \<and> pendings w' = pendings w"
  by (auto simp: review_issue_def Let_def split: if_splits option.splits)

lemma route_sel: "notices (register_route sp n c u t tn w) = notices w" "pendings (register_route sp n c u t tn w) = pendings w"
  by (simp_all add: register_route_def split: option.split list.split)

lemma same_cases_ok:
  assumes "notices_ok (w, x)" "notices w' = notices w" "pendings w' = pendings w"
  shows "notices_ok (w', x)"
proof -
  have "case_rows_ok w" using notices_okD [OF assms(1)] by simp
  then have "case_rows_ok w'" using case_rows_cong(1) [OF assms(2,3)] by simp
  with notices_ok_flow [OF assms(1)] flow_same_notices [OF assms(2)] show ?thesis by blast
qed

lemma flow_step_ok:
  assumes "flow_step E F st st'" "stable_ok F" "notices_ok st"
  shows "notices_ok st'"
  using assms(1,3)
proof (cases rule: flow_step.cases)
  case (create sp w x now n reason code stage cand ids)
  then have ok: "notices_ok (w, x)" using assms(3) by simp
  then have "case_rows_ok w" using notices_okD by simp
  from create_pending_kept [OF this assms(2) create(3)] notices_ok_flow [OF ok] show ?thesis unfolding create(2) by blast
next
  case (resolve sp w x now k res canc notify)
  then have ok: "notices_ok (w, x)" using assms(3) by simp
  then have "case_rows_ok w" using notices_okD by simp
  from resolve_pending_kept [OF this resolve(3)] notices_ok_flow [OF ok] show ?thesis unfolding resolve(2) by blast
next
  case (digest sp w x day)
  then have ok: "notices_ok (w, x)" using assms(3) by simp
  then have "case_rows_ok w" using notices_okD by simp
  from digest_kept [OF this assms(2) digest(3)] notices_ok_flow [OF ok] show ?thesis unfolding digest(2) by blast
next
  case (flush now ctx dies sp w x c w' x')
  with assms(3) flush_ok show ?thesis by blast
next
  case (elsewhere s s' w answers)
  with assms(3) elsewhere_ok show ?thesis by blast
next
  case (review now sp k status expected reviewer w row w' x)
  with assms(3) review_sel same_cases_ok show ?thesis by metis
qed (use assms(3) same_cases_ok route_sel capture_issue_sel in metis)+

definition flow_start :: "workflow \<times> flow_world \<Rightarrow> bool" where
  "flow_start st \<longleftrightarrow> (case st of (w, s, answers) \<Rightarrow> w = empty_workflow \<and>
     distinct (map idempotency_key (tasks s)) \<and> list_all (\<lambda>t. \<not> is_notice_name (idempotency_key t)) (tasks s))"

lemma flow_start_ok: "flow_start st \<Longrightarrow> notices_ok st"
  by (auto simp: flow_start_def notices_ok_def case_rows_ok_def tasks_ok_def empty_workflow_def list_all_iff)

lemma flow_reached_ok:
  assumes "(flow_step E F)\<^sup>*\<^sup>* st st'" "stable_ok F" "notices_ok st"
  shows "notices_ok st'"
  using assms(1) by (induction rule: rtranclp_induct) (use assms(2,3) flow_step_ok in blast)+

lemma filter_key_single:
  "distinct (map f xs) \<Longrightarrow> t \<in> set xs \<Longrightarrow> filter (\<lambda>y. f y = f t) xs = [t]"
proof (induction xs)
  case (Cons a xs)
  show ?case
  proof (cases "t = a")
    case True
    with Cons.prems(1) have "filter (\<lambda>y. f y = f t) xs = []" by (auto simp: filter_empty_conv image_iff)
    with True show ?thesis by simp
  next
    case False
    with Cons.prems have "t \<in> set xs" "f a \<noteq> f t" by (auto simp: image_iff)
    with Cons show ?thesis by simp
  qed
qed simp

text \<open>
  C21: what is marked as announced was announced, once and with its own text. After any history of new and
  resolved cases, digests, quality cases, routes, flushes (interrupted at any point by the death of
  the process or by an error of a sender) and whatever other processes do to other tasks: a
  notification with status enqueued was written to a console run, or there is exactly one delivery
  task under its name and that task carries its text. The digests of the identifiers have 32
  characters without a colon, and no space name ends in ":digest"; collisions of digests are allowed.
\<close>

theorem announced_once:
  assumes "flow_start st" and "stable_ok F" and "(flow_step E F)\<^sup>*\<^sup>* st (w, s, answers)"
    and "flow_get sp k (notices w) = Some n" and "nc_status n = ''enqueued''"
  shows "nc_text n \<in> snd ` set answers \<or>
    (\<exists>t. filter (\<lambda>t. idempotency_key t = notice_name sp k) (tasks s) = [t] \<and>
       map_of (payload_json t) ''text'' = Some (JStr (nc_text n)))"
proof -
  have ok: "notices_ok (w, s, answers)"
    using flow_reached_ok [OF assms(3,2) flow_start_ok [OF assms(1)]] .
  note o = notices_okD [OF ok]
  have id: "nc_id n = k" using o assms(4) unfolding case_rows_ok_def by blast
  from o assms(4,5) have "told sp n (s, answers)" by blast
  then consider "nc_text n \<in> snd ` set answers" | t where "t \<in> set (tasks s)" "announces sp n t"
    by (auto simp: told_def)
  then show ?thesis
  proof cases
    case 2
    then have t: "idempotency_key t = notice_name sp k" "map_of (payload_json t) ''text'' = Some (JStr (nc_text n))"
      by (simp_all add: announces_def id)
    have "distinct (map idempotency_key (tasks s))" using o by (simp add: tasks_ok_def)
    from filter_key_single [OF this 2(1)] t show ?thesis by simp
  qed simp
qed

text \<open>A case of a message from a chat is opened and its notification flushed.\<close>

definition case_env :: env where
  "case_env = \<lparr>uuid_hex = (\<lambda>_. ''0''), pg_md5 = (\<lambda>x. x), sha256_hex = (\<lambda>x. x), question_consistency = (\<lambda>_. ''note'')\<rparr>"

definition case_key :: string where "case_key = ''0123456789abcdef0123456789abcdef''"

definition flow_env1 :: flow_env where
  "flow_env1 = \<lparr>stable_id = (\<lambda>_. case_key), extractor_mode = ''rules'', card_prompts = [], task_prompts = []\<rparr>"

definition case_note :: wf_note where
  "case_note = \<lparr>wn_id = Some ''n1'', wn_text = Some ''hi'', wn_more = []\<rparr>"

definition routed_flow :: workflow where
  "routed_flow = register_route ''s'' ''n1'' (Some ''chat'') None None ''t'' empty_workflow"

definition opened_flow :: workflow where
  "opened_flow = snd (create_pending flow_env1 ''now'' ''s'' case_note ''why'' ''code'' ''stage'' VNull [] routed_flow)"

definition flushed_flow :: "nat option \<times> workflow \<times> flow_world" where
  "flushed_flow = flush_notifications case_env 5 [] (\<lambda>_. False) ''s'' opened_flow (empty_db, [])"

lemma flow_env1_ok: "stable_ok flow_env1"
  by (simp add: stable_ok_def digest_like_def flow_env1_def case_key_def)

lemma plain_s: "plain_space ''s''"
  unfolding plain_space_def
proof
  fix p :: string
  have "length ''s'' \<noteq> length (p @ '':digest'')" by simp
  then show "''s'' \<noteq> p @ '':digest''" by metis
qed

lemma flushed_flow_ans: "snd (snd (snd flushed_flow)) = []"
  by code_simp

lemma flushed_flow_status:
  "map_option nc_status (flow_get ''s'' case_key (notices (fst (snd flushed_flow)))) = Some ''enqueued''"
  by code_simp

lemma announced_once_witness:
  "(\<exists>n t. flow_get ''s'' case_key (notices (fst (snd flushed_flow))) = Some n \<and>
     filter (\<lambda>t. idempotency_key t = notice_name ''s'' case_key) (tasks (fst (snd (snd flushed_flow)))) = [t] \<and>
     map_of (payload_json t) ''text'' = Some (JStr (nc_text n)))"
proof -
  obtain c w s answers where f: "flushed_flow = (c, w, s, answers)" by (cases flushed_flow)
  have no: "answers = []" and st: "map_option nc_status (flow_get ''s'' case_key (notices w)) = Some ''enqueued''"
    using f by (simp_all add: flushed_flow_ans [unfolded f, simplified] flushed_flow_status [unfolded f, simplified])
  from st obtain n where n: "flow_get ''s'' case_key (notices w) = Some n" "nc_status n = ''enqueued''" by auto
  let ?R = "flow_step case_env flow_env1"
  have "?R (empty_workflow, empty_db, []) (routed_flow, empty_db, [])" unfolding routed_flow_def by (rule flow_step.route)
  moreover have "?R (routed_flow, empty_db, []) (opened_flow, empty_db, [])"
    unfolding opened_flow_def by (rule flow_step.create [OF plain_s])
  moreover have "?R (opened_flow, empty_db, []) (w, s, answers)"
    using f unfolding flushed_flow_def by (rule flow_step.flush)
  ultimately have r: "?R\<^sup>*\<^sup>* (empty_workflow, empty_db, []) (w, s, answers)" by (meson r_into_rtranclp rtranclp_trans)
  have "flow_start (empty_workflow, empty_db, [])" by (simp add: flow_start_def empty_db_def)
  from announced_once [OF this flow_env1_ok r n] show ?thesis using n(1) by (auto simp: no f)
qed

subsection \<open>The guard of the handlers\<close>

definition cases_keyed :: "workflow \<Rightarrow> bool" where
  "cases_keyed w \<longleftrightarrow> distinct (map fst (pendings w)) \<and>
     (\<forall>sp k r. flow_get sp k (pendings w) = Some r \<longrightarrow> pd_id r = k)"

lemma deliver_pendings:
  "deliver_each snd1 dies sp ns w x = (c, w', x') \<Longrightarrow> pendings w' = pendings w"
proof (induction ns arbitrary: w x c w' x')
  case (Cons n ns)
  then show ?case
    by (auto split: if_splits send_answer.splits prod.splits option.splits)
qed simp

lemma flush_app_pendings [simp]: "pendings (fa_flow (flush_app E now ctx dies sp A)) = pendings (fa_flow A)"
proof -
  obtain c w x where f: "flush_notifications E now ctx dies sp (fa_flow A) (core (fa_app A), fa_console A) = (c, w, x)"
    by (cases "flush_notifications E now ctx dies sp (fa_flow A) (core (fa_app A), fa_console A)")
  then have "pendings w = pendings (fa_flow A)"
    using deliver_pendings unfolding flush_notifications_def deliver_notifications_def by metis
  then show ?thesis by (cases x) (simp add: flush_app_def f)
qed

definition closes :: "string \<Rightarrow> workflow \<Rightarrow> workflow \<Rightarrow> bool" where
  "closes sp w w' \<longleftrightarrow> cases_keyed w' \<and> (\<forall>k r'. flow_get sp k (pendings w') = Some r' \<longrightarrow> pd_status r' = ''pending'' \<longrightarrow>
     flow_get sp k (pendings w) = Some r')"

lemma resolve_closes:
  assumes "cases_keyed w"
  shows "closes sp w (snd (resolve_pending now sp k res False True w)) \<and>
    (\<forall>r'. flow_get sp k (pendings (snd (resolve_pending now sp k res False True w))) = Some r' \<longrightarrow> pd_status r' \<noteq> ''pending'')"
proof (cases "\<exists>row. flow_get sp k (pendings w) = Some row \<and> pd_status row = ''pending''")
  case False
  then have "snd (resolve_pending now sp k res False True w) = w"
    by (auto simp: resolve_pending_def split: option.splits)
  with False assms show ?thesis by (auto simp: closes_def)
next
  case True
  then obtain row where row: "flow_get sp k (pendings w) = Some row" "pd_status row = ''pending''" by blast
  then have p: "pendings (snd (resolve_pending now sp k res False True w)) =
      flow_put sp k (row\<lparr>pd_status := ''resolved'', pd_result := Some res, pd_resolved_at := Some now\<rparr>) (pendings w)"
    by (simp add: resolve_pending_def Let_def)
  have "pd_id row = k" using assms row by (simp add: cases_keyed_def)
  with assms show ?thesis
    by (auto simp: closes_def p flow_get_put cases_keyed_def flow_put_distinct split: if_splits)
qed

lemma closes_trans: "closes sp w1 w2 \<Longrightarrow> closes sp w2 w3 \<Longrightarrow> closes sp w1 w3"
  by (simp add: closes_def)

lemma resolve_all_closes:
  assumes "cases_keyed w"
  shows "closes sp w (fold (\<lambda>r w. snd (resolve_pending now sp (pd_id r) res False True w)) rs w) \<and>
    (\<forall>r \<in> set rs. \<forall>r'. flow_get sp (pd_id r) (pendings (fold (\<lambda>r w. snd (resolve_pending now sp (pd_id r) res False True w)) rs w))
       = Some r' \<longrightarrow> pd_status r' \<noteq> ''pending'')"
  using assms
proof (induction rs arbitrary: w)
  case (Cons q rs)
  let ?w = "snd (resolve_pending now sp (pd_id q) res False True w)"
  note q = resolve_closes [OF Cons.prems, of sp now "pd_id q" res]
  have k: "cases_keyed ?w" using q by (simp add: closes_def)
  note i = Cons.IH [OF k]
  have "pd_status r' \<noteq> ''pending''" if "flow_get sp (pd_id q)
      (pendings (fold (\<lambda>r w. snd (resolve_pending now sp (pd_id r) res False True w)) rs ?w)) = Some r'" for r'
    using i q that unfolding closes_def by metis
  moreover have "closes sp w (fold (\<lambda>r w. snd (resolve_pending now sp (pd_id r) res False True w)) rs ?w)"
    using closes_trans q i by blast
  ultimately show ?case using i by simp
qed (simp add: closes_def)

lemma guard_success_closes:
  assumes k: "cases_keyed w"
  shows "open_failures t (guard_success now t w) = []"
proof -
  let ?sp = "task_space_id t" and ?w = "guard_success now t w"
  have c: "closes ?sp w ?w" and fin: "\<And>r r'. r \<in> set (open_failures t w) \<Longrightarrow>
      flow_get ?sp (pd_id r) (pendings ?w) = Some r' \<Longrightarrow> pd_status r' \<noteq> ''pending''"
    using resolve_all_closes [OF k, of ?sp now _ "open_failures t w"] unfolding guard_success_def by auto
  show ?thesis
  proof (rule ccontr)
    assume "open_failures t ?w \<noteq> []"
    then obtain r where r: "r \<in> set (open_failures t ?w)" by (cases "open_failures t ?w") auto
    then have m: "r \<in> set (flow_list ?sp (pendings ?w))" "pd_status r = ''pending''"
      by (simp_all add: open_failures_def)
    have kw: "cases_keyed ?w" using c by (simp add: closes_def)
    with flow_list_mem [OF _ m(1)] obtain key where g: "flow_get ?sp key (pendings ?w) = Some r"
      by (auto simp: cases_keyed_def)
    with kw have id: "pd_id r = key" by (simp add: cases_keyed_def)
    from c g m(2) have "flow_get ?sp key (pendings w) = Some r" by (simp add: closes_def)
    then have "r \<in> set (open_failures t w)" using r flow_list_get by (auto simp: open_failures_def)
    from fin [OF this] g id m(2) show False by simp
  qed
qed

lemma create_pending_case:
  "flow_get sp (pending_key F n stage code cand) (pendings (snd (create_pending F now sp n reason code stage cand ids w))) =
     (case flow_get sp (pending_key F n stage code cand) (pendings w) of
        Some prior \<Rightarrow> Some prior
      | None \<Rightarrow> Some \<lparr>pd_id = pending_key F n stage code cand, pd_space_id = sp, pd_note = n, pd_reason = reason,
          pd_code = code, pd_stage = stage, pd_candidate = cand, pd_target_ids = ids, pd_status = ''pending'',
          pd_created_at = now, pd_result = None, pd_resolved_at = None\<rparr>)"
  by (simp add: create_pending_def Let_def flow_get_put split: option.split)

lemma open_failuresI:
  "flow_get (task_space_id t) k (pendings w) = Some r \<Longrightarrow> pd_code r = ''task_failed'' \<Longrightarrow> pd_status r = ''pending'' \<Longrightarrow>
     pd_target_ids r = [task_id t] \<Longrightarrow> r \<in> set (open_failures t w)"
  using flow_list_get by (auto simp: open_failures_def)

lemma open_failures_cong: "pendings w = pendings w' \<Longrightarrow> open_failures t w = open_failures t w'"
  by (simp add: open_failures_def)

text \<open>The case of a failing task: its message, its type, and nothing of the exception.\<close>

definition failure_key :: "flow_env \<Rightarrow> task_row \<Rightarrow> flow_app \<Rightarrow> string" where
  "failure_key F t A = pending_key F (guard_note t (guard_inbox t (core (fa_app A)))) (task_type t) ''task_failed'' VNull"


text \<open>A delivery task without its key: its handler raises, and the guard opens a case for it.\<close>

definition failing_app :: flow_app where
  "failing_app = \<lparr>fa_app = \<lparr>store = \<lparr>dv_core = empty_db, deliveries = [], delivery_attempts = []\<rparr>, sent_texts = [],
     page_answers = [], summary_marks = []\<rparr>, fa_flow = routed_flow, fa_console = []\<rparr>"

definition keyless_task :: task_row where
  "keyless_task = \<lparr>task_id = ''t1'', task_type = ''delivery'', task_tenant_id = ''t'', task_space_id = ''s'',
     source_message_id = None, idempotency_key = ''k'', task_status = Running, priority = 0, attempt_count = 1,
     failure_count = 0, defer_count = 0, max_attempts = 5, payload_json = [(''note_id'', JStr ''n1'')],
     next_retry_at = None, created_at = 0, started_at = None, completed_at = None, last_error = None,
     claimed_by = None, lease_token = None, lease_expires_at = None, claim_version = 1\<rparr>"

definition delivering :: "task_row \<Rightarrow> flow_app \<Rightarrow> handler_result \<times> flow_app" where
  "delivering t A = (case handle_delivery case_env
       \<lparr>fake_externals = False, preference_cards = True, auto_consolidation = False, fact_memory = False\<rparr> SendOk 0 1 t (fa_app A) of
     (r, B) \<Rightarrow> (r, A\<lparr>fa_app := B\<rparr>))"


end
