(* ===== verification/LLM_Keys.thy ===== *)
theory LLM_Keys
  imports Prelude Complex_Main
begin

text \<open>
  The pools of API keys (\<open>core/llm_key_pool.py\<close>) and the requests that go through them
  (\<open>_chat_completion_with_key_pool\<close> and its neighbours in \<open>core/llm_client.py\<close>). Times are rational
  seconds of the monotonic clock; each reading is an argument, and so is each random draw. The provider's
  answers are an argument too: a response, or an exception with its class name, text and status code.
  Reading a Retry-After header is part of the exception. Environment variables are arguments; their text is
  ASCII.
\<close>

subsection \<open>Configured keys\<close>

text \<open>\<open>_split_keys\<close>: commas, semicolons and white space separate.\<close>

definition key_separator :: "char \<Rightarrow> bool" where
  "key_separator c \<longleftrightarrow> c \<in> {CHR '','', CHR '';'', CHR '' '', CHR 0x09, CHR 0x0A, CHR 0x0B, CHR 0x0C, CHR 0x0D}"

fun split_pieces :: "string \<Rightarrow> string \<Rightarrow> string list" where
  "split_pieces word [] = (if word = [] then [] else [rev word])"
| "split_pieces word (c # cs) = (if key_separator c
     then (if word = [] then split_pieces [] cs else rev word # split_pieces [] cs)
     else split_pieces (c # word) cs)"

definition split_keys :: "string option \<Rightarrow> string list" where
  "split_keys value = (case value of None \<Rightarrow> [] | Some v \<Rightarrow> split_pieces [] (py_strip v))"

definition numbered_prefixes :: "string \<Rightarrow> string list" where
  "numbered_prefixes kind = (if kind = ''chat'' then [''OPENAI_API_KEY_'']
     else [''DASHSCOPE_API_KEY_'', ''SUIXINJI_EMBEDDING_API_KEY_'', ''EMBEDDING_API_KEY_''])"

definition all_digits :: "string \<Rightarrow> bool" where
  "all_digits s \<longleftrightarrow> s \<noteq> [] \<and> (\<forall>c \<in> set s. CHR ''0'' \<le> c \<and> c \<le> CHR ''9'')"

definition number_of :: "string \<Rightarrow> nat" where
  "number_of s = foldl (\<lambda>n c. 10 * n + (of_char c - 48)) 0 s"

text \<open>The number of a variable under the first prefix that fits, if its value is not blank.\<close>

definition numbered_key :: "string list \<Rightarrow> string \<times> string \<Rightarrow> (nat \<times> string) option" where
  "numbered_key prefixes entry = (case entry of (name, v) \<Rightarrow>
     (case find (\<lambda>p. take (length p) name = p \<and> name \<noteq> p \<and> all_digits (drop (length p) name) \<and> py_strip v \<noteq> [])
         prefixes of
        None \<Rightarrow> None
      | Some p \<Rightarrow> Some (number_of (drop (length p) name), py_strip v)))"

definition first_occurrences :: "'a list \<Rightarrow> 'a list" where
  "first_occurrences xs = rev (remdups (rev xs))"

definition configured_keys :: "string \<Rightarrow> (string \<times> string) list \<Rightarrow> string option \<Rightarrow> string list" where
  "configured_keys kind environ fallback =
     (let scoped = (if kind = ''chat'' then ''SUIXINJI_LLM_API_KEYS'' else ''SUIXINJI_EMBEDDING_API_KEYS'');
          shared = (if kind = ''chat'' then ''OPENAI_API_KEYS'' else ''DASHSCOPE_API_KEYS'');
          numbered = sort (List.map_filter (numbered_key (numbered_prefixes kind)) environ)
      in first_occurrences (filter (\<lambda>v. v \<noteq> [])
           (split_keys (map_of environ scoped) @ split_keys (map_of environ shared) @ map snd numbered @
            split_keys fallback)))"

subsection \<open>The pool\<close>

record key_state =
  ks_key :: string
  cooldown_until :: rat
  ks_failures :: nat
  ks_successes :: nat

record key_pool =
  kp_kind :: string
  kp_states :: "key_state list"
  kp_cursor :: nat
  default_cooldown :: rat
  failure_cooldown :: rat

definition new_pool :: "string \<Rightarrow> string list \<Rightarrow> rat \<Rightarrow> rat \<Rightarrow> key_pool" where
  "new_pool kind keys conf fail_conf = \<lparr>kp_kind = kind,
     kp_states = map (\<lambda>k. \<lparr>ks_key = k, cooldown_until = 0, ks_failures = 0, ks_successes = 0\<rparr>) keys,
     kp_cursor = 0, default_cooldown = max 1 conf, failure_cooldown = max 0 fail_conf\<rparr>"

definition pool_keys :: "key_pool \<Rightarrow> string list" where
  "pool_keys P = map ks_key (kp_states P)"

definition pool_size :: "key_pool \<Rightarrow> nat" where
  "pool_size P = length (kp_states P)"

text \<open>\<open>slot\<close>: the position of a key, from 1.\<close>

definition key_slot :: "string option \<Rightarrow> key_pool \<Rightarrow> nat option" where
  "key_slot key P = (case key of
     Some (c # cs) \<Rightarrow> find (\<lambda>i. ks_key (kp_states P ! (i - 1)) = c # cs) [1..<Suc (pool_size P)]
   | _ \<Rightarrow> None)"

definition ring :: "key_pool \<Rightarrow> nat list" where
  "ring P = map (\<lambda>i. (kp_cursor P + i) mod pool_size P) [0..<pool_size P]"

definition candidates_of :: "string list \<Rightarrow> key_pool \<Rightarrow> nat list" where
  "candidates_of exclude P =
     (let cs = filter (\<lambda>i. ks_key (kp_states P ! i) \<notin> set exclude) (ring P) in if cs = [] then ring P else cs)"

definition ready_keys :: "rat \<Rightarrow> nat list \<Rightarrow> key_pool \<Rightarrow> nat list" where
  "ready_keys now cs P = filter (\<lambda>i. cooldown_until (kp_states P ! i) \<le> now) cs"

definition acquire_key :: "string list \<Rightarrow> rat \<Rightarrow> key_pool \<Rightarrow> (string option \<times> rat) \<times> key_pool" where
  "acquire_key exclude now P =
     (if kp_states P = [] then ((None, 0), P)
      else let cs = candidates_of exclude P in
        case ready_keys now cs P of
          i # _ \<Rightarrow> ((Some (ks_key (kp_states P ! i)), 0), P\<lparr>kp_cursor := (i + 1) mod pool_size P\<rparr>)
        | [] \<Rightarrow> ((None, max 0 (min_list (map (\<lambda>i. cooldown_until (kp_states P ! i)) cs) - now)), P))"

text \<open>A report changes the first state with the key.\<close>

fun upd_key :: "string \<Rightarrow> (key_state \<Rightarrow> key_state) \<Rightarrow> key_state list \<Rightarrow> key_state list" where
  "upd_key k f [] = []"
| "upd_key k f (s # ss) = (if ks_key s = k then f s # ss else s # upd_key k f ss)"

definition report_on :: "string option \<Rightarrow> (key_state \<Rightarrow> key_state) \<Rightarrow> key_pool \<Rightarrow> key_pool" where
  "report_on key f P = (case key of
     Some (c # cs) \<Rightarrow> P\<lparr>kp_states := upd_key (c # cs) f (kp_states P)\<rparr>
   | _ \<Rightarrow> P)"

definition report_success :: "string option \<Rightarrow> key_pool \<Rightarrow> key_pool" where
  "report_success key P = report_on key (\<lambda>s. s\<lparr>ks_successes := ks_successes s + 1, ks_failures := 0\<rparr>) P"

definition cool :: "rat \<Rightarrow> key_state \<Rightarrow> key_state" where
  "cool t s = s\<lparr>cooldown_until := max (cooldown_until s) t\<rparr>"

text \<open>\<open>draw\<close> is the value of \<open>random.uniform(-jitter, jitter)\<close>.\<close>

definition report_failure ::
  "string option \<Rightarrow> string \<Rightarrow> rat option \<Rightarrow> rat \<Rightarrow> rat \<Rightarrow> key_pool \<Rightarrow> key_pool" where
  "report_failure key category retry_after draw now P = report_on key (\<lambda>s0.
     let s = s0\<lparr>ks_failures := ks_failures s0 + 1\<rparr> in
     if category = ''insufficient_balance'' then cool (now + 1800) s
     else if category = ''rate_limit''
       then cool (now + max 0 ((case retry_after of Some r \<Rightarrow> r | None \<Rightarrow> default_cooldown P) * (1 + draw))) s
     else if category \<in> {''connection_error'', ''server_error''} \<and> failure_cooldown P \<noteq> 0
       then cool (now + failure_cooldown P) s
     else s) P"

definition has_alternative :: "string list \<Rightarrow> rat \<Rightarrow> key_pool \<Rightarrow> bool" where
  "has_alternative used now P \<longleftrightarrow> (\<exists>s \<in> set (kp_states P). ks_key s \<notin> set used \<and> cooldown_until s \<le> now)"

subsection \<open>The registry of pools\<close>

type_synonym pools = "((string \<times> string list) \<times> key_pool) list"

definition get_api_key_pool ::
  "rat \<Rightarrow> rat \<Rightarrow> (string \<times> string) list \<Rightarrow> string \<Rightarrow> string option \<Rightarrow> pools \<Rightarrow> key_pool \<times> pools" where
  "get_api_key_pool conf fail_conf environ kind fallback ps =
     (let keys = configured_keys kind environ fallback in
      case map_of ps (kind, keys) of
        Some P \<Rightarrow> (P, ps)
      | None \<Rightarrow> let P = new_pool kind keys conf fail_conf in (P, ps @ [((kind, keys), P)]))"

record pool_diagnosis =
  key_count :: nat
  cooling_slots :: nat
  total_successes :: nat
  total_failures :: nat

definition pool_stats :: "rat \<Rightarrow> pools \<Rightarrow> (string \<times> pool_diagnosis) list" where
  "pool_stats now ps = fold (\<lambda>((kind, keys), P). AList.update kind \<lparr>key_count = pool_size P,
     cooling_slots = length (filter (\<lambda>s. now < cooldown_until s) (kp_states P)),
     total_successes = sum_list (map ks_successes (kp_states P)),
     total_failures = sum_list (map ks_failures (kp_states P))\<rparr>) ps []"

subsection \<open>Errors of the provider\<close>

record llm_error =
  le_name :: string
  le_text :: string
  le_status :: "int option"
  le_timeout :: bool
  le_retry_after :: "rat option"

definition any_part :: "string list \<Rightarrow> string \<Rightarrow> bool" where
  "any_part needles s \<longleftrightarrow> (\<exists>n \<in> set needles. contains n s)"

text \<open>\<open>classify_llm_error\<close> for an exception; \<open>json\<close> is the phase \<open>json\<close>.\<close>

definition classify_llm_error :: "llm_error \<Rightarrow> bool \<Rightarrow> string" where
  "classify_llm_error e json =
     (let name = py_lower (le_name e); txt = py_lower (le_text e);
          either = (\<lambda>ns. any_part ns name \<or> any_part ns txt) in
      if le_status e = Some 402 \<or> contains ''insufficient balance'' txt then ''insufficient_balance''
      else if either [''timeout''] then ''transport_timeout''
      else if either [''connection'', ''connecterror'', ''network'', ''dns'', ''ssl''] then ''connection_error''
      else if either [''ratelimit'', ''rate_limit'', ''429'', ''too many requests''] then ''rate_limit''
      else if any_part ['' 500'', '' 502'', '' 503'', '' 504'', ''server error'', ''bad gateway'', ''service unavailable''] txt
        then ''server_error''
      else if json \<or> either [''json'']
        then (if any_part [''unterminated'', ''unexpected end'', ''truncated''] txt then ''truncated_response'' else ''invalid_json'')
      else ''unknown'')"

subsection \<open>Requests\<close>

text \<open>
  \<open>_client_from_key_pool\<close>: the key of the client, None for the configured one. \<open>t0\<close> and \<open>t1\<close> are the clock
  readings of the two calls of \<open>acquire\<close>, the second after sleeping.
\<close>

definition client_from_key_pool ::
  "string list \<Rightarrow> rat \<Rightarrow> rat \<Rightarrow> key_pool \<Rightarrow> string option \<times> string list \<times> key_pool" where
  "client_from_key_pool used t0 t1 P =
     (let ((key0, wait), P0) = acquire_key used t0 P;
          (key, P1) = (if key0 = None \<and> 0 < wait
            then (case acquire_key used t1 P0 of ((k, _), Q) \<Rightarrow> (k, Q)) else (key0, P0))
      in case key of None \<Rightarrow> (None, used, P1) | Some k \<Rightarrow> (Some k, k # used, P1))"

text \<open>What other threads do to the pool while a request is under way.\<close>

datatype pool_op =
    OtherAcquire "string list" rat
  | OtherSuccess "string option"
  | OtherFailure "string option" string "rat option" rat rat

fun pool_apply :: "pool_op \<Rightarrow> key_pool \<Rightarrow> key_pool" where
  "pool_apply (OtherAcquire exclude now) P = snd (acquire_key exclude now P)"
| "pool_apply (OtherSuccess key) P = report_success key P"
| "pool_apply (OtherFailure key category retry_after draw now) P = report_failure key category retry_after draw now P"

text \<open>
  One request: what others do meanwhile, the answer, the random draw of the report and the clock readings
  of the report, of \<open>has_alternative\<close> and of the two calls of \<open>acquire\<close>.
\<close>

record 'r llm_call =
  lc_others :: "pool_op list"
  lc_answer :: "llm_error + 'r"
  lc_draw :: rat
  lc_report :: rat
  lc_alternative :: rat
  lc_acquire :: rat
  lc_acquire_again :: rat

definition failover_categories :: "string set" where
  "failover_categories = {''rate_limit'', ''connection_error'', ''server_error'', ''insufficient_balance''}"

text \<open>
  The loop of \<open>_chat_completion_with_key_pool\<close>: \<open>timeouts\<close> of \<open>retries\<close> are used up, \<open>key\<close> is the key of the
  client. The result is the outcome with the number of the attempt, None while the loop is still
  running after the given calls; the second component lists the keys the requests were sent with.
\<close>

fun chat_requests ::
  "bool \<Rightarrow> nat \<Rightarrow> nat \<Rightarrow> nat \<Rightarrow> string option \<Rightarrow> string list \<Rightarrow> key_pool \<Rightarrow> 'r llm_call list \<Rightarrow>
     (llm_error + 'r \<times> nat) option \<times> string option list \<times> key_pool" where
  "chat_requests accepts retries timeouts attempt key used P [] = (None, [], P)"
| "chat_requests accepts retries timeouts attempt key used P (c # calls) =
     (let P0 = fold pool_apply (lc_others c) P in
      case lc_answer c of
        Inr r \<Rightarrow> (Some (Inr (r, attempt + 1)), [key], report_success key P0)
      | Inl e \<Rightarrow>
        if le_timeout e \<and> timeouts + 1 \<le> retries
        then (case chat_requests accepts retries (timeouts + 1) (attempt + 1) key used P0 calls of
            (res, sent, Q) \<Rightarrow> (res, key # sent, Q))
        else
          let timeouts1 = (if le_timeout e then timeouts + 1 else timeouts);
              category = (if le_timeout e then ''transport_timeout'' else classify_llm_error e False);
              P1 = report_failure key category (if le_timeout e then None else le_retry_after e) (lc_draw c) (lc_report c) P0
          in if accepts \<and> (le_timeout e \<or> category \<in> failover_categories) \<and> has_alternative used (lc_alternative c) P1
             then (case client_from_key_pool used (lc_acquire c) (lc_acquire_again c) P1 of
                 (key1, used1, P2) \<Rightarrow>
                   (case chat_requests accepts retries timeouts1 (attempt + 1) key1 used1 P2 calls of
                      (res, sent, Q) \<Rightarrow> (res, key # sent, Q)))
             else (Some (Inl e), [key], P1))"

definition chat_completion_with_key_pool ::
  "bool \<Rightarrow> nat \<Rightarrow> rat \<Rightarrow> rat \<Rightarrow> key_pool \<Rightarrow> 'r llm_call list \<Rightarrow>
     (llm_error + 'r \<times> nat) option \<times> string option list \<times> key_pool" where
  "chat_completion_with_key_pool accepts retries t0 t1 P calls =
     (case client_from_key_pool [] t0 t1 P of
        (key, used, P1) \<Rightarrow> chat_requests accepts retries 0 0 key used P1 calls)"

text \<open>\<open>_timeout_retries_for_route\<close>\<close>

definition timeout_retries :: "bool \<Rightarrow> int \<Rightarrow> nat" where
  "timeout_retries extraction conf = (if extraction then nat (min 1 (max 0 conf)) else 0)"

text \<open>\<open>_embedding_request_with_key_pool\<close>: a timeout of the transport is not failed over here.\<close>

fun embedding_requests ::
  "bool \<Rightarrow> string option \<Rightarrow> string list \<Rightarrow> key_pool \<Rightarrow> 'r llm_call list \<Rightarrow>
     (llm_error + 'r) option \<times> string option list \<times> key_pool" where
  "embedding_requests accepts key used P [] = (None, [], P)"
| "embedding_requests accepts key used P (c # calls) =
     (let P0 = fold pool_apply (lc_others c) P in
      case lc_answer c of
        Inr r \<Rightarrow> (Some (Inr r), [key], report_success key P0)
      | Inl e \<Rightarrow>
        let category = classify_llm_error e False;
            P1 = report_failure key category (le_retry_after e) (lc_draw c) (lc_report c) P0
        in if accepts \<and> category \<in> failover_categories \<and> has_alternative used (lc_alternative c) P1
           then (case client_from_key_pool used (lc_acquire c) (lc_acquire_again c) P1 of
               (key1, used1, P2) \<Rightarrow>
                 (case embedding_requests accepts key1 used1 P2 calls of (res, sent, Q) \<Rightarrow> (res, key # sent, Q)))
           else (Some (Inl e), [key], P1))"

definition embedding_with_key_pool ::
  "bool \<Rightarrow> rat \<Rightarrow> rat \<Rightarrow> key_pool \<Rightarrow> 'r llm_call list \<Rightarrow> (llm_error + 'r) option \<times> string option list \<times> key_pool" where
  "embedding_with_key_pool accepts t0 t1 P calls =
     (case client_from_key_pool [] t0 t1 P of (key, used, P1) \<Rightarrow> embedding_requests accepts key used P1 calls)"

end
