(* ===== verification/Key_Guarantees.thy ===== *)
theory Key_Guarantees
  imports LLM_Keys
begin

text \<open>
  What the key pools promise: a key that cools down is never handed out, waiting times are exact, keys take
  turns, and failing over tries every free key once and then ends.
\<close>

subsection \<open>The ring\<close>

lemma ring_mem: "i \<in> set (ring P) \<longleftrightarrow> i < pool_size P"
proof
  assume "i \<in> set (ring P)"
  then obtain d where "d < pool_size P" "i = (kp_cursor P + d) mod pool_size P" by (auto simp: ring_def)
  then show "i < pool_size P" by (metis gr_implies_not0 mod_less_divisor neq0_conv)
next
  let ?n = "pool_size P"
  assume i: "i < ?n"
  let ?d = "(i + ?n - kp_cursor P mod ?n) mod ?n"
  have "(kp_cursor P + ?d) mod ?n = (kp_cursor P mod ?n + (i + ?n - kp_cursor P mod ?n)) mod ?n"
    by (simp add: mod_simps)
  also have "\<dots> = i" using i by (simp add: less_imp_le_nat mod_less_divisor trans_le_add2)
  finally have "i = (kp_cursor P + ?d) mod ?n" by simp
  moreover have "?d < ?n" using i by simp
  ultimately show "i \<in> set (ring P)" unfolding ring_def by force
qed

lemma pool_state_mem: "s \<in> set (kp_states P) \<longleftrightarrow> (\<exists>i < pool_size P. s = kp_states P ! i)"
  by (auto simp: in_set_conv_nth pool_size_def)

lemma candidates_subset: "set (candidates_of exclude P) \<subseteq> set (ring P)"
  by (auto simp: candidates_of_def Let_def)

lemma candidates_nonempty: "kp_states P \<noteq> [] \<Longrightarrow> candidates_of exclude P \<noteq> []"
  by (auto simp: candidates_of_def Let_def ring_def pool_size_def)

lemma candidates_fresh:
  assumes "s \<in> set (kp_states P)" "ks_key s \<notin> set exclude"
  shows "set (candidates_of exclude P) = {i. i < pool_size P \<and> ks_key (kp_states P ! i) \<notin> set exclude}"
proof -
  from assms(1) obtain i where i: "i < pool_size P" "s = kp_states P ! i" using pool_state_mem by blast
  then have "i \<in> set (filter (\<lambda>i. ks_key (kp_states P ! i) \<notin> set exclude) (ring P))"
    using assms(2) by (simp add: ring_mem)
  then have "filter (\<lambda>i. ks_key (kp_states P ! i) \<notin> set exclude) (ring P) \<noteq> []"
    by (metis list.set(1) empty_iff)
  then show ?thesis by (simp add: candidates_of_def Let_def ring_mem Collect_conj_eq)
qed

subsection \<open>What the operations keep\<close>

lemma upd_key_keys: "(\<And>s. ks_key (f s) = ks_key s) \<Longrightarrow> map ks_key (upd_key k f ss) = map ks_key ss"
  by (induction ss) auto

lemma cool_key [simp]: "ks_key (cool t s) = ks_key s"
  by (simp add: cool_def)

lemma acquire_states [simp]: "kp_states (snd (acquire_key ex now P)) = kp_states P"
  by (simp add: acquire_key_def Let_def split: list.split)

lemma reports_keys [simp]:
  "pool_keys (report_success key P) = pool_keys P"
  "pool_keys (report_failure key cat ra draw now P) = pool_keys P"
  by (simp_all add: report_success_def report_failure_def report_on_def pool_keys_def Let_def upd_key_keys
      split: option.split list.split)

lemma acquire_keys [simp]: "pool_keys (snd (acquire_key ex now P)) = pool_keys P"
  by (simp add: pool_keys_def)

lemma apply_keys [simp]: "pool_keys (pool_apply op P) = pool_keys P"
  by (cases op) simp_all

lemma others_keys [simp]: "pool_keys (fold pool_apply ops P) = pool_keys P"
  by (induction ops arbitrary: P) simp_all

subsection \<open>Acquiring\<close>

lemma acquire_Some:
  assumes "acquire_key exclude now P = ((Some k, w), Q)"
  shows "w = 0 \<and> (\<exists>s \<in> set (kp_states P). ks_key s = k \<and> cooldown_until s \<le> now) \<and>
    (k \<in> set exclude \<longrightarrow> set (pool_keys P) \<subseteq> set exclude)"
proof -
  from assms obtain i rest where r: "ready_keys now (candidates_of exclude P) P = i # rest"
      and k: "k = ks_key (kp_states P ! i)" "w = 0"
    by (auto simp: acquire_key_def Let_def split: if_splits list.splits)
  from r have "i \<in> set (ready_keys now (candidates_of exclude P) P)" by simp
  then have i: "i \<in> set (candidates_of exclude P)" "cooldown_until (kp_states P ! i) \<le> now"
    by (simp_all add: ready_keys_def)
  then have "i < pool_size P" using candidates_subset ring_mem by blast
  then have "kp_states P ! i \<in> set (kp_states P)" using pool_state_mem by blast
  moreover have "set (pool_keys P) \<subseteq> set exclude" if "k \<in> set exclude"
  proof (rule ccontr)
    assume "\<not> set (pool_keys P) \<subseteq> set exclude"
    then obtain s where "s \<in> set (kp_states P)" "ks_key s \<notin> set exclude" by (auto simp: pool_keys_def)
    from candidates_fresh [OF this] i(1) that k(1) show False by simp
  qed
  ultimately show ?thesis using k i(2) by blast
qed

lemma acquire_fresh:
  assumes "has_alternative used t P" "t \<le> t'"
  obtains k Q where "acquire_key used t' P = ((Some k, 0), Q)" "k \<notin> set used" "k \<in> set (pool_keys P)"
    "pool_keys Q = pool_keys P"
proof -
  from assms(1) obtain s where s: "s \<in> set (kp_states P)" "ks_key s \<notin> set used" "cooldown_until s \<le> t"
    by (auto simp: has_alternative_def)
  then obtain i where i: "i < pool_size P" "s = kp_states P ! i" using pool_state_mem by blast
  have "i \<in> set (ready_keys t' (candidates_of used P) P)"
    using candidates_fresh [OF s(1,2)] i s assms(2) by (simp add: ready_keys_def)
  then obtain j js where r: "ready_keys t' (candidates_of used P) P = j # js" by (metis list.set_cases)
  then have j: "j \<in> set (candidates_of used P)" by (metis filter_is_subset list.set_intros(1) ready_keys_def subsetD)
  have a: "acquire_key used t' P = ((Some (ks_key (kp_states P ! j)), 0), P\<lparr>kp_cursor := (j + 1) mod pool_size P\<rparr>)"
    using s(1) r by (auto simp: acquire_key_def Let_def)
  from j have "j < pool_size P" "ks_key (kp_states P ! j) \<notin> set used" using candidates_fresh [OF s(1,2)] by simp_all
  then show thesis by (intro that [OF a]) (auto simp: pool_keys_def pool_size_def)
qed

lemma min_list_attained: "xs \<noteq> [] \<Longrightarrow> min_list xs \<in> set xs \<and> (\<forall>x \<in> set xs. min_list xs \<le> (x :: rat))"
  by (simp add: min_list_Min)

text \<open>The suggested wait is the exact time until one of the candidates is free.\<close>

lemma acquire_wait:
  assumes "kp_states P \<noteq> []" and "acquire_key exclude now P = ((None, w), Q)"
  shows "0 < w \<and> Q = P \<and> (\<forall>t < now + w. fst (fst (acquire_key exclude t P)) = None) \<and>
    (\<forall>t \<ge> now + w. fst (fst (acquire_key exclude t P)) \<noteq> None)"
proof -
  let ?cs = "candidates_of exclude P"
  let ?m = "min_list (map (\<lambda>i. cooldown_until (kp_states P ! i)) ?cs)"
  note ne = candidates_nonempty [OF assms(1), of exclude]
  from assms have r: "ready_keys now ?cs P = []" and w: "w = max 0 (?m - now)" and Q: "Q = P"
    by (auto simp: acquire_key_def Let_def split: list.splits)
  have m: "\<exists>i \<in> set ?cs. cooldown_until (kp_states P ! i) = ?m" "\<forall>i \<in> set ?cs. ?m \<le> cooldown_until (kp_states P ! i)"
    using min_list_attained [of "map (\<lambda>i. cooldown_until (kp_states P ! i)) ?cs"] ne by auto
  from m(1) r have lt: "now < ?m" by (auto simp: ready_keys_def filter_empty_conv)
  have "ready_keys t ?cs P = []" if "t < ?m" for t
    using m(2) that by (force simp: ready_keys_def filter_empty_conv)
  moreover have "ready_keys t ?cs P \<noteq> []" if "?m \<le> t" for t
  proof -
    from m(1) that obtain i where "i \<in> set ?cs" "cooldown_until (kp_states P ! i) \<le> t" by metis
    then show ?thesis by (auto simp: ready_keys_def filter_empty_conv)
  qed
  ultimately show ?thesis
    using assms(1) lt by (auto simp: w Q acquire_key_def Let_def max_def split: list.split)
qed


subsection \<open>Taking turns\<close>

fun acquire_each :: "rat list \<Rightarrow> key_pool \<Rightarrow> string option list" where
  "acquire_each [] P = []"
| "acquire_each (t # ts) P = (case acquire_key [] t P of ((k, w), Q) \<Rightarrow> k # acquire_each ts Q)"

lemma acquire_next:
  assumes "kp_cursor P < pool_size P" "\<forall>s \<in> set (kp_states P). cooldown_until s \<le> t"
  shows "acquire_key [] t P = ((Some (pool_keys P ! kp_cursor P), 0), P\<lparr>kp_cursor := (kp_cursor P + 1) mod pool_size P\<rparr>)"
proof -
  from assms(1) obtain n where n: "pool_size P = Suc n" by (cases "pool_size P") auto
  have "ring P = kp_cursor P # map (\<lambda>i. (kp_cursor P + i) mod pool_size P) [1..<pool_size P]"
    using assms(1) by (simp add: ring_def n upt_conv_Cons del: upt_Suc)
  moreover have "ready_keys t (ring P) P = ring P"
    using assms(2) nth_mem by (auto simp: ready_keys_def filter_id_conv ring_mem pool_size_def)
  moreover have "candidates_of [] P = ring P" by (simp add: candidates_of_def)
  ultimately show ?thesis using assms(1) by (auto simp: acquire_key_def Let_def pool_keys_def pool_size_def)
qed

text \<open>While no key cools down, successive calls go round the ring: any pool-size of them use every key.\<close>

lemma keys_take_turns:
  assumes "kp_cursor P < pool_size P" "\<forall>t \<in> set ts. \<forall>s \<in> set (kp_states P). cooldown_until s \<le> t"
  shows "acquire_each ts P = map (\<lambda>i. Some (pool_keys P ! ((kp_cursor P + i) mod pool_size P))) [0..<length ts]"
  using assms
proof (induction ts arbitrary: P)
  case (Cons t ts)
  let ?Q = "P\<lparr>kp_cursor := (kp_cursor P + 1) mod pool_size P\<rparr>"
  have q: "pool_size (P\<lparr>kp_cursor := i\<rparr>) = pool_size P" "pool_keys (P\<lparr>kp_cursor := i\<rparr>) = pool_keys P" for i
    by (simp_all add: pool_size_def pool_keys_def)
  have "acquire_each ts ?Q = map (\<lambda>i. Some (pool_keys ?Q ! ((kp_cursor ?Q + i) mod pool_size ?Q))) [0..<length ts]"
    using Cons.prems by (intro Cons.IH) (auto simp: pool_size_def intro!: mod_less_divisor)
  then have "acquire_each ts ?Q = map (\<lambda>i. Some (pool_keys P ! ((kp_cursor P + Suc i) mod pool_size P))) [0..<length ts]"
    by (simp add: q mod_add_left_eq)
  moreover have "acquire_key [] t P = ((Some (pool_keys P ! kp_cursor P), 0), ?Q)"
    using Cons.prems by (intro acquire_next) auto
  ultimately show ?case
    using Cons.prems(1) by (simp add: map_upt_Suc del: upt_Suc)
qed simp

subsection \<open>Failing over\<close>

lemma client_fresh:
  assumes "has_alternative used t P" "t \<le> t0"
  obtains k Q where "client_from_key_pool used t0 t1 P = (Some k, k # used, Q)" "k \<notin> set used"
    "k \<in> set (pool_keys P)" "pool_keys Q = pool_keys P"
proof -
  obtain k Q where a: "acquire_key used t0 P = ((Some k, 0), Q)" and k: "k \<notin> set used" "k \<in> set (pool_keys P)"
      "pool_keys Q = pool_keys P"
    using acquire_fresh [OF assms] .
  show thesis by (rule that [OF _ k]) (simp add: client_from_key_pool_def a)
qed

definition untried :: "string list \<Rightarrow> key_pool \<Rightarrow> nat" where
  "untried used P = card (set (pool_keys P) - set used)"

lemma untried_less:
  assumes "k \<notin> set used" "k \<in> set (pool_keys P)" "pool_keys Q = pool_keys P"
  shows "Suc (untried (k # used) Q) = untried used P"
proof -
  have "set (pool_keys P) - set (k # used) = (set (pool_keys P) - set used) - {k}" by auto
  moreover have "Suc (card (set (pool_keys P) - set used - {k})) = card (set (pool_keys P) - set used)"
    using assms(1,2) by (intro card_Suc_Diff1) auto
  ultimately show ?thesis using assms(3) by (simp add: untried_def)
qed

definition gives_up :: "bool \<Rightarrow> llm_error \<Rightarrow> bool" where
  "gives_up accepts e \<longleftrightarrow> \<not> (accepts \<and> (le_timeout e \<or> classify_llm_error e False \<in> failover_categories))"

text \<open>
  The answer of a finished loop: the response or the error of the last request, all earlier ones having
  failed. No key is taken up again after it was left, and an error that calls for another key is
  raised only when every key that is free was tried.
\<close>

definition fair_outcome :: "bool \<Rightarrow> string list \<Rightarrow> 'r llm_call list \<Rightarrow> nat \<Rightarrow> llm_error + 'r \<times> nat \<Rightarrow>
    string option list \<Rightarrow> key_pool \<Rightarrow> bool" where
  "fair_outcome accepts used calls attempt res sent Q \<longleftrightarrow> sent \<noteq> [] \<and> length sent \<le> length calls \<and>
     (\<forall>i < length sent - 1. isl (lc_answer (calls ! i))) \<and>
     (case res of
        Inr (r, n) \<Rightarrow> n = attempt + length sent \<and> lc_answer (calls ! (length sent - 1)) = Inr r
      | Inl e \<Rightarrow> lc_answer (calls ! (length sent - 1)) = Inl e \<and>
          (gives_up accepts e \<or> (\<forall>s \<in> set (kp_states Q). cooldown_until s \<le> lc_alternative (calls ! (length sent - 1)) \<longrightarrow>
             ks_key s \<in> set used \<or> Some (ks_key s) \<in> set sent))) \<and>
     distinct (remdups_adj sent) \<and> set sent \<inter> Some ` set used \<subseteq> {hd sent}"

lemma fair_outcome_same:
  assumes "fair_outcome accepts used calls (Suc attempt) res sent Q" "isl (lc_answer c)" "hd sent = key"
  shows "fair_outcome accepts used (c # calls) attempt res (key # sent) Q"
proof -
  from assms(1) have ne: "sent \<noteq> []" by (simp add: fair_outcome_def)
  then obtain rest where s: "sent = key # rest" using assms(3) by (cases sent) auto
  have "isl (lc_answer ((c # calls) ! i))" if "i < length (key # sent) - 1" for i
    using that assms(1,2) ne by (cases i) (auto simp: fair_outcome_def)
  moreover have "distinct (remdups_adj (key # sent))" using assms(1) by (simp add: fair_outcome_def s)
  ultimately show ?thesis
    using assms(1) unfolding fair_outcome_def by (auto simp: s split: sum.splits prod.splits)
qed

lemma fair_outcome_next:
  assumes "fair_outcome accepts (k # used) calls (Suc attempt) res sent Q" "isl (lc_answer c)" "hd sent = Some k"
    and "k \<notin> set used" "key \<noteq> Some k" "key = None \<or> key \<in> Some ` set used"
    and "None \<notin> set sent"
  shows "fair_outcome accepts used (c # calls) attempt res (key # sent) Q"
proof -
  from assms(1) have ne: "sent \<noteq> []" by (simp add: fair_outcome_def)
  then obtain rest where s: "sent = Some k # rest" using assms(3) by (cases sent) auto
  have 1: "isl (lc_answer ((c # calls) ! i))" if "i < length (key # sent) - 1" for i
    using that assms(1,2) ne by (cases i) (auto simp: fair_outcome_def)
  have new: "key \<notin> set sent" using assms(1,5,6,7) unfolding fair_outcome_def assms(3) by auto
  have "remdups_adj (key # sent) = key # remdups_adj sent" using assms(5) by (simp add: s)
  with new assms(1) have 2: "distinct (remdups_adj (key # sent))" by (simp add: fair_outcome_def)
  have 3: "set (key # sent) \<inter> Some ` set used \<subseteq> {hd (key # sent)}"
    using assms(1,4) unfolding fair_outcome_def assms(3) by auto
  show ?thesis
    using assms(1) 1 2 3 unfolding fair_outcome_def by (auto simp: s split: sum.splits prod.splits)
qed

lemma fair_outcome_last:
  assumes "lc_answer c = Inl e"
    and "gives_up accepts e \<or> \<not> has_alternative used (lc_alternative c) Q"
  shows "fair_outcome accepts used (c # calls) attempt (Inl e) [key] Q"
  using assms by (auto simp: fair_outcome_def has_alternative_def)

lemma chat_requests_end:
  assumes "\<forall>c \<in> set calls. lc_alternative c \<le> lc_acquire c"
    and "untried used P + (retries - timeouts) < length calls" and "key = None \<or> key \<in> Some ` set used"
  shows "\<exists>res sent Q. chat_requests accepts retries timeouts attempt key used P calls = (Some res, sent, Q) \<and>
    hd sent = key \<and> (key \<noteq> None \<longrightarrow> None \<notin> set sent) \<and>
    set sent \<subseteq> insert key (Some ` set (pool_keys P)) \<and>
    length sent \<le> Suc (untried used P + (retries - timeouts)) \<and> fair_outcome accepts used calls attempt res sent Q"
  using assms
proof (induction calls arbitrary: timeouts attempt key used P)
  case (Cons c calls)
  let ?P0 = "fold pool_apply (lc_others c) P"
  have u0: "untried used ?P0 = untried used P" for used by (simp add: untried_def)
  show ?case
  proof (cases "lc_answer c")
    case (Inr r)
    then show ?thesis by (auto simp: fair_outcome_def Let_def)
  next
    case (Inl e)
    show ?thesis
    proof (cases "le_timeout e \<and> timeouts + 1 \<le> retries")
      case True
      then have "retries - timeouts = Suc (retries - (timeouts + 1))" by (simp add: Suc_diff_Suc Suc_le_eq)
      with Cons.prems have "untried used ?P0 + (retries - (timeouts + 1)) < length calls" by (simp add: u0)
      from Cons.IH [OF _ this Cons.prems(3), where attempt = "attempt + 1"] Cons.prems(1)
      obtain res sent Q where
        i: "chat_requests accepts retries (timeouts + 1) (attempt + 1) key used ?P0 calls = (Some res, sent, Q)"
          "hd sent = key" "key \<noteq> None \<longrightarrow> None \<notin> set sent" "set sent \<subseteq> insert key (Some ` set (pool_keys P))"
          "length sent \<le> Suc (untried used ?P0 + (retries - (timeouts + 1)))"
          "fair_outcome accepts used calls (attempt + 1) res sent Q" by auto
      have "fair_outcome accepts used (c # calls) attempt res (key # sent) Q"
        using i(2,6) Inl by (intro fair_outcome_same) auto
      then show ?thesis using True i Inl by (auto simp: u0 Let_def)
    next
      case no: False
      define timeouts1 where "timeouts1 = (if le_timeout e then timeouts + 1 else timeouts)"
      define category where "category = (if le_timeout e then ''transport_timeout'' else classify_llm_error e False)"
      define P1 where "P1 = report_failure key category (if le_timeout e then None else le_retry_after e)
        (lc_draw c) (lc_report c) ?P0"
      have u1: "untried used P1 = untried used P" for used by (simp add: untried_def P1_def)
      have left: "retries - timeouts1 \<le> retries - timeouts" by (simp add: timeouts1_def diff_le_mono2)
      have step: "chat_requests accepts retries timeouts attempt key used P (c # calls) =
        (if accepts \<and> (le_timeout e \<or> category \<in> failover_categories) \<and> has_alternative used (lc_alternative c) P1
         then (case client_from_key_pool used (lc_acquire c) (lc_acquire_again c) P1 of
             (key1, used1, P2) \<Rightarrow>
               (case chat_requests accepts retries timeouts1 (attempt + 1) key1 used1 P2 calls of
                  (res, sent, Q) \<Rightarrow> (res, key # sent, Q)))
         else (Some (Inl e), [key], P1))"
        using no Inl unfolding chat_requests.simps timeouts1_def category_def P1_def Let_def by (simp only: sum.case if_False)
      show ?thesis
      proof (cases "accepts \<and> (le_timeout e \<or> category \<in> failover_categories) \<and> has_alternative used (lc_alternative c) P1")
        case False
        then have "gives_up accepts e \<or> \<not> has_alternative used (lc_alternative c) P1"
          by (auto simp: gives_up_def category_def split: if_splits)
        from fair_outcome_last [OF Inl this] show ?thesis using False unfolding step by auto
      next
        case True
        have "lc_alternative c \<le> lc_acquire c" using Cons.prems(1) by simp
        with True obtain k P2 where
          k: "client_from_key_pool used (lc_acquire c) (lc_acquire_again c) P1 = (Some k, k # used, P2)"
            "k \<notin> set used" "k \<in> set (pool_keys P1)" "pool_keys P2 = pool_keys P1"
          using client_fresh [of used "lc_alternative c" P1 "lc_acquire c" "lc_acquire_again c"] by metis
        have u2: "Suc (untried (k # used) P2) = untried used P" using untried_less [OF k(2-4)] by (simp add: u1)
        with Cons.prems(2) left have "untried (k # used) P2 + (retries - timeouts1) < length calls" by simp
        from Cons.IH [OF _ this, where attempt = "attempt + 1" and key = "Some k"] Cons.prems(1)
        obtain res sent Q where
          i: "chat_requests accepts retries timeouts1 (attempt + 1) (Some k) (k # used) P2 calls = (Some res, sent, Q)"
            "hd sent = Some k" "None \<notin> set sent" "set sent \<subseteq> insert (Some k) (Some ` set (pool_keys P2))"
            "length sent \<le> Suc (untried (k # used) P2 + (retries - timeouts1))"
            "fair_outcome accepts (k # used) calls (attempt + 1) res sent Q" by auto
        have "fair_outcome accepts used (c # calls) attempt res (key # sent) Q"
          using i(2,3,6) Inl k(2) Cons.prems(3) by (intro fair_outcome_next [where k = k]) auto
        moreover have "length (key # sent) \<le> Suc (untried used P + (retries - timeouts))"
          using i(5) u2 left by simp
        moreover have "set sent \<subseteq> Some ` set (pool_keys P)"
          using i(4) k(3,4) by (auto simp: P1_def)
        ultimately show ?thesis using True i(1,3) k(1) unfolding step by auto
      qed
    qed
  qed
qed simp

lemma first_client:
  assumes "t0 + snd (fst (acquire_key [] t0 P)) \<le> t1"
  shows "(\<exists>k Q. client_from_key_pool [] t0 t1 P = (Some k, [k], Q) \<and> k \<in> set (pool_keys P) \<and> pool_keys Q = pool_keys P) \<or>
    kp_states P = [] \<and> client_from_key_pool [] t0 t1 P = (None, [], P)"
proof (cases "kp_states P = []")
  case True
  then show ?thesis by (simp add: client_from_key_pool_def acquire_key_def)
next
  case ne: False
  have key: "k \<in> set (pool_keys P)" if "acquire_key [] t P = ((Some k, w), Q)" for t k w Q
    using acquire_Some [OF that] by (auto simp: pool_keys_def)
  obtain key w Q where a: "acquire_key [] t0 P = ((key, w), Q)" by (metis surj_pair)
  have Q: "pool_keys Q = pool_keys P" using acquire_keys [of "[]" t0 P] by (simp add: a)
  show ?thesis
  proof (cases key)
    case (Some k)
    then show ?thesis using a Q key by (auto simp: client_from_key_pool_def)
  next
    case None
    note w = acquire_wait [OF ne a [unfolded None]]
    with assms a have "fst (fst (acquire_key [] t1 P)) \<noteq> None" by simp
    then obtain k w' Q' where b: "acquire_key [] t1 P = ((Some k, w'), Q')"
      by (cases "acquire_key [] t1 P") (auto simp: prod_eq_iff)
    have "pool_keys Q' = pool_keys P" using acquire_keys [of "[]" t1 P] by (simp add: b)
    then show ?thesis using a b None w key by (auto simp: client_from_key_pool_def)
  qed
qed


text \<open>Two keys; the provider limits the first one, then answers the second.\<close>

definition demo_pool :: key_pool where
  "demo_pool = new_pool ''chat'' [''key-a'', ''key-b''] 30 2"

definition demo_calls :: "string llm_call list" where
  "demo_calls = [\<lparr>lc_others = [], lc_answer = Inl \<lparr>le_name = ''RateLimitError'', le_text = ''429'', le_status = Some 429,
       le_timeout = False, le_retry_after = Some 7\<rparr>, lc_draw = 0, lc_report = 2, lc_alternative = 2, lc_acquire = 2,
       lc_acquire_again = 2\<rparr>,
     \<lparr>lc_others = [], lc_answer = Inr ''ok'', lc_draw = 0, lc_report = 3, lc_alternative = 3, lc_acquire = 3,
       lc_acquire_again = 3\<rparr>]"


end
