(* ===== verification/Ask_Evidence.thy ===== *)
theory Ask_Evidence
  imports Ask_Plan
begin

text \<open>
  Evidence for the units of a plan (\<open>agent/ask_models.py\<close>, \<open>_as_evidence\<close> of \<open>agent/ask_executor.py\<close>) and the facts
  that a language model reads off it (\<open>agent/fact_resolver.py\<close>). Records of the stores and answers of the
  model are Python values; keys of dictionaries are ASCII. \<open>answer_env\<close> adds to \<open>ask_env\<close> how Python
  prints other values than text, its character classes and pydantic's reading of a fact. A violated
  model constraint is \<open>EvidenceInvalid\<close>, iterating over a number or a truth value \<open>NotIterable\<close>, a missing list element \<open>NotInList\<close>.
\<close>

subsection \<open>Python values\<close>

text \<open>A number is kept as its text, with whether it is zero.\<close>

datatype py_value =
  PyNone | PyBool bool | PyNumber ptext bool | PyText ptext | PyList "py_value list" | PyDict "(string \<times> py_value) list"

datatype evidence_error = EvidenceInvalid | NotIterable | NotInList

fun py_truthy :: "py_value \<Rightarrow> bool" where
  "py_truthy PyNone = False"
| "py_truthy (PyBool b) = b"
| "py_truthy (PyNumber t zero) = (\<not> zero)"
| "py_truthy (PyText t) = (t \<noteq> [])"
| "py_truthy (PyList xs) = (xs \<noteq> [])"
| "py_truthy (PyDict kvs) = (kvs \<noteq> [])"

text \<open>\<open>item.get(key)\<close> of a dictionary\<close>

fun py_item :: "py_value \<Rightarrow> string \<Rightarrow> py_value" where
  "py_item (PyDict kvs) k = (case map_of kvs k of None \<Rightarrow> PyNone | Some v \<Rightarrow> v)"
| "py_item _ k = PyNone"

fun is_dict :: "py_value \<Rightarrow> bool" where
  "is_dict (PyDict kvs) = True"
| "is_dict _ = False"

text \<open>Iterating over \<open>value or []\<close>\<close>

fun py_elements :: "py_value \<Rightarrow> evidence_error + py_value list" where
  "py_elements (PyList xs) = Inr xs"
| "py_elements (PyText t) = Inr (map (\<lambda>c. PyText [c]) t)"
| "py_elements (PyDict kvs) = Inr (map (\<lambda>kv. PyText (ascii (fst kv))) kvs)"
| "py_elements v = (if py_truthy v then Inl NotIterable else Inr [])"

datatype evidence_source = FromMemory | FromVersion | FromNote

datatype evidence_role = CurrentCandidate | Historical | Supporting | Conflicting | RawNote

datatype modality = Asserted | Planned | Uncertain

datatype unit_status = Resolved | Partial | Conflict | NotFound

record evidence_item =
  ev_id :: ptext
  ev_source_kind :: evidence_source
  ev_memory_type :: "ask_memory_type option"
  ev_content :: ptext
  ev_span :: "ptext option"
  ev_full_text :: "ptext option"
  ev_fact_hints :: "ptext list"
  ev_memory_id :: "ptext option"
  ev_version_id :: "ptext option"
  ev_note_id :: "ptext option"
  ev_source_note_ids :: "ptext list"
  ev_event_time :: "ptext option"
  ev_observed_at :: "ptext option"
  ev_recorded_at :: "ptext option"
  ev_task_status :: "ptext option"
  ev_preference_details :: "py_value list"
  ev_task_card :: "(string \<times> py_value) list option"
  ev_channels :: "ptext list"
  ev_role :: evidence_role

record evidence_fact =
  ef_unit_id :: ptext
  ef_evidence_id :: ptext
  ef_quote :: ptext
  ef_claim :: ptext
  ef_modality :: modality
  ef_subject :: "ptext option"
  ef_predicate :: "ptext option"
  ef_value :: "ptext option"
  ef_event_time :: "ptext option"
  ef_item_key :: "ptext option"
  ef_quantity :: "ptext option"

text \<open>The quantity is kept as \<open>_quantity_is_grounded\<close> prints it.\<close>

record unit_resolution =
  ur_status :: unit_status
  ur_value :: "ptext option"
  ur_reason :: string
  ur_selected :: "ptext list"
  ur_conflicting :: "ptext list"

record evidence_bundle =
  bd_unit_id :: ptext
  bd_evidence :: "evidence_item list"
  bd_facts :: "evidence_fact list"
  bd_summary :: "ptext option"
  bd_resolution :: unit_resolution

record 'r answer_env = "'r ask_env" +
  show_value :: "py_value \<Rightarrow> ptext"
  is_digit :: "int \<Rightarrow> bool"
  is_alnum :: "int \<Rightarrow> bool"
  parse_fact :: "py_value \<Rightarrow> evidence_fact option"

text \<open>\<open>str(value)\<close>, \<open>str(value or "")\<close> and the first true value of several keys as text\<close>

definition py_text :: "('r, 'z) answer_env_scheme \<Rightarrow> py_value \<Rightarrow> ptext" where
  "py_text A v = (case v of PyText t \<Rightarrow> t | PyNone \<Rightarrow> ascii ''None'' | _ \<Rightarrow> show_value A v)"

definition text_or_none :: "('r, 'z) answer_env_scheme \<Rightarrow> py_value \<Rightarrow> ptext" where
  "text_or_none A v = (if py_truthy v then py_text A v else [])"

definition first_item :: "py_value \<Rightarrow> string list \<Rightarrow> py_value" where
  "first_item item ks = (case find py_truthy (map (py_item item) ks) of None \<Rightarrow> py_item item (last ks) | Some v \<Rightarrow> v)"

definition first_item_text :: "('r, 'z) answer_env_scheme \<Rightarrow> py_value \<Rightarrow> string list \<Rightarrow> ptext" where
  "first_item_text A item ks = text_or_none A (first_item item ks)"

definition non_blank :: "ptext \<Rightarrow> ptext option" where
  "non_blank t = (if t = [] then None else Some t)"

subsection \<open>Limits of the models\<close>

definition short :: "nat \<Rightarrow> ptext option \<Rightarrow> bool" where
  "short n t \<longleftrightarrow> (case t of None \<Rightarrow> True | Some s \<Rightarrow> length s \<le> n)"

definition evidence_fits :: "evidence_item \<Rightarrow> bool" where
  "evidence_fits e \<longleftrightarrow> 1 \<le> length (ev_id e) \<and> length (ev_id e) \<le> 128 \<and> length (ev_content e) \<le> 2400 \<and>
     short 1200 (ev_span e) \<and> length (ev_fact_hints e) \<le> 8 \<and> short 128 (ev_memory_id e) \<and>
     short 128 (ev_version_id e) \<and> short 128 (ev_note_id e) \<and> length (ev_source_note_ids e) \<le> 12 \<and>
     short 40 (ev_task_status e) \<and> length (ev_channels e) \<le> 8"

definition make_evidence :: "evidence_item \<Rightarrow> evidence_error + evidence_item" where
  "make_evidence e = (if evidence_fits e then Inr e else Inl EvidenceInvalid)"

definition make_resolution :: "unit_resolution \<Rightarrow> evidence_error + unit_resolution" where
  "make_resolution r = (if short 1000 (ur_value r) \<and> ur_reason r \<noteq> [] \<and> length (ur_reason r) \<le> 120 \<and>
     length (ur_selected r) \<le> 8 \<and> length (ur_conflicting r) \<le> 8 then Inr r else Inl EvidenceInvalid)"

definition bind_ev :: "evidence_error + 'a \<Rightarrow> ('a \<Rightarrow> evidence_error + 'b) \<Rightarrow> evidence_error + 'b" where
  "bind_ev r f = (case r of Inl e \<Rightarrow> Inl e | Inr x \<Rightarrow> f x)"

lemma bind_ev_Inr: "bind_ev r f = Inr y \<longleftrightarrow> (\<exists>x. r = Inr x \<and> f x = Inr y)"
  by (cases r) (simp_all add: bind_ev_def)

fun map_ev :: "('a \<Rightarrow> evidence_error + 'b) \<Rightarrow> 'a list \<Rightarrow> evidence_error + 'b list" where
  "map_ev f [] = Inr []"
| "map_ev f (x # xs) = bind_ev (f x) (\<lambda>y. bind_ev (map_ev f xs) (\<lambda>ys. Inr (y # ys)))"

definition make_bundle ::
  "ptext \<Rightarrow> evidence_item list \<Rightarrow> unit_resolution \<Rightarrow> evidence_error + evidence_bundle" where
  "make_bundle uid evs r = bind_ev (make_resolution r) (\<lambda>r.
     if length evs \<le> 16
     then Inr \<lparr>bd_unit_id = uid, bd_evidence = evs, bd_facts = [], bd_summary = None, bd_resolution = r\<rparr>
     else Inl EvidenceInvalid)"

subsection \<open>Evidence from records\<close>

text \<open>\<open>_source_ids\<close>\<close>

definition source_ids :: "('r, 'z) answer_env_scheme \<Rightarrow> py_value \<Rightarrow> evidence_error + ptext list" where
  "source_ids A item = bind_ev (py_elements (py_item item ''sources'')) (\<lambda>sources.
     Inr (dict_keys (map (py_text A) (filter py_truthy (map (\<lambda>s. py_item s ''note_id'') sources)))))"

definition memory_type_of :: "py_value \<Rightarrow> evidence_error + ask_memory_type option" where
  "memory_type_of v = (if v = PyNone then Inr None
     else if v = PyText (ascii ''task'') then Inr (Some AskTask)
     else if v = PyText (ascii ''preference'') then Inr (Some AskPreference)
     else if v = PyText (ascii ''semantic'') then Inr (Some AskSemantic)
     else if v = PyText (ascii ''episodic'') then Inr (Some AskEpisodic)
     else Inl EvidenceInvalid)"

text \<open>A field of type \<open>str | None\<close>\<close>

fun text_field :: "py_value \<Rightarrow> evidence_error + ptext option" where
  "text_field PyNone = Inr None"
| "text_field (PyText t) = Inr (Some t)"
| "text_field _ = Inl EvidenceInvalid"

fun dict_list :: "py_value \<Rightarrow> evidence_error + py_value list" where
  "dict_list (PyList xs) = (if list_all is_dict xs then Inr xs else Inl EvidenceInvalid)"
| "dict_list _ = Inl EvidenceInvalid"

definition as_evidence ::
  "('r, 'z) answer_env_scheme \<Rightarrow> string \<Rightarrow> evidence_role \<Rightarrow> py_value \<Rightarrow> evidence_error + evidence_item" where
  "as_evidence A tool role item =
     (let item_id = first_item_text A item [''id'', ''memory_id'', ''note_id''];
          source_kind = first_item_text A item [''source_kind''];
          is_note = (source_kind = ascii ''note'' \<or> py_truthy (py_item item ''note_id'') \<or>
            (\<not> py_truthy (py_item item ''memory_type'') \<and>
             (\<exists>k \<in> {''text'', ''summary'', ''title''}. py_truthy (py_item item k))));
          is_version = (source_kind = ascii ''memory_version'' \<or> py_truthy (py_item item ''version_id''));
          key_version = py_item item ''memory_key_version'';
          memory_id = py_text A (if py_truthy (py_item item ''memory_id'') then py_item item ''memory_id''
            else if is_version then PyNone else PyText item_id);
          details = (if key_version = PyText (ascii ''preference-card-v1'')
            then (case item of PyDict kvs \<Rightarrow> (case map_of kvs ''details'' of None \<Rightarrow> PyList [] | Some v \<Rightarrow> v) | _ \<Rightarrow> PyList [])
            else PyList [])
      in bind_ev (source_ids A item) (\<lambda>sources.
         bind_ev (memory_type_of (py_item item ''memory_type'')) (\<lambda>mtype.
         bind_ev (text_field (first_item item [''event_time'', ''valid_from''])) (\<lambda>event.
         bind_ev (text_field (first_item item [''observed_at'', ''source_created_at''])) (\<lambda>observed.
         bind_ev (text_field (first_item item [''updated_at'', ''created_at''])) (\<lambda>recorded.
         bind_ev (dict_list details) (\<lambda>ds.
         make_evidence \<lparr>ev_id = (if item_id = [] then ascii (''tool:'' @ tool) else item_id),
           ev_source_kind = (if is_note then FromNote else if is_version then FromVersion else FromMemory),
           ev_memory_type = mtype,
           ev_content = take 2400 (first_item_text A item [''content'', ''text'', ''summary'', ''title'']),
           ev_span = non_blank (take 1200 (first_item_text A item [''evidence_span'', ''snippet''])),
           ev_full_text = None, ev_fact_hints = [],
           ev_memory_id = (if is_note then None else non_blank memory_id),
           ev_version_id = (if is_version
             then Some (py_text A (if py_truthy (py_item item ''version_id'') then py_item item ''version_id'' else PyText item_id))
             else None),
           ev_note_id = (if is_note then Some item_id else None),
           ev_source_note_ids = take 12 sources, ev_event_time = event, ev_observed_at = observed,
           ev_recorded_at = recorded,
           ev_task_status = non_blank (first_item_text A item [''task_status'']),
           ev_preference_details = ds,
           ev_task_card = (if key_version \<in> {PyText (ascii ''task-card-v1''), PyText (ascii ''task-card-v2'')}
             then Some (map (\<lambda>k. (k, py_item item k)) [''subject'', ''task'', ''instance'', ''task_status'', ''description'', ''sources''])
             else None),
           ev_channels = [ascii tool], ev_role = role\<rparr>)))))))"

subsection \<open>Facts\<close>

record fact_result =
  fr_accepted :: int
  fr_rejected :: int
  fr_reasons :: "(string \<times> int) list"

definition no_facts :: fact_result where
  "no_facts = \<lparr>fr_accepted = 0, fr_rejected = 0, fr_reasons = []\<rparr>"

text \<open>\<open>counts[reason] = counts.get(reason, 0) + 1\<close>\<close>

definition count_up :: "'k \<Rightarrow> int \<Rightarrow> ('k \<times> int) list \<Rightarrow> ('k \<times> int) list" where
  "count_up k n counts = AList.update k ((case map_of counts k of None \<Rightarrow> 0 | Some m \<Rightarrow> m) + n) counts"

definition reject_fact :: "string \<Rightarrow> fact_result \<Rightarrow> fact_result" where
  "reject_fact reason R = R\<lparr>fr_rejected := fr_rejected R + 1, fr_reasons := count_up reason 1 (fr_reasons R)\<rparr>"

definition quote_is_grounded :: "('r, 'z) answer_env_scheme \<Rightarrow> ptext \<Rightarrow> ptext \<Rightarrow> bool" where
  "quote_is_grounded A quote evidence_text \<longleftrightarrow>
     3 \<le> length (compact A quote) \<and> occurs (compact A quote) (compact A evidence_text)"

text \<open>The number, not preceded and not followed by a digit; \<open>after\<close> tells whether a digit comes before.\<close>

fun number_occurs :: "('r, 'z) answer_env_scheme \<Rightarrow> bool \<Rightarrow> ptext \<Rightarrow> ptext \<Rightarrow> bool" where
  "number_occurs A after n [] = (n = [] \<and> \<not> after)"
| "number_occurs A after n (c # cs) =
     (\<not> after \<and> take (length n) (c # cs) = n \<and>
        (case drop (length n) (c # cs) of [] \<Rightarrow> True | d # ds \<Rightarrow> \<not> is_digit A d) \<or>
      number_occurs A (is_digit A c) n cs)"

definition quantity_is_grounded :: "('r, 'z) answer_env_scheme \<Rightarrow> ptext option \<Rightarrow> ptext \<Rightarrow> bool" where
  "quantity_is_grounded A quantity quote = (case quantity of None \<Rightarrow> True | Some n \<Rightarrow> number_occurs A False n quote)"

definition fact_from_raw ::
  "('r, 'z) answer_env_scheme \<Rightarrow> (ptext \<rightharpoonup> ptext) \<Rightarrow> ptext set \<Rightarrow> py_value \<Rightarrow> string + evidence_fact" where
  "fact_from_raw A evidence_by_id units raw =
     (if \<not> is_dict raw then Inl ''not_object''
      else case parse_fact A raw of
        None \<Rightarrow> Inl ''schema_invalid''
      | Some f \<Rightarrow>
        if ef_unit_id f \<notin> units then Inl ''unknown_unit''
        else case evidence_by_id (ef_evidence_id f) of
          None \<Rightarrow> Inl ''unknown_evidence''
        | Some t \<Rightarrow>
          if t = [] then Inl ''unknown_evidence''
          else if \<not> quote_is_grounded A (ef_quote f) t then Inl ''quote_not_grounded''
          else if \<not> quantity_is_grounded A (ef_quantity f) (ef_quote f) then Inl ''quantity_not_grounded''
          else Inr f)"

fun modality_label :: "modality \<Rightarrow> ptext" where
  "modality_label Asserted = [26126, 30830, 38472, 36848]"
| "modality_label Planned = [35745, 21010, 47, 24895, 26395]"
| "modality_label Uncertain = [19981, 30830, 23450]"

definition fact_detail :: "evidence_fact \<Rightarrow> ptext" where
  "fact_detail f = (case ef_event_time f of
     Some (c # cs) \<Rightarrow> ef_claim f @ [65288, 26102, 38388, 65306] @ (c # cs) @ [65289]
   | _ \<Rightarrow> ef_claim f)"

fun summary_parts :: "ptext list \<Rightarrow> evidence_fact list \<Rightarrow> ptext list" where
  "summary_parts parts [] = parts"
| "summary_parts parts (f # fs) =
     (if fact_detail f \<in> set parts then summary_parts parts fs
      else summary_parts (parts @ [91 # modality_label (ef_modality f) @ 93 # 32 # fact_detail f]) fs)"

fun join_with :: "ptext \<Rightarrow> ptext list \<Rightarrow> ptext" where
  "join_with sep [] = []"
| "join_with sep [x] = x"
| "join_with sep (x # xs) = x @ sep @ join_with sep xs"

definition bundle_summary :: "evidence_fact list \<Rightarrow> ptext option" where
  "bundle_summary fs = non_blank (take 1000 (join_with [65307] (summary_parts [] fs)))"

text \<open>The text a fact may quote: the span of an item, or else its content.\<close>

definition evidence_text :: "evidence_item \<Rightarrow> ptext" where
  "evidence_text e = (case ev_span e of Some (c # cs) \<Rightarrow> c # cs | _ \<Rightarrow> ev_content e)"

definition eligible :: "evidence_bundle \<Rightarrow> bool" where
  "eligible b \<longleftrightarrow> bd_evidence b \<noteq> [] \<and> ur_status (bd_resolution b) \<noteq> NotFound"

definition evidence_texts :: "evidence_bundle list \<Rightarrow> (ptext \<times> ptext) list" where
  "evidence_texts bs = concat (map (\<lambda>b. map (\<lambda>e. (ev_id e, evidence_text e))
     (filter (\<lambda>e. evidence_text e \<noteq> []) (bd_evidence b))) (filter eligible bs))"

type_synonym fact_identity = "ptext \<times> ptext \<times> ptext"

definition fact_identity :: "('r, 'z) answer_env_scheme \<Rightarrow> evidence_fact \<Rightarrow> fact_identity" where
  "fact_identity A f = (ef_unit_id f, ef_evidence_id f, compact A (ef_quote f))"

fun collect_facts ::
  "('r, 'z) answer_env_scheme \<Rightarrow> (ptext \<rightharpoonup> ptext) \<Rightarrow> ptext set \<Rightarrow> fact_identity list \<Rightarrow> py_value list \<Rightarrow> fact_result \<Rightarrow>
     evidence_fact list \<times> fact_result" where
  "collect_facts A by_id units seen [] R = ([], R)"
| "collect_facts A by_id units seen (raw # raws) R = (case fact_from_raw A by_id units raw of
     Inl reason \<Rightarrow> collect_facts A by_id units seen raws (reject_fact reason R)
   | Inr f \<Rightarrow>
       if fact_identity A f \<in> set seen then collect_facts A by_id units seen raws R
       else (case collect_facts A by_id units (fact_identity A f # seen) raws (R\<lparr>fr_accepted := fr_accepted R + 1\<rparr>) of
           (fs, R') \<Rightarrow> (f # fs, R')))"

text \<open>\<open>reply\<close> is the answer of the language model, None if the call raises.\<close>

definition resolve_evidence_facts ::
  "('r, 'z) answer_env_scheme \<Rightarrow> py_value option \<Rightarrow> ask_plan \<Rightarrow> evidence_bundle list \<Rightarrow> fact_result \<times> evidence_bundle list" where
  "resolve_evidence_facts A reply p bs =
     (let texts = evidence_texts bs in
      if texts = [] then (no_facts, bs)
      else case reply of
        None \<Rightarrow> (reject_fact ''llm_unavailable'' no_facts, bs)
      | Some raw \<Rightarrow> (case py_item raw ''facts'' of
          PyList raws \<Rightarrow>
            (let (fs, R) = collect_facts A (map_of (rev texts)) (unit_id ` set (plan_units p)) [] (take 32 raws) no_facts
             in (R, map (\<lambda>b. if eligible b
                 then (let mine = take 12 (filter (\<lambda>f. ef_unit_id f = bd_unit_id b) fs)
                   in b\<lparr>bd_facts := mine, bd_summary := bundle_summary mine\<rparr>)
                 else b) bs))
        | _ \<Rightarrow> (reject_fact ''facts_missing'' no_facts, bs)))"

end
