(* ===== verification/Ask_Answer.thy ===== *)
theory Ask_Answer
  imports Ask_Evidence
begin

text \<open>
  The answer to a question from the evidence of its units (\<open>agent/ask_workflow.py\<close>): what a language model
  answers is checked against the identifiers it was shown, repaired by one more call, and exported as
  claims with their sources. Both calls are arguments: an exception with its class name, or a value.
\<close>

subsection \<open>Timelines\<close>

definition strip_chars :: "(int \<Rightarrow> bool) \<Rightarrow> ptext \<Rightarrow> ptext" where
  "strip_chars P t = rev (dropWhile P (rev (dropWhile P t)))"

definition strip_text :: "ptext \<Rightarrow> ptext" where
  "strip_text t = strip_chars white t"

text \<open>\<open>text.split(marker, 1)[0]\<close>\<close>

fun before_marker :: "ptext \<Rightarrow> ptext \<Rightarrow> ptext" where
  "before_marker m [] = []"
| "before_marker m (c # cs) = (if take (length m) (c # cs) = m then [] else c # before_marker m cs)"

definition topic_markers :: "ptext list" where
  "topic_markers = [[58], [65306], [26159], [34987, 38459, 22622], [24320, 22987], [23436, 25104],
     [24453, 22788, 29702], [21462, 28040]]"

definition timeline_topic :: "ptext \<Rightarrow> ptext" where
  "timeline_topic content =
     (let t = strip_text content;
          cut = (case find (\<lambda>m. occurs m t) topic_markers of None \<Rightarrow> t | Some m \<Rightarrow> before_marker m t);
          topic = strip_chars (\<lambda>c. c \<in> {32, 65292, 12290}) cut
      in if topic = [] then [35813, 20107, 39033] else topic)"

definition status_from_evidence :: "('r, 'z) answer_env_scheme \<Rightarrow> evidence_item \<Rightarrow> ptext option" where
  "status_from_evidence A e =
     (let content = ev_content e;
          status = casefold A (strip_text (case ev_task_status e of None \<Rightarrow> [] | Some t \<Rightarrow> t));
          marked = (\<lambda>ms. \<exists>m \<in> set ms. occurs m content)
      in if marked [[38459, 22622], [98, 108, 111, 99, 107, 101, 100]] then Some (ascii ''blocked'')
         else if marked [[23436, 25104], [20570, 23436], [100, 111, 110, 101]] then Some (ascii ''done'')
         else if status \<in> {ascii ''todo'', ascii ''blocked'', ascii ''done''} then Some status
         else if marked [[24320, 22987], [24453, 22788, 29702], [116, 111, 100,
     111]] then Some (ascii ''todo'')
         else None)"

record answer_claim =
  cl_text :: ptext
  cl_memory_ids :: "ptext list"
  cl_version_ids :: "ptext list"
  cl_source_ids :: "ptext list"
  cl_history :: bool

record timeline_group =
  tg_summary :: answer_claim
  tg_members :: "(ptext \<times> answer_claim) list"

definition present :: "ptext option \<Rightarrow> bool" where
  "present t \<longleftrightarrow> t \<noteq> None \<and> t \<noteq> Some []"

definition or_empty :: "ptext option \<Rightarrow> ptext" where
  "or_empty t = (case t of None \<Rightarrow> [] | Some s \<Rightarrow> s)"

text \<open>\<open>_timeline_claim_group\<close>, None for the empty dictionary\<close>

definition timeline_claim_group ::
  "('r, 'z) answer_env_scheme \<Rightarrow> query_unit \<Rightarrow> evidence_bundle \<Rightarrow> timeline_group option" where
  "timeline_claim_group A u b =
     (let items = filter (\<lambda>e. present (ev_version_id e)) (bd_evidence b) in
      if length items < 2 \<or> length (remdups (map ev_memory_id items)) \<noteq> 1 then None
      else
        let statuses = map (status_from_evidence A) items;
            topic = timeline_topic (ev_content (hd items));
            is_task = (ev_memory_type (hd (bd_evidence b)) = Some AskTask \<and> None \<notin> set statuses);
            st = (\<lambda>i. or_empty (statuses ! i));
            summary = (if is_task
              then (if length statuses = 2 then topic @ [20174] @ st 0 @ [21464, 20026] @ st 1 @ [12290]
                else topic @ [20808, 22788, 20110] @ st 0 @ [65292, 38543, 21518, 36827,
     20837] @ st 1 @ [65292, 26368, 21518, 36716, 20026] @ st (length statuses - 1) @ [12290])
              else join_with [65307] (map (\<lambda>e. strip_chars (\<lambda>c. c \<in> {12290, 65307,
     32}) (ev_content e)) items) @ [12290]);
            texts = (if is_task then map (\<lambda>s. topic @ [26159] @ or_empty s) statuses else map ev_content items);
            memory_ids = (if present (ev_memory_id (hd items)) then [or_empty (ev_memory_id (hd items))] else [])
        in Some \<lparr>tg_summary = \<lparr>cl_text = summary, cl_memory_ids = memory_ids,
               cl_version_ids = map (\<lambda>e. or_empty (ev_version_id e)) items,
               cl_source_ids = dict_keys (concat (map ev_source_note_ids items)), cl_history = True\<rparr>,
             tg_members = map (\<lambda>(i, e, t). (unit_id u @ 58 # ascii (show_int (int i)),
                 \<lparr>cl_text = t, cl_memory_ids = memory_ids, cl_version_ids = [or_empty (ev_version_id e)],
                  cl_source_ids = ev_source_note_ids e, cl_history = True\<rparr>))
               (zip [1..<Suc (length items)] (zip items texts))\<rparr>)"

text \<open>\<open>_structured_claims\<close>\<close>

definition structured_claims :: "('r, 'z) answer_env_scheme \<Rightarrow> evidence_bundle list \<Rightarrow> answer_claim list" where
  "structured_claims A bs = List.map_filter (\<lambda>e.
     let t = (case status_from_evidence A e of
         Some s \<Rightarrow> if ev_memory_type e = Some AskTask then timeline_topic (ev_content e) @ [26159] @ s else ev_content e
       | None \<Rightarrow> ev_content e)
     in if ev_role e = Conflicting \<or> t = [] then None
        else Some \<lparr>cl_text = t, cl_memory_ids = (if present (ev_memory_id e) then [or_empty (ev_memory_id e)] else []),
          cl_version_ids = (if present (ev_version_id e) then [or_empty (ev_version_id e)] else []),
          cl_source_ids = ev_source_note_ids e, cl_history = (ev_role e = Historical)\<rparr>)
     (concat (map bd_evidence bs))"

text \<open>The last bundle of a unit\<close>

definition bundle_of :: "evidence_bundle list \<Rightarrow> ptext \<Rightarrow> evidence_bundle option" where
  "bundle_of bs uid = map_of (rev (map (\<lambda>b. (bd_unit_id b, b)) bs)) uid"

definition fallback_value ::
  "('r, 'z) answer_env_scheme \<Rightarrow> evidence_bundle list \<Rightarrow> query_unit \<Rightarrow> ptext option" where
  "fallback_value A bs u = (case bundle_of bs (unit_id u) of
     None \<Rightarrow> Some ([20851, 20110, 8220] @ unit_question u @ [8221, 65292, 27809, 26377,
     25214, 21040, 30456, 20851, 35760, 24405, 12290])
   | Some b \<Rightarrow>
       if ur_status (bd_resolution b) = NotFound then Some ([20851, 20110,
     8220] @ unit_question u @ [8221, 65292, 27809, 26377, 25214, 21040, 30456, 20851, 35760, 24405, 12290])
       else if ur_status (bd_resolution b) = Conflict
         then Some ([20851, 20110, 8220] @ unit_question u @ [8221, 65292, 29616, 26377, 35760, 24405,
     23384, 22312, 20914, 31361, 65292, 26242, 26102, 26080, 27861, 30830, 35748, 12290])
       else if unit_intent u = MemoryHistory
         then Some (case timeline_claim_group A u b of
             Some g \<Rightarrow> if cl_text (tg_summary g) \<noteq> [] then cl_text (tg_summary g) else or_empty (ur_value (bd_resolution b))
           | None \<Rightarrow> or_empty (ur_value (bd_resolution b)))
       else if present (ur_value (bd_resolution b)) then ur_value (bd_resolution b)
       else None)"

definition fallback_answer ::
  "('r, 'z) answer_env_scheme \<Rightarrow> ask_plan \<Rightarrow> evidence_bundle list \<Rightarrow> ptext" where
  "fallback_answer A p bs =
     (let t = join_with [10] (List.map_filter (fallback_value A bs) (plan_units p))
      in if t = [] then [27809, 26377, 25214, 21040, 36275, 22815, 30340, 30456, 20851, 35760, 24405,
     12290] else t)"

subsection \<open>The answer contract\<close>

type_synonym unit_evidence = "ptext \<rightharpoonup> (ptext \<rightharpoonup> evidence_item)"

definition evidence_by_unit :: "evidence_bundle list \<Rightarrow> unit_evidence" where
  "evidence_by_unit bs = map_of (rev (map (\<lambda>b. (bd_unit_id b, map_of (rev (map (\<lambda>e. (ev_id e, e)) (bd_evidence b))))) bs))"

definition answerable :: "evidence_bundle \<Rightarrow> bool" where
  "answerable b \<longleftrightarrow> ur_status (bd_resolution b) \<in> {Resolved, Partial} \<and> ur_selected (bd_resolution b) \<noteq> []"

text \<open>\<open>list(dict.fromkeys(str(value) for value in item.get("evidence_ids") or [] if str(value)))\<close>\<close>

definition cited_ids :: "('r, 'z) answer_env_scheme \<Rightarrow> py_value \<Rightarrow> evidence_error + ptext list" where
  "cited_ids A item = bind_ev (py_elements (py_item item ''evidence_ids'')) (\<lambda>vs.
     Inr (dict_keys (filter (\<lambda>t. t \<noteq> []) (map (py_text A) vs))))"

definition item_unit :: "('r, 'z) answer_env_scheme \<Rightarrow> py_value \<Rightarrow> ptext" where
  "item_unit A item = text_or_none A (py_item item ''unit_id'')"

definition item_answer :: "('r, 'z) answer_env_scheme \<Rightarrow> py_value \<Rightarrow> ptext" where
  "item_answer A item = strip_text (text_or_none A (py_item item ''answer''))"

definition all_known :: "unit_evidence \<Rightarrow> ptext \<Rightarrow> ptext list \<Rightarrow> bool" where
  "all_known E uid ids \<longleftrightarrow> (case E uid of None \<Rightarrow> ids = [] | Some m \<Rightarrow> list_all (\<lambda>i. m i \<noteq> None) ids)"

definition answer_fault ::
  "('r, 'z) answer_env_scheme \<Rightarrow> unit_evidence \<Rightarrow> ptext list \<Rightarrow> py_value \<Rightarrow> ptext list \<Rightarrow> string option" where
  "answer_fault A E seen item ids =
     (let uid = item_unit A item in
      if uid = [] \<or> E uid = None then Some ''unit_id_not_allowed''
      else if uid \<in> set seen then Some ''duplicate_unit_id''
      else if ids = [] then Some ''evidence_ids_empty''
      else if \<not> all_known E uid ids then Some ''evidence_id_not_allowed''
      else if item_answer A item = [] then Some ''answer_empty''
      else None)"

fun validated_items ::
  "('r, 'z) answer_env_scheme \<Rightarrow> unit_evidence \<Rightarrow> ptext list \<Rightarrow> py_value list \<Rightarrow> (string \<times> int) list \<Rightarrow>
     evidence_error + py_value list \<times> (string \<times> int) list" where
  "validated_items A E seen [] R = Inr ([], R)"
| "validated_items A E seen (item # items) R =
     (if \<not> is_dict item then validated_items A E seen items (count_up ''unit_answer_not_object'' 1 R)
      else bind_ev (cited_ids A item) (\<lambda>ids. case answer_fault A E seen item ids of
          Some reason \<Rightarrow> validated_items A E seen items (count_up reason 1 R)
        | None \<Rightarrow> bind_ev (validated_items A E (item_unit A item # seen) items R)
            (\<lambda>(xs, R'). Inr (item # xs, R'))))"

definition validated_answer_contract_items ::
  "('r, 'z) answer_env_scheme \<Rightarrow> unit_evidence \<Rightarrow> py_value \<Rightarrow> evidence_error + py_value list \<times> (string \<times> int) list" where
  "validated_answer_contract_items A E reply = (case py_item reply ''unit_answers'' of
     PyList items \<Rightarrow> bind_ev (validated_items A E [] items []) (\<lambda>(xs, R).
       Inr (xs, if xs = [] \<and> R = [] then count_up ''no_unit_answers'' 1 R else R))
   | _ \<Rightarrow> Inr ([], count_up ''unit_answers_not_list'' 1 []))"

subsection \<open>Claims\<close>

definition claim_identity :: "('r, 'z) answer_env_scheme \<Rightarrow> ptext \<Rightarrow> ptext" where
  "claim_identity A t = filter (is_alnum A) (casefold A t)"

type_synonym cited_claim = "ptext \<times> ptext list"

definition claim_fits ::
  "('r, 'z) answer_env_scheme \<Rightarrow> unit_evidence \<Rightarrow> ptext \<Rightarrow> ptext list \<Rightarrow> ptext \<Rightarrow> cited_claim \<Rightarrow> bool" where
  "claim_fits A E uid ids answer c \<longleftrightarrow> fst c \<noteq> [] \<and> snd c \<noteq> [] \<and>
     occurs (claim_identity A (fst c)) (claim_identity A answer) \<and> set (snd c) \<subseteq> set ids \<and> all_known E uid (snd c)"

fun unit_claims ::
  "('r, 'z) answer_env_scheme \<Rightarrow> unit_evidence \<Rightarrow> ptext \<Rightarrow> ptext list \<Rightarrow> ptext \<Rightarrow> py_value list \<Rightarrow>
     evidence_error + cited_claim list" where
  "unit_claims A E uid ids answer [] = Inr []"
| "unit_claims A E uid ids answer (raw # raws) =
     (if \<not> is_dict raw then unit_claims A E uid ids answer raws
      else bind_ev (cited_ids A raw) (\<lambda>cids. bind_ev (unit_claims A E uid ids answer raws) (\<lambda>cs.
        let c = (strip_text (text_or_none A (py_item raw ''text'')), cids)
        in Inr (if claim_fits A E uid ids answer c then c # cs else cs))))"

definition render_unit ::
  "('r, 'z) answer_env_scheme \<Rightarrow> unit_evidence \<Rightarrow> py_value \<Rightarrow>
     evidence_error + (ptext \<times> ptext \<times> cited_claim list) option" where
  "render_unit A E item = bind_ev (cited_ids A item) (\<lambda>ids.
     let uid = item_unit A item; answer = item_answer A item in
     if uid = [] \<or> answer = [] then Inr None
     else bind_ev (case py_item item ''claims'' of
           PyList raws \<Rightarrow> unit_claims A E uid ids answer raws
         | _ \<Rightarrow> Inr [])
       (\<lambda>cs. Inr (Some (answer, uid, if cs = [] then [(answer, ids)] else cs))))"

definition add_new :: "ptext \<Rightarrow> ptext list \<Rightarrow> ptext list" where
  "add_new x xs = (if x \<in> set xs then xs else xs @ [x])"

definition cite_evidence :: "evidence_item \<Rightarrow> answer_claim \<Rightarrow> answer_claim" where
  "cite_evidence e c = c\<lparr>
     cl_memory_ids := (if present (ev_memory_id e) then add_new (or_empty (ev_memory_id e)) (cl_memory_ids c) else cl_memory_ids c),
     cl_version_ids := (if present (ev_version_id e) then add_new (or_empty (ev_version_id e)) (cl_version_ids c) else cl_version_ids c),
     cl_source_ids := fold add_new (ev_source_note_ids e) (cl_source_ids c),
     cl_history := (cl_history c \<or> ev_role e = Historical)\<rparr>"

definition cite_ids :: "unit_evidence \<Rightarrow> ptext \<Rightarrow> ptext list \<Rightarrow> answer_claim \<Rightarrow> answer_claim" where
  "cite_ids E uid ids c = fold (\<lambda>i c. case (case E uid of None \<Rightarrow> None | Some m \<Rightarrow> m i) of
     None \<Rightarrow> c | Some e \<Rightarrow> cite_evidence e c) ids c"

type_synonym claim_table = "((ptext \<times> ptext) \<times> answer_claim) list"

definition add_claim ::
  "('r, 'z) answer_env_scheme \<Rightarrow> unit_evidence \<Rightarrow> ptext \<times> cited_claim \<Rightarrow> claim_table \<Rightarrow> claim_table" where
  "add_claim A E x merged = (case x of (uid, t, ids) \<Rightarrow>
     let key = (uid, claim_identity A t) in
     if snd key = [] then merged
     else AList.update key (cite_ids E uid ids (case map_of merged key of
         Some c \<Rightarrow> c
       | None \<Rightarrow> \<lparr>cl_text = strip_text t, cl_memory_ids = [], cl_version_ids = [], cl_source_ids = [], cl_history = False\<rparr>))
       merged)"

definition claims_from_answer_units ::
  "('r, 'z) answer_env_scheme \<Rightarrow> unit_evidence \<Rightarrow> (ptext \<times> cited_claim list) list \<Rightarrow> answer_claim list" where
  "claims_from_answer_units A E accepted =
     map snd (fold (add_claim A E) (concat (map (\<lambda>(uid, cs). map (\<lambda>c. (uid, c)) cs) accepted)) [])"

definition render_validated_answer_contract ::
  "('r, 'z) answer_env_scheme \<Rightarrow> unit_evidence \<Rightarrow> py_value list \<Rightarrow> evidence_error + ptext \<times> answer_claim list" where
  "render_validated_answer_contract A E items = bind_ev (map_ev (render_unit A E) items) (\<lambda>rs.
     let ok = List.map_filter (\<lambda>r. r) rs in
     Inr (join_with [10] (map fst ok), claims_from_answer_units A E (map snd ok)))"

subsection \<open>Two attempts\<close>

definition answer_contract_failure_answer :: "ask_plan \<Rightarrow> evidence_bundle list \<Rightarrow> ptext" where
  "answer_contract_failure_answer p bs =
     (let questions = map unit_question (filter (\<lambda>u. \<exists>b \<in> set bs.
        bd_unit_id b = unit_id u \<and> ur_selected (bd_resolution b) \<noteq> []) (plan_units p))
      in if questions \<noteq> []
         then join_with [10] (map (\<lambda>q. [20851, 20110, 8220] @ q @ [8221, 65292, 24050, 25214,
     21040, 30456, 20851, 35777, 25454, 65292, 20294, 26242, 26102, 26080, 27861, 29983, 25104, 21487,
     39564, 35777, 22238, 31572, 12290]) questions)
         else [24050, 25214, 21040, 30456, 20851, 35777, 25454, 65292, 20294, 26242, 26102, 26080,
     27861, 29983, 25104, 21487, 39564, 35777, 22238, 31572, 12290])"

datatype contract_status = NotApplicable | ContractValid | ContractRepaired | ContractFailed

record answer_contract =
  ac_status :: contract_status
  ac_attempts :: nat
  ac_failure :: "string option"
  ac_reasons :: "(string \<times> int) list"
  ac_answered :: "ptext list"

type_synonym answer_result = "ptext \<times> answer_claim list \<times> answer_contract"

fun answer_attempts ::
  "('r, 'z) answer_env_scheme \<Rightarrow> ask_plan \<Rightarrow> evidence_bundle list \<Rightarrow> unit_evidence \<Rightarrow> nat \<Rightarrow> (string \<times> int) list \<Rightarrow>
     (string + py_value) list \<Rightarrow> evidence_error + answer_result" where
  "answer_attempts A p bs E n R [] = Inr (answer_contract_failure_answer p bs, [],
     \<lparr>ac_status = ContractFailed, ac_attempts = n,
      ac_failure = Some (case R of [] \<Rightarrow> ''no_valid_unit_answer'' | (r, _) # _ \<Rightarrow> r), ac_reasons = R, ac_answered = []\<rparr>)"
| "answer_attempts A p bs E n R (Inl exc # replies) =
     answer_attempts A p bs E (n + 1) (count_up (''provider_'' @ exc) 1 R) replies"
| "answer_attempts A p bs E n R (Inr reply # replies) =
     bind_ev (validated_answer_contract_items A E reply) (\<lambda>(accepted, rejected).
       let R' = fold (\<lambda>(r, k). count_up r k) rejected R in
       if accepted \<noteq> []
       then bind_ev (render_validated_answer_contract A E accepted) (\<lambda>(answer, claims).
         Inr (answer, claims, \<lparr>ac_status = (if n = 0 then ContractValid else ContractRepaired), ac_attempts = n + 1,
           ac_failure = None, ac_reasons = R', ac_answered = map (item_unit A) accepted\<rparr>))
       else answer_attempts A p bs E (n + 1) R' replies)"

text \<open>\<open>_answer_with_claims_from_bundles_detailed\<close>\<close>

definition answer_with_claims_detailed ::
  "('r, 'z) answer_env_scheme \<Rightarrow> (string + py_value) \<times> (string + py_value) \<Rightarrow> ask_plan \<Rightarrow> evidence_bundle list \<Rightarrow>
     evidence_error + answer_result" where
  "answer_with_claims_detailed A replies p bs =
     (let skipped = (\<lambda>reason. Inr (fallback_answer A p bs, [], \<lparr>ac_status = NotApplicable, ac_attempts = 0,
            ac_failure = reason, ac_reasons = [], ac_answered = []\<rparr>))
      in if plan_answer_mode p = AnswerTimeline \<or> (\<exists>u \<in> set (plan_units p). unit_intent u = MemoryHistory) then skipped None
         else if filter answerable bs = [] then skipped (Some ''no_answerable_bundle'')
         else answer_attempts A p bs (evidence_by_unit (filter answerable bs)) 0 [] [fst replies, snd replies])"

text \<open>
  \<open>_answer_with_claims_from_bundles\<close>, the variant without the repair: what does not fit is left out, and
  any exception leads to the fallback.
\<close>

fun fitting_items ::
  "('r, 'z) answer_env_scheme \<Rightarrow> unit_evidence \<Rightarrow> ptext list \<Rightarrow> py_value list \<Rightarrow> evidence_error + py_value list" where
  "fitting_items A E seen [] = Inr []"
| "fitting_items A E seen (item # items) =
     (if \<not> is_dict item then fitting_items A E seen items
      else bind_ev (cited_ids A item) (\<lambda>ids. let uid = item_unit A item in
        if uid = [] \<or> uid \<in> set seen \<or> E uid = None \<or> ids = [] \<or> \<not> all_known E uid ids \<or> item_answer A item = []
        then fitting_items A E seen items
        else bind_ev (fitting_items A E (uid # seen) items) (\<lambda>xs. Inr (item # xs))))"

definition answer_with_claims ::
  "('r, 'z) answer_env_scheme \<Rightarrow> string + py_value \<Rightarrow> ask_plan \<Rightarrow> evidence_bundle list \<Rightarrow> ptext \<times> answer_claim list" where
  "answer_with_claims A reply p bs =
     (let E = evidence_by_unit (filter answerable bs); fallback = (fallback_answer A p bs, []) in
      if plan_answer_mode p = AnswerTimeline \<or> (\<exists>u \<in> set (plan_units p). unit_intent u = MemoryHistory) then fallback
      else if filter answerable bs = [] then fallback
      else case reply of Inl exc \<Rightarrow> fallback
      | Inr r \<Rightarrow> (case bind_ev (case py_item r ''unit_answers'' of PyList items \<Rightarrow> fitting_items A E [] items | _ \<Rightarrow> Inr [])
             (\<lambda>items. if items = [] then Inr fallback else render_validated_answer_contract A E items) of
           Inl e \<Rightarrow> fallback
         | Inr res \<Rightarrow> res))"

end
