(* ===== verification/Ask_Execution.thy ===== *)
theory Ask_Execution
  imports Ask_Answer
begin

text \<open>
  The execution of a plan (\<open>agent/ask_executor.py\<close>) and the last steps of an answer
  (\<open>agent/ask_workflow.py\<close>). The tools run in threads: what each returns or raises is an argument, and so is
  the schedule, the order in which the calls of a round arrive before the deadline and which are found
  done after it. \<open>exec_env\<close> adds the ranking of records: by the projections of the semantic memories, for
  notes by the selection of \<open>agent/note_reranker.py\<close>, and the relevance test.
\<close>

record 'r exec_env = "'r answer_env" +
  normal_content :: "ptext \<Rightarrow> ptext"
  projection_order :: "query_unit \<Rightarrow> py_value list \<Rightarrow> py_value list \<times> ptext list"
  select_evidence :: "ptext \<Rightarrow> py_value list \<Rightarrow> nat \<Rightarrow> py_value list"
  record_relevant :: "query_unit \<Rightarrow> py_value \<Rightarrow> bool"
  evidence_per_unit :: int

subsection \<open>Resolution of a unit\<close>

text \<open>\<open>_semantic_record_identity\<close>\<close>

definition semantic_identity :: "('r, 'z) exec_env_scheme \<Rightarrow> py_value \<Rightarrow> ptext" where
  "semantic_identity A item =
     (let topic = normal_content A (first_item_text A (py_item item ''scope'') [''canonical_topic'']);
          subject = normal_content A (first_item_text A item [''subject'']);
          predicate = normal_content A (first_item_text A item [''predicate''])
      in if topic \<noteq> [] then ascii ''topic:'' @ topic
         else if predicate \<noteq> [] then ascii ''slot:'' @ subject @ 58 # predicate
         else ascii ''key:'' @ first_item_text A item [''memory_key'', ''id''])"

definition evidence_limit :: "('r, 'z) exec_env_scheme \<Rightarrow> query_unit \<Rightarrow> nat" where
  "evidence_limit A u = (if unit_intent u \<in> {TaskInventory, MemoryHistory} then 8 else nat (max 1 (evidence_per_unit A)))"

text \<open>The records a unit's evidence is made of, with the uncertain identifiers\<close>

definition projected ::
  "('r, 'z) exec_env_scheme \<Rightarrow> query_unit \<Rightarrow> py_value list \<Rightarrow> py_value list \<times> ptext list" where
  "projected A u records = (if unit_intent u \<in> {SemanticCurrent, SemanticHistory}
     then projection_order A u records else (records, []))"

definition evidence_records ::
  "('r, 'z) exec_env_scheme \<Rightarrow> query_unit \<Rightarrow> string \<Rightarrow> py_value list \<Rightarrow> py_value list" where
  "evidence_records A u tool records = (let rs = fst (projected A u records) in
     take (evidence_limit A u) (if tool = ''search_notes'' then select_evidence A (unit_question u) rs (evidence_limit A u) else rs))"

definition is_historical :: "query_unit \<Rightarrow> bool" where
  "is_historical u \<longleftrightarrow> unit_evidence_mode u = Timeline \<or>
     unit_intent u \<in> {SemanticHistory, EpisodicHistory, MemoryHistory}"

fun with_roles ::
  "('r, 'z) exec_env_scheme \<Rightarrow> query_unit \<Rightarrow> ptext list \<Rightarrow> ptext list \<Rightarrow> py_value list \<Rightarrow> (evidence_role \<times> py_value) list" where
  "with_roles A u uncertain seen [] = []"
| "with_roles A u uncertain seen (item # items) =
     (let identity = semantic_identity A item;
          repeated = (unit_intent u = SemanticCurrent \<and> identity \<in> set seen);
          role = (if first_item_text A item [''id'', ''memory_id''] \<in> set uncertain then Conflicting
            else if repeated \<or> is_historical u \<or> first_item_text A item [''source_kind''] = ascii ''memory_version''
            then Historical else CurrentCandidate)
      in (role, item) #
         with_roles A u uncertain (if unit_intent u = SemanticCurrent then identity # seen else seen) items)"

definition resolve_unit ::
  "('r, 'z) exec_env_scheme \<Rightarrow> query_unit \<Rightarrow> py_value list \<Rightarrow> string \<Rightarrow> evidence_error + evidence_bundle" where
  "resolve_unit A u records tool =
     (if fst (projected A u records) = []
      then make_bundle (unit_id u) [] \<lparr>ur_status = NotFound, ur_value = None, ur_reason = ''no_direct_evidence'',
        ur_selected = [], ur_conflicting = []\<rparr>
      else bind_ev (map_ev (\<lambda>(role, item). as_evidence A tool role item)
          (with_roles A u (snd (projected A u records)) [] (evidence_records A u tool records))) (\<lambda>evs.
        let conflicting = map ev_id (filter (\<lambda>e. ev_role e = Conflicting) evs);
            status = (if conflicting \<noteq> [] \<and> (\<forall>e \<in> set evs. ev_role e \<noteq> CurrentCandidate) then Conflict else Resolved);
            shown = (if unit_intent u = NoteLookup then map (\<lambda>e. e\<lparr>ev_role := RawNote\<rparr>) evs else evs)
        in make_bundle (unit_id u) shown
          \<lparr>ur_status = status, ur_value = (case shown of [] \<Rightarrow> None | e # _ \<Rightarrow> Some (ev_content e)),
           ur_reason = (if status = Conflict then ''projection_uncertain'' else ''direct_domain_evidence''),
           ur_selected = map ev_id (filter (\<lambda>e. ev_role e \<noteq> Conflicting) shown), ur_conflicting = conflicting\<rparr>))"

subsection \<open>Rounds\<close>

record execution =
  ex_bundles :: "evidence_bundle list"
  ex_records :: "(ptext \<times> py_value list) list"
  ex_tools :: "string list"
  ex_errors :: "(ptext \<times> ptext) list"
  ex_timed_out :: "ptext list"

definition no_execution :: execution where
  "no_execution = \<lparr>ex_bundles = [], ex_records = [], ex_tools = [], ex_errors = [], ex_timed_out = []\<rparr>"

text \<open>What a tool does: it raises, with the name and the text of the exception, or returns records.\<close>

datatype tool_result = ToolRaised string ptext | ToolReturned string "py_value list"

fun result_of :: "tool_result \<Rightarrow> string \<times> py_value list" where
  "result_of (ToolRaised cls msg) = (''domain_error'', [])"
| "result_of (ToolReturned tool records) = (tool, records)"

definition consume ::
  "('r, 'z) exec_env_scheme \<Rightarrow> query_unit \<Rightarrow> tool_result \<Rightarrow> execution \<times> ptext list \<Rightarrow> evidence_error + execution \<times> ptext list" where
  "consume A u r S = (case S of (X, completed) \<Rightarrow>
     let (tool, records) = result_of r;
         errors = (case r of ToolRaised cls msg \<Rightarrow>
             AList.update (unit_id u) (ascii cls @ ascii '': '' @ take 180 msg) (ex_errors X)
           | ToolReturned _ _ \<Rightarrow> ex_errors X)
     in bind_ev (resolve_unit A u records tool) (\<lambda>b.
       Inr (X\<lparr>ex_bundles := ex_bundles X @ [b], ex_records := AList.update (unit_id u) records (ex_records X),
           ex_tools := ex_tools X @ [tool], ex_errors := errors\<rparr>, unit_id u # completed)))"

definition bare_bundle :: "ptext \<Rightarrow> unit_status \<Rightarrow> string \<Rightarrow> evidence_bundle" where
  "bare_bundle uid st reason = \<lparr>bd_unit_id = uid, bd_evidence = [], bd_facts = [], bd_summary = None,
     bd_resolution = \<lparr>ur_status = st, ur_value = None, ur_reason = reason, ur_selected = [], ur_conflicting = []\<rparr>\<rparr>"

definition time_out :: "query_unit \<Rightarrow> execution \<times> ptext list \<Rightarrow> execution \<times> ptext list" where
  "time_out u S = (case S of (X, completed) \<Rightarrow>
     (X\<lparr>ex_bundles := ex_bundles X @ [bare_bundle (unit_id u) Partial ''executor_timeout''],
        ex_records := AList.update (unit_id u) [] (ex_records X), ex_tools := ex_tools X @ [''executor_timeout''],
        ex_errors := AList.update (unit_id u) (ascii ''executor_timeout'') (ex_errors X),
        ex_timed_out := ex_timed_out X @ [unit_id u]\<rparr>, unit_id u # completed))"

definition ready_units :: "ask_plan \<Rightarrow> ptext list \<Rightarrow> query_unit list" where
  "ready_units p completed = filter (\<lambda>u. unit_id u \<notin> set completed \<and> set (depends_on u) \<subseteq> set completed) (plan_units p)"

fun fold_ev :: "('a \<Rightarrow> 's \<Rightarrow> evidence_error + 's) \<Rightarrow> 'a list \<Rightarrow> 's \<Rightarrow> evidence_error + 's" where
  "fold_ev f [] s = Inr s"
| "fold_ev f (x # xs) s = bind_ev (f x s) (fold_ev f xs)"

text \<open>
  One round over the ready units by position: \<open>rd_arrived\<close> are yielded before the deadline, in this
  order, \<open>rd_late\<close> are done when the others are looked at. When several units cannot be resolved the
  error is that of the first.
\<close>

record round =
  rd_arrived :: "nat list"
  rd_late :: "nat list"

definition run_round ::
  "('r, 'z) exec_env_scheme \<Rightarrow> (query_unit \<Rightarrow> tool_result) \<Rightarrow> query_unit list \<Rightarrow> round \<Rightarrow> execution \<times> ptext list \<Rightarrow>
     evidence_error + execution \<times> ptext list" where
  "run_round A outcome ready r S =
     (let arrived = dict_keys (filter (\<lambda>i. i < length ready) (rd_arrived r));
          others = filter (\<lambda>i. i \<notin> set arrived) [0..<length ready]
      in bind_ev (fold_ev (\<lambda>i. consume A (ready ! i) (outcome (ready ! i))) arrived S)
        (fold_ev (\<lambda>i S. if i \<in> set (rd_late r) then consume A (ready ! i) (outcome (ready ! i)) S
           else Inr (time_out (ready ! i) S)) others))"

text \<open>The units no round can start\<close>

definition give_up :: "query_unit list \<Rightarrow> execution \<times> ptext list \<Rightarrow> execution \<times> ptext list" where
  "give_up us S = fold (\<lambda>u (X, completed). if unit_id u \<in> set completed then (X, completed)
     else (X\<lparr>ex_bundles := ex_bundles X @ [bare_bundle (unit_id u) Partial ''unresolved_dependency'']\<rparr>, unit_id u # completed)) us S"

lemma fold_ev_invariant:
  assumes "fold_ev f xs s = Inr t" "P s" "\<And>x s t. x \<in> set xs \<Longrightarrow> P s \<Longrightarrow> f x s = Inr t \<Longrightarrow> P t"
  shows "P t"
  using assms by (induction xs arbitrary: s) (auto simp: bind_ev_Inr)

lemma consume_completed: "consume A u r S = Inr T \<Longrightarrow> snd T = unit_id u # snd S"
  by (auto simp: consume_def bind_ev_Inr Let_def split: prod.splits)

lemma time_out_completed [simp]: "snd (time_out u S) = unit_id u # snd S"
  by (simp add: time_out_def split: prod.split)

lemma fold_ev_completed:
  assumes "\<And>i S T. f i S = Inr T \<Longrightarrow> snd T = g i # snd S" and "fold_ev f xs S = Inr T"
  shows "snd T = rev (map g xs) @ snd S"
  using assms(2) by (induction xs arbitrary: S) (auto simp: bind_ev_Inr dest: assms(1))

lemma round_positions: "set (dict_keys (filter (\<lambda>i. i < n) xs)) \<union> set (filter (\<lambda>i. i \<notin> set (dict_keys (filter (\<lambda>i. i < n) xs))) [0..<n]) = {..<n}"
  by (auto simp: dict_keys_def)

lemma run_round_completed:
  assumes "run_round A outcome ready r S = Inr T"
  shows "set (snd T) = unit_id ` set ready \<union> set (snd S)"
proof -
  let ?arrived = "dict_keys (filter (\<lambda>i. i < length ready) (rd_arrived r))"
  let ?others = "filter (\<lambda>i. i \<notin> set ?arrived) [0..<length ready]"
  let ?id = "\<lambda>i. unit_id (ready ! i)"
  from assms obtain M where M: "fold_ev (\<lambda>i. consume A (ready ! i) (outcome (ready ! i))) ?arrived S = Inr M"
      "fold_ev (\<lambda>i S. if i \<in> set (rd_late r) then consume A (ready ! i) (outcome (ready ! i)) S
         else Inr (time_out (ready ! i) S)) ?others M = Inr T"
    by (auto simp: run_round_def Let_def bind_ev_Inr)
  have "snd M = rev (map ?id ?arrived) @ snd S" by (rule fold_ev_completed [OF _ M(1)]) (rule consume_completed)
  moreover have "snd T = rev (map ?id ?others) @ snd M"
    by (rule fold_ev_completed [OF _ M(2)]) (metis consume_completed time_out_completed sum.inject(2))
  ultimately have "set (snd T) = ?id ` (set ?arrived \<union> set ?others) \<union> set (snd S)" by (simp add: image_Un Un_commute Un_assoc)
  also have "?id ` (set ?arrived \<union> set ?others) = unit_id ` set ready"
    unfolding round_positions by (auto simp: set_conv_nth)
  finally show ?thesis .
qed

function execute_rounds ::
  "('r, 'z) exec_env_scheme \<Rightarrow> (query_unit \<Rightarrow> tool_result) \<Rightarrow> (nat \<Rightarrow> round) \<Rightarrow> ask_plan \<Rightarrow> nat \<Rightarrow>
     execution \<times> ptext list \<Rightarrow> evidence_error + execution" where
  "execute_rounds A outcome sched p n S =
     (if length (plan_units p) \<le> card (set (snd S)) then Inr (fst S)
      else if ready_units p (snd S) = [] then Inr (fst (give_up (plan_units p) S))
      else case run_round A outcome (ready_units p (snd S)) (sched n) S of
          Inl e \<Rightarrow> Inl e
        | Inr T \<Rightarrow> execute_rounds A outcome sched p (n + 1) T)"
  by pat_completeness auto

termination
proof (relation "measure (\<lambda>(A, outcome, sched, p, n, S). card (unit_id ` set (plan_units p) - set (snd S)))", goal_cases)
  case (2 A outcome sched p n S T)
  let ?R = "ready_units p (snd S)"
  from 2(2) obtain u where "u \<in> set ?R" by (cases ?R) auto
  then have "unit_id u \<in> unit_id ` set (plan_units p) - set (snd S)" "unit_id u \<in> set (snd T)"
    using run_round_completed [OF 2(3)] by (auto simp: ready_units_def)
  moreover have "set (snd S) \<subseteq> set (snd T)" using run_round_completed [OF 2(3)] by auto
  ultimately have "unit_id ` set (plan_units p) - set (snd T) \<subset> unit_id ` set (plan_units p) - set (snd S)" by blast
  then show ?case by (simp add: psubset_card_mono)
qed simp

declare execute_rounds.simps [simp del]

definition unit_order :: "ask_plan \<Rightarrow> ptext \<Rightarrow> nat" where
  "unit_order p uid = (case map_of (rev (zip (map unit_id (plan_units p)) [0..<length (plan_units p)])) uid of
     None \<Rightarrow> 999 | Some i \<Rightarrow> i)"

definition execute_ask_plan ::
  "('r, 'z) exec_env_scheme \<Rightarrow> (query_unit \<Rightarrow> tool_result) \<Rightarrow> (nat \<Rightarrow> round) \<Rightarrow> ask_plan \<Rightarrow> evidence_error + execution" where
  "execute_ask_plan A outcome sched p = bind_ev (execute_rounds A outcome sched p 0 (no_execution, [])) (\<lambda>X.
     Inr (X\<lparr>ex_bundles := sort_key (\<lambda>b. unit_order p (bd_unit_id b)) (ex_bundles X)\<rparr>))"

subsection \<open>Repair of missing evidence\<close>

definition partial_bundle ::
  "('r, 'z) exec_env_scheme \<Rightarrow> query_unit \<Rightarrow> py_value list \<Rightarrow> string \<Rightarrow> string \<Rightarrow> evidence_error + evidence_bundle" where
  "partial_bundle A u records tool reason = bind_ev (map_ev (as_evidence A tool
       (if unit_intent u = TaskState \<and> tool = ''search_episodes'' then Historical else RawNote)) (take 3 records))
     (\<lambda>evs. make_bundle (unit_id u) evs \<lparr>ur_status = Partial,
        ur_value = (case evs of [] \<Rightarrow> None | e # _ \<Rightarrow> Some (ev_content e)), ur_reason = reason,
        ur_selected = map ev_id evs, ur_conflicting = []\<rparr>)"

text \<open>The searches of a unit; None for one that raises.\<close>

record fallbacks =
  find_episodes :: "query_unit \<Rightarrow> py_value list option"
  find_notes :: "query_unit \<Rightarrow> py_value list option"

definition fallback_records :: "fallbacks \<Rightarrow> query_unit \<Rightarrow> py_value list \<times> string \<times> string" where
  "fallback_records F u =
     (let notes = (case find_notes F u of None \<Rightarrow> [] | Some ns \<Rightarrow> ns) in
      if unit_intent u = TaskState
      then (case find_episodes F u of
          None \<Rightarrow> ([], ''search_notes'', ''note_fallback'')
        | Some [] \<Rightarrow> (notes, ''search_notes'', ''task_note_fallback'')
        | Some es \<Rightarrow> (es, ''search_episodes'', ''task_episode_fallback''))
      else (notes, ''search_notes'', ''note_fallback''))"

text \<open>\<open>bundles[bundles.index(b)] = r\<close>\<close>

fun replace_bundle ::
  "evidence_bundle \<Rightarrow> evidence_bundle \<Rightarrow> evidence_bundle list \<Rightarrow> evidence_error + evidence_bundle list" where
  "replace_bundle b r [] = Inl NotInList"
| "replace_bundle b r (c # cs) = (if c = b then Inr (r # cs) else bind_ev (replace_bundle b r cs) (\<lambda>ds. Inr (c # ds)))"

fun repair_units ::
  "('r, 'z) exec_env_scheme \<Rightarrow> fallbacks \<Rightarrow> int \<Rightarrow> evidence_bundle list \<Rightarrow> query_unit list \<Rightarrow> ptext list \<Rightarrow> execution \<Rightarrow>
     evidence_error + ptext list \<times> execution" where
  "repair_units A F budget before [] repaired X = Inr (repaired, X)"
| "repair_units A F budget before (u # us) repaired X =
     (if budget \<le> int (length repaired) then Inr (repaired, X)
      else case bundle_of before (unit_id u) of
        None \<Rightarrow> repair_units A F budget before us repaired X
      | Some b \<Rightarrow>
        if ur_status (bd_resolution b) \<noteq> NotFound then repair_units A F budget before us repaired X
        else let (found, tool, reason) = fallback_records F u; records = filter (record_relevant A u) found in
          if records = [] then repair_units A F budget before us repaired X
          else bind_ev (partial_bundle A u records tool reason) (\<lambda>r.
            bind_ev (replace_bundle b r (ex_bundles X)) (\<lambda>bs.
              repair_units A F budget before us (repaired @ [unit_id u])
                (X\<lparr>ex_bundles := bs, ex_records := AList.update (unit_id u) records (ex_records X),
                   ex_tools := ex_tools X @ [tool]\<rparr>))))"

text \<open>\<open>rounds\<close> and \<open>budget\<close> are settings.\<close>

definition repair_missing_evidence ::
  "('r, 'z) exec_env_scheme \<Rightarrow> fallbacks \<Rightarrow> int \<Rightarrow> int \<Rightarrow> ask_plan \<Rightarrow> execution \<Rightarrow> evidence_error + ptext list \<times> execution" where
  "repair_missing_evidence A F rounds budget p X =
     (if rounds < 2 then Inr ([], X)
      else repair_units A F (max 0 budget) (ex_bundles X) (plan_units p) [] X)"

subsection \<open>Notes to expand\<close>

fun add_sources :: "nat \<Rightarrow> ptext list \<Rightarrow> ptext list \<Rightarrow> ptext list" where
  "add_sources limit [] ids = ids"
| "add_sources limit (s # ss) ids = (let ids1 = add_new s ids in
     if limit \<le> length ids1 then ids1 else add_sources limit ss ids1)"

fun hydrate_items :: "nat \<Rightarrow> evidence_item list \<Rightarrow> ptext list \<Rightarrow> ptext list" where
  "hydrate_items limit [] ids = ids"
| "hydrate_items limit (e # es) ids =
     (if ev_source_kind e = FromNote \<and> present (ev_note_id e) \<and> or_empty (ev_note_id e) \<notin> set ids
      then let ids1 = ids @ [or_empty (ev_note_id e)] in
        if limit \<le> length ids1 then ids1 else hydrate_items limit es (add_sources limit (ev_source_note_ids e) ids1)
      else hydrate_items limit es (add_sources limit (ev_source_note_ids e) ids))"

text \<open>The identifiers \<open>hydrate_selected_evidence\<close> reads; \<open>max_ids\<close> is a setting.\<close>

definition hydrate_ids :: "int \<Rightarrow> ask_plan \<Rightarrow> evidence_bundle list \<Rightarrow> ptext list" where
  "hydrate_ids max_ids p bs =
     (let need = map unit_id (filter need_source_evidence (plan_units p)) in
      fold (\<lambda>b. hydrate_items (nat (max 1 max_ids)) (bd_evidence b)) (filter (\<lambda>b. bd_unit_id b \<in> set need) bs) [])"

subsection \<open>The answer\<close>

definition record_id :: "('r, 'z) answer_env_scheme \<Rightarrow> py_value \<Rightarrow> ptext" where
  "record_id A r = first_item_text A r [''id'']"

text \<open>\<open>_selected_records\<close>\<close>

definition selected_records ::
  "('r, 'z) answer_env_scheme \<Rightarrow> execution \<Rightarrow> py_value list \<Rightarrow> py_value list" where
  "selected_records A X notes =
     (let chosen = concat (map (\<lambda>b. ur_selected (bd_resolution b)) (ex_bundles X));
          from_records = fold (\<lambda>r sel. let i = first_item_text A r [''id'', ''memory_id''] in
            if i \<noteq> [] \<and> i \<in> set chosen \<and> i \<notin> set (map (record_id A) sel) then sel @ [r] else sel)
            (concat (map snd (ex_records X))) []
      in take 10 (fold (\<lambda>r sel. if record_id A r \<noteq> [] \<and> record_id A r \<notin> set (map (record_id A) sel) then sel @ [r] else sel)
           notes from_records))"

definition record_matches :: "('r, 'z) answer_env_scheme \<Rightarrow> ptext list \<Rightarrow> py_value \<Rightarrow> bool" where
  "record_matches A chosen r \<longleftrightarrow> (\<exists>k \<in> {''id'', ''memory_id'', ''note_id'', ''version_id''}.
     first_item_text A r [k] \<noteq> [] \<and> first_item_text A r [k] \<in> set chosen)"

text \<open>
  \<open>_decision_evidence_from_execution\<close>: current and historical records, and whether a unit is in
  conflict. The dictionary of the units keeps the last unit at the place of the first.
\<close>

definition units_by_id :: "ask_plan \<Rightarrow> (ptext \<times> query_unit) list" where
  "units_by_id p = fold (\<lambda>u. AList.update (unit_id u) u) (plan_units p) []"

definition decide_unit ::
  "('r, 'z) answer_env_scheme \<Rightarrow> execution \<Rightarrow> ptext \<times> query_unit \<Rightarrow> py_value list \<times> py_value list \<times> bool \<Rightarrow>
     py_value list \<times> py_value list \<times> bool" where
  "decide_unit A X x D = (case x of (uid, u) \<Rightarrow> case D of (current, history, conflict) \<Rightarrow>
     case bundle_of (ex_bundles X) uid of
       None \<Rightarrow> D
     | Some b \<Rightarrow>
       let chosen = filter (\<lambda>i. i \<noteq> []) (ur_selected (bd_resolution b));
           raw = (case map_of (ex_records X) uid of None \<Rightarrow> [] | Some rs \<Rightarrow> rs);
           sel = filter (record_matches A chosen) raw;
           old = (\<lambda>r. unit_intent u = MemoryHistory \<or> first_item_text A r [''source_kind''] = ascii ''memory_version'');
           keys = filter (\<lambda>k. k \<noteq> []) (map (\<lambda>r. first_item_text A r [''memory_key'']) sel);
           extra = (if unit_intent u = PreferenceCurrent
             then filter (\<lambda>r. r \<notin> set sel \<and> first_item_text A r [''memory_key''] \<in> set keys) raw else [])
       in if ur_status (bd_resolution b) = Conflict then (current, history, True)
          else if ur_status (bd_resolution b) \<notin> {Resolved, Partial} \<or> chosen = [] then D
          else (current @ filter (\<lambda>r. \<not> old r) sel @ extra, history @ filter old sel, conflict))"

definition decision_evidence ::
  "('r, 'z) answer_env_scheme \<Rightarrow> ask_plan \<Rightarrow> execution \<Rightarrow> py_value list \<times> py_value list \<times> bool" where
  "decision_evidence A p X = fold (decide_unit A X) (units_by_id p) ([], [], False)"

datatype answer_type = Answered | NoAnswer | QualifiedHistoryOnly | ConflictAnswer | Clarification | Restricted

text \<open>
  The answer of \<open>answer_question_v2\<close> from the execution on; \<open>decide\<close> stands for \<open>decide_answer\<close> of
  \<open>agent/query_agent.py\<close> on the current and the historical records.
\<close>

definition history_claims :: "evidence_bundle list \<Rightarrow> ptext \<Rightarrow> answer_claim list" where
  "history_claims bs t = (case find (\<lambda>e. ev_role e = Historical) (concat (map bd_evidence bs)) of
     None \<Rightarrow> []
   | Some e \<Rightarrow> if t = [] then []
       else [\<lparr>cl_text = t, cl_memory_ids = (if present (ev_memory_id e) then [or_empty (ev_memory_id e)] else []),
         cl_version_ids = (if present (ev_version_id e) then [or_empty (ev_version_id e)] else []),
         cl_source_ids = ev_source_note_ids e, cl_history = True\<rparr>])"

definition final_answer ::
  "('r, 'z) answer_env_scheme \<Rightarrow> (py_value list \<Rightarrow> py_value list \<Rightarrow> answer_type) \<Rightarrow> (string + py_value) \<times> (string + py_value) \<Rightarrow>
     ask_plan \<Rightarrow> execution \<Rightarrow> evidence_error + answer_type \<times> ptext \<times> answer_claim list" where
  "final_answer A decide replies p X = (case decision_evidence A p X of (current, history, conflict) \<Rightarrow>
     let kind = (if conflict then ConflictAnswer else decide current history); bs = ex_bundles X in
     case kind of
       Restricted \<Rightarrow> Inr (kind, [36825, 31867, 35760, 24405, 21463, 35775, 38382, 26435,
     38480, 20445, 25252, 65292, 24403, 21069, 26080, 27861, 25552, 20379, 12290], [])
     | ConflictAnswer \<Rightarrow> Inr (kind, [30456, 20851, 35760, 24405, 23384, 22312, 20914, 31361,
     65292, 26242, 26102, 26080, 27861, 30830, 35748, 21807, 19968, 32467, 35770, 12290], [])
     | Clarification \<Rightarrow> Inr (kind, [20320, 25351, 30340, 26159, 21738, 19968, 20010, 20107,
     39033, 65311, 35831, 34917, 20805, 21517, 31216, 25110, 26102, 38388, 12290], [])
     | NoAnswer \<Rightarrow> Inr (kind, fallback_answer A p bs, [])
     | QualifiedHistoryOnly \<Rightarrow>
         (let content = (case history of [] \<Rightarrow> [] | h # _ \<Rightarrow> first_item_text A h [''content'']);
              t = (if content = [] then [30456, 20851, 21382, 21490, 35760, 24405] else content)
          in Inr (kind, [21482, 25214, 21040, 21382, 21490, 35760, 24405, 65306] @ t @ [65307, 26080,
     27861, 25454, 27492, 30830, 35748, 24403, 21069, 29366, 24577, 12290], history_claims bs t))
     | Answered \<Rightarrow> bind_ev (answer_with_claims_detailed A replies p bs) (\<lambda>(answer, claims, contract).
         Inr (kind, answer, claims)))"

end
