(* ===== verification/Answer_Guarantees.thy ===== *)
theory Answer_Guarantees
  imports Ask_Answer Ask_Guarantees
begin

text \<open>
  What the evidence stages of the question agent promise whatever a language model answers: a fact
  quotes evidence that was retrieved, and a claim cites evidence of the unit whose answer says it.
\<close>

subsection \<open>Parts of texts\<close>

lemma occurs_iff: "occurs n h \<longleftrightarrow> (\<exists>xs ys. h = xs @ n @ ys)"
proof (induction h)
  case (Cons c cs)
  have "take (length n) (c # cs) = n \<longleftrightarrow> (\<exists>ys. c # cs = n @ ys)"
    by (metis append_eq_conv_conj append_take_drop_id)
  moreover have "(\<exists>xs ys. c # cs = xs @ n @ ys) \<longleftrightarrow> (\<exists>ys. c # cs = n @ ys) \<or> (\<exists>xs ys. cs = xs @ n @ ys)"
    by (auto simp: Cons_eq_append_conv)
  ultimately show ?case using Cons by simp
qed simp

lemma occurs_trans: "occurs n h \<Longrightarrow> occurs h k \<Longrightarrow> occurs n k"
  unfolding occurs_iff by (metis append.assoc)

lemma occurs_empty [simp]: "occurs [] h"
  by (cases h) simp_all

lemma join_with_part: "y \<in> set ys \<Longrightarrow> \<exists>a b. join_with sep ys = a @ y @ b"
proof (induction sep ys rule: join_with.induct)
  case (3 sep x v vs)
  show ?case
  proof (cases "y = x")
    case True
    then have "join_with sep (x # v # vs) = [] @ y @ sep @ join_with sep (v # vs)" by simp
    then show ?thesis by blast
  next
    case False
    with 3 obtain a b where "join_with sep (v # vs) = a @ y @ b" by auto
    then show ?thesis by (intro exI [of _ "x @ sep @ a"] exI [of _ b]) simp
  qed
next
  case (2 sep x)
  then have "join_with sep [x] = [] @ y @ []" by simp
  then show ?case by blast
qed simp

lemma dropWhile_rev_dropWhile:
  "dropWhile P (rev (dropWhile P (rev (dropWhile P t)))) = rev (dropWhile P (rev (dropWhile P t)))"
proof (cases "dropWhile P t = []")
  case False
  then obtain c cs where c: "dropWhile P t = c # cs" by (meson neq_Nil_conv)
  then have "\<not> P c" using hd_dropWhile [OF False] by simp
  then have "rev (dropWhile P (rev (c # cs))) = c # rev (dropWhile P (rev cs))"
    using dropWhile_append3 [of P c "rev cs" "[]"] by simp
  with \<open>\<not> P c\<close> show ?thesis unfolding c by simp
qed (simp only: dropWhile.simps rev.simps)

lemma strip_strip [simp]: "strip_text (strip_text t) = strip_text t"
  by (simp add: strip_text_def strip_chars_def dropWhile_rev_dropWhile)

text \<open>Case folding works character by character.\<close>

definition casefold_append :: "('r, 'z) ask_env_scheme \<Rightarrow> bool" where
  "casefold_append A \<longleftrightarrow> (\<forall>s t. casefold A (s @ t) = casefold A s @ casefold A t)"

lemma identity_part:
  assumes "casefold_append A" "y \<in> set ys"
  shows "occurs (claim_identity A y) (claim_identity A (join_with sep ys))"
proof -
  obtain a b where "join_with sep ys = a @ y @ b" using join_with_part [OF assms(2)] by metis
  then have "claim_identity A (join_with sep ys) = claim_identity A a @ claim_identity A y @ claim_identity A b"
    using assms(1) by (simp add: claim_identity_def casefold_append_def)
  then show ?thesis by (auto simp: occurs_iff)
qed

subsection \<open>Errors and lists\<close>

lemma map_ev_Inr: "map_ev f xs = Inr ys \<Longrightarrow> list_all2 (\<lambda>x y. f x = Inr y) xs ys"
  by (induction xs arbitrary: ys) (auto simp: bind_ev_Inr)

lemma update_subset: "set (AList.update k v al) \<subseteq> insert (k, v) (set al)"
  by (induction al) auto

subsection \<open>Facts\<close>

definition grounded_fact ::
  "('r, 'z) answer_env_scheme \<Rightarrow> evidence_bundle list \<Rightarrow> evidence_fact \<Rightarrow> bool" where
  "grounded_fact A bs f \<longleftrightarrow> 3 \<le> length (compact A (ef_quote f)) \<and> quantity_is_grounded A (ef_quantity f) (ef_quote f) \<and>
     (\<exists>b \<in> set bs. eligible b \<and> (\<exists>e \<in> set (bd_evidence b). ev_id e = ef_evidence_id f \<and>
        occurs (compact A (ef_quote f)) (compact A (evidence_text e))))"

lemma fact_from_raw_grounded:
  assumes "fact_from_raw A (map_of (rev (evidence_texts bs))) units raw = Inr f"
  shows "grounded_fact A bs f \<and> ef_unit_id f \<in> units"
proof -
  from assms obtain t where t: "map_of (rev (evidence_texts bs)) (ef_evidence_id f) = Some t"
      "quote_is_grounded A (ef_quote f) t" "quantity_is_grounded A (ef_quantity f) (ef_quote f)" "ef_unit_id f \<in> units"
    by (auto simp: fact_from_raw_def split: if_splits option.splits)
  from map_of_SomeD [OF t(1)] obtain b e where "b \<in> set bs" "eligible b" "e \<in> set (bd_evidence b)"
      "ev_id e = ef_evidence_id f" "evidence_text e = t"
    by (auto simp: evidence_texts_def)
  with t show ?thesis by (auto simp: grounded_fact_def quote_is_grounded_def)
qed

lemma collect_facts_props:
  assumes "collect_facts A by_id units seen raws R = (fs, R')"
  shows "(\<forall>f \<in> set fs. \<exists>raw. fact_from_raw A by_id units raw = Inr f) \<and>
    distinct (map (fact_identity A) fs) \<and> fact_identity A ` set fs \<inter> set seen = {} \<and>
    fr_accepted R' + fr_rejected R' \<le> fr_accepted R + fr_rejected R + int (length raws) \<and>
    fr_accepted R' = fr_accepted R + int (length fs)"
  using assms
proof (induction raws arbitrary: seen R fs R')
  case (Cons raw raws)
  show ?case
  proof (cases "fact_from_raw A by_id units raw")
    case (Inl reason)
    with Cons.prems Cons.IH [of seen "reject_fact reason R" fs R'] show ?thesis by (simp add: reject_fact_def)
  next
    case (Inr f)
    show ?thesis
    proof (cases "fact_identity A f \<in> set seen")
      case True
      with Inr Cons.prems Cons.IH [of seen R fs R'] show ?thesis by simp
    next
      case False
      with Inr Cons.prems obtain gs where gs: "fs = f # gs"
        "collect_facts A by_id units (fact_identity A f # seen) raws (R\<lparr>fr_accepted := fr_accepted R + 1\<rparr>) = (gs, R')"
        by (auto split: prod.splits)
      from Cons.IH [OF gs(2)] Inr False show ?thesis by (auto simp: gs(1) image_iff)
    qed
  qed
qed simp

lemma resolve_facts_cases:
  assumes "resolve_evidence_facts A reply p bs = (R, bs')"
  obtains (none) "bs' = bs" "R = no_facts \<or> (\<exists>r. R = reject_fact r no_facts)"
    | (some) raws fs where "collect_facts A (map_of (rev (evidence_texts bs))) (unit_id ` set (plan_units p)) []
          (take 32 raws) no_facts = (fs, R)"
        "bs' = map (\<lambda>b. if eligible b
           then b\<lparr>bd_facts := take 12 (filter (\<lambda>f. ef_unit_id f = bd_unit_id b) fs),
             bd_summary := bundle_summary (take 12 (filter (\<lambda>f. ef_unit_id f = bd_unit_id b) fs))\<rparr>
           else b) bs"
proof -
  define cf where "cf = (\<lambda>raws. collect_facts A (map_of (rev (evidence_texts bs))) (unit_id ` set (plan_units p)) []
      (take 32 raws) no_facts)"
  have c0: "collect_facts A (map_of (rev (evidence_texts bs))) (unit_id ` set (plan_units p)) [] (take 32 raws) no_facts =
      (fst (cf raws), snd (cf raws))" for raws by (simp add: cf_def)
  note res = assms [unfolded resolve_evidence_facts_def Let_def c0 prod.case]
  show thesis
  proof (cases "evidence_texts bs = [] \<or> reply = None")
    case True
    then show thesis using res none by (auto split: if_splits)
  next
    case False
    then obtain raw where raw: "reply = Some raw" "evidence_texts bs \<noteq> []" by auto
    show thesis
    proof (cases "py_item raw ''facts''")
      case (PyList raws)
      then show thesis using res raw some [of raws "fst (cf raws)"] by (simp add: c0)
    qed (use res raw none in auto)
  qed
qed

text \<open>
  C14: every fact attached to the evidence is grounded, whatever the language model answers. Its
  quote has at least three visible characters and occurs, up to white space and case, in the text of
  an item of evidence with the identifier it cites; a quantity is a number of that quote. A unit gets
  at most twelve facts, all its own and no two with the same quote of the same item. At most 32 facts
  are looked at, and nothing else about a bundle changes, least of all its status.
\<close>

theorem facts_grounded:
  assumes "resolve_evidence_facts A reply p bs = (R, bs')"
  shows "fr_accepted R + fr_rejected R \<le> 32 \<and>
    list_all2 (\<lambda>b b'. b' = b \<or> eligible b \<and>
      b' = b\<lparr>bd_facts := bd_facts b', bd_summary := bundle_summary (bd_facts b')\<rparr> \<and>
      length (bd_facts b') \<le> 12 \<and> distinct (map (fact_identity A) (bd_facts b')) \<and>
      (\<forall>f \<in> set (bd_facts b'). grounded_fact A bs f \<and> ef_unit_id f = bd_unit_id b)) bs bs'"
proof -
  have same: "list_all2 (\<lambda>b b'. b' = b \<or> Q b b') bs bs" for Q by (rule list.rel_refl) simp
  from assms show ?thesis
  proof (cases rule: resolve_facts_cases)
    case none
    then show ?thesis using same by (auto simp: no_facts_def reject_fact_def)
  next
    case (some raws fs)
    note c = collect_facts_props [OF some(1)]
    have f: "grounded_fact A bs f" if "f \<in> set fs" for f
      using c that fact_from_raw_grounded by metis
    have d: "distinct (map (fact_identity A) (take 12 (filter P fs)))" for P
      using c by (simp add: distinct_map distinct_filter inj_on_def) (meson in_set_takeD filter_is_subset subsetD)
    have "fr_accepted R + fr_rejected R \<le> int (length (take 32 raws))"
      using c by (simp add: no_facts_def del: length_take)
    then have "fr_accepted R + fr_rejected R \<le> 32" by simp
    moreover have "list_all2 (\<lambda>b b'. b' = b \<or> eligible b \<and>
      b' = b\<lparr>bd_facts := bd_facts b', bd_summary := bundle_summary (bd_facts b')\<rparr> \<and>
      length (bd_facts b') \<le> 12 \<and> distinct (map (fact_identity A) (bd_facts b')) \<and>
      (\<forall>f \<in> set (bd_facts b'). grounded_fact A bs f \<and> ef_unit_id f = bd_unit_id b)) bs bs'"
      unfolding some(2) list.rel_map
      by (rule list.rel_refl_strong) (auto simp: d dest!: in_set_takeD intro: f)
    ultimately show ?thesis by blast
  qed
qed

text \<open>
  Two units; the reply holds a fact of the first, a sentence nobody wrote, a number that is not in the
  quote, and a fact of the second unit that cites evidence of the first: the last one is accepted.
\<close>

definition demo_env :: "ask_plan answer_env" where
  "demo_env = ask_env.extend demo_ask (answer_env.fields (\<lambda>_. []) (\<lambda>c. 48 \<le> c \<and> c \<le> 57)
     (\<lambda>c. 48 \<le> c \<and> c \<le> 57 \<or> 97 \<le> c \<and> c \<le> 122)
     (\<lambda>v. case (py_item v ''u'', py_item v ''e'', py_item v ''quote'', py_item v ''n'') of
        (PyText u, PyText e, PyText q, n) \<Rightarrow> Some \<lparr>ef_unit_id = u, ef_evidence_id = e, ef_quote = q, ef_claim = q,
          ef_modality = Asserted, ef_subject = None, ef_predicate = None, ef_value = None, ef_event_time = None,
          ef_item_key = None, ef_quantity = (case n of PyNumber t _ \<Rightarrow> Some t | _ \<Rightarrow> None)\<rparr>
      | _ \<Rightarrow> None))"

definition demo_evidence :: "string \<Rightarrow> string \<Rightarrow> evidence_item" where
  "demo_evidence i t = \<lparr>ev_id = ascii i, ev_source_kind = FromMemory, ev_memory_type = Some AskSemantic,
     ev_content = ascii t, ev_span = None, ev_full_text = None, ev_fact_hints = [], ev_memory_id = Some (ascii i),
     ev_version_id = None, ev_note_id = None, ev_source_note_ids = [ascii (CHR ''n'' # i)], ev_event_time = None,
     ev_observed_at = None, ev_recorded_at = None, ev_task_status = None, ev_preference_details = [],
     ev_task_card = None, ev_channels = [], ev_role = CurrentCandidate\<rparr>"

definition demo_bundle :: "string \<Rightarrow> string \<Rightarrow> string \<Rightarrow> evidence_bundle" where
  "demo_bundle u e t = \<lparr>bd_unit_id = ascii u, bd_evidence = [demo_evidence e t], bd_facts = [], bd_summary = None,
     bd_resolution = \<lparr>ur_status = Resolved, ur_value = Some (ascii t), ur_reason = ''direct'', ur_selected = [ascii e],
       ur_conflicting = []\<rparr>\<rparr>"

definition demo_bundles :: "evidence_bundle list" where
  "demo_bundles = [demo_bundle ''a'' ''e1'' ''two cats'', demo_bundle ''b'' ''e2'' ''lives in ulm'']"

definition demo_fact :: "string \<Rightarrow> string \<Rightarrow> string \<Rightarrow> py_value \<Rightarrow> py_value" where
  "demo_fact u e q n = PyDict [(''u'', PyText (ascii u)), (''e'', PyText (ascii e)), (''quote'', PyText (ascii q)), (''n'', n)]"

definition demo_facts :: py_value where
  "demo_facts = PyDict [(''facts'', PyList [demo_fact ''a'' ''e1'' ''two  cats'' PyNone, demo_fact ''a'' ''e1'' ''nine dogs'' PyNone,
     demo_fact ''a'' ''e1'' ''two cats'' (PyNumber (ascii ''2'') False), demo_fact ''b'' ''e1'' ''cats'' PyNone])]"

lemma facts_grounded_witness:
  "(case resolve_evidence_facts demo_env (Some demo_facts) (demo_answer []) demo_bundles of
      (R, bs') \<Rightarrow> fr_accepted R = 2 \<and> fr_reasons R = [(''quote_not_grounded'', 1), (''quantity_not_grounded'', 1)] \<and>
        fr_accepted R + fr_rejected R \<le> 32 \<and> map (map ef_evidence_id \<circ> bd_facts) bs' = [[ascii ''e1''], [ascii ''e1'']])"
proof -
  have "case resolve_evidence_facts demo_env (Some demo_facts) (demo_answer []) demo_bundles of
      (R, bs') \<Rightarrow> fr_accepted R = 2 \<and> fr_reasons R = [(''quote_not_grounded'', 1), (''quantity_not_grounded'', 1)] \<and>
        map (map ef_evidence_id \<circ> bd_facts) bs' = [[ascii ''e1''], [ascii ''e1'']]" by code_simp
  then show ?thesis
    using facts_grounded [of demo_env "Some demo_facts" "demo_answer []" demo_bundles] by (auto split: prod.splits)
qed

subsection \<open>Claims\<close>

lemma evidence_by_unit_Some:
  assumes "evidence_by_unit bs uid = Some m"
  obtains b where "b \<in> set bs" "bd_unit_id b = uid" "ran m \<subseteq> set (bd_evidence b)"
proof -
  from map_of_SomeD [OF assms [unfolded evidence_by_unit_def]]
  obtain b where b: "b \<in> set bs" "bd_unit_id b = uid" "m = map_of (rev (map (\<lambda>e. (ev_id e, e)) (bd_evidence b)))"
    by auto
  have "ran m \<subseteq> set (bd_evidence b)" unfolding b(3) by (auto simp: ran_def dest!: map_of_SomeD)
  with b that show thesis by blast
qed

text \<open>The items of evidence a claim may name\<close>

definition backed_by :: "evidence_item set \<Rightarrow> answer_claim \<Rightarrow> bool" where
  "backed_by M c \<longleftrightarrow> (\<forall>i \<in> set (cl_memory_ids c). \<exists>e \<in> M. ev_memory_id e = Some i) \<and>
     (\<forall>i \<in> set (cl_version_ids c). \<exists>e \<in> M. ev_version_id e = Some i) \<and>
     (\<forall>i \<in> set (cl_source_ids c). \<exists>e \<in> M. i \<in> set (ev_source_note_ids e)) \<and>
     (cl_history c \<longrightarrow> (\<exists>e \<in> M. ev_role e = Historical))"

lemma add_new_set [simp]: "set (add_new x xs) = insert x (set xs)"
  by (auto simp: add_new_def)

lemma fold_add_new_set [simp]: "set (fold add_new xs ys) = set xs \<union> set ys"
  by (induction xs arbitrary: ys) auto

lemma present_Some: "present t \<Longrightarrow> t = Some (or_empty t)"
  by (auto simp: present_def or_empty_def)

lemma cite_evidence_backed: "e \<in> M \<Longrightarrow> backed_by M c \<Longrightarrow> backed_by M (cite_evidence e c)"
  using present_Some [of "ev_memory_id e"] present_Some [of "ev_version_id e"]
  by (auto simp: backed_by_def cite_evidence_def)

lemma cite_ids_backed:
  assumes "E uid = Some m" "backed_by (ran m) c"
  shows "backed_by (ran m) (cite_ids E uid ids c)"
  unfolding cite_ids_def
  by (rule fold_invariant [where Q = "\<lambda>_. True"])
    (auto simp: assms split: option.split intro: cite_evidence_backed ranI)

lemma cite_ids_text [simp]: "cl_text (cite_ids E uid ids c) = cl_text c"
  unfolding cite_ids_def
  by (rule fold_invariant [where Q = "\<lambda>_. True" and P = "\<lambda>d. cl_text d = cl_text c"])
    (auto simp: cite_evidence_def split: option.split)

text \<open>What the table of claims keeps, for the answers of the units by identifier\<close>

definition claim_row ::
  "('r, 'z) answer_env_scheme \<Rightarrow> unit_evidence \<Rightarrow> (ptext \<times> ptext) set \<Rightarrow> (ptext \<times> ptext) \<times> answer_claim \<Rightarrow> bool" where
  "claim_row A E said row \<longleftrightarrow> (case row of ((uid, idn), c) \<Rightarrow> idn \<noteq> [] \<and> claim_identity A (cl_text c) = idn \<and>
     (\<exists>m answer. E uid = Some m \<and> backed_by (ran m) c \<and> (uid, answer) \<in> said \<and> occurs idn (claim_identity A answer)))"

definition said_claim ::
  "('r, 'z) answer_env_scheme \<Rightarrow> unit_evidence \<Rightarrow> (ptext \<times> ptext) set \<Rightarrow> ptext \<times> cited_claim \<Rightarrow> bool" where
  "said_claim A E said x \<longleftrightarrow> (case x of (uid, t, ids) \<Rightarrow> strip_text t = t \<and> E uid \<noteq> None \<and>
     (\<exists>answer. (uid, answer) \<in> said \<and> occurs (claim_identity A t) (claim_identity A answer)))"

lemma add_claim_row:
  assumes "said_claim A E said x" "list_all (claim_row A E said) T"
  shows "list_all (claim_row A E said) (add_claim A E x T)"
proof -
  obtain uid t ids where x: "x = (uid, t, ids)" by (cases x) auto
  let ?i = "claim_identity A t"
  from assms(1) obtain m answer where a: "strip_text t = t" "E uid = Some m" "(uid, answer) \<in> said"
      "occurs ?i (claim_identity A answer)"
    by (auto simp: said_claim_def x)
  show ?thesis
  proof (cases "?i = []")
    case True
    with assms(2) show ?thesis by (simp add: add_claim_def x)
  next
    case False
    define c0 where "c0 = (case map_of T (uid, ?i) of Some c \<Rightarrow> c
      | None \<Rightarrow> \<lparr>cl_text = strip_text t, cl_memory_ids = [], cl_version_ids = [], cl_source_ids = [], cl_history = False\<rparr>)"
    have "claim_identity A (cl_text c0) = ?i \<and> backed_by (ran m) c0"
    proof (cases "map_of T (uid, ?i)")
      case None
      then show ?thesis by (simp add: c0_def a backed_by_def)
    next
      case (Some c)
      with assms(2) have "claim_row A E said ((uid, ?i), c)" by (auto simp: list_all_iff dest: map_of_SomeD)
      with Some a(2) show ?thesis by (auto simp: c0_def claim_row_def)
    qed
    with a False have "claim_row A E said ((uid, ?i), cite_ids E uid ids c0)"
      by (auto simp: claim_row_def cite_ids_backed)
    with assms(2) False show ?thesis
      using update_subset [of "(uid, ?i)" "cite_ids E uid ids c0" T]
      by (auto simp: add_claim_def x c0_def [symmetric] list_all_iff)
  qed
qed

lemma claims_rows:
  assumes "\<forall>(uid, cs) \<in> set accepted. \<forall>c \<in> set cs. said_claim A E said (uid, c)"
    and "c \<in> set (claims_from_answer_units A E accepted)"
  shows "\<exists>key. claim_row A E said (key, c)"
proof -
  have "list_all (claim_row A E said)
    (fold (add_claim A E) (concat (map (\<lambda>(uid, cs). map (\<lambda>c. (uid, c)) cs) accepted)) [])"
    by (rule fold_invariant [where Q = "said_claim A E said"]) (use assms(1) in \<open>auto intro: add_claim_row\<close>)
  moreover from assms(2) obtain row where "row \<in> set (fold (add_claim A E)
      (concat (map (\<lambda>(uid, cs). map (\<lambda>c. (uid, c)) cs) accepted)) [])" "snd row = c"
    unfolding claims_from_answer_units_def set_map by blast
  ultimately have "claim_row A E said (fst row, c)" by (auto simp: list_all_iff)
  then show ?thesis by blast
qed

lemma unit_claims_fit:
  assumes "unit_claims A E uid ids answer raws = Inr cs" "c \<in> set cs"
  shows "claim_fits A E uid ids answer c \<and> strip_text (fst c) = fst c"
  using assms
proof (induction raws arbitrary: cs)
  case (Cons raw raws)
  then show ?case by (auto simp: bind_ev_Inr Let_def split: if_splits)
qed simp

lemma render_unit_said:
  assumes "render_unit A E item = Inr (Some (answer, uid, cs))" and "E (item_unit A item) \<noteq> None"
  shows "uid = item_unit A item \<and> answer = item_answer A item \<and>
    (\<forall>c \<in> set cs. said_claim A E {(item_unit A item, item_answer A item)} (uid, c))"
proof -
  have strip: "strip_text (item_answer A item) = item_answer A item" by (simp add: item_answer_def)
  define K where "K ids = (case py_item item ''claims'' of
      PyList raws \<Rightarrow> unit_claims A E (item_unit A item) ids (item_answer A item) raws | _ \<Rightarrow> Inr [])" for ids
  from assms(1) obtain ids where "(if item_unit A item = [] \<or> item_answer A item = [] then Inr None
     else bind_ev (K ids) (\<lambda>cs. Inr (Some (item_answer A item, item_unit A item,
       if cs = [] then [(item_answer A item, ids)] else cs)))) = Inr (Some (answer, uid, cs))"
    unfolding render_unit_def Let_def K_def bind_ev_Inr [of "cited_ids A item"] by blast
  then obtain cs0 where r: "uid = item_unit A item" "answer = item_answer A item" "K ids = Inr cs0"
      "cs = (if cs0 = [] then [(answer, ids)] else cs0)"
    by (cases "K ids") (auto simp: bind_ev_def split: if_splits)
  have "said_claim A E {(item_unit A item, item_answer A item)} (uid, c)" if "c \<in> set cs" for c
  proof (cases "cs0 = []")
    case True
    with that r strip assms(2) show ?thesis by (simp add: said_claim_def occurs_refl)
  next
    case False
    with that r have "c \<in> set cs0" by simp
    moreover from r(3) this obtain raws where "unit_claims A E (item_unit A item) ids (item_answer A item) raws = Inr cs0"
      by (cases "py_item item ''claims''") (auto simp: K_def)
    ultimately have "claim_fits A E (item_unit A item) ids (item_answer A item) c" "strip_text (fst c) = fst c"
      using unit_claims_fit by blast+
    then show ?thesis using r(1) assms(2) by (cases c) (simp add: said_claim_def claim_fits_def)
  qed
  with r(1,2) show ?thesis by simp
qed

lemma validated_items_props:
  assumes "validated_items A E seen items R = Inr (xs, R')"
  shows "distinct (map (item_unit A) xs) \<and> item_unit A ` set xs \<inter> set seen = {} \<and>
    (\<forall>x \<in> set xs. E (item_unit A x) \<noteq> None \<and> item_unit A x \<noteq> [] \<and> item_answer A x \<noteq> [])"
  using assms
proof (induction items arbitrary: seen R xs R')
  case (Cons item items)
  show ?case
  proof (cases "is_dict item")
    case False
    with Cons show ?thesis by (simp only: validated_items.simps) auto
  next
    case True
    with Cons.prems obtain ids where ids: "cited_ids A item = Inr ids"
        "(case answer_fault A E seen item ids of
          Some reason \<Rightarrow> validated_items A E seen items (count_up reason 1 R)
        | None \<Rightarrow> bind_ev (validated_items A E (item_unit A item # seen) items R) (\<lambda>(xs, R'). Inr (item # xs, R'))) =
          Inr (xs, R')"
      by (auto simp: bind_ev_Inr)
    show ?thesis
    proof (cases "answer_fault A E seen item ids")
      case (Some reason)
      with ids Cons.IH [of seen "count_up reason 1 R" xs R'] show ?thesis by simp
    next
      case None
      with ids obtain ys where ys: "xs = item # ys" "validated_items A E (item_unit A item # seen) items R = Inr (ys, R')"
        by (auto simp: bind_ev_Inr)
      from None have "E (item_unit A item) \<noteq> None" "item_unit A item \<notin> set seen" "item_unit A item \<noteq> []"
          "item_answer A item \<noteq> []"
        by (auto simp: answer_fault_def Let_def split: if_splits)
      with Cons.IH [OF ys(2)] show ?thesis by (auto simp: ys(1))
    qed
  qed
qed simp

definition said_by :: "('r, 'z) answer_env_scheme \<Rightarrow> py_value list \<Rightarrow> (ptext \<times> ptext) set" where
  "said_by A items = (\<lambda>x. (item_unit A x, item_answer A x)) ` set items"

lemma said_claim_mono: "said_claim A E said x \<Longrightarrow> said \<subseteq> said' \<Longrightarrow> said_claim A E said' x"
  by (auto simp: said_claim_def)

lemma rendered_units:
  assumes "list_all2 (\<lambda>x y. render_unit A E x = Inr y) items rs"
    and "\<forall>x \<in> set items. E (item_unit A x) \<noteq> None \<and> item_unit A x \<noteq> [] \<and> item_answer A x \<noteq> []"
  shows "map fst (List.map_filter (\<lambda>r. r) rs) = map (item_answer A) items \<and>
    (\<forall>(uid, cs) \<in> set (map snd (List.map_filter (\<lambda>r. r) rs)). \<forall>c \<in> set cs. said_claim A E (said_by A items) (uid, c))"
  using assms
proof (induction rule: list_all2_induct)
  case Nil
  then show ?case by (simp add: map_filter_simps)
next
  case (Cons x xs y ys)
  then have "y \<noteq> None" by (auto simp: render_unit_def bind_ev_Inr Let_def)
  then obtain answer uid cs where y: "y = Some (answer, uid, cs)" by (cases y) auto
  have mono: "said_by A xs \<subseteq> said_by A (x # xs)" "{(item_unit A x, item_answer A x)} \<subseteq> said_by A (x # xs)"
    by (auto simp: said_by_def)
  have x: "answer = item_answer A x \<and> (\<forall>c \<in> set cs. said_claim A E (said_by A (x # xs)) (uid, c))"
    using render_unit_said [OF Cons.hyps(1) [unfolded y]] Cons.prems said_claim_mono [OF _ mono(2)] by (simp, blast)
  have "\<forall>x \<in> set xs. E (item_unit A x) \<noteq> None \<and> item_unit A x \<noteq> [] \<and> item_answer A x \<noteq> []"
    using Cons.prems by simp
  note xs = Cons.IH [OF this, THEN conjunct1] Cons.IH [OF this, THEN conjunct2]
  from xs(2) have "\<forall>(uid, cs) \<in> set (map snd (List.map_filter (\<lambda>r. r) ys)). \<forall>c \<in> set cs. said_claim A E (said_by A (x # xs)) (uid, c)"
    using said_claim_mono [OF _ mono(1)] by blast
  with x xs(1) show ?case by (simp add: y map_filter_simps)
qed

lemma rendered_contract:
  assumes "render_validated_answer_contract A E items = Inr (answer, claims)"
    and "\<forall>x \<in> set items. E (item_unit A x) \<noteq> None \<and> item_unit A x \<noteq> [] \<and> item_answer A x \<noteq> []"
  shows "answer = join_with [10] (map (item_answer A) items) \<and>
    (\<forall>c \<in> set claims. \<exists>key. claim_row A E (said_by A items) (key, c))"
proof -
  from assms(1) obtain rs where rs: "map_ev (render_unit A E) items = Inr rs"
      "answer = join_with [10] (map fst (List.map_filter (\<lambda>r. r) rs))"
      "claims = claims_from_answer_units A E (map snd (List.map_filter (\<lambda>r. r) rs))"
    by (auto simp: render_validated_answer_contract_def bind_ev_Inr Let_def)
  note u = rendered_units [OF map_ev_Inr [OF rs(1)] assms(2)]
  show ?thesis
  proof (intro conjI ballI)
    show "answer = join_with [10] (map (item_answer A) items)" using u rs(2) by simp
    show "\<exists>key. claim_row A E (said_by A items) (key, c)" if "c \<in> set claims" for c
      using claims_rows [of "map snd (List.map_filter (\<lambda>r. r) rs)" A E "said_by A items" c] u that unfolding rs(3) by blast
  qed
qed

lemma answer_attempts_outcome:
  assumes "answer_attempts A p bs E n R replies = Inr (answer, claims, k)"
  shows "ac_attempts k \<le> n + length replies \<and>
    (claims = [] \<and> ac_status k = ContractFailed \<and> ac_answered k = [] \<or>
     ac_status k \<in> {ContractValid, ContractRepaired} \<and> (\<exists>items. ac_answered k = map (item_unit A) items \<and>
       distinct (ac_answered k) \<and> (\<forall>x \<in> set items. E (item_unit A x) \<noteq> None \<and> item_unit A x \<noteq> [] \<and> item_answer A x \<noteq> []) \<and>
       render_validated_answer_contract A E items = Inr (answer, claims)))"
  using assms
proof (induction replies arbitrary: n R)
  case (Cons rep replies)
  show ?case
  proof (cases rep)
    case (Inl exc)
    with Cons.prems Cons.IH [of "n + 1" "count_up (''provider_'' @ exc) 1 R"] show ?thesis by simp
  next
    case (Inr reply)
    with Cons.prems obtain acc rej where v: "validated_answer_contract_items A E reply = Inr (acc, rej)"
      by (auto simp: bind_ev_Inr)
    show ?thesis
    proof (cases "acc = []")
      case True
      with Cons.prems v Inr Cons.IH [of "n + 1" "fold (\<lambda>(r, k). count_up r k) rej R"]
      show ?thesis by (simp add: bind_ev_def)
    next
      case False
      from v obtain items R0 where "validated_items A E [] items [] = Inr (acc, R0)"
        using False by (cases "py_item reply ''unit_answers''") (auto simp: validated_answer_contract_items_def bind_ev_Inr)
      from validated_items_props [OF this] False Cons.prems v Inr show ?thesis by (cases "n = 0") (auto simp: bind_ev_Inr Let_def)
    qed
  qed
qed auto

text \<open>
  An answer says only what its units' evidence backs, whatever the language model replies. At
  most two calls are made. Every unit answered is one the model was shown, with evidence selected
  for it, and is answered once; claims are exported only with a validated answer. The wording of
  every claim, up to case and punctuation, is part of the answer shown to the user, and the memories,
  versions and notes it names come from the evidence of one of the answered units.
\<close>

lemma claims_grounded:
  assumes "answer_with_claims_detailed A replies p bs = Inr (answer, claims, k)"
    and "casefold_append A"
  shows "ac_attempts k \<le> 2 \<and> distinct (ac_answered k) \<and>
    (claims = [] \<or> ac_status k \<in> {ContractValid, ContractRepaired}) \<and>
    (\<forall>uid \<in> set (ac_answered k). \<exists>b \<in> set bs. bd_unit_id b = uid \<and> answerable b) \<and>
    (\<forall>c \<in> set claims. claim_identity A (cl_text c) \<noteq> [] \<and>
      occurs (claim_identity A (cl_text c)) (claim_identity A answer) \<and>
      (\<exists>b \<in> set bs. answerable b \<and> bd_unit_id b \<in> set (ac_answered k) \<and> backed_by (set (bd_evidence b)) c))"
proof -
  let ?E = "evidence_by_unit (filter answerable bs)"
  have owner: "\<exists>b \<in> set bs. bd_unit_id b = uid \<and> answerable b \<and> ran m \<subseteq> set (bd_evidence b)" if "?E uid = Some m" for uid m
    using evidence_by_unit_Some [OF that] by auto
  have mono: "backed_by M c \<Longrightarrow> M \<subseteq> N \<Longrightarrow> backed_by N c" for M N c by (fastforce simp: backed_by_def)
  consider (skipped) "claims = []" "ac_attempts k = 0" "ac_answered k = []"
    | (asked) "answer_attempts A p bs ?E 0 [] [fst replies, snd replies] = Inr (answer, claims, k)"
    using assms(1) by (auto simp: answer_with_claims_detailed_def Let_def split: if_splits)
  then show ?thesis
  proof cases
    case skipped
    then show ?thesis by simp
  next
    case asked
    note o = answer_attempts_outcome [OF asked]
    show ?thesis
    proof (cases "claims = [] \<and> ac_answered k = []")
      case True
      with o show ?thesis by auto
    next
      case False
      with o obtain items where i: "ac_status k \<in> {ContractValid, ContractRepaired}" "ac_answered k = map (item_unit A) items"
          "distinct (ac_answered k)" "\<forall>x \<in> set items. ?E (item_unit A x) \<noteq> None \<and> item_unit A x \<noteq> [] \<and> item_answer A x \<noteq> []"
          "render_validated_answer_contract A ?E items = Inr (answer, claims)" by blast
      note r = rendered_contract [OF i(5,4)]
      have u: "\<exists>b \<in> set bs. bd_unit_id b = uid \<and> answerable b" if "uid \<in> set (ac_answered k)" for uid
        using that i(2,4) owner by (auto simp: image_iff) blast
      have c: "claim_identity A (cl_text c) \<noteq> [] \<and> occurs (claim_identity A (cl_text c)) (claim_identity A answer) \<and>
          (\<exists>b \<in> set bs. answerable b \<and> bd_unit_id b \<in> set (ac_answered k) \<and> backed_by (set (bd_evidence b)) c)"
        if "c \<in> set claims" for c
      proof -
        from r that obtain uid m ans where t: "claim_identity A (cl_text c) \<noteq> []" "?E uid = Some m" "backed_by (ran m) c"
            "(uid, ans) \<in> said_by A items" "occurs (claim_identity A (cl_text c)) (claim_identity A ans)"
          by (fastforce simp: claim_row_def)
        from t(4) have "ans \<in> set (map (item_answer A) items)" "uid \<in> set (ac_answered k)"
          by (auto simp: said_by_def i(2))
        moreover from this have "occurs (claim_identity A ans) (claim_identity A answer)"
          using identity_part [OF assms(2)] r by metis
        ultimately show ?thesis using t owner [OF t(2)] mono occurs_trans by metis
      qed
      show ?thesis using o i(1,3) u c by auto
    qed
  qed
qed

text \<open>
  The first call fails. The second answers the first unit with a claim of its own and one nobody
  said, and the second unit with evidence of the first.
\<close>

definition demo_unit_answer :: "string \<Rightarrow> string \<Rightarrow> py_value \<Rightarrow> (string \<times> py_value) list \<Rightarrow> py_value" where
  "demo_unit_answer u t ids rest =
     PyDict ([(''unit_id'', PyText (ascii u)), (''answer'', PyText (ascii t)), (''evidence_ids'', ids)] @ rest)"

definition demo_claims :: py_value where
  "demo_claims = PyList (map (\<lambda>t. PyDict [(''text'', PyText (ascii t)), (''evidence_ids'', PyList [PyText (ascii ''e1'')])])
     [''two  cats'', ''nine dogs''])"

definition demo_reply :: "py_value \<Rightarrow> py_value" where
  "demo_reply ids = PyDict [(''unit_answers'', PyList [
     demo_unit_answer ''a'' '' you have two cats '' ids [(''claims'', demo_claims)],
     demo_unit_answer ''b'' ''ulm'' ids []])]"

lemma claims_grounded_example:
  "(case answer_with_claims_detailed demo_env (Inl ''TimeoutError'', Inr (demo_reply (PyList [PyText (ascii ''e1'')])))
       (demo_answer []) demo_bundles of
      Inl e \<Rightarrow> False
    | Inr (answer, claims, k) \<Rightarrow> answer = ascii ''you have two cats'' \<and> map cl_text claims = [ascii ''two  cats''] \<and>
        map cl_source_ids claims = [[ascii ''ne1'']] \<and> ac_status k = ContractRepaired \<and>
        ac_reasons k = [(''provider_TimeoutError'', 1), (''evidence_id_not_allowed'', 1)] \<and> ac_attempts k \<le> 2)"
proof -
  have e: "case answer_with_claims_detailed demo_env (Inl ''TimeoutError'', Inr (demo_reply (PyList [PyText (ascii ''e1'')])))
       (demo_answer []) demo_bundles of
      Inl e \<Rightarrow> False
    | Inr (answer, claims, k) \<Rightarrow> answer = ascii ''you have two cats'' \<and> map cl_text claims = [ascii ''two  cats''] \<and>
        map cl_source_ids claims = [[ascii ''ne1'']] \<and> ac_status k = ContractRepaired \<and>
        ac_reasons k = [(''provider_TimeoutError'', 1), (''evidence_id_not_allowed'', 1)]" by code_simp
  have "casefold_append demo_env" by (simp add: casefold_append_def demo_env_def demo_ask_def ask_env.defs answer_env.defs)
  then show ?thesis
    using e claims_grounded [of demo_env "(Inl ''TimeoutError'', Inr (demo_reply (PyList [PyText (ascii ''e1'')])))"
      "demo_answer []" demo_bundles]
    by (auto split: sum.splits prod.splits)
qed

text \<open>A number where the contract asks for a list is not a rejection but an exception.\<close>

lemma number_as_ids_raises:
  "answer_with_claims_detailed demo_env (Inr (demo_reply (PyNumber (ascii ''1'') False)), r) (demo_answer []) demo_bundles =
     Inl NotIterable"
proof -
  have "validated_answer_contract_items demo_env E (demo_reply (PyNumber (ascii ''1'') False)) = Inl NotIterable" for E
    by (simp add: demo_reply_def demo_unit_answer_def validated_answer_contract_items_def cited_ids_def bind_ev_def)
  moreover have "filter answerable demo_bundles \<noteq> []" "plan_answer_mode (demo_answer []) \<noteq> AnswerTimeline"
      "\<forall>u \<in> set (plan_units (demo_answer [])). unit_intent u \<noteq> MemoryHistory"
    by (simp_all add: demo_bundles_def demo_bundle_def answerable_def demo_answer_def demo_unit_def)
  ultimately show ?thesis by (auto simp: answer_with_claims_detailed_def Let_def bind_ev_def)
qed

subsection \<open>The variant without repair\<close>

lemma fitting_items_validated:
  "fitting_items A E seen items = bind_ev (validated_items A E seen items R) (\<lambda>(xs, R'). Inr xs)"
proof (induction items arbitrary: seen R)
  case (Cons item items)
  show ?case
  proof (cases "cited_ids A item")
    case (Inl e)
    with Cons [of seen "count_up ''unit_answer_not_object'' 1 R"] show ?thesis by (simp add: bind_ev_def)
  next
    case (Inr ids)
    show ?thesis
    proof (cases "answer_fault A E seen item ids")
      case None
      then have "\<not> (item_unit A item = [] \<or> item_unit A item \<in> set seen \<or> E (item_unit A item) = None \<or> ids = [] \<or>
          \<not> all_known E (item_unit A item) ids \<or> item_answer A item = [])"
        by (auto simp: answer_fault_def Let_def split: if_splits)
      with None Inr Cons [of "item_unit A item # seen" R] Cons [of seen "count_up ''unit_answer_not_object'' 1 R"]
      show ?thesis by (auto simp: bind_ev_def Let_def split: sum.splits prod.splits)
    next
      case (Some reason)
      then have "item_unit A item = [] \<or> item_unit A item \<in> set seen \<or> E (item_unit A item) = None \<or> ids = [] \<or>
          \<not> all_known E (item_unit A item) ids \<or> item_answer A item = []"
        by (auto simp: answer_fault_def Let_def split: if_splits)
      with Some Inr Cons [of seen "count_up reason 1 R"] Cons [of seen "count_up ''unit_answer_not_object'' 1 R"]
      show ?thesis by (auto simp: bind_ev_def Let_def)
    qed
  qed
qed (simp add: bind_ev_def)

text \<open>Whenever the first reply passes the contract, both variants answer alike.\<close>

lemma variants_agree:
  assumes "answer_with_claims_detailed A (Inr reply, r) p bs = Inr (answer, claims, k)" "ac_status k = ContractValid"
  shows "answer_with_claims A (Inr reply) p bs = (answer, claims)"
proof -
  let ?E = "evidence_by_unit (filter answerable bs)"
  from assms have g: "\<not> (plan_answer_mode p = AnswerTimeline \<or> (\<exists>u \<in> set (plan_units p). unit_intent u = MemoryHistory))"
      "filter answerable bs \<noteq> []"
      and a: "answer_attempts A p bs ?E 0 [] [Inr reply, r] = Inr (answer, claims, k)"
    by (auto simp: answer_with_claims_detailed_def Let_def split: if_splits)
  from a obtain acc rej where v: "validated_answer_contract_items A ?E reply = Inr (acc, rej)" by (auto simp: bind_ev_Inr)
  have ne: "acc \<noteq> []"
  proof
    assume "acc = []"
    with a v obtain R where "answer_attempts A p bs ?E 1 R [r] = Inr (answer, claims, k)" by (auto simp: bind_ev_def)
    with assms(2) show False by (cases r) (auto simp: bind_ev_Inr Let_def split: if_splits)
  qed
  with a v have r: "render_validated_answer_contract A ?E acc = Inr (answer, claims)" by (auto simp: bind_ev_Inr)
  from v ne obtain items R where i: "py_item reply ''unit_answers'' = PyList items"
      "validated_items A ?E [] items [] = Inr (acc, R)"
    by (cases "py_item reply ''unit_answers''") (auto simp: validated_answer_contract_items_def bind_ev_Inr)
  then have "fitting_items A ?E [] items = Inr acc" using fitting_items_validated [of A ?E "[]" items "[]"] by (simp add: bind_ev_def)
  with g i(1) r ne show ?thesis by (simp add: answer_with_claims_def Let_def bind_ev_def)
qed

end
