(* ===== verification/Execution_Guarantees.thy ===== *)
theory Execution_Guarantees
  imports Ask_Execution Answer_Guarantees
begin

text \<open>
  What the execution of a plan promises for every schedule of its threads: the units run in the order
  of their dependencies and each leaves one bundle; a record that is too long ends the whole question.
\<close>

subsection \<open>One unit\<close>

lemma make_bundle_Inr: "make_bundle uid evs r = Inr b \<Longrightarrow> bd_unit_id b = uid \<and> bd_evidence b = evs \<and> bd_resolution b = r \<and>
    short 1000 (ur_value r)"
  by (auto simp: make_bundle_def make_resolution_def bind_ev_def split: if_splits)

lemma resolve_unit_id: "resolve_unit A u records tool = Inr b \<Longrightarrow> bd_unit_id b = unit_id u"
  by (auto simp: resolve_unit_def bind_ev_Inr Let_def dest: make_bundle_Inr split: if_splits)

text \<open>How a bundle of an execution came about\<close>

definition unit_result ::
  "('r, 'z) exec_env_scheme \<Rightarrow> (query_unit \<Rightarrow> tool_result) \<Rightarrow> execution \<Rightarrow> query_unit \<Rightarrow> evidence_bundle \<Rightarrow> bool" where
  "unit_result A outcome X u b \<longleftrightarrow>
     (case result_of (outcome u) of (tool, records) \<Rightarrow> resolve_unit A u records tool = Inr b) \<or>
     b = bare_bundle (unit_id u) Partial ''executor_timeout'' \<and> unit_id u \<in> set (ex_timed_out X)"

definition resolvable :: "('r, 'z) exec_env_scheme \<Rightarrow> (query_unit \<Rightarrow> tool_result) \<Rightarrow> query_unit \<Rightarrow> bool" where
  "resolvable A outcome u \<longleftrightarrow>
     (case result_of (outcome u) of (tool, records) \<Rightarrow> \<not> isl (resolve_unit A u records tool))"

text \<open>The dependencies of a unit come before it.\<close>

definition after_dependencies :: "ptext list \<Rightarrow> query_unit \<Rightarrow> bool" where
  "after_dependencies ids u \<longleftrightarrow> (\<exists>xs ys. ids = xs @ unit_id u # ys \<and> set (depends_on u) \<subseteq> set xs)"

definition exec_ok ::
  "('r, 'z) exec_env_scheme \<Rightarrow> (query_unit \<Rightarrow> tool_result) \<Rightarrow> ask_plan \<Rightarrow> execution \<times> ptext list \<Rightarrow> bool" where
  "exec_ok A outcome p S \<longleftrightarrow> distinct (snd S) \<and> set (snd S) \<subseteq> unit_id ` set (plan_units p) \<and>
     map fst (ex_records (fst S)) = rev (snd S) \<and> map bd_unit_id (ex_bundles (fst S)) = rev (snd S) \<and>
     (\<forall>u \<in> set (plan_units p). unit_id u \<in> set (snd S) \<longrightarrow> after_dependencies (rev (snd S)) u) \<and>
     (\<forall>b \<in> set (ex_bundles (fst S)). \<exists>u \<in> set (plan_units p). bd_unit_id b = unit_id u \<and> unit_result A outcome (fst S) u b)"

lemma update_new: "k \<notin> set (map fst al) \<Longrightarrow> AList.update k v al = al @ [(k, v)]"
  by (induction al) auto

lemma after_dependencies_snoc: "after_dependencies ids u \<Longrightarrow> after_dependencies (ids @ [i]) u"
  unfolding after_dependencies_def by (metis append.assoc append_Cons)

lemma exec_ok_add:
  assumes "exec_ok A outcome p (X, c)" "u \<in> set (plan_units p)" "distinct (map unit_id (plan_units p))"
    and "unit_id u \<notin> set c" "set (depends_on u) \<subseteq> set c"
    and "ex_bundles Y = ex_bundles X @ [b]" "ex_records Y = AList.update (unit_id u) rs (ex_records X)"
    and "set (ex_timed_out X) \<subseteq> set (ex_timed_out Y)" "bd_unit_id b = unit_id u" "unit_result A outcome Y u b"
  shows "exec_ok A outcome p (Y, unit_id u # c)"
proof -
  note x = assms(1) [unfolded exec_ok_def fst_conv snd_conv]
  have "map fst (ex_records Y) = rev (unit_id u # c)"
    using x assms(4) by (simp add: assms(7) update_new)
  moreover have "after_dependencies (rev (unit_id u # c)) v"
    if "v \<in> set (plan_units p)" "unit_id v \<in> set (unit_id u # c)" for v
  proof (cases "unit_id v = unit_id u")
    case True
    with that(1) assms(2,3) have "v = u" by (auto simp: distinct_map dest: inj_onD)
    with assms(5) show ?thesis unfolding after_dependencies_def by (intro exI [of _ "rev c"] exI [of _ "[]"]) simp
  next
    case False
    with that x show ?thesis by (simp add: after_dependencies_snoc)
  qed
  moreover have "\<exists>v \<in> set (plan_units p). bd_unit_id b' = unit_id v \<and> unit_result A outcome Y v b'"
    if "b' \<in> set (ex_bundles Y)" for b'
  proof (cases "b' \<in> set (ex_bundles X)")
    case True
    with x obtain v where "v \<in> set (plan_units p)" "bd_unit_id b' = unit_id v" "unit_result A outcome X v b'" by blast
    moreover from this(3) have "unit_result A outcome Y v b'" using assms(8) by (auto simp: unit_result_def)
    ultimately show ?thesis by blast
  next
    case False
    with that assms(2,6,9,10) show ?thesis by auto
  qed
  ultimately show ?thesis
    using x assms(2,4,6,9) unfolding exec_ok_def fst_conv snd_conv by simp
qed

lemma consume_ok:
  assumes "exec_ok A outcome p S" "u \<in> set (plan_units p)" "distinct (map unit_id (plan_units p))"
    and "unit_id u \<notin> set (snd S)" "set (depends_on u) \<subseteq> set (snd S)" "resolvable A outcome u"
  shows "\<exists>T. consume A u (outcome u) S = Inr T \<and> exec_ok A outcome p T \<and> snd T = unit_id u # snd S"
proof -
  obtain X c where S: "S = (X, c)" by (cases S) auto
  obtain tool records where r: "result_of (outcome u) = (tool, records)" by (metis surj_pair)
  from assms(6) obtain b where b: "resolve_unit A u records tool = Inr b" 
    by (cases "resolve_unit A u records tool") (auto simp: resolvable_def r)
  define T where "T = the (Some (projr (consume A u (outcome u) S)))"
  have T: "consume A u (outcome u) S = Inr T" "snd T = unit_id u # c"
      "ex_bundles (fst T) = ex_bundles X @ [b]" "ex_records (fst T) = AList.update (unit_id u) records (ex_records X)"
      "ex_timed_out (fst T) = ex_timed_out X"
    using b r by (auto simp: T_def consume_def S bind_ev_def Let_def)
  have "exec_ok A outcome p (fst T, unit_id u # c)"
    using assms T b resolve_unit_id [OF b] by (intro exec_ok_add) (auto simp: S unit_result_def r)
  with T show ?thesis by (metis S prod.collapse snd_conv)
qed

lemma time_out_ok:
  assumes "exec_ok A outcome p S" "u \<in> set (plan_units p)" "distinct (map unit_id (plan_units p))"
    and "unit_id u \<notin> set (snd S)" "set (depends_on u) \<subseteq> set (snd S)"
  shows "exec_ok A outcome p (time_out u S)"
proof -
  obtain X c where S: "S = (X, c)" by (cases S) auto
  show ?thesis unfolding S time_out_def prod.case
    by (rule exec_ok_add [where X = X]) (use assms in \<open>auto simp: S unit_result_def bare_bundle_def\<close>)
qed

subsection \<open>Rounds\<close>

lemma fold_positions_ok:
  assumes "\<And>i S. f i S = consume A (ready ! i) (outcome (ready ! i)) S \<or> f i S = Inr (time_out (ready ! i) S)"
    and "distinct (map unit_id (plan_units p))" "distinct (map unit_id ready)" "set ready \<subseteq> set (plan_units p)"
    and "\<forall>u \<in> set ready. resolvable A outcome u"
    and "exec_ok A outcome p S" "distinct is" "\<forall>i \<in> set is. i < length ready \<and> unit_id (ready ! i) \<notin> set (snd S)"
    and "\<forall>u \<in> set ready. set (depends_on u) \<subseteq> set (snd S)"
  shows "\<exists>T. fold_ev f is S = Inr T \<and> exec_ok A outcome p T \<and> snd T = rev (map (\<lambda>i. unit_id (ready ! i)) is) @ snd S"
  using assms(6-9)
proof (induction "is" arbitrary: S)
  case (Cons i "is")
  let ?u = "ready ! i"
  have u: "?u \<in> set ready" "unit_id ?u \<notin> set (snd S)" "set (depends_on ?u) \<subseteq> set (snd S)" using Cons.prems by auto
  with assms(4,5) have u': "?u \<in> set (plan_units p)" "resolvable A outcome ?u" by auto
  obtain M where M: "f i S = Inr M" "exec_ok A outcome p M" "snd M = unit_id ?u # snd S"
    using consume_ok [OF Cons.prems(1) u'(1) assms(2) u(2,3) u'(2)] time_out_ok [OF Cons.prems(1) u'(1) assms(2) u(2,3)]
      assms(1) [of i S] time_out_completed by metis
  have "unit_id (ready ! j) \<noteq> unit_id ?u" if "j \<in> set is" for j
  proof -
    have "j \<noteq> i" "j < length ready" "i < length ready" using that Cons.prems(2,3) by auto
    then show ?thesis using nth_eq_iff_index_eq [OF assms(3)] by auto
  qed
  then have "\<forall>j \<in> set is. j < length ready \<and> unit_id (ready ! j) \<notin> set (snd M)" using Cons.prems(3) by (simp add: M(3))
  moreover have "\<forall>u \<in> set ready. set (depends_on u) \<subseteq> set (snd M)" using Cons.prems(4) by (auto simp: M(3))
  ultimately obtain T where "fold_ev f is M = Inr T" "exec_ok A outcome p T"
      "snd T = rev (map (\<lambda>i. unit_id (ready ! i)) is) @ snd M"
    using Cons.IH [OF M(2)] Cons.prems(2) by auto
  then show ?case by (simp add: M bind_ev_def)
qed simp

lemma distinct_map_nth:
  "distinct (map f xs) \<Longrightarrow> i < length xs \<Longrightarrow> j < length xs \<Longrightarrow> f (xs ! i) = f (xs ! j) \<Longrightarrow> i = j"
  by (metis length_map nth_eq_iff_index_eq nth_map)

lemma ready_props:
  assumes "distinct (map unit_id (plan_units p))"
  shows "distinct (map unit_id (ready_units p c))" "set (ready_units p c) \<subseteq> set (plan_units p)"
    "\<forall>u \<in> set (ready_units p c). unit_id u \<notin> set c \<and> set (depends_on u) \<subseteq> set c"
  using assms by (auto simp: ready_units_def distinct_map distinct_filter inj_on_def)

lemma run_round_ok:
  assumes "exec_ok A outcome p S" "distinct (map unit_id (plan_units p))" "\<forall>u \<in> set (plan_units p). resolvable A outcome u"
  shows "\<exists>T. run_round A outcome (ready_units p (snd S)) r S = Inr T \<and> exec_ok A outcome p T"
proof -
  let ?R = "ready_units p (snd S)"
  let ?arrived = "dict_keys (filter (\<lambda>i. i < length ?R) (rd_arrived r))"
  let ?others = "filter (\<lambda>i. i \<notin> set ?arrived) [0..<length ?R]"
  note R = ready_props [OF assms(2), of "snd S"]
  have res: "\<forall>u \<in> set ?R. resolvable A outcome u" using assms(3) R(2) by blast
  have pos: "distinct ?arrived" "\<forall>i \<in> set ?arrived. i < length ?R \<and> unit_id (?R ! i) \<notin> set (snd S)"
    using R(3) by (auto simp: dict_keys_def)
  obtain M where M: "fold_ev (\<lambda>i. consume A (?R ! i) (outcome (?R ! i))) ?arrived S = Inr M" "exec_ok A outcome p M"
      "snd M = rev (map (\<lambda>i. unit_id (?R ! i)) ?arrived) @ snd S"
    using fold_positions_ok [OF _ assms(2) R(1,2) res assms(1) pos, of "\<lambda>i. consume A (?R ! i) (outcome (?R ! i))"] R(3) by auto
  have pos': "\<forall>i \<in> set ?others. i < length ?R \<and> unit_id (?R ! i) \<notin> set (snd M)"
  proof (intro ballI conjI)
    fix i assume i: "i \<in> set ?others"
    then show l: "i < length ?R" by simp
    have "unit_id (?R ! i) \<noteq> unit_id (?R ! j)" if "j \<in> set ?arrived" for j
    proof
      assume "unit_id (?R ! i) = unit_id (?R ! j)"
      moreover have "j < length ?R" using pos(2) that by blast
      ultimately have "i = j" using distinct_map_nth [OF R(1) l] by blast
      with i that show False by simp
    qed
    moreover have "unit_id (?R ! i) \<notin> set (snd S)" using R(3) nth_mem [OF l] by blast
    ultimately show "unit_id (?R ! i) \<notin> set (snd M)" unfolding M(3) by auto
  qed
  define g where "g = (\<lambda>i S. if i \<in> set (rd_late r) then consume A (?R ! i) (outcome (?R ! i)) S
         else Inr (time_out (?R ! i) S))"
  have step: "g i S = consume A (?R ! i) (outcome (?R ! i)) S \<or> g i S = Inr (time_out (?R ! i) S)" for i S
    by (simp add: g_def)
  have deps: "\<forall>u \<in> set ?R. set (depends_on u) \<subseteq> set (snd M)" using R(3) by (auto simp: M(3))
  have "distinct ?others" by simp
  from fold_positions_ok [OF step assms(2) R(1,2) res M(2) this pos' deps]
  obtain T where "fold_ev g ?others M = Inr T" "exec_ok A outcome p T" by blast
  with M(1) show ?thesis unfolding run_round_def Let_def g_def by (simp add: bind_ev_def)
qed

lemma some_unit_ready:
  assumes "distinct (map unit_id (plan_units p))" "acyclic (unit_dependency (plan_units p))"
    and "\<forall>u \<in> set (plan_units p). set (depends_on u) \<subseteq> unit_id ` set (plan_units p)"
    and "u0 \<in> set (plan_units p)" "unit_id u0 \<notin> set c"
  shows "ready_units p c \<noteq> []"
proof -
  let ?us = "plan_units p" let ?W = "unit_id ` set ?us - set c"
  have "finite (unit_dependency ?us)"
    by (rule finite_subset [of _ "unit_id ` set ?us \<times> unit_id ` set ?us"]) (auto simp: unit_dependency_def)
  from finite_acyclic_wf_converse [OF this assms(2)] have "wf ((unit_dependency ?us)\<inverse>)" .
  moreover have "unit_id u0 \<in> ?W" using assms(4,5) by simp
  ultimately obtain z where z: "z \<in> ?W" "\<forall>y. (z, y) \<in> unit_dependency ?us \<longrightarrow> y \<notin> ?W"
    unfolding wf_eq_minimal by (metis converseI)
  from z(1) obtain u where u: "u \<in> set ?us" "unit_id u = z" "z \<notin> set c" by auto
  then obtain xs ys where s: "?us = xs @ u # ys" by (meson split_list)
  with assms(1) have "z \<notin> unit_id ` set ys" by (auto simp: u(2) [symmetric])
  then have "(z, d) \<in> unit_dependency ?us" if "d \<in> set (depends_on u)" for d
    using that assms(3) u s unfolding unit_dependency_def by blast
  with z(2) assms(3) u(1) have "set (depends_on u) \<subseteq> set c" by blast
  with u have "u \<in> set (ready_units p c)" by (simp add: ready_units_def)
  then show ?thesis by auto
qed

lemma execute_rounds_ok:
  assumes "distinct (map unit_id (plan_units p))" "acyclic (unit_dependency (plan_units p))"
    and "\<forall>u \<in> set (plan_units p). set (depends_on u) \<subseteq> unit_id ` set (plan_units p)"
    and "\<forall>u \<in> set (plan_units p). resolvable A outcome u"
    and "exec_ok A outcome p S"
  shows "\<exists>X c. execute_rounds A outcome sched p n S = Inr X \<and> exec_ok A outcome p (X, c) \<and> set c = unit_id ` set (plan_units p)"
  using assms
proof (induction A outcome sched p n S rule: execute_rounds.induct)
  case (1 A outcome sched p n S)
  note step = execute_rounds.simps [of A outcome sched p n S]
  have sub: "set (snd S) \<subseteq> unit_id ` set (plan_units p)" using "1.prems"(5) by (simp add: exec_ok_def)
  have card: "card (unit_id ` set (plan_units p)) = length (plan_units p)"
    using distinct_card [OF "1.prems"(1)] by simp
  show ?case
  proof (cases "length (plan_units p) \<le> card (set (snd S))")
    case True
    with sub card have "set (snd S) = unit_id ` set (plan_units p)" by (intro card_seteq) auto
    with True "1.prems"(5) show ?thesis unfolding step by (intro exI [of _ "fst S"] exI [of _ "snd S"]) simp
  next
    case False
    have "\<not> unit_id ` set (plan_units p) \<subseteq> set (snd S)"
    proof
      assume "unit_id ` set (plan_units p) \<subseteq> set (snd S)"
      from card_mono [OF _ this] False card show False by simp
    qed
    then obtain u0 where "u0 \<in> set (plan_units p)" "unit_id u0 \<notin> set (snd S)" by auto
    from some_unit_ready [OF "1.prems"(1-3) this] have ready: "ready_units p (snd S) \<noteq> []" .
    obtain T where T: "run_round A outcome (ready_units p (snd S)) (sched n) S = Inr T" "exec_ok A outcome p T"
      using run_round_ok [OF "1.prems"(5,1,4)] by blast
    show ?thesis
      using "1.IH" [OF False ready T(1) "1.prems"(1-4) T(2)] False ready unfolding step by (simp add: T(1))
  qed
qed

lemma unit_order_nth:
  assumes "distinct (map unit_id (plan_units p))" "i < length (plan_units p)"
  shows "unit_order p (map unit_id (plan_units p) ! i) = i"
proof -
  let ?ids = "map unit_id (plan_units p)"
  have "map_of (rev (zip ?ids [0..<length (plan_units p)])) (?ids ! i) = Some i"
  proof (rule map_of_is_SomeI)
    show "distinct (map fst (rev (zip ?ids [0..<length (plan_units p)])))" using assms(1) by (simp add: rev_map [symmetric])
    show "(?ids ! i, i) \<in> set (rev (zip ?ids [0..<length (plan_units p)]))" 
      using assms(2) by (auto simp: set_zip intro!: exI [of _ i])
  qed
  then show ?thesis by (simp add: unit_order_def)
qed

lemma bundles_in_order:
  assumes "distinct (map unit_id (plan_units p))" "distinct (map bd_unit_id bs)"
    and "set (map bd_unit_id bs) = set (map unit_id (plan_units p))"
  shows "map bd_unit_id (sort_key (\<lambda>b. unit_order p (bd_unit_id b)) bs) = map unit_id (plan_units p)"
proof (rule map_sorted_distinct_set_unique [where f = "unit_order p"])
  let ?ids = "map unit_id (plan_units p)" and ?bs = "sort_key (\<lambda>b. unit_order p (bd_unit_id b)) bs"
  have ord: "map (unit_order p) ?ids = [0..<length ?ids]"
    using unit_order_nth [OF assms(1)] by (intro nth_equalityI) simp_all
  have set: "set (map bd_unit_id ?bs) = set ?ids" using assms(3) by simp
  have inj: "inj_on (unit_order p) (set ?ids)" using ord distinct_map [of "unit_order p" ?ids] by simp
  have d: "distinct (map bd_unit_id ?bs)" using distinct_card [OF assms(2)] by (intro card_distinct) simp
  show "inj_on (unit_order p) (set (map bd_unit_id ?bs) \<union> set ?ids)" using inj set by simp
  show "sorted (map (unit_order p) (map bd_unit_id ?bs))" using sorted_sort_key [of "\<lambda>b. unit_order p (bd_unit_id b)" bs] by (simp add: comp_def)
  show "distinct (map (unit_order p) (map bd_unit_id ?bs))" using d inj set by (metis distinct_map)
  show "sorted (map (unit_order p) ?ids)" "distinct (map (unit_order p) ?ids)" unfolding ord by simp_all
  show "set (map bd_unit_id ?bs) = set ?ids" by (rule set)
qed


text \<open>The second unit of the plan is needed by the first, whose tool raises.\<close>

definition demo_exec :: "ask_plan exec_env" where
  "demo_exec = answer_env.extend demo_env (exec_env.fields (\<lambda>t. t) (\<lambda>_ rs. (rs, [])) (\<lambda>_ rs _. rs) (\<lambda>_ _. True) 5)"

definition demo_chain :: ask_plan where
  "demo_chain = \<lparr>original_query = ascii ''x'', plan_context = [],
     plan_units = [demo_unit ''b'' ''my town'' [''a''], demo_unit ''a'' ''my job'' []], plan_answer_mode = AnswerList\<rparr>"

definition demo_record :: "string \<Rightarrow> ptext \<Rightarrow> py_value" where
  "demo_record i t = PyDict [(''id'', PyText (ascii i)), (''memory_type'', PyText (ascii ''semantic'')), (''content'', PyText t)]"

definition demo_outcome :: "ptext \<Rightarrow> query_unit \<Rightarrow> tool_result" where
  "demo_outcome t u = (if unit_id u = ascii ''a'' then ToolReturned ''search'' [demo_record ''m1'' t]
     else ToolRaised ''ValueError'' (ascii ''bad''))"

definition demo_sched :: "nat \<Rightarrow> round" where
  "demo_sched n = \<lparr>rd_arrived = [0], rd_late = []\<rparr>"

lemma demo_chain_acyclic: "acyclic (unit_dependency (plan_units demo_chain))"
proof -
  have "\<not> has_cycle demo_ask (plan_units demo_chain)" by code_simp
  then show ?thesis using has_cycle_iff [OF demo_ask_ok(1)] by blast
qed


subsection \<open>Records that are too long\<close>

definition shown_content :: "('r, 'z) answer_env_scheme \<Rightarrow> py_value \<Rightarrow> ptext" where
  "shown_content A item = take 2400 (first_item_text A item [''content'', ''text'', ''summary'', ''title''])"

lemma make_evidence_Inr: "make_evidence x = Inr e \<Longrightarrow> e = x"
  by (simp add: make_evidence_def split: if_splits)

lemma as_evidence_content: "as_evidence A tool role item = Inr e \<Longrightarrow> ev_content e = shown_content A item"
  unfolding as_evidence_def Let_def bind_ev_Inr
  by (elim exE conjE, drule make_evidence_Inr) (simp only: evidence_item.select_convs shown_content_def)

lemma resolve_too_long:
  assumes "fst (projected A u records) \<noteq> []" "evidence_records A u tool records = item # rest"
    and "1000 < length (shown_content A item)"
  shows "resolve_unit A u records tool \<noteq> Inr b"
proof
  assume r: "resolve_unit A u records tool = Inr b"
  obtain role more where w: "with_roles A u (snd (projected A u records)) [] (item # rest) = (role, item) # more"
    by (simp add: Let_def)
  from r assms(1) obtain evs where m: "map_ev (\<lambda>(role, item). as_evidence A tool role item) ((role, item) # more) = Inr evs"
    and "(let conflicting = map ev_id (filter (\<lambda>e. ev_role e = Conflicting) evs);
            status = (if conflicting \<noteq> [] \<and> (\<forall>e \<in> set evs. ev_role e \<noteq> CurrentCandidate) then Conflict else Resolved);
            shown = (if unit_intent u = NoteLookup then map (\<lambda>e. e\<lparr>ev_role := RawNote\<rparr>) evs else evs)
        in make_bundle (unit_id u) shown
          \<lparr>ur_status = status, ur_value = (case shown of [] \<Rightarrow> None | e # _ \<Rightarrow> Some (ev_content e)),
           ur_reason = (if status = Conflict then ''projection_uncertain'' else ''direct_domain_evidence''),
           ur_selected = map ev_id (filter (\<lambda>e. ev_role e \<noteq> Conflicting) shown), ur_conflicting = conflicting\<rparr>) = Inr b"
    unfolding resolve_unit_def assms(2) w by (simp only: if_False bind_ev_Inr) blast
  from make_bundle_Inr [OF this(2) [unfolded Let_def]]
  have v: "short 1000 (case (if unit_intent u = NoteLookup then map (\<lambda>e. e\<lparr>ev_role := RawNote\<rparr>) evs else evs) of
      [] \<Rightarrow> None | e # _ \<Rightarrow> Some (ev_content e))" by simp
  from m obtain e es where "evs = e # es" "as_evidence A tool role item = Inr e" by (auto simp: bind_ev_Inr)
  with v as_evidence_content [OF this(2)] assms(3) show False by (simp add: short_def split: if_splits)
qed

lemma fold_ev_steps: "fold_ev f xs s = Inr t \<Longrightarrow> x \<in> set xs \<Longrightarrow> \<exists>s t. f x s = Inr t"
  by (induction xs arbitrary: s) (auto simp: bind_ev_Inr)

text \<open>
  One long record ends the whole question: evidence keeps 2400 characters of a record, but the value
  of a resolution may have 1000, so \<open>execute_ask_plan\<close> raises for all units when the first record
  of one of them is longer.
\<close>

lemma long_record_aborts:
  assumes "u \<in> set (plan_units p)" "depends_on u = []" "outcome u = ToolReturned tool records"
    and "i \<in> set (rd_arrived (sched 0))" "i < length (ready_units p [])" "ready_units p [] ! i = u"
    and "fst (projected A u records) \<noteq> []" "evidence_records A u tool records = item # rest"
    and "1000 < length (shown_content A item)"
  shows "\<exists>e. execute_ask_plan A outcome sched p = Inl e"
proof -
  have no: "consume A u (outcome u) S \<noteq> Inr T" for S T
    using resolve_too_long [OF assms(7-9)] by (auto simp: consume_def assms(3) bind_ev_Inr Let_def split: prod.splits)
  have "run_round A outcome (ready_units p []) (sched 0) (no_execution, []) \<noteq> Inr T" for T
  proof
    assume "run_round A outcome (ready_units p []) (sched 0) (no_execution, []) = Inr T"
    then obtain M where "fold_ev (\<lambda>i. consume A (ready_units p [] ! i) (outcome (ready_units p [] ! i)))
        (dict_keys (filter (\<lambda>i. i < length (ready_units p [])) (rd_arrived (sched 0)))) (no_execution, []) = Inr M"
      by (auto simp: run_round_def Let_def bind_ev_Inr)
    from fold_ev_steps [OF this, of i] assms(4-6) no show False by (auto simp: dict_keys_def)
  qed
  then obtain e where e: "run_round A outcome (ready_units p []) (sched 0) (no_execution, []) = Inl e"
    by (cases "run_round A outcome (ready_units p []) (sched 0) (no_execution, [])") auto
  have "ready_units p [] \<noteq> []" "plan_units p \<noteq> []" using assms(1,5) by auto
  then have "execute_rounds A outcome sched p 0 (no_execution, []) = Inl e"
    using e by (simp add: execute_rounds.simps [of A outcome sched p 0])
  then show ?thesis by (simp add: execute_ask_plan_def bind_ev_def)
qed

lemma long_record_example:
  "\<exists>e. execute_ask_plan demo_exec (demo_outcome (replicate 1001 97)) demo_sched demo_chain = Inl e"
proof (rule long_record_aborts [where u = "demo_unit ''a'' ''my job'' []" and i = 0])
  have r: "ready_units demo_chain [] = [demo_unit ''a'' ''my job'' []]" by code_simp
  then show "0 < length (ready_units demo_chain [])" "ready_units demo_chain [] ! 0 = demo_unit ''a'' ''my job'' []" by simp_all
  show "evidence_records demo_exec (demo_unit ''a'' ''my job'' []) ''search'' [demo_record ''m1'' (replicate 1001 97)] =
      demo_record ''m1'' (replicate 1001 97) # []"
    "fst (projected demo_exec (demo_unit ''a'' ''my job'' []) [demo_record ''m1'' (replicate 1001 97)]) \<noteq> []"
    by (simp_all add: evidence_records_def projected_def evidence_limit_def demo_exec_def demo_unit_def
        answer_env.defs exec_env.defs)
  show "1000 < length (shown_content demo_exec (demo_record ''m1'' (replicate 1001 97)))"
    by (simp add: shown_content_def first_item_text_def first_item_def text_or_none_def py_text_def demo_record_def)
qed (simp_all add: demo_chain_def demo_unit_def demo_outcome_def demo_sched_def)

subsection \<open>The answer of a question\<close>

lemma decide_unit_conflict: "snd (snd D) \<Longrightarrow> snd (snd (decide_unit A X x D))"
  by (auto simp: decide_unit_def Let_def split: prod.splits option.splits)

lemma fold_decide_conflict: "snd (snd D) \<Longrightarrow> snd (snd (fold (decide_unit A X) xs D))"
  by (induction xs arbitrary: D) (simp_all add: decide_unit_conflict)

lemma conflict_found:
  assumes "(uid, u) \<in> set xs" "bundle_of (ex_bundles X) uid = Some b" "ur_status (bd_resolution b) = Conflict"
  shows "snd (snd (fold (decide_unit A X) xs D))"
  using assms(1)
proof (induction xs arbitrary: D)
  case (Cons x xs)
  have "snd (snd (decide_unit A X (uid, u) D))" using assms(2,3) by (simp add: decide_unit_def Let_def split: prod.split)
  with Cons show ?case by (cases "x = (uid, u)") (auto simp: fold_decide_conflict)
qed simp

lemma units_by_id_mem:
  fixes u :: query_unit
  shows "u \<in> set us \<Longrightarrow> \<exists>v. (unit_id u, v) \<in> set (fold (\<lambda>u. AList.update (unit_id u) u) us T)"
proof (induction us arbitrary: T)
  case (Cons w us)
  have keys: "fst ` set T \<subseteq> fst ` set (fold (\<lambda>u. AList.update (unit_id u) u) us T)" for T :: "(ptext \<times> query_unit) list"
  proof (induction us arbitrary: T)
    case (Cons v vs)
    have "fst ` set T \<subseteq> fst ` set (AList.update (unit_id v) v T)" by (auto simp: dom_update)
    with Cons [of "AList.update (unit_id v) v T"] show ?case by simp
  qed simp
  show ?case
  proof (cases "u = w")
    case True
    have "unit_id w \<in> fst ` set (AList.update (unit_id w) w T)" by (simp add: dom_update)
    with keys [of "AList.update (unit_id w) w T"]
    have "unit_id w \<in> fst ` set (fold (\<lambda>u. AList.update (unit_id u) u) (w # us) T)" by auto
    with True show ?thesis by (metis (no_types, lifting) imageE prod.collapse)
  next
    case False
    with Cons show ?thesis by simp
  qed
qed simp

lemma history_claims_backed:
  assumes "c \<in> set (history_claims bs t)"
  shows "cl_text c = t \<and> (\<exists>b \<in> set bs. backed_by (set (bd_evidence b)) c)"
proof -
  obtain e where e: "find (\<lambda>e. ev_role e = Historical) (concat (map bd_evidence bs)) = Some e"
    using assms by (cases "find (\<lambda>e. ev_role e = Historical) (concat (map bd_evidence bs))") (auto simp: history_claims_def)
  with assms have c: "cl_text c = t" "cl_memory_ids c = (if present (ev_memory_id e) then [or_empty (ev_memory_id e)] else [])"
      "cl_version_ids c = (if present (ev_version_id e) then [or_empty (ev_version_id e)] else [])"
      "cl_source_ids c = ev_source_note_ids e"
    by (simp_all add: history_claims_def split: if_splits)
  from e have "e \<in> set (concat (map bd_evidence bs))" "ev_role e = Historical" by (metis (mono_tags, lifting) find_Some_iff nth_mem)+
  then obtain b where b: "b \<in> set bs" "e \<in> set (bd_evidence b)" "ev_role e = Historical" by auto
  have "backed_by (set (bd_evidence b)) c"
    using b(2,3) c(2-4) present_Some [of "ev_memory_id e"] present_Some [of "ev_version_id e"] by (auto simp: backed_by_def)
  with b(1) c(1) show ?thesis by blast
qed

lemma identity_infix:
  assumes "casefold_append A"
  shows "occurs (claim_identity A t) (claim_identity A (xs @ t @ ys))"
proof -
  have "claim_identity A (xs @ t @ ys) = claim_identity A xs @ claim_identity A t @ claim_identity A ys"
    using assms by (simp add: claim_identity_def casefold_append_def)
  then show ?thesis by (auto simp: occurs_iff)
qed

lemma final_answer_cases:
  assumes "final_answer A decide replies p X = Inr (kind, answer, claims)"
  obtains (silent) "claims = []" "kind \<notin> {Answered, QualifiedHistoryOnly}"
    | (history) xs t ys where "kind = QualifiedHistoryOnly" "answer = xs @ t @ ys" "claims = history_claims (ex_bundles X) t"
    | (answered) k where "kind = Answered" "answer_with_claims_detailed A replies p (ex_bundles X) = Inr (answer, claims, k)"
proof -
  obtain current past conflict where d: "decision_evidence A p X = (current, past, conflict)" by (metis surj_pair)
  show thesis
  proof (cases "if conflict then ConflictAnswer else decide current past")
    case Answered
    with assms d show thesis using answered by (auto simp: final_answer_def Let_def bind_ev_Inr)
  next
    case QualifiedHistoryOnly
    from assms [unfolded final_answer_def d prod.case Let_def QualifiedHistoryOnly answer_type.case sum.inject prod.inject]
    show thesis by (elim conjE) (rule history, erule sym, erule sym, erule sym)
  qed (use assms d silent in \<open>simp_all add: final_answer_def Let_def\<close>)
qed

text \<open>
  C26: what the question agent asserts is backed by the evidence it found, whatever the language model
  replies and however the answer is classified. A unit whose evidence is in conflict turns the whole
  answer into the conflict notice; the notices assert nothing. Otherwise the wording of every claim, up
  to case and punctuation, is part of the answer shown, and the memories, versions and notes it names
  are those of evidence of one unit, which has selected evidence when the question was answered.
\<close>

theorem answers_are_backed:
  assumes "final_answer A decide replies p X = Inr (kind, answer, claims)" and "casefold_append A"
  shows "((\<exists>u \<in> set (plan_units p). \<exists>b. bundle_of (ex_bundles X) (unit_id u) = Some b \<and>
      ur_status (bd_resolution b) = Conflict) \<longrightarrow> kind = ConflictAnswer) \<and>
    (kind \<notin> {Answered, QualifiedHistoryOnly} \<longrightarrow> claims = []) \<and>
    (\<forall>c \<in> set claims. occurs (claim_identity A (cl_text c)) (claim_identity A answer) \<and>
      (\<exists>b \<in> set (ex_bundles X). backed_by (set (bd_evidence b)) c \<and> (kind = Answered \<longrightarrow> answerable b)))"
proof -
  have conflict: "kind = ConflictAnswer" if c: "u \<in> set (plan_units p)" "bundle_of (ex_bundles X) (unit_id u) = Some b"
      "ur_status (bd_resolution b) = Conflict" for u b
  proof -
    obtain v where "(unit_id u, v) \<in> set (units_by_id p)" using units_by_id_mem [OF c(1)] by (auto simp: units_by_id_def)
    from conflict_found [OF this c(2,3)] have "snd (snd (decision_evidence A p X))" by (simp add: decision_evidence_def)
    with assms(1) show ?thesis by (auto simp: final_answer_def Let_def split: prod.splits)
  qed
  have "(kind \<notin> {Answered, QualifiedHistoryOnly} \<longrightarrow> claims = []) \<and>
    (\<forall>c \<in> set claims. occurs (claim_identity A (cl_text c)) (claim_identity A answer) \<and>
      (\<exists>b \<in> set (ex_bundles X). backed_by (set (bd_evidence b)) c \<and> (kind = Answered \<longrightarrow> answerable b)))"
    using assms(1)
  proof (cases rule: final_answer_cases)
    case (history xs t ys)
    then show ?thesis using history_claims_backed identity_infix [OF assms(2)] by fastforce
  next
    case (answered k)
    then show ?thesis using claims_grounded [OF answered(2) assms(2)] by blast
  qed simp
  with conflict show ?thesis by blast
qed

definition demo_execution :: "evidence_bundle list \<Rightarrow> execution" where
  "demo_execution bs = no_execution\<lparr>ex_bundles := bs\<rparr>"

lemma answers_are_backed_witness:
  "(case final_answer demo_exec (\<lambda>_ _. Answered) (Inl ''TimeoutError'', Inr (demo_reply (PyList [PyText (ascii ''e1'')])))
       (demo_answer []) (demo_execution demo_bundles) of
      Inl e \<Rightarrow> False
    | Inr (kind, answer, claims) \<Rightarrow> kind = Answered \<and> map cl_text claims = [ascii ''two  cats''] \<and>
        (\<forall>c \<in> set claims. occurs (claim_identity demo_exec (cl_text c)) (claim_identity demo_exec answer)))"
proof -
  have e: "case final_answer demo_exec (\<lambda>_ _. Answered) (Inl ''TimeoutError'', Inr (demo_reply (PyList [PyText (ascii ''e1'')])))
       (demo_answer []) (demo_execution demo_bundles) of
      Inl e \<Rightarrow> False
    | Inr (kind, answer, claims) \<Rightarrow> kind = Answered \<and> map cl_text claims = [ascii ''two  cats'']" by code_simp
  have "casefold_append demo_exec"
    by (simp add: casefold_append_def demo_exec_def demo_env_def demo_ask_def ask_env.defs answer_env.defs exec_env.defs)
  then show ?thesis
    using e answers_are_backed [of demo_exec "\<lambda>_ _. Answered" "(Inl ''TimeoutError'', Inr (demo_reply (PyList [PyText (ascii ''e1'')])))"
      "demo_answer []" "demo_execution demo_bundles"]
    by (auto split: sum.splits prod.splits)
qed

subsection \<open>Limits that do not hold\<close>

text \<open>The limit on the notes to expand ends the loop over one bundle, not the loop over the bundles.\<close>

lemma hydrate_limit_exceeded:
  "length (hydrate_ids 1 ((demo_answer [])\<lparr>plan_units := map (\<lambda>u. u\<lparr>need_source_evidence := True\<rparr>) (plan_units (demo_answer []))\<rparr>)
     demo_bundles) = 2"
  by code_simp

text \<open>Two units with one identifier: the one that waits is lost without a bundle.\<close>

definition demo_twins :: ask_plan where
  "demo_twins = demo_chain\<lparr>plan_units := [demo_unit ''a'' ''my job'' [], demo_unit ''a'' ''my town'' [''b''], demo_unit ''b'' ''my cat'' []]\<rparr>"

lemma twin_unit_lost:
  "(case execute_ask_plan demo_exec (\<lambda>_. ToolReturned ''search'' []) (\<lambda>_. \<lparr>rd_arrived = [0, 1], rd_late = []\<rparr>) demo_twins of
      Inl e \<Rightarrow> False | Inr X \<Rightarrow> length (plan_units demo_twins) = 3 \<and> length (ex_bundles X) = 2)"
  by code_simp

end
