(* ===== verification/Spec2Isabelle.thy ===== *)
theory Spec2Isabelle
  imports Lease_Guarantees Receiver_Guarantees Local_Guarantees Executor_Guarantees Runner_Guarantees
    Memory_Guarantees Console_Guarantees Ask_Guarantees Workflow_Guarantees
    Key_Guarantees Execution_Guarantees
begin

text \<open>
  Verification of suixinji, a memory assistant for chat spaces: it receives messages, keeps them as
  notes, distils memories from them and answers questions about them.

  \<^bold>\<open>The program.\<close> The distributed installation is a pipeline over PostgreSQL and Redis. The receiver
  (\<open>apps/receiver.py\<close>) stores every message once, as an inbox row with its number in the space, its
  task and the outbox event that asks for the task to be run (\<open>repositories/postgres/dispatch.py\<close>). The
  relay moves outbox events to Redis streams (\<open>outbox.py\<close>). Stream workers (\<open>runtime/streams/worker.py\<close>)
  claim tasks under a lease (\<open>tasks.py\<close>), run a handler (\<open>apps/handlers.py\<close>) and settle the task: completed,
  retried, deferred or dead-lettered. Closing a stage of a message advances the watermarks of its space,
  which activates the tasks that wait for them. Outgoing messages go through the delivery ledger.
  Locks, limits and idempotency marks live in Redis. The local installation replaces the pipeline by a
  write-ahead log, an index of notes and a bounded executor. Memories are kept in a store of their own
  (\<open>memory/repository.py\<close>) with versions, sources, relations, decisions, candidates and consolidation runs;
  what needs the user's attention is a case with its notification (\<open>memory/workflow.py\<close>). Questions are
  split into a plan (\<open>agent/ask_planner.py\<close>), its units are looked up by threads, facts are read off the
  evidence, and the answer of a language model is accepted only with citations (\<open>agent/ask_workflow.py\<close>).
  Requests to language models fail over between API keys (\<open>core/llm_key_pool.py\<close>). The web console has accounts and
  sessions of its own (\<open>apps/console_auth.py\<close>).

  \<^bold>\<open>Theories and sources.\<close>
  \<^item> \<open>Prelude\<close>: errors as values, association lists, tables as lists of rows, the locale
    \<open>keyed_table\<close>; \<open>Tables\<close>: the rows of \<open>infrastructure/schema.py\<close>, the database record \<open>db\<close> and
    \<open>repositories/postgres/common.py\<close>.
  \<^item> \<open>Dispatch\<close>, \<open>Tasks\<close>, \<open>Outbox\<close>, \<open>Inbox_Repo\<close>: the repositories of the same names, one definition per
    function; \<open>Watermarks\<close>, \<open>Dispatch_Lemmas\<close>, \<open>Ordering\<close>, \<open>Ordering_Ops\<close>, \<open>Leases\<close>, \<open>Requests\<close>: their
    invariants (what an operation keeps of the numbering, the watermarks, the leases and the outbox);
    \<open>Pipeline\<close> and \<open>Queue_System\<close>: the locales \<open>table_invariant\<close> and \<open>uncovered_invariant\<close> and the reachable
    states; \<open>Scenario\<close>: a run that the witnesses use; \<open>Guarantees\<close>, \<open>Lease_Guarantees\<close>: C1 to C3 and C5 to C10.
  \<^item> \<open>Handlers\<close>, \<open>Stream_Worker\<close>, \<open>Worker_Guarantees\<close> (C11, C12): handlers and workers.
  \<^item> \<open>Delivery\<close>, \<open>Delivery_Store\<close>, \<open>Delivery_Attempts\<close>, \<open>Delivery_Guarantees\<close> (C15, C16, C18 to
    C20): the ledger. The
    locale \<open>delivery_store\<close> states the contract; it is interpreted for the PostgreSQL rows
    (\<open>repositories/postgres/delivery.py\<close>) and for the JSON file (\<open>runtime/delivery_store.py\<close>).
  \<^item> \<open>Redis\<close>, \<open>Redis_Keys\<close>, \<open>Coordination\<close>, \<open>Coordination_Guarantees\<close> (C22, C23), \<open>Receiver\<close>,
    \<open>Receiver_Guarantees\<close> (C25, C27): \<open>infrastructure/redis_*.py\<close>, \<open>apps/receiver.py\<close>.
  \<^item> \<open>Wal\<close>, \<open>Notes\<close>, \<open>Local_Worker\<close>, \<open>Local_Notes\<close>, \<open>Local_Guarantees\<close> (C28 to C30): the local log, notes and
    worker; \<open>Local_Tasks\<close>, \<open>Executor\<close>, \<open>Executor_Invariant\<close>, \<open>Executor_Guarantees\<close> (C31, C32),
    \<open>Local_Runner\<close>, \<open>Runner_Guarantees\<close>: registry, executor and task bodies of \<open>runtime/\<close>.
  \<^item> \<open>Memory_Model\<close>, \<open>Memory_Store\<close>, \<open>Memory_Decisions\<close>, \<open>Memory_Progress\<close>, \<open>Memory_Review\<close>: the SQLite memory
    store (\<open>memory/repository.py\<close>, \<open>memory/models.py\<close>, \<open>memory/field_contracts.py\<close>, \<open>memory/task_state.py\<close>);
    \<open>Memory_Invariant\<close>, \<open>Memory_Preservation\<close>, \<open>Memory_Transactions\<close>, \<open>Memory_Histories\<close>, \<open>Memory_Frame\<close> (locale
    \<open>side_table\<close>): what its operations keep; \<open>Memory_Guarantees\<close> (C36 to C40).
  \<^item> \<open>Memory_Workflow\<close>: cases, notifications, quality cases, digests and the guard of the handlers
    (\<open>memory/workflow.py\<close>, \<open>memory/workflow_state.py\<close>, \<open>memory/runtime_workflow.py\<close>); \<open>Workflow_Notices\<close>: the
    names of notifications never meet, and what every operation keeps; \<open>Workflow_Guarantees\<close> (C17, C21).
  \<^item> \<open>Console_Accounts\<close>: accounts and sessions (\<open>repositories/postgres/console_auth.py\<close>) and the endpoints
    (\<open>apps/console_auth.py\<close>); \<open>Console_Sessions\<close>: the abstract view of the cookies; \<open>Console_Guarantees\<close>
    (C4, C34; locale \<open>redis_counters\<close>, interpreted on the Redis store of \<open>Redis\<close>).
  \<^item> \<open>Ask_Plan\<close>: models, validator and planner (\<open>agent/ask_models.py\<close>, \<open>agent/ask_plan_validator.py\<close>,
    \<open>agent/ask_planner.py\<close>); \<open>Ask_Cycles\<close>: the depth-first search; \<open>Ask_Guarantees\<close> (C13, C35).
  \<^item> \<open>Ask_Evidence\<close>: evidence models and facts (\<open>agent/fact_resolver.py\<close>); \<open>Ask_Answer\<close>: the answer contract
    and its claims (\<open>agent/ask_workflow.py\<close>); \<open>Answer_Guarantees\<close> (C14); \<open>Ask_Execution\<close>: execution of a plan,
    repair of missing evidence (\<open>agent/ask_executor.py\<close>) and the final answer; \<open>Execution_Guarantees\<close> (C26,
    C33).
  \<^item> \<open>LLM_Keys\<close>: pools of API keys (\<open>core/llm_key_pool.py\<close>) and the requests that use them
    (\<open>core/llm_client.py\<close>); \<open>Key_Guarantees\<close> (C24).

  \<^bold>\<open>State and operations.\<close> A table is a list of records with the columns of the source, in insertion order;
  an operation is a function from the state and its arguments to \<open>error + (result, new state)\<close>, so a raised
  exception carries no state: the rollback of the session. Clock readings, generated ids, hashes and
  regular expressions are arguments or fields of an environment record (\<open>env\<close>, \<open>memory_env\<close>,
  \<open>services\<close>, \<open>local_services\<close>, \<open>flow_env\<close>, \<open>console_env\<close>, \<open>ask_env\<close>, \<open>answer_env\<close>, \<open>exec_env\<close>). Times are microseconds on one clock in the pipeline and text in the memory
  store, as in the columns. SQL statements are translated clause by clause.

  \<^bold>\<open>What is assumed, and where.\<close> Transactions are serial: the interleavings considered are those of whole
  transactions, Lua scripts and file updates under their lock. C10 needs that MD5 does not collide on the
  request keys in use (\<open>md5_ok\<close>). The Redis server obeys the documented laws of the commands
  (\<open>redis_service\<close>, interpreted on a store of our own). C40 needs that the clock's text is read back by
  the parser (\<open>clock_reads\<close>), C21 that digests have 32 characters without a colon (\<open>stable_ok\<close>), C4 that SHA-256
  does not collide on the cookies in use, C13 and C35 that iterating over a Python set meets exactly its
  elements, C35 that case folding empties no text and that pydantic enforces the limits of the models, C26 that case
  folding works character by character, C24 that the clock does not run backwards. Writes to a
  locked SQLite file fail and are repeated \<open>write_attempts\<close> times; which tries fail is an argument.

  \<^bold>\<open>Bounds.\<close> The waiting loop of the lock takes the clock readings of its turns as a list, and \<open>lock_wait_ends\<close> shows that
  it ends at the first one past the deadline; the requests of a completion are run over a list of
  calls, and C24 says how many suffice; no other definition has fuel: loops over rows are recursion over lists
  and the remaining recursions have termination proofs.

  \<^bold>\<open>Not modelled.\<close> The requests to language models themselves, embeddings and the retrieval and ranking of
  evidence (network calls and similarity scores); extraction and adjudication of memories (regular expressions over Chinese text and model
  answers: the store is verified for any decision they may take); the PostgreSQL memory repository;
  the older agent of \<open>agent/query_agent.py\<close>, the choice of evidence spans and the expansion of notes beyond the choice
  of their identifiers; the export of quality cases; the console pages,
  rendering, HTTP and chat platform glue; evaluation, scripts, migrations and tracing. Threads are the
  interleavings of the steps named above; logging has no effect on the state.
\<close>

end
